(* ===== verification/Py_Prelude.thy ===== *)
theory Py_Prelude
  imports Complex_Main "HOL-Library.AList" "HOL-Library.Sublist"
begin

text \<open>
  The part of Python that the modelled scripts use, and the interfaces the components
  share.

  \<^item> Exceptions are values of \<open>py_error\<close>; a computation that may raise has type
    \<open>'a result\<close>, a sum with the exception on the left, composed by \<open>rbind\<close>.
  \<^item> A \<open>dict\<close> is an association list in insertion order without duplicate keys;
    assignment is \<^const>\<open>AList.update\<close>, reading is \<^const>\<open>map_of\<close>.
  \<^item> Strings are \<open>string\<close>; the operations below are the ones the sources call
    (\<open>split\<close>, \<open>strip\<close>, \<open>startswith\<close>, \<open>in\<close>, \<open>str\<close> of an integer, slices and the
    \<open>os.path\<close> functions).
  \<^item> Three locales state the contracts several components rely on: \<open>dict_store\<close> (a
    dictionary under assignment), \<open>tally_loop\<close> (a loop that sorts items into
    counters) and \<open>guarded_machine\<close> (a step relation with an inductive invariant).
\<close>

section \<open>Exceptions and results\<close>

datatype py_error =
    KeyError string
  | IndexError
  | TypeError
  | ValueError
  | AttributeError
  | NameError string
  | AssertionError
  | ZeroDivisionError
  | PyException string
  | SystemExit int

type_synonym 'a result = "py_error + 'a"

named_theorems result_simps \<open>unfolding the result operations\<close>
named_theorems dict_simps \<open>lookups and keys of dictionaries after an assignment\<close>

definition rbind :: "'a result \<Rightarrow> ('a \<Rightarrow> 'b result) \<Rightarrow> 'b result" where
  "rbind m f = (case m of Inl e \<Rightarrow> Inl e | Inr x \<Rightarrow> f x)"

lemma rbind_simps [simp, result_simps]:
  "rbind (Inl e) f = Inl e"
  "rbind (Inr x) f = f x"
  by (simp_all add: rbind_def)

lemma rbind_eq_Inr [result_simps]:
  "rbind m f = Inr y \<longleftrightarrow> (\<exists>x. m = Inr x \<and> f x = Inr y)"
  by (cases m) simp_all

lemma rbind_eq_Inl [result_simps]:
  "rbind m f = Inl e \<longleftrightarrow> m = Inl e \<or> (\<exists>x. m = Inr x \<and> f x = Inl e)"
  by (cases m) simp_all

fun mapM :: "('a \<Rightarrow> 'b result) \<Rightarrow> 'a list \<Rightarrow> 'b list result" where
  "mapM f [] = Inr []"
| "mapM f (x # xs) = rbind (f x) (\<lambda>y. rbind (mapM f xs) (\<lambda>ys. Inr (y # ys)))"

lemma mapM_eq_Inr:
  "mapM f xs = Inr ys \<longleftrightarrow> list_all2 (\<lambda>x y. f x = Inr y) xs ys"
  by (induction xs arbitrary: ys) (auto simp: rbind_eq_Inr list_all2_Cons1)

lemma mapM_in:
  "mapM f xs = Inr ys \<Longrightarrow> y \<in> set ys \<Longrightarrow> \<exists>x\<in>set xs. f x = Inr y"
  by (induction xs arbitrary: ys) (auto simp: rbind_eq_Inr)

lemma mapM_length: "mapM f xs = Inr ys \<Longrightarrow> length ys = length xs"
  by (induction xs arbitrary: ys) (auto simp: rbind_eq_Inr)

lemma mapM_pure [simp]: "(\<And>x. x \<in> set xs \<Longrightarrow> f x = Inr (g x)) \<Longrightarrow> mapM f xs = Inr (map g xs)"
  by (induction xs) auto

section \<open>Dictionaries in insertion order\<close>

type_synonym ('k, 'v) dict = "('k \<times> 'v) list"

abbreviation dict_keys :: "('k, 'v) dict \<Rightarrow> 'k list" where
  "dict_keys d \<equiv> map fst d"

abbreviation dict_values :: "('k, 'v) dict \<Rightarrow> 'v list" where
  "dict_values d \<equiv> map snd d"

abbreviation dict_wf :: "('k, 'v) dict \<Rightarrow> bool" where
  "dict_wf d \<equiv> distinct (map fst d)"

text \<open>\<open>d.get(k, v)\<close>\<close>

definition dict_get :: "('k, 'v) dict \<Rightarrow> 'k \<Rightarrow> 'v \<Rightarrow> 'v" where
  "dict_get d k v = (case map_of d k of None \<Rightarrow> v | Some w \<Rightarrow> w)"

text \<open>
  \<open>d.setdefault(k, v)\<close> followed by an in-place change of \<open>d[k]\<close>; also \<open>d[k] += n\<close> on a
  \<open>Counter\<close> and \<open>d[k].append(x)\<close> on a \<open>defaultdict(list)\<close>.
\<close>

definition dict_modify :: "'k \<Rightarrow> 'v \<Rightarrow> ('v \<Rightarrow> 'v) \<Rightarrow> ('k, 'v) dict \<Rightarrow> ('k, 'v) dict" where
  "dict_modify k v f d = AList.update k (f (dict_get d k v)) d"

text \<open>\<open>if k not in d: d[k] = v\<close>\<close>

definition dict_put_new :: "'k \<Rightarrow> 'v \<Rightarrow> ('k, 'v) dict \<Rightarrow> ('k, 'v) dict" where
  "dict_put_new k v d = (if k \<in> set (dict_keys d) then d else AList.update k v d)"

text \<open>\<open>d.update(d')\<close>\<close>

definition dict_update :: "('k, 'v) dict \<Rightarrow> ('k, 'v) dict \<Rightarrow> ('k, 'v) dict" where
  "dict_update d d' = foldl (\<lambda>acc (k, v). AList.update k v acc) d d'"

lemma dict_keys_update [dict_simps]:
  "dict_keys (AList.update k v d) = (if k \<in> set (dict_keys d) then dict_keys d else dict_keys d @ [k])"
  by (induction d) auto

lemma map_of_None_iff: "map_of d k = None \<longleftrightarrow> k \<notin> set (dict_keys d)"
  by (force simp: map_of_eq_None_iff)

lemma dict_get_empty [simp]: "dict_get [] k v = v"
  by (simp add: dict_get_def)

lemma dict_get_update [dict_simps]:
  "dict_get (AList.update k v d) k' w = (if k' = k then v else dict_get d k' w)"
  by (simp add: dict_get_def update_conv')

lemma dict_modify_lookup [dict_simps]:
  "map_of (dict_modify k v f d) k' = (if k' = k then Some (f (dict_get d k v)) else map_of d k')"
  by (simp add: dict_modify_def update_conv')

lemma dict_modify_get [dict_simps]:
  "dict_get (dict_modify k v f d) k' w = (if k' = k then f (dict_get d k v) else dict_get d k' w)"
  by (simp add: dict_modify_def dict_get_update)

lemma dict_modify_wf [dict_simps]: "dict_wf d \<Longrightarrow> dict_wf (dict_modify k v f d)"
  by (simp add: dict_modify_def distinct_update)

lemma dict_modify_keys [dict_simps]:
  "dict_keys (dict_modify k v f d) = (if k \<in> set (dict_keys d) then dict_keys d else dict_keys d @ [k])"
  by (simp add: dict_modify_def dict_keys_update)

text \<open>\<open>d[k] += 1\<close> on a \<open>Counter\<close>\<close>

type_synonym tally = "(string, nat) dict"

definition bump :: "string \<Rightarrow> tally \<Rightarrow> tally" where
  "bump k d = dict_modify k 0 Suc d"

lemma bump_get: "dict_get (bump k d) j 0 = dict_get d j 0 + (if j = k then 1 else 0)"
  by (simp add: bump_def dict_simps)

lemma bump_keys: "set (dict_keys (bump k d)) = insert k (set (dict_keys d))"
  by (auto simp: bump_def dict_modify_keys)

subsection \<open>The dictionary contract\<close>

text \<open>
  What the client loops rely on: a read after an assignment, the key order, and that the
  keys stay distinct. The loops that only assign missing keys, or that overwrite, are
  characterised here once.
\<close>

locale dict_store =
  fixes lookup :: "'d \<Rightarrow> 'k \<Rightarrow> 'v option"
    and assign :: "'k \<Rightarrow> 'v \<Rightarrow> 'd \<Rightarrow> 'd"
    and keys :: "'d \<Rightarrow> 'k list"
    and wfd :: "'d \<Rightarrow> bool"
  assumes lookup_assign: "lookup (assign k v d) = (lookup d)(k \<mapsto> v)"
    and keys_assign: "keys (assign k v d) = (if k \<in> set (keys d) then keys d else keys d @ [k])"
    and keys_lookup: "k \<in> set (keys d) \<longleftrightarrow> lookup d k \<noteq> None"
    and wfd_assign: "wfd d \<Longrightarrow> wfd (assign k v d)"
begin

lemma overwrite_loop:
  "lookup (foldl (\<lambda>acc (k, v). assign k v acc) d kvs) k =
     (case map_of (rev kvs) k of None \<Rightarrow> lookup d k | Some v \<Rightarrow> Some v)"
proof (induction kvs arbitrary: d)
  case Nil
  show ?case by simp
next
  case (Cons kv kvs)
  then show ?case
    by (cases kv) (auto simp: lookup_assign map_add_def split: option.splits)
qed

lemma first_wins_loop:
  "lookup (foldl (\<lambda>acc (k, v). if k \<in> set (keys acc) then acc else assign k v acc) d kvs) k =
     (case lookup d k of None \<Rightarrow> map_of kvs k | Some v \<Rightarrow> Some v)"
proof (induction kvs arbitrary: d)
  case Nil
  show ?case by (simp split: option.split)
next
  case (Cons kv kvs)
  obtain k' v' where kv: "kv = (k', v')" by (cases kv)
  show ?case
    unfolding kv using Cons.IH
    by (auto simp: lookup_assign keys_lookup split: option.splits)
qed

lemma wfd_loop: "wfd d \<Longrightarrow> wfd (foldl (\<lambda>acc (k, v). assign k v acc) d kvs)"
  by (induction kvs arbitrary: d) (auto intro: wfd_assign)

end

interpretation pydict: dict_store "map_of :: ('k \<times> 'v) list \<Rightarrow> 'k \<Rightarrow> 'v option"
    AList.update "\<lambda>d. dict_keys d" "\<lambda>d. dict_wf d"
proof unfold_locales
  fix k and v and d :: "('k \<times> 'v) list"
  show "map_of (AList.update k v d) = (map_of d)(k \<mapsto> v)" by (rule update_conv')
  show "dict_keys (AList.update k v d) =
      (if k \<in> set (dict_keys d) then dict_keys d else dict_keys d @ [k])"
    by (rule dict_keys_update)
  show "k \<in> set (dict_keys d) \<longleftrightarrow> map_of d k \<noteq> None" by (auto simp: map_of_None_iff)
  show "dict_wf (AList.update k v d)" if "dict_wf d" using that by (rule distinct_update)
qed

section \<open>Counting loops\<close>

text \<open>
  A loop that looks at each item, decides which counter it belongs to, and adds one to that
  counter. Whatever the counters are (fields of a record, list lengths, entries of a
  \<open>Counter\<close>), each ends up with the number of its items, and together they account for
  every item exactly once.
\<close>

locale tally_loop =
  fixes classify :: "'a \<Rightarrow> 'b"
    and step :: "'s \<Rightarrow> 'a \<Rightarrow> 's"
    and tally :: "'s \<Rightarrow> 'b \<Rightarrow> nat"
  assumes tally_step: "tally (step s x) b = tally s b + (if classify x = b then 1 else 0)"
begin

lemma tally_foldl:
  "tally (foldl step s xs) b = tally s b + length (filter (\<lambda>x. classify x = b) xs)"
  by (induction xs arbitrary: s) (auto simp: tally_step)

lemma tally_total:
  assumes "finite B" and "\<And>x. x \<in> set xs \<Longrightarrow> classify x \<in> B"
  shows "(\<Sum>b\<in>B. tally (foldl step s xs) b) = (\<Sum>b\<in>B. tally s b) + length xs"
  using assms(2)
proof (induction xs arbitrary: s)
  case Nil
  show ?case by simp
next
  case (Cons x xs)
  have "(\<Sum>b\<in>B. tally (step s x) b) = (\<Sum>b\<in>B. tally s b) + 1"
    using assms(1) Cons.prems [of x] by (simp add: tally_step sum.distrib)
  with Cons show ?case by simp
qed

end

section \<open>Machines with an invariant\<close>

locale guarded_machine =
  fixes step :: "'s \<Rightarrow> 's \<Rightarrow> bool"
    and init :: "'s \<Rightarrow> bool"
    and inv :: "'s \<Rightarrow> bool"
  assumes inv_init: "init s \<Longrightarrow> inv s"
    and inv_step: "step s t \<Longrightarrow> inv s \<Longrightarrow> inv t"
begin

lemma inv_steps: "step\<^sup>*\<^sup>* s t \<Longrightarrow> inv s \<Longrightarrow> inv t"
  by (induction rule: rtranclp_induct) (auto intro: inv_step)

lemma inv_reachable: "init s \<Longrightarrow> step\<^sup>*\<^sup>* s t \<Longrightarrow> inv t"
  using inv_init inv_steps by blast

end

end
