(* ===== verification/Py_Strings.thy ===== *)
theory Py_Strings
  imports Py_Prelude
begin

text \<open>
  Python's string and sequence operations as the scripts use them: prefix, suffix and
  substring tests, \<open>split\<close>/\<open>join\<close> on one character, \<open>strip\<close>, decimal \<open>str\<close> of an
  integer, indexing and slicing with negative positions, and the \<open>os.path\<close> functions on
  POSIX paths. Characters are code points below 256.
\<close>

section \<open>Tests\<close>

definition startswith :: "string \<Rightarrow> string \<Rightarrow> bool" where
  "startswith s p = prefix p s"

definition endswith :: "string \<Rightarrow> string \<Rightarrow> bool" where
  "endswith s p = suffix p s"

text \<open>\<open>p in s\<close>\<close>

definition str_in :: "string \<Rightarrow> string \<Rightarrow> bool" where
  "str_in p s = sublist p s"

section \<open>Splitting and joining\<close>

fun split_on :: "char \<Rightarrow> string \<Rightarrow> string list" where
  "split_on c [] = [[]]"
| "split_on c (x # xs) =
     (if x = c then [] # split_on c xs
      else (case split_on c xs of [] \<Rightarrow> [[x]] | w # ws \<Rightarrow> (x # w) # ws))"

fun py_join :: "string \<Rightarrow> string list \<Rightarrow> string" where
  "py_join sep [] = []"
| "py_join sep [w] = w"
| "py_join sep (w # v # ws) = w @ sep @ py_join sep (v # ws)"

text \<open>\<open>s.replace(old, new)\<close> for a non-empty \<open>old\<close>, from left to right without overlaps.\<close>

fun py_replace :: "string \<Rightarrow> string \<Rightarrow> string \<Rightarrow> string" where
  "py_replace old new [] = []"
| "py_replace old new (c # s) =
     (if old \<noteq> [] \<and> prefix old (c # s) then new @ py_replace old new (drop (length old - 1) s)
      else c # py_replace old new s)"

lemma split_on_not_Nil [simp]: "split_on c s \<noteq> []"
  by (induction s) (auto split: list.splits)

lemma split_on_no_sep: "c \<notin> set s \<Longrightarrow> split_on c s = [s]"
  by (induction s) auto

lemma split_on_append_sep: "c \<notin> set s \<Longrightarrow> split_on c (s @ c # t) = s # split_on c t"
  by (induction s) auto

lemma split_on_parts: "w \<in> set (split_on c s) \<Longrightarrow> c \<notin> set w"
  by (induction s arbitrary: w) (auto split: if_splits list.splits)

lemma py_join_Cons: "ws \<noteq> [] \<Longrightarrow> py_join sep (w # ws) = w @ sep @ py_join sep ws"
  by (cases ws) auto

lemma py_join_push: "py_join sep ((x # w) # ws) = x # py_join sep (w # ws)"
  by (cases ws) auto

lemma join_split: "py_join [c] (split_on c s) = s"
proof (induction s)
  case Nil
  show ?case by simp
next
  case (Cons x s)
  show ?case
  proof (cases "x = c")
    case True
    with Cons show ?thesis by (simp add: py_join_Cons)
  next
    case False
    obtain w ws where "split_on c s = w # ws" by (cases "split_on c s") auto
    with False Cons show ?thesis by (simp add: py_join_push)
  qed
qed

lemma split_join:
  assumes "ws \<noteq> []" and "\<And>w. w \<in> set ws \<Longrightarrow> c \<notin> set w"
  shows "split_on c (py_join [c] ws) = ws"
  using assms
proof (induction ws)
  case Nil
  then show ?case by simp
next
  case (Cons w ws)
  show ?case
  proof (cases ws)
    case Nil
    with Cons.prems show ?thesis by (simp add: split_on_no_sep)
  next
    case (Cons v vs)
    with Cons.prems Cons.IH show ?thesis
      by (simp add: split_on_append_sep)
  qed
qed

section \<open>Whitespace\<close>

definition is_space :: "char \<Rightarrow> bool" where
  "is_space c = (let n = (of_char c :: nat)
     in 9 \<le> n \<and> n \<le> 13 \<or> 28 \<le> n \<and> n \<le> 32 \<or> n = 133 \<or> n = 160)"

definition py_rstrip :: "string \<Rightarrow> string" where
  "py_rstrip s = rev (dropWhile is_space (rev s))"

definition py_strip :: "string \<Rightarrow> string" where
  "py_strip s = py_rstrip (dropWhile is_space s)"

text \<open>\<open>s.rstrip(c)\<close> and \<open>s.strip(cs)\<close> with an explicit set of characters.\<close>

definition rstrip_chars :: "char list \<Rightarrow> string \<Rightarrow> string" where
  "rstrip_chars cs s = rev (dropWhile (\<lambda>c. c \<in> set cs) (rev s))"

definition strip_chars :: "char list \<Rightarrow> string \<Rightarrow> string" where
  "strip_chars cs s = rstrip_chars cs (dropWhile (\<lambda>c. c \<in> set cs) s)"

lemma py_rstrip_le: "length (py_rstrip s) \<le> length s"
  by (simp add: py_rstrip_def length_dropWhile_le [of is_space "rev s", simplified])

section \<open>Decimal integers\<close>

definition digit_char :: "nat \<Rightarrow> char" where
  "digit_char d = char_of (48 + d)"

definition digit_val :: "char \<Rightarrow> nat" where
  "digit_val c = of_char c - 48"

fun str_nat :: "nat \<Rightarrow> string" where
  "str_nat n = (if n < 10 then [digit_char n] else str_nat (n div 10) @ [digit_char (n mod 10)])"

declare str_nat.simps [simp del]

definition str_int :: "int \<Rightarrow> string" where
  "str_int i = (if i < 0 then CHR ''-'' # str_nat (nat (- i)) else str_nat (nat i))"

text \<open>The number a string of decimal digits denotes.\<close>

definition nat_of_digits :: "string \<Rightarrow> nat" where
  "nat_of_digits s = foldl (\<lambda>n c. 10 * n + digit_val c) 0 s"

lemma digit_val_char [simp]: "d < 10 \<Longrightarrow> digit_val (digit_char d) = d"
  by (simp add: digit_val_def digit_char_def of_char_of)

lemma nat_of_digits_snoc [simp]: "nat_of_digits (s @ [c]) = 10 * nat_of_digits s + digit_val c"
  by (simp add: nat_of_digits_def)

lemma nat_of_digits_Nil [simp]: "nat_of_digits [] = 0"
  by (simp add: nat_of_digits_def)

lemma nat_of_digits_single [simp]: "nat_of_digits [c] = digit_val c"
  by (simp add: nat_of_digits_def)

lemma nat_of_digits_str_nat [simp]: "nat_of_digits (str_nat n) = n"
proof (induction n rule: str_nat.induct)
  case (1 n)
  then show ?case by (cases "n < 10") (simp_all add: str_nat.simps [of n])
qed

lemma nat_of_digits_append:
  "nat_of_digits (s @ t) = nat_of_digits s * 10 ^ length t + nat_of_digits t"
  by (induction t rule: rev_induct) (auto simp: algebra_simps simp flip: append_assoc)

lemma nat_of_digits_zeros [simp]: "nat_of_digits (replicate k (CHR ''0'')) = 0"
  by (induction k) (simp_all add: replicate_append_same [symmetric] digit_val_def)

lemma str_nat_not_Nil [simp]: "str_nat n \<noteq> []"
  by (subst str_nat.simps) simp

lemma str_nat_inj: "str_nat m = str_nat n \<longleftrightarrow> m = n"
  by (metis nat_of_digits_str_nat)

lemma length_str_nat: "n < 10 ^ k \<longleftrightarrow> length (str_nat n) \<le> k" if "0 < k"
  using that
proof (induction n arbitrary: k rule: str_nat.induct)
  case (1 n)
  show ?case
  proof (cases "n < 10")
    case True
    have "(10::nat) ^ 1 \<le> 10 ^ k" using "1.prems" by (intro power_increasing) auto
    with True "1.prems" show ?thesis by (simp add: str_nat.simps [of n])
  next
    case False
    show ?thesis
    proof (cases "k = 1")
      case True
      with False show ?thesis by (simp add: str_nat.simps [of n])
    next
      case k: False
      then obtain j where j: "k = Suc j" "0 < j" using "1.prems" by (cases k) auto
      have "n < 10 ^ k \<longleftrightarrow> n div 10 < 10 ^ j"
        by (simp add: j(1) less_mult_imp_div_less div_less_iff_less_mult mult.commute)
      with "1.IH" [OF False j(2)] False j(1) show ?thesis by (simp add: str_nat.simps [of n])
    qed
  qed
qed

section \<open>Indexing and slicing\<close>

definition clip_pos :: "int \<Rightarrow> int \<Rightarrow> int" where
  "clip_pos n i = (if i < 0 then max 0 (n + i) else min i n)"

text \<open>\<open>xs[i:j]\<close>\<close>

definition py_slice :: "'a list \<Rightarrow> int \<Rightarrow> int \<Rightarrow> 'a list" where
  "py_slice xs i j =
     (let n = int (length xs); a = clip_pos n i; b = clip_pos n j
      in take (nat (b - a)) (drop (nat a) xs))"

text \<open>\<open>xs[i]\<close>\<close>

definition py_get :: "'a list \<Rightarrow> int \<Rightarrow> 'a result" where
  "py_get elems pos =
     (if 0 \<le> pos \<and> nat pos < length elems then Inr (elems ! nat pos)
      else if pos < 0 \<and> nat (- pos) \<le> length elems
        then Inr (elems ! (length elems - nat (- pos)))
      else Inl IndexError)"

lemma py_slice_0_nonneg: "0 \<le> j \<Longrightarrow> py_slice xs 0 j = take (nat j) xs"
  by (auto simp: py_slice_def clip_pos_def Let_def min_def)

lemma py_slice_0_neg: "j < 0 \<Longrightarrow> py_slice xs 0 j = take (length xs - nat (- j)) xs"
  by (auto simp: py_slice_def clip_pos_def Let_def max_def intro!: arg_cong2 [of _ _ _ _ take])

lemma py_get_ok: "i < length xs \<Longrightarrow> py_get xs (int i) = Inr (xs ! i)"
  by (simp add: py_get_def)

lemma py_get_beyond: "length xs \<le> i \<Longrightarrow> py_get xs (int i) = Inl IndexError"
  by (simp add: py_get_def)

lemma py_get_last: "xs \<noteq> [] \<Longrightarrow> py_get xs (- 1) = Inr (last xs)"
  by (auto simp: py_get_def last_conv_nth Suc_leI)

section \<open>POSIX paths\<close>

definition basename :: "string \<Rightarrow> string" where
  "basename p = rev (takeWhile (\<lambda>c. c \<noteq> CHR ''/'') (rev p))"

definition dirname :: "string \<Rightarrow> string" where
  "dirname p =
     (let h = rev (dropWhile (\<lambda>c. c \<noteq> CHR ''/'') (rev p))
      in if list_all (\<lambda>c. c = CHR ''/'') h then h else rstrip_chars ''/'' h)"

definition path_join :: "string \<Rightarrow> string \<Rightarrow> string" where
  "path_join a b =
     (if startswith b ''/'' then b
      else if a = [] \<or> endswith a ''/'' then a @ b
      else a @ ''/'' @ b)"

lemma basename_join:
  assumes "CHR ''/'' \<notin> set b"
  shows "basename (path_join a b) = b"
proof -
  have tw: "takeWhile (\<lambda>c. c \<noteq> CHR ''/'') (rev b) = rev b"
    using assms by (auto simp: takeWhile_eq_all_conv)
  have *: "basename (x @ CHR ''/'' # b) = b" for x
    using assms by (subst basename_def, subst rev_append, subst rev.simps,
        subst append_assoc, subst takeWhile_append2) auto
  show ?thesis
  proof (cases "a = [] \<or> endswith a ''/''")
    case True
    then consider "a = []" | x where "a = x @ ''/''" by (auto simp: endswith_def suffix_def)
    then show ?thesis
    proof cases
      case 1
      with assms show ?thesis
        by (cases b) (auto simp: path_join_def startswith_def basename_def tw)
    next
      case (2 x)
      with assms show ?thesis
        using * [of x] by (cases b) (auto simp: path_join_def startswith_def endswith_def)
    qed
  next
    case False
    with assms show ?thesis
      using * [of a] by (cases b) (auto simp: path_join_def startswith_def)
  qed
qed

section \<open>Reading integers\<close>

text \<open>
  \<open>int(s)\<close> of a string: surrounding whitespace is dropped, a sign may precede the digits.
\<close>

definition is_digit :: "char \<Rightarrow> bool" where
  "is_digit c = (48 \<le> (of_char c :: nat) \<and> (of_char c :: nat) \<le> 57)"

definition py_int :: "string \<Rightarrow> int result" where
  "py_int s =
     (let t = py_strip s;
          neg = startswith t ''-'';
          d = (if neg \<or> startswith t ''+'' then tl t else t)
      in if d \<noteq> [] \<and> list_all is_digit d
         then Inr ((if neg then - 1 else 1) * int (nat_of_digits d))
         else Inl ValueError)"

lemma digit_char_props:
  assumes "d < 10"
  shows "is_digit (digit_char d)" "\<not> is_space (digit_char d)" "digit_char d \<noteq> CHR ''-''"
    "digit_char d \<noteq> CHR ''+''"
proof -
  have n: "of_char (digit_char d) = 48 + d" using assms by (simp add: digit_char_def of_char_of)
  show "is_digit (digit_char d)" using assms by (simp add: is_digit_def n)
  show "\<not> is_space (digit_char d)" using assms by (simp add: is_space_def n)
  have "c \<noteq> digit_char d" if "(of_char c :: nat) < 48" for c :: char
    using that n by auto
  from this [of "CHR ''-''"] this [of "CHR ''+''"]
  show "digit_char d \<noteq> CHR ''-''" "digit_char d \<noteq> CHR ''+''" by auto
qed

lemma str_nat_digits: "c \<in> set (str_nat n) \<Longrightarrow> \<exists>d<10. c = digit_char d"
proof (induction n rule: str_nat.induct)
  case (1 n)
  have "n mod 10 < 10" by simp
  with 1 show ?case
    by (cases "n < 10") (auto simp: str_nat.simps [of n] simp del: mod_less_divisor)
qed

lemma py_strip_id:
  assumes "\<And>c. c \<in> set s \<Longrightarrow> \<not> is_space c"
  shows "py_strip s = s"
proof -
  have dw: "dropWhile is_space t = t" if "\<And>c. c \<in> set t \<Longrightarrow> \<not> is_space c" for t
    using that by (cases t) auto
  show ?thesis using dw [of s] dw [of "rev s"] assms by (simp add: py_strip_def py_rstrip_def)
qed

lemma py_int_str_nat [simp]: "py_int (str_nat n) = Inr (int n)"
proof -
  have dig: "is_digit c \<and> \<not> is_space c \<and> c \<noteq> CHR ''-'' \<and> c \<noteq> CHR ''+''" if "c \<in> set (str_nat n)" for c
  proof -
    from str_nat_digits [OF that] obtain d where "d < 10" "c = digit_char d" by auto
    with digit_char_props [of d] show ?thesis by simp
  qed
  have strip: "py_strip (str_nat n) = str_nat n" using dig by (intro py_strip_id) blast
  obtain c cs where s: "str_nat n = c # cs" by (cases "str_nat n") auto
  have "\<not> startswith (str_nat n) ''-''" "\<not> startswith (str_nat n) ''+''"
    using dig [of c] s by (auto simp: startswith_def)
  with strip dig show ?thesis
    by (simp add: py_int_def Let_def list_all_iff)
qed

end
