(* ===== verification/BestTipTrie.thy ===== *)
theory BestTipTrie
  imports Py_Strings
begin

text \<open>
  The block trie of \<open>automation/scripts/testnet-validation/best_tip_trie.py\<close>, which
  \<open>compare_best_tip.py\<close> and \<open>rebroadcasted_blocks_vis.py\<close> fill from the best chains of
  the nodes and from the parent links of the logged blocks.

  The Python objects alias: a \<open>Block\<close> is reached from its parent's \<open>children\<close> and from
  the index \<open>blocks\<close> of the trie. The model keeps them in an explicit store: a
  \<open>trie\<close> holds the list of all \<open>Block\<close> objects, an object is named by its position in
  that list, and allocation appends.
\<close>

section \<open>Data\<close>

type_synonym addr = nat

record block =
  block_hash :: "string option"
  labels :: "string option list"
  block_value :: "string list"
  metadata :: "(string, string) dict"
  children :: "(string, addr) dict"

record trie =
  heap :: "block list"
  root :: addr
  blocks :: "(string, addr) dict"

definition new_block :: "string option \<Rightarrow> block" where
  "new_block h = \<lparr>block_hash = h, labels = [], block_value = [], metadata = [], children = []\<rparr>"

definition empty_trie :: trie where
  "empty_trie = \<lparr>heap = [new_block None], root = 0, blocks = []\<rparr>"

section \<open>Operations of a block\<close>

definition kids :: "trie \<Rightarrow> addr \<Rightarrow> (string, addr) dict" where
  "kids t a = children (heap t ! a)"

definition getChild :: "trie \<Rightarrow> addr \<Rightarrow> string \<Rightarrow> addr result" where
  "getChild t a hashPart =
     (case map_of (kids t a) hashPart of None \<Rightarrow> Inl (KeyError hashPart) | Some b \<Rightarrow> Inr b)"

definition set_child :: "trie \<Rightarrow> addr \<Rightarrow> string \<Rightarrow> addr \<Rightarrow> trie" where
  "set_child t a k b =
     t\<lparr>heap := (heap t)[a := (heap t ! a)\<lparr>children := AList.update k b (kids t a)\<rparr>]\<rparr>"

definition del_child :: "trie \<Rightarrow> addr \<Rightarrow> string \<Rightarrow> trie" where
  "del_child t a k =
     t\<lparr>heap := (heap t)[a := (heap t ! a)\<lparr>children := AList.delete k (kids t a)\<rparr>]\<rparr>"

definition insertChild :: "trie \<Rightarrow> addr \<Rightarrow> string \<Rightarrow> addr \<times> trie" where
  "insertChild t a hashPart =
     (case map_of (kids t a) hashPart of
        Some b \<Rightarrow> (b, t)
      | None \<Rightarrow>
          (let b = length (heap t);
               t1 = t\<lparr>heap := heap t @ [new_block (Some hashPart)]\<rparr>
           in (b, set_child t1 a hashPart b)))"

text \<open>
  The generator \<open>nodes\<close> walks the tree in pre-order; \<open>None\<close> stands for a walk deeper than
  the fuel.
\<close>

fun nodes :: "nat \<Rightarrow> trie \<Rightarrow> string list \<Rightarrow> addr \<Rightarrow> (string list \<times> addr) list option" where
  "nodes 0 t key a = None"
| "nodes (Suc fuel) t key a =
     (case those (map (\<lambda>(hashPart, b). nodes fuel t (key @ [hashPart]) b) (kids t a)) of
        None \<Rightarrow> None
      | Some rest \<Rightarrow> Some ((key, a) # concat rest))"

definition block_items :: "trie \<Rightarrow> (string list \<times> addr) list option" where
  "block_items t = map_option (filter (\<lambda>(key, a). length (block_value (heap t ! a)) \<noteq> 0))
     (nodes (length (heap t)) t [] (root t))"

definition block_forks :: "trie \<Rightarrow> (string list \<times> addr) list option" where
  "block_forks t = map_option (filter (\<lambda>(key, a). length (kids t a) > 1))
     (nodes (length (heap t)) t [] (root t))"

section \<open>Operations of the trie\<close>

definition register :: "trie \<Rightarrow> string \<Rightarrow> addr \<Rightarrow> trie" where
  "register t h a = t\<lparr>blocks := AList.update h a (blocks t)\<rparr>"

definition append_value :: "trie \<Rightarrow> addr \<Rightarrow> string \<Rightarrow> trie" where
  "append_value t a v =
     t\<lparr>heap := (heap t)[a := (heap t ! a)\<lparr>block_value := block_value (heap t ! a) @ [v]\<rparr>]\<rparr>"

definition append_label :: "trie \<Rightarrow> addr \<Rightarrow> string option \<Rightarrow> trie" where
  "append_label t a l =
     t\<lparr>heap := (heap t)[a := (heap t ! a)\<lparr>labels := labels (heap t ! a) @ [l]\<rparr>]\<rparr>"

text \<open>\<open>if value: childNode.value.append(value)\<close>\<close>

definition note_value :: "trie \<Rightarrow> addr \<Rightarrow> string option \<Rightarrow> trie" where
  "note_value t a value =
     (case value of None \<Rightarrow> t | Some v \<Rightarrow> if v = [] then t else append_value t a v)"

fun insert_loop :: "trie \<Rightarrow> addr \<Rightarrow> string list \<Rightarrow> addr \<times> trie" where
  "insert_loop t node [] = (node, t)"
| "insert_loop t node (hashPart # chain) =
     (let node1 = (case map_of (blocks t) hashPart of Some b \<Rightarrow> b | None \<Rightarrow> node);
          (node2, t2) = insertChild t node1 hashPart
      in insert_loop (register t2 hashPart node2) node2 chain)"

definition insert_chain :: "trie \<Rightarrow> string list \<Rightarrow> string option \<Rightarrow> trie result" where
  "insert_chain t chain label =
     rbind (py_get chain (- 1)) (\<lambda>tip.
       let node = (case map_of (blocks t) tip of Some b \<Rightarrow> b | None \<Rightarrow> root t);
           (node', t') = insert_loop t node chain
       in Inr (append_label t' node' label))"

definition insertLink :: "trie \<Rightarrow> string \<Rightarrow> string \<Rightarrow> string option \<Rightarrow> trie result" where
  "insertLink t parent child value =
     (case map_of (blocks t) parent of
        Some p \<Rightarrow>
          (let (childNode, t1) = insertChild t p child;
               t2 = register t1 child childNode
           in Inr (note_value t2 childNode value))
      | None \<Rightarrow>
          if child \<in> set (dict_keys (blocks t)) then
            (case map_of (kids t (root t)) child of
               None \<Rightarrow> Inl (KeyError child)
             | Some childNode \<Rightarrow>
                 (let t1 = del_child t (root t) child;
                      (parentNode, t2) = insertChild t1 (root t1) parent;
                      t3 = register t2 parent parentNode;
                      t4 = (case block_hash (heap t3 ! childNode) of
                              Some h \<Rightarrow> set_child t3 parentNode h childNode
                            | None \<Rightarrow> t3)
                  in Inr (note_value t4 childNode value)))
          else insert_chain t [parent, child] value)"

fun walk :: "trie \<Rightarrow> addr \<Rightarrow> string list \<Rightarrow> addr result" where
  "walk t node [] = Inr node"
| "walk t node (hashPart # chain) = rbind (getChild t node hashPart) (\<lambda>b. walk t b chain)"

definition trie_get :: "trie \<Rightarrow> string list \<Rightarrow> string list result" where
  "trie_get t chain = rbind (walk t (root t) chain) (\<lambda>a. Inr (block_value (heap t ! a)))"

fun prefix_loop :: "nat \<Rightarrow> trie \<Rightarrow> addr \<Rightarrow> string list \<Rightarrow> string list option" where
  "prefix_loop 0 t node key = None"
| "prefix_loop (Suc fuel) t node key =
     (if length (kids t node) = 1
      then prefix_loop fuel t (snd (hd (kids t node))) (key @ [fst (hd (kids t node))])
      else Some key)"

definition trie_prefix :: "trie \<Rightarrow> string list option" where
  "trie_prefix t = prefix_loop (length (heap t)) t (root t) []"

text \<open>
  The loop of \<open>visualize_blockchain\<close> that feeds the logged blocks to \<open>insertLink\<close>: each
  entry is a parent hash, a state hash and the name of the pod.
\<close>

fun load_links :: "trie \<Rightarrow> (string \<times> string \<times> string) list \<Rightarrow> trie result" where
  "load_links t [] = Inr t"
| "load_links t ((parent_hash, state_hash, app) # entries) =
     rbind (insertLink t parent_hash state_hash (Some app)) (\<lambda>t'. load_links t' entries)"

text \<open>
  The loop of \<open>check\<close> in \<open>compare_best_tip.py\<close> over the pods that answered: the chain of
  each is inserted under its shortened pod name (\<open>pod.metadata.name[:-16]\<close>).
\<close>

fun load_chains :: "trie \<Rightarrow> (string list \<times> string) list \<Rightarrow> trie result" where
  "load_chains t [] = Inr t"
| "load_chains t ((chain, pod) # results) =
     rbind (insert_chain t chain (Some (py_slice pod 0 (- 16)))) (\<lambda>t'. load_chains t' results)"

section \<open>Well-formedness and the abstract view\<close>

text \<open>\<open>edge t a k b\<close>: the block at \<open>a\<close> has the block at \<open>b\<close> as its child \<open>k\<close>.\<close>

definition edge :: "trie \<Rightarrow> addr \<Rightarrow> string \<Rightarrow> addr \<Rightarrow> bool" where
  "edge t a k b \<longleftrightarrow> a < length (heap t) \<and> map_of (kids t a) k = Some b"

text \<open>
  The store invariant: the root is the only block without a hash and is nobody's child,
  a child is filed under its own hash, no block has two parents, and the index maps a
  hash to a block with that hash.
\<close>

definition store_wf :: "trie \<Rightarrow> bool" where
  "store_wf t \<longleftrightarrow>
     root t = 0 \<and> 0 < length (heap t) \<and> dict_wf (blocks t) \<and>
     (\<forall>a < length (heap t). dict_wf (kids t a) \<and> (block_hash (heap t ! a) = None \<longleftrightarrow> a = 0)) \<and>
     (\<forall>a k b. edge t a k b \<longrightarrow> 0 < b \<and> b < length (heap t) \<and> block_hash (heap t ! b) = Some k) \<and>
     (\<forall>a k a' k' b. edge t a k b \<longrightarrow> edge t a' k' b \<longrightarrow> a = a') \<and>
     (\<forall>k a. map_of (blocks t) k = Some a \<longrightarrow>
        0 < a \<and> a < length (heap t) \<and> block_hash (heap t ! a) = Some k)"

text \<open>Between operations every child of the root is also in the index.\<close>

definition trie_wf :: "trie \<Rightarrow> bool" where
  "trie_wf t \<longleftrightarrow>
     store_wf t \<and> (\<forall>k b. edge t 0 k b \<longrightarrow> k \<in> set (dict_keys (blocks t)))"

text \<open>The first half of \<open>insertChild\<close>: a new block, not linked yet.\<close>

definition alloc :: "trie \<Rightarrow> string \<Rightarrow> trie" where
  "alloc t k = t\<lparr>heap := heap t @ [new_block (Some k)]\<rparr>"

definition known :: "trie \<Rightarrow> string set" where
  "known t = set (dict_keys (blocks t))"

definition links :: "trie \<Rightarrow> (string option \<times> string) set" where
  "links t = {(block_hash (heap t ! a), k) | a k b. edge t a k b}"

text \<open>
  The abstract specification of \<open>insertLink\<close>: the state is the set of known hashes and
  the set of links, a link from \<open>None\<close> being one from the root. A known parent gets the
  link; an unknown parent of a root child is put between the root and that child; an
  unknown parent of any other known child is an error; two unknown hashes start a new
  branch of the root.
\<close>

type_synonym link_state = "string set \<times> (string option \<times> string) set"

definition spec_link :: "string \<Rightarrow> string \<Rightarrow> link_state \<Rightarrow> link_state option" where
  "spec_link p c s = (case s of (K, L) \<Rightarrow>
     if p \<in> K then Some (insert c K, insert (Some p, c) L)
     else if c \<in> K then
       (if (None, c) \<in> L then Some (insert p K, insert (None, p) (insert (Some p, c) (L - {(None, c)})))
        else None)
     else Some (insert p (insert c K), insert (None, p) (insert (Some p, c) L)))"

definition abs_trie :: "trie \<Rightarrow> link_state" where
  "abs_trie t = (known t, links t)"

text \<open>The parent and child hashes of a list of log entries.\<close>

definition links_of :: "(string \<times> string \<times> string) list \<Rightarrow> (string \<times> string) set" where
  "links_of es = {(p, c). \<exists>v. (p, c, v) \<in> set es}"

text \<open>What the trie keeps while links are loaded.\<close>

definition loaded :: "(string \<times> string) set \<Rightarrow> trie \<Rightarrow> bool" where
  "loaded L t \<longleftrightarrow> trie_wf t \<and> (\<forall>(p, c) \<in> L. (Some p, c) \<in> links t \<and> p \<in> known t \<and> c \<in> known t) \<and>
     (\<forall>c \<in> known t. (None, c) \<in> links t \<or> (\<exists>p. (p, c) \<in> L))"

text \<open>Walks from the root never revisit a block, so the fuel of the traversals is enough.\<close>

definition child_of :: "trie \<Rightarrow> addr \<Rightarrow> addr \<Rightarrow> bool" where
  "child_of t a b \<longleftrightarrow> (\<exists>k. edge t a k b)"

text \<open>A walk, last block first.\<close>

fun rwalk :: "trie \<Rightarrow> addr list \<Rightarrow> bool" where
  "rwalk t [] \<longleftrightarrow> False"
| "rwalk t [a] \<longleftrightarrow> a = 0"
| "rwalk t (b # a # vs) \<longleftrightarrow> child_of t a b \<and> rwalk t (a # vs)"

section \<open>Single operations\<close>

lemma set_child_sel [simp]:
  "length (heap (set_child t a k b)) = length (heap t)"
  "blocks (set_child t a k b) = blocks t"
  "root (set_child t a k b) = root t"
  "x < length (heap t) \<Longrightarrow> block_hash (heap (set_child t a k b) ! x) = block_hash (heap t ! x)"
  "x < length (heap t) \<Longrightarrow>
     kids (set_child t a k b) x = (if x = a then AList.update k b (kids t a) else kids t x)"
  by (cases "a < length (heap t)"; auto simp: set_child_def kids_def nth_list_update list_update_beyond)+

lemma del_child_sel [simp]:
  "length (heap (del_child t a k)) = length (heap t)"
  "blocks (del_child t a k) = blocks t"
  "root (del_child t a k) = root t"
  "x < length (heap t) \<Longrightarrow> block_hash (heap (del_child t a k) ! x) = block_hash (heap t ! x)"
  "x < length (heap t) \<Longrightarrow>
     kids (del_child t a k) x = (if x = a then AList.delete k (kids t a) else kids t x)"
  by (cases "a < length (heap t)"; auto simp: del_child_def kids_def nth_list_update list_update_beyond)+

lemma register_sel [simp]:
  "heap (register t h a) = heap t"
  "root (register t h a) = root t"
  "kids (register t h a) = kids t"
  "edge (register t h a) = edge t"
  "map_of (blocks (register t h a)) = (map_of (blocks t))(h \<mapsto> a)"
  by (auto simp: register_def kids_def edge_def fun_eq_iff update_conv')

lemma append_label_sel [simp]:
  "length (heap (append_label t a l)) = length (heap t)"
  "blocks (append_label t a l) = blocks t"
  "root (append_label t a l) = root t"
  "x < length (heap t) \<Longrightarrow> block_hash (heap (append_label t a l) ! x) = block_hash (heap t ! x)"
  "x < length (heap t) \<Longrightarrow> kids (append_label t a l) x = kids t x"
  by (cases "a < length (heap t)"; auto simp: append_label_def kids_def nth_list_update list_update_beyond)+

lemma note_value_sel [simp]:
  "length (heap (note_value t a v)) = length (heap t)"
  "blocks (note_value t a v) = blocks t"
  "root (note_value t a v) = root t"
  "x < length (heap t) \<Longrightarrow> block_hash (heap (note_value t a v) ! x) = block_hash (heap t ! x)"
  "x < length (heap t) \<Longrightarrow> kids (note_value t a v) x = kids t x"
  by (cases "a < length (heap t)"; auto simp: note_value_def append_value_def kids_def
      nth_list_update list_update_beyond split: option.splits)+

lemma edge_append_label [simp]: "edge (append_label t a l) = edge t"
  by (auto simp: edge_def fun_eq_iff)

lemma edge_note_value [simp]: "edge (note_value t a v) = edge t"
  by (auto simp: edge_def fun_eq_iff)

lemma edge_set_child:
  "a < length (heap t) \<Longrightarrow>
     edge (set_child t a k b) x j y \<longleftrightarrow> (if x = a \<and> j = k then y = b else edge t x j y)"
  by (auto simp: edge_def update_conv' split: if_splits)

lemma edge_del_child:
  "a < length (heap t) \<Longrightarrow> edge (del_child t a k) x j y \<longleftrightarrow> edge t x j y \<and> \<not> (x = a \<and> j = k)"
  by (auto simp: edge_def delete_conv' split: if_splits)

lemma edge_lt: "edge t a k b \<Longrightarrow> a < length (heap t)"
  by (simp add: edge_def)

lemma alloc_sel [simp]:
  "length (heap (alloc t k)) = Suc (length (heap t))"
  "blocks (alloc t k) = blocks t"
  "root (alloc t k) = root t"
  "x < length (heap t) \<Longrightarrow> heap (alloc t k) ! x = heap t ! x"
  "x < length (heap t) \<Longrightarrow> kids (alloc t k) x = kids t x"
  "block_hash (heap (alloc t k) ! length (heap t)) = Some k"
  "kids (alloc t k) (length (heap t)) = []"
  by (auto simp: alloc_def kids_def nth_append new_block_def)

lemma edge_alloc [simp]: "edge (alloc t k) = edge t"
proof (intro ext)
  fix x j y
  show "edge (alloc t k) x j y = edge t x j y"
    by (cases "x < length (heap t)"; cases "x = length (heap t)") (auto simp: edge_def)
qed

lemma insertChild_new:
  "map_of (kids t a) k = None \<Longrightarrow>
     insertChild t a k = (length (heap t), set_child (alloc t k) a k (length (heap t)))"
  by (simp add: insertChild_def alloc_def Let_def)

lemma insertChild_old: "map_of (kids t a) k = Some b \<Longrightarrow> insertChild t a k = (b, t)"
  by (simp add: insertChild_def)

lemma store_wfD:
  assumes "store_wf t"
  shows "root t = 0" "0 < length (heap t)" "dict_wf (blocks t)"
    and "a < length (heap t) \<Longrightarrow> dict_wf (kids t a)"
    and "a < length (heap t) \<Longrightarrow> block_hash (heap t ! a) = None \<longleftrightarrow> a = 0"
    and "edge t a k b \<Longrightarrow> 0 < b \<and> b < length (heap t) \<and> block_hash (heap t ! b) = Some k"
    and "edge t a k b \<Longrightarrow> edge t a' k' b \<Longrightarrow> a = a'"
    and "map_of (blocks t) h = Some b \<Longrightarrow>
           0 < b \<and> b < length (heap t) \<and> block_hash (heap t ! b) = Some h"
  using assms by (simp_all add: store_wf_def)

lemma insertChild_sel:
  assumes "insertChild t a k = (b, t')" and "a < length (heap t)"
  shows "blocks t' = blocks t" "root t' = root t" "length (heap t) \<le> length (heap t')"
    and "x < length (heap t) \<Longrightarrow> block_hash (heap t' ! x) = block_hash (heap t ! x)"
  using assms by (cases "map_of (kids t a) k"; auto simp: insertChild_new insertChild_old)+

lemma insertChild_edge:
  assumes "insertChild t a k = (b, t')" and "a < length (heap t)"
  shows "edge t' x j y \<longleftrightarrow> (if x = a \<and> j = k then y = b else edge t x j y)"
proof (cases "map_of (kids t a) k")
  case None
  with assms show ?thesis by (auto simp: insertChild_new edge_set_child)
next
  case (Some c)
  with assms show ?thesis by (auto simp: insertChild_old edge_def)
qed

lemma alloc_wf:
  assumes wf: "store_wf t"
  shows "store_wf (alloc t k)"
  unfolding store_wf_def
proof (intro conjI allI impI)
  show "root (alloc t k) = 0" "0 < length (heap (alloc t k))" "dict_wf (blocks (alloc t k))"
    using store_wfD(1,3) [OF wf] by auto
  fix x assume "x < length (heap (alloc t k))"
  then consider "x < length (heap t)" | "x = length (heap t)" by (auto simp: less_Suc_eq)
  then show "dict_wf (kids (alloc t k) x)" "(block_hash (heap (alloc t k) ! x) = None) = (x = 0)"
    using store_wfD(2,4,5) [OF wf] by (cases; simp)+
next
  fix x j y assume "edge (alloc t k) x j y"
  then have e: "edge t x j y" by simp
  then show "0 < y" "y < length (heap (alloc t k))" "block_hash (heap (alloc t k) ! y) = Some j"
    using store_wfD(6) [OF wf e] by auto
  fix x' j' assume "edge (alloc t k) x' j' y"
  with e show "x = x'" using store_wfD(7) [OF wf e] by simp
next
  fix h x assume "map_of (blocks (alloc t k)) h = Some x"
  then show "0 < x" "x < length (heap (alloc t k))" "block_hash (heap (alloc t k) ! x) = Some h"
    using store_wfD(8) [OF wf, of h x] by auto
qed

lemma set_child_wf:
  assumes wf: "store_wf t" and a: "a < length (heap t)"
    and b: "0 < b" "b < length (heap t)" "block_hash (heap t ! b) = Some k"
    and orphan: "\<And>x j. \<not> edge t x j b"
  shows "store_wf (set_child t a k b)"
  unfolding store_wf_def
proof (intro conjI allI impI)
  let ?u = "set_child t a k b"
  note e = edge_set_child [OF a, of k b]
  show "root ?u = 0" "0 < length (heap ?u)" "dict_wf (blocks ?u)"
    using store_wfD(1-3) [OF wf] by auto
  fix x assume x: "x < length (heap ?u)"
  then show "dict_wf (kids ?u x)" using a store_wfD(4) [OF wf] by (auto simp: distinct_update)
  show "(block_hash (heap ?u ! x) = None) = (x = 0)" using x store_wfD(5) [OF wf, of x] by simp
next
  let ?u = "set_child t a k b"
  note e = edge_set_child [OF a, of k b]
  fix x j y assume exy: "edge ?u x j y"
  then have "0 < y \<and> y < length (heap t) \<and> block_hash (heap t ! y) = Some j"
    using b store_wfD(6) [OF wf, of x j y] by (auto simp: e split: if_splits)
  then show "0 < y" "y < length (heap ?u)" "block_hash (heap ?u ! y) = Some j" by auto
  fix x' j' assume "edge ?u x' j' y"
  with exy orphan store_wfD(7) [OF wf, of x j y x' j'] show "x = x'"
    by (auto simp: e split: if_splits)
next
  let ?u = "set_child t a k b"
  fix h x assume "map_of (blocks ?u) h = Some x"
  then show "0 < x" "x < length (heap ?u)" "block_hash (heap ?u ! x) = Some h"
    using store_wfD(8) [OF wf, of h x] by auto
qed

lemma del_child_wf: "store_wf t \<Longrightarrow> a < length (heap t) \<Longrightarrow> store_wf (del_child t a k)"
  by (auto simp: store_wf_def edge_del_child distinct_delete)

lemma insertChild_wf:
  assumes wf: "store_wf t" and ic: "insertChild t a k = (b, t')" and a: "a < length (heap t)"
  shows "store_wf t' \<and> 0 < b \<and> b < length (heap t') \<and> block_hash (heap t' ! b) = Some k"
proof (cases "map_of (kids t a) k")
  case (Some c)
  with ic wf a store_wfD(6) [OF wf, of a k c] show ?thesis
    by (auto simp: insertChild_old edge_def)
next
  case None
  then have t': "t' = set_child (alloc t k) a k (length (heap t))" and b: "b = length (heap t)"
    using ic by (auto simp: insertChild_new)
  have "\<not> edge t x j (length (heap t))" for x j
    using store_wfD(6) [OF wf] by blast
  then have "store_wf t'"
    unfolding t' using a store_wfD(2) [OF wf] by (intro set_child_wf alloc_wf wf) auto
  then show ?thesis using store_wfD(2) [OF wf] by (auto simp: t' b)
qed

lemma register_wf:
  assumes "store_wf t" "0 < b" "b < length (heap t)" "block_hash (heap t ! b) = Some h"
  shows "store_wf (register t h b)"
proof -
  have "dict_wf (blocks (register t h b))"
    using store_wfD(3) [OF assms(1)] by (simp add: register_def distinct_update)
  moreover have "0 < c \<and> c < length (heap t) \<and> block_hash (heap t ! c) = Some j"
    if "map_of (blocks (register t h b)) j = Some c" for j c
    using that assms(2-4) store_wfD(8) [OF assms(1), of j c] by (auto split: if_splits)
  ultimately show ?thesis
    using assms(1) unfolding store_wf_def by simp
qed

section \<open>Known hashes and links\<close>

lemma known_register [simp]: "known (register t h a) = insert h (known t)"
  by (auto simp: known_def register_def dict_keys_update)

lemma known_lookup: "map_of (blocks t) k = None \<longleftrightarrow> k \<notin> known t"
  by (simp add: known_def map_of_None_iff)

lemma links_cong:
  assumes "edge t' = edge t" and "\<And>x. x < length (heap t) \<Longrightarrow> block_hash (heap t' ! x) = block_hash (heap t ! x)"
  shows "links t' = links t"
proof -
  have "(\<exists>a k b. p = (block_hash (heap t' ! a), k) \<and> edge t a k b) \<longleftrightarrow>
      (\<exists>a k b. p = (block_hash (heap t ! a), k) \<and> edge t a k b)" for p
    using assms(2) by (metis edge_lt)
  then show ?thesis by (simp add: links_def assms(1))
qed

lemma in_links: "(l, j) \<in> links t \<longleftrightarrow> (\<exists>x y. l = block_hash (heap t ! x) \<and> edge t x j y)"
  by (auto simp: links_def)

lemma links_set_child:
  assumes a: "a < length (heap t)"
  shows "links (set_child t a k b) = insert (block_hash (heap t ! a), k) (links t)"
proof (rule set_eqI, clarify)
  let ?u = "set_child t a k b"
  fix l j
  show "(l, j) \<in> links ?u \<longleftrightarrow> (l, j) \<in> insert (block_hash (heap t ! a), k) (links t)"
  proof
    assume "(l, j) \<in> links ?u"
    then obtain x y where x: "l = block_hash (heap ?u ! x)" and "edge ?u x j y"
      by (auto simp: in_links)
    then have e: "x = a \<and> j = k \<or> edge t x j y"
      using a by (auto simp: edge_set_child split: if_splits)
    then have "l = block_hash (heap t ! x)" using x a by (auto dest: edge_lt)
    with e show "(l, j) \<in> insert (block_hash (heap t ! a), k) (links t)" by (auto simp: in_links)
  next
    assume "(l, j) \<in> insert (block_hash (heap t ! a), k) (links t)"
    then consider "l = block_hash (heap t ! a)" "j = k"
      | x y where "l = block_hash (heap t ! x)" "edge t x j y" by (auto simp: in_links)
    then obtain x y where "l = block_hash (heap ?u ! x)" "edge ?u x j y"
      using a by cases (metis edge_set_child set_child_sel(4) edge_lt)+
    then show "(l, j) \<in> links ?u" by (auto simp: in_links)
  qed
qed

lemma links_alloc [simp]: "links (alloc t k) = links t"
  by (rule links_cong) auto

lemma links_register [simp]: "links (register t h a) = links t"
  by (rule links_cong) auto

lemma links_insertChild:
  assumes ic: "insertChild t a k = (b, t')" and a: "a < length (heap t)"
  shows "links t' = insert (block_hash (heap t ! a), k) (links t)"
proof (cases "map_of (kids t a) k")
  case None
  with assms show ?thesis by (auto simp: insertChild_new links_set_child)
next
  case (Some c)
  with assms have "t' = t" "edge t a k c" by (auto simp: insertChild_old edge_def)
  then show ?thesis by (auto simp: links_def)
qed

lemma links_del_root:
  assumes "store_wf t"
  shows "links (del_child t 0 k) = links t - {(None, k)}"
proof -
  have "(l, j) \<in> links (del_child t 0 k) \<longleftrightarrow> (l, j) \<in> links t \<and> \<not> (l = None \<and> j = k)" for l j
    unfolding in_links using store_wfD(2,5) [OF assms]
    by (metis edge_lt edge_del_child del_child_sel(1,4))
  then show ?thesis by auto
qed

lemma child_step_wf:
  assumes wf: "trie_wf t" and ic: "insertChild t a k = (b, t')" and a: "a < length (heap t)"
  shows "trie_wf (register t' k b)" "0 < b" "b < length (heap t')"
    and "known (register t' k b) = insert k (known t)"
    and "links (register t' k b) = insert (block_hash (heap t ! a), k) (links t)"
    and "block_hash (heap t' ! b) = Some k"
proof -
  have sw: "store_wf t" and rk: "\<And>j y. edge t 0 j y \<Longrightarrow> j \<in> known t"
    using wf by (auto simp: trie_wf_def known_def)
  have w: "store_wf t'" "0 < b" "b < length (heap t')" "block_hash (heap t' ! b) = Some k"
    using insertChild_wf [OF sw ic a] by auto
  note s = insertChild_sel [OF ic a]
  show "0 < b" "b < length (heap t')" "block_hash (heap t' ! b) = Some k" using w by auto
  have kn: "known t' = known t" using s(1) by (simp add: known_def)
  then show kn': "known (register t' k b) = insert k (known t)" by simp
  have "edge (register t' k b) 0 j y \<Longrightarrow> j \<in> known (register t' k b)" for j y
    using rk by (auto simp: insertChild_edge [OF ic a] kn split: if_splits)
  with register_wf [OF w] show "trie_wf (register t' k b)"
    by (auto simp: trie_wf_def known_def)
  show "links (register t' k b) = insert (block_hash (heap t ! a), k) (links t)"
    using links_insertChild [OF ic a] by simp
qed

lemma insert_loop_wf:
  "trie_wf t \<Longrightarrow> a < length (heap t) \<Longrightarrow> insert_loop t a hs = (a', t') \<Longrightarrow>
     trie_wf t' \<and> a' < length (heap t') \<and> known t' = known t \<union> set hs"
proof (induction t a hs rule: insert_loop.induct)
  case (1 t node)
  then show ?case by simp
next
  case (2 t node h hs)
  define n1 where "n1 = (case map_of (blocks t) h of Some b \<Rightarrow> b | None \<Rightarrow> node)"
  obtain n2 t2 where ic: "insertChild t n1 h = (n2, t2)" by fastforce
  have n1: "n1 < length (heap t)"
    using "2.prems"(1,2) store_wfD(8) [of t h]
    by (auto simp: n1_def trie_wf_def split: option.splits)
  note st = child_step_wf [OF "2.prems"(1) ic n1]
  have "insert_loop (register t2 h n2) n2 hs = (a', t')"
    using "2.prems"(3) ic by (simp add: n1_def)
  with "2.IH" [OF n1_def refl] st ic show ?case by (auto simp: n1_def)
qed

lemma append_label_wf: "trie_wf t \<Longrightarrow> trie_wf (append_label t a l)"
  unfolding trie_wf_def store_wf_def by (simp del: length_greater_0_conv)

lemma note_value_wf: "trie_wf t \<Longrightarrow> trie_wf (note_value t a l)"
  unfolding trie_wf_def store_wf_def by (simp del: length_greater_0_conv)

lemma empty_trie_wf: "trie_wf empty_trie"
  by (auto simp: trie_wf_def store_wf_def empty_trie_def edge_def kids_def new_block_def)

lemma known_note_label [simp]:
  "known (note_value t a v) = known t" "known (append_label t a l) = known t"
  by (simp_all add: known_def)

lemma links_note_label [simp]:
  "links (note_value t a v) = links t" "links (append_label t a l) = links t"
  by (rule links_cong; simp)+

lemma insert_chain_wf:
  "trie_wf t \<Longrightarrow> insert_chain t chain label = Inr t' \<Longrightarrow>
     trie_wf t' \<and> known t' = known t \<union> set chain"
proof -
  assume wf: "trie_wf t" and ins: "insert_chain t chain label = Inr t'"
  then obtain tip where tip: "py_get chain (- 1) = Inr tip"
    by (auto simp: insert_chain_def rbind_eq_Inr)
  define node where "node = (case map_of (blocks t) tip of Some b \<Rightarrow> b | None \<Rightarrow> root t)"
  obtain a u where il: "insert_loop t node chain = (a, u)" by fastforce
  have "t' = append_label u a label"
    using ins tip il by (auto simp: insert_chain_def node_def)
  moreover have "node < length (heap t)"
    using wf store_wfD(8) [of t tip] store_wfD(1,2) [of t]
    by (auto simp: node_def trie_wf_def split: option.splits)
  ultimately show ?thesis
    using insert_loop_wf [OF wf _ il] by (simp add: append_label_wf)
qed

section \<open>insertLink against its specification\<close>

lemma root_link: 
  assumes "trie_wf t"
  shows "(None, k) \<in> links t \<longleftrightarrow> (\<exists>b. edge t 0 k b)"
proof
  assume "(None, k) \<in> links t"
  then obtain a b where "None = block_hash (heap t ! a)" "edge t a k b"
    by (auto simp: links_def)
  with assms store_wfD(5) [of t a] show "\<exists>b. edge t 0 k b"
    by (auto simp: trie_wf_def dest: edge_lt)
next
  assume "\<exists>b. edge t 0 k b"
  moreover have "block_hash (heap t ! 0) = None"
    using assms store_wfD(2) [of t] store_wfD(5) [of t 0] by (simp add: trie_wf_def)
  ultimately show "(None, k) \<in> links t" unfolding links_def by force
qed

lemma insertLink_known_parent:
  assumes wf: "trie_wf t" and p: "map_of (blocks t) p = Some a"
  shows "\<exists>t'. insertLink t p c v = Inr t' \<and> trie_wf t' \<and>
      abs_trie t' = (insert c (known t), insert (Some p, c) (links t))"
proof -
  have a: "a < length (heap t)" "block_hash (heap t ! a) = Some p"
    using wf p store_wfD(8) by (auto simp: trie_wf_def)
  obtain b t1 where ic: "insertChild t a c = (b, t1)" by fastforce
  note st = child_step_wf [OF wf ic a(1)]
  show ?thesis
    using p ic st a by (auto simp: insertLink_def abs_trie_def note_value_wf)
qed

lemma insertLink_fresh:
  assumes wf: "trie_wf t" and p: "p \<notin> known t" and c: "c \<notin> known t"
  shows "\<exists>t'. insertLink t p c v = Inr t' \<and> trie_wf t' \<and>
      abs_trie t' = (insert p (insert c (known t)), insert (None, p) (insert (Some p, c) (links t)))"
proof -
  have z: "root t = 0" "0 < length (heap t)" "block_hash (heap t ! 0) = None"
    using wf store_wfD(1,2) store_wfD(5) [of t 0] by (auto simp: trie_wf_def)
  obtain b t1 where ic: "insertChild t 0 p = (b, t1)" by fastforce
  note st = child_step_wf [OF wf ic z(2)]
  let ?t1 = "register t1 p b"
  have bl: "map_of (blocks t) p = None" "map_of (blocks t) c = None" using p c by (simp_all add: known_lookup)
  define n where "n = (case map_of (blocks ?t1) c of Some x \<Rightarrow> x | None \<Rightarrow> b)"
  have n: "n = b"
    using insertChild_sel(1) [OF ic z(2)] bl by (auto simp: n_def split: if_splits)
  obtain d t2 where ic2: "insertChild ?t1 b c = (d, t2)" by fastforce
  have b: "b < length (heap ?t1)" using st by simp
  note st2 = child_step_wf [OF st(1) ic2 b]
  have "insert_loop t 0 [p, c] = (d, register t2 c d)"
    using bl ic ic2 n [unfolded n_def] by (simp del: register_sel)
  then have "insertLink t p c v = Inr (append_label (register t2 c d) d v)"
    using bl c by (simp add: insertLink_def insert_chain_def py_get_last z(1) known_def)
  moreover have "links (register t2 c d) = insert (None, p) (insert (Some p, c) (links t))"
    using st st2 z by auto
  moreover have "known (register t2 c d) = insert p (insert c (known t))"
    using st(4) st2(4) by auto
  ultimately show ?thesis using st2(1) by (simp add: abs_trie_def append_label_wf)
qed

lemma insertLink_reparent_unfold:
  assumes "map_of (blocks t) p = None" and "c \<in> known t"
    and "map_of (kids t (root t)) c = Some b"
    and "insertChild (del_child t (root t) c) (root t) p = (a, t2)"
    and "block_hash (heap t2 ! b) = Some c"
  shows "insertLink t p c v = Inr (note_value (set_child (register t2 p a) a c b) b v)"
  using assms by (simp add: insertLink_def known_def)

lemma insertLink_reparent:
  assumes wf: "trie_wf t" and p: "p \<notin> known t" and c: "c \<in> known t" and e: "edge t 0 c b"
  shows "\<exists>t'. insertLink t p c v = Inr t' \<and> trie_wf t' \<and>
      abs_trie t' = (insert p (known t), insert (None, p) (insert (Some p, c) (links t - {(None, c)})))"
proof -
  have sw: "store_wf t" and rk: "\<And>j y. edge t 0 j y \<Longrightarrow> j \<in> known t"
    using wf by (auto simp: trie_wf_def known_def)
  note z = store_wfD(1,2) [OF sw] and z3 = store_wfD(5) [OF sw store_wfD(2) [OF sw]]
  have eb: "0 < b" "b < length (heap t)" "block_hash (heap t ! b) = Some c"
    using store_wfD(6) [OF sw e] by auto
  let ?t1 = "del_child t 0 c"
  obtain a t2 where ic: "insertChild ?t1 0 p = (a, t2)" by fastforce
  have l1: "0 < length (heap ?t1)" using z by simp
  note s2 = insertChild_sel [OF ic l1]
  have w2: "store_wf t2" "0 < a" "a < length (heap t2)" "block_hash (heap t2 ! a) = Some p"
    using insertChild_wf [OF del_child_wf [OF sw z(2)] ic l1] by auto
  have e2: "edge t2 x j y \<longleftrightarrow>
      (if x = 0 \<and> j = p then y = a else edge t x j y \<and> \<not> (x = 0 \<and> j = c))" for x j y
    using insertChild_edge [OF ic l1] z by (simp add: edge_del_child)
  have hb: "block_hash (heap t2 ! b) = Some c" using s2(4) eb z by simp
  have orphan: "\<not> edge t2 x j b" for x j
    using store_wfD(7) [OF sw e, of x j] store_wfD(6) [OF sw, of x j b] eb(3) w2(4) hb p c
    by (auto simp: e2 split: if_splits)
  let ?u = "set_child (register t2 p a) a c b"
  have un: "insertLink t p c v = Inr (note_value ?u b v)"
    using p c e ic hb z by (intro insertLink_reparent_unfold) (auto simp: known_lookup edge_def)
  have ku: "known ?u = insert p (known t)"
    using s2(1) by (auto simp: known_def register_def dict_keys_update)
  have "store_wf ?u"
    using w2 hb eb s2(3) orphan by (intro set_child_wf register_wf) auto
  moreover have "edge ?u 0 j y \<Longrightarrow> j \<in> known ?u" for j y
    using rk w2(2,3) unfolding ku by (auto simp: edge_set_child e2 split: if_splits)
  ultimately have "trie_wf ?u" by (auto simp: trie_wf_def known_def)
  moreover have "links ?u = insert (None, p) (insert (Some p, c) (links t - {(None, c)}))"
    using links_insertChild [OF ic l1] links_del_root [OF sw] w2 z z3 by (auto simp: links_set_child)
  ultimately show ?thesis
    using un ku by (auto simp: abs_trie_def note_value_wf)
qed

lemma insertLink_simulates:
  assumes wf: "trie_wf t"
  shows "case spec_link p c (abs_trie t) of
      None \<Rightarrow> insertLink t p c v = Inl (KeyError c)
    | Some s' \<Rightarrow> \<exists>t'. insertLink t p c v = Inr t' \<and> trie_wf t' \<and> abs_trie t' = s'"
proof (cases "p \<in> known t")
  case True
  then obtain a where "map_of (blocks t) p = Some a" by (cases "map_of (blocks t) p") (auto simp: known_lookup)
  with insertLink_known_parent [OF wf] True show ?thesis
    by (simp add: spec_link_def abs_trie_def)
next
  case p: False
  show ?thesis
  proof (cases "c \<in> known t")
    case False
    with insertLink_fresh [OF wf p] p show ?thesis by (simp add: spec_link_def abs_trie_def)
  next
    case c: True
    show ?thesis
    proof (cases "\<exists>b. edge t 0 c b")
      case True
      with insertLink_reparent [OF wf p c] p c root_link [OF wf, of c] show ?thesis
        by (auto simp: spec_link_def abs_trie_def)
    next
      case False
      then have "map_of (kids t (root t)) c = None"
        using wf by (cases "map_of (kids t 0) c") (auto simp: edge_def trie_wf_def store_wf_def)
      with False p c root_link [OF wf, of c] show ?thesis
        using known_lookup [of t p] by (auto simp: spec_link_def abs_trie_def insertLink_def known_def)
    qed
  qed
qed

section \<open>Loading a log\<close>

lemma loaded_step:
  assumes ld: "loaded L t" and one: "\<And>q. (q, c) \<in> L \<Longrightarrow> q = p"
  shows "\<exists>t'. insertLink t p c v = Inr t' \<and> loaded (insert (p, c) L) t'"
proof -
  have wf: "trie_wf t" using ld by (simp add: loaded_def)
  have "spec_link p c (abs_trie t) \<noteq> None"
    using ld one by (auto simp: spec_link_def abs_trie_def loaded_def)
  then obtain s' t' where sp: "spec_link p c (abs_trie t) = Some s'"
    and t': "insertLink t p c v = Inr t'" "trie_wf t'" "abs_trie t' = s'"
    using insertLink_simulates [OF wf, of p c v] by (cases "spec_link p c (abs_trie t)") auto
  have kl: "known t' = fst s'" "links t' = snd s'" using t'(3) by (auto simp: abs_trie_def)
  have "loaded (insert (p, c) L) t'"
    using ld sp t'(2) unfolding loaded_def kl
    by (auto simp: spec_link_def abs_trie_def split: if_splits) blast
  with t'(1) show ?thesis by blast
qed

lemma load_links_loaded:
  assumes "loaded L t" and "\<And>p q c. (p, c) \<in> L \<union> links_of es \<Longrightarrow> (q, c) \<in> L \<union> links_of es \<Longrightarrow> p = q"
  shows "\<exists>t'. load_links t es = Inr t' \<and> loaded (L \<union> links_of es) t'"
  using assms
proof (induction es arbitrary: t L)
  case Nil
  then show ?case by (simp add: links_of_def)
next
  case (Cons e es)
  obtain p c v where e: "e = (p, c, v)" by (cases e)
  have set_e: "links_of (e # es) = insert (p, c) (links_of es)" by (auto simp: links_of_def e)
  have "q = p" if "(q, c) \<in> L" for q using Cons.prems(2) [of q c p] that set_e by auto
  then obtain t1 where t1: "insertLink t p c (Some v) = Inr t1" "loaded (insert (p, c) L) t1"
    using loaded_step [OF Cons.prems(1)] by blast
  have "\<exists>t'. load_links t1 es = Inr t' \<and> loaded (insert (p, c) L \<union> links_of es) t'"
  proof (rule Cons.IH [OF t1(2)])
    fix x y d
    assume "(x, d) \<in> insert (p, c) L \<union> links_of es" "(y, d) \<in> insert (p, c) L \<union> links_of es"
    then show "x = y" using Cons.prems(2) [of x d y] by (simp add: set_e)
  qed
  with t1(1) show ?case by (auto simp: e set_e [unfolded e])
qed

lemma loaded_empty: "loaded {} empty_trie"
  using empty_trie_wf by (auto simp: loaded_def known_def empty_trie_def)

lemma rwalk_zero_last: "store_wf t \<Longrightarrow> rwalk t (0 # vs) \<Longrightarrow> vs = []"
  by (cases vs) (auto simp: child_of_def dest: store_wfD(6))

lemma rwalk_unique:
  assumes wf: "store_wf t"
  shows "rwalk t (a # vs) \<Longrightarrow> rwalk t (a # ws) \<Longrightarrow> vs = ws"
proof (induction vs arbitrary: a ws)
  case Nil
  then show ?case using rwalk_zero_last [OF wf] by auto
next
  case (Cons v vs)
  then have va: "child_of t v a" by simp
  then have "a \<noteq> 0" using store_wfD(6) [OF wf] by (fastforce simp: child_of_def)
  then obtain w ws' where ws: "ws = w # ws'" using Cons.prems(2) by (cases ws) auto
  then have "child_of t w a" using Cons.prems(2) by simp
  with va have "v = w" using store_wfD(7) [OF wf] by (auto simp: child_of_def)
  with Cons.IH [of v ws'] Cons.prems ws show ?case by simp
qed

lemma rwalk_suffix: "rwalk t (vs @ a # ws) \<Longrightarrow> rwalk t (a # ws)"
proof (induction vs)
  case (Cons v vs)
  then show ?case by (cases vs) auto
qed simp

lemma rwalk_distinct: "store_wf t \<Longrightarrow> rwalk t vs \<Longrightarrow> distinct vs"
proof (induction vs rule: induct_list012)
  case (3 b a vs)
  have "b \<notin> set (a # vs)"
  proof
    assume "b \<in> set (a # vs)"
    then obtain xs ys where "a # vs = xs @ b # ys" by (meson split_list)
    with "3.prems"(2) have "rwalk t (b # ys)" using rwalk_suffix [of t "b # xs"] by simp
    then have "a # vs = ys" by (rule rwalk_unique [OF "3.prems"])
    with arg_cong [OF \<open>a # vs = xs @ b # ys\<close>, of length] show False by auto
  qed
  with 3 show ?case by simp
qed auto

lemma rwalk_bound: "store_wf t \<Longrightarrow> rwalk t vs \<Longrightarrow> a \<in> set vs \<Longrightarrow> a < length (heap t)"
proof (induction vs rule: induct_list012)
  case (2 b)
  then show ?case using store_wfD(2) by auto
next
  case (3 b c vs)
  then show ?case using store_wfD(6) by (auto simp: child_of_def)
qed simp

lemma rwalk_length: 
  assumes "store_wf t" and "rwalk t vs"
  shows "length vs \<le> length (heap t)"
proof -
  have "set vs \<subseteq> {..< length (heap t)}" using rwalk_bound [OF assms] by auto
  then have "card (set vs) \<le> card {..< length (heap t)}" by (intro card_mono) auto
  then show ?thesis using rwalk_distinct [OF assms] by (simp add: distinct_card)
qed

lemma rwalk_kid:
  assumes "store_wf t" and "rwalk t (a # vs)" and "(k, b) \<in> set (kids t a)"
  shows "rwalk t (b # a # vs)"
proof -
  have a: "a < length (heap t)" using rwalk_bound [OF assms(1,2)] by simp
  then have "map_of (kids t a) k = Some b"
    using store_wfD(4) [OF assms(1)] assms(3) by (simp add: map_of_is_SomeI)
  with a assms(2) show ?thesis by (auto simp: child_of_def edge_def)
qed

section \<open>Traversals\<close>

lemma those_Some: "(\<And>x. x \<in> set xs \<Longrightarrow> x \<noteq> None) \<Longrightarrow> those xs \<noteq> None"
  by (induction xs) (auto split: option.splits)

lemma nodes_enough:
  assumes "store_wf t"
  shows "rwalk t (a # vs) \<Longrightarrow> length (heap t) \<le> fuel + length vs \<Longrightarrow> nodes fuel t key a \<noteq> None"
proof (induction fuel arbitrary: key a vs)
  case 0
  then show ?case using rwalk_length [OF assms "0.prems"(1)] by simp
next
  case (Suc fuel)
  have "nodes fuel t (key @ [k]) b \<noteq> None" if "(k, b) \<in> set (kids t a)" for k b
    using Suc.IH [OF rwalk_kid [OF assms Suc.prems(1) that]] Suc.prems(2) by simp
  then have "those (map (\<lambda>(k, b). nodes fuel t (key @ [k]) b) (kids t a)) \<noteq> None"
    by (intro those_Some) auto
  then show ?case by (auto split: option.splits)
qed

lemma prefix_enough:
  assumes "store_wf t"
  shows "rwalk t (a # vs) \<Longrightarrow> length (heap t) \<le> fuel + length vs \<Longrightarrow> prefix_loop fuel t a key \<noteq> None"
proof (induction fuel arbitrary: key a vs)
  case 0
  then show ?case using rwalk_length [OF assms "0.prems"(1)] by simp
next
  case (Suc fuel)
  show ?case
  proof (cases "length (kids t a) = 1")
    case True
    then obtain k b where kb: "kids t a = [(k, b)]" by (auto simp: length_Suc_conv)
    then show ?thesis
      using Suc.IH [OF rwalk_kid [OF assms Suc.prems(1), of k b]] Suc.prems(2) by simp
  qed simp
qed

section \<open>Inserting chains\<close>

lemma update_missing: "k \<notin> set (dict_keys d) \<Longrightarrow> AList.update k v d = d @ [(k, v)]"
  by (induction d) auto

lemma insertChild_kids:
  assumes "insertChild t a k = (b, t')" and "a < length (heap t)"
  shows "x < length (heap t) \<Longrightarrow> x \<noteq> a \<Longrightarrow> kids t' x = kids t x"
  using assms by (cases "map_of (kids t a) k") (auto simp: insertChild_new insertChild_old)

lemma insertChild_keys:
  assumes "insertChild t a k = (b, t')" and "a < length (heap t)"
  shows "set (dict_keys (kids t' a)) = insert k (set (dict_keys (kids t a)))"
proof (cases "map_of (kids t a) k")
  case None
  with assms show ?thesis by (auto simp: insertChild_new dict_keys_update simp del: set_map split: if_splits)
next
  case (Some c)
  then have "k \<in> set (dict_keys (kids t a))" by (force dest: map_of_SomeD)
  with Some assms show ?thesis by (auto simp: insertChild_old simp del: set_map)
qed

lemma insertChild_empty:
  assumes "kids t a = []" and "a < length (heap t)"
  shows "\<exists>t'. insertChild t a k = (length (heap t), t') \<and> kids t' a = [(k, length (heap t))] \<and>
    kids t' (length (heap t)) = [] \<and> labels (heap t' ! length (heap t)) = [] \<and>
    length (heap t') = Suc (length (heap t)) \<and> blocks t' = blocks t"
  using assms
  by (auto simp: insertChild_new set_child_def alloc_def kids_def new_block_def nth_append)

lemma insert_loop_fresh:
  assumes "kids t a = []" "a < length (heap t)" "distinct hs" "set hs \<inter> known t = {}"
    and "insert_loop t a hs = (a', t')"
  shows "(\<forall>x < length (heap t). x \<noteq> a \<longrightarrow> kids t' x = kids t x) \<and>
    length (heap t') = length (heap t) + length hs \<and>
    walk t' a hs = Inr a' \<and> (hs \<noteq> [] \<longrightarrow> labels (heap t' ! a') = []) \<and> a' < length (heap t') \<and>
    (\<forall>fuel key. length hs < fuel \<longrightarrow> prefix_loop fuel t' a key = Some (key @ hs))"
  using assms
proof (induction hs arbitrary: t a)
  case Nil
  then show ?case by (auto simp: gr0_conv_Suc)
next
  case (Cons h hs)
  let ?b = "length (heap t)"
  obtain t1 where ic: "insertChild t a h = (?b, t1)" and k1: "kids t1 a = [(h, ?b)]" "kids t1 ?b = []"
    and l1: "labels (heap t1 ! ?b) = []" "length (heap t1) = Suc ?b" "blocks t1 = blocks t"
    using insertChild_empty [OF Cons.prems(1,2)] by blast
  let ?t2 = "register t1 h ?b"
  have "map_of (blocks t) h = None" using Cons.prems(4) by (simp add: known_lookup)
  then have il: "insert_loop ?t2 ?b hs = (a', t')" using Cons.prems(5) ic by simp
  have "known ?t2 = insert h (known t)" using l1 by (simp add: known_def register_def dict_keys_update insert_absorb)
  then have IH: "(\<forall>x < length (heap t1). x \<noteq> ?b \<longrightarrow> kids t' x = kids t1 x)"
      "length (heap t') = length (heap t1) + length hs" "walk t' ?b hs = Inr a'"
      "hs \<noteq> [] \<longrightarrow> labels (heap t' ! a') = []" "a' < length (heap t')"
      "\<And>fuel key. length hs < fuel \<Longrightarrow> prefix_loop fuel t' ?b key = Some (key @ hs)"
    using Cons.IH [OF _ _ _ _ il] Cons.prems(3,4) k1 l1 by auto
  have ka: "kids t' a = [(h, ?b)]" using IH(1) Cons.prems(2) l1 k1 by simp
  have "kids t' x = kids t x" if "x < ?b" "x \<noteq> a" for x
    using IH(1) that l1 insertChild_kids [OF ic Cons.prems(2)] by simp
  moreover have "walk t' a (h # hs) = Inr a'" using ka IH(3) by (simp add: getChild_def)
  moreover have "labels (heap t' ! a') = []" using IH(4) il l1 by (cases hs) auto
  moreover have "prefix_loop fuel t' a key = Some (key @ h # hs)" if "length (h # hs) < fuel" for fuel key
    using that ka IH(6) by (cases fuel) auto
  ultimately show ?case using IH(2,5) l1(2) by auto
qed

lemma insert_loop_keeps:
  assumes "trie_wf t" "a < length (heap t)" "insert_loop t a hs = (a', t')"
  shows "(\<forall>x < length (heap t). set (dict_keys (kids t x)) \<subseteq> set (dict_keys (kids t' x))) \<and>
    length (heap t) \<le> length (heap t') \<and> (0 < a \<longrightarrow> kids t' 0 = kids t 0)"
  using assms
proof (induction hs arbitrary: t a)
  case Nil
  then show ?case by simp
next
  case (Cons h hs)
  define n1 where "n1 = (case map_of (blocks t) h of Some b \<Rightarrow> b | None \<Rightarrow> a)"
  obtain n2 t2 where ic: "insertChild t n1 h = (n2, t2)" by fastforce
  have n1: "n1 < length (heap t)" "0 < a \<Longrightarrow> 0 < n1"
    using Cons.prems(1,2) store_wfD(8) [of t h] by (auto simp: n1_def trie_wf_def split: option.splits)
  note st = child_step_wf [OF Cons.prems(1) ic n1(1)]
  have "insert_loop (register t2 h n2) n2 hs = (a', t')"
    using Cons.prems(3) ic by (simp add: n1_def)
  then have IH: "(\<forall>x < length (heap t2). set (dict_keys (kids t2 x)) \<subseteq> set (dict_keys (kids t' x))) \<and>
      length (heap t2) \<le> length (heap t') \<and> (0 < n2 \<longrightarrow> kids t' 0 = kids t2 0)"
    using Cons.IH [OF st(1), of n2] st(3) by simp
  have len: "length (heap t) \<le> length (heap t2)" by (rule insertChild_sel(3) [OF ic n1(1)])
  have step: "set (dict_keys (kids t x)) \<subseteq> set (dict_keys (kids t2 x))" if "x < length (heap t)" for x
    using that insertChild_kids [OF ic n1(1)] insertChild_keys [OF ic n1(1)]
    by (cases "x = n1") (auto simp del: set_map)
  show ?case
  proof (intro conjI allI impI)
    fix x assume x: "x < length (heap t)"
    then show "set (dict_keys (kids t x)) \<subseteq> set (dict_keys (kids t' x))"
      using IH len step [OF x] by (meson order_less_le_trans subset_trans)
  next
    show "length (heap t) \<le> length (heap t')" using IH len by simp
  next
    assume "0 < a"
    with n1 have "kids t2 0 = kids t 0" by (intro insertChild_kids [OF ic n1(1)]) auto
    with IH st(2) show "kids t' 0 = kids t 0" by simp
  qed
qed

lemma prefix_one:
  assumes "trie_wf t" and "kids t 0 = [(a, x)]" and "1 < length (kids t x)"
  shows "trie_prefix t = Some [a]"
proof -
  have wf: "store_wf t" using assms(1) by (simp add: trie_wf_def)
  then have "x < length (heap t)" "0 < x"
    using store_wfD(2) [OF wf] store_wfD(6) [OF wf, of 0 a x] assms(2) by (auto simp: edge_def)
  then obtain n where "length (heap t) = Suc (Suc n)"
    by (metis Suc_lessI gr0_conv_Suc less_nat_zero_code not_less_eq nat_neq_iff)
  then show ?thesis using assms store_wfD(1) [OF wf] by (simp add: trie_prefix_def)
qed

text \<open>
  C2. insertLink implements its specification: on a well-formed trie it raises KeyError
  exactly where the specification has no result (an unknown parent of a known block that
  is not a child of the root), and otherwise returns a well-formed trie whose known
  hashes and links are the ones the specification prescribes.
\<close>

theorem insertLink_refines:
  assumes "trie_wf t"
  shows "case spec_link p c (abs_trie t) of
      None \<Rightarrow> insertLink t p c v = Inl (KeyError c)
    | Some s' \<Rightarrow> \<exists>t'. insertLink t p c v = Inr t' \<and> trie_wf t' \<and> abs_trie t' = s'"
  using assms by (rule insertLink_simulates)

theorem insertLink_refines_witness:
  "\<exists>t'. insertLink empty_trie ''p'' ''c'' (Some ''v'') = Inr t' \<and> trie_wf t' \<and>
     abs_trie t' = ({''p'', ''c''}, {(None, ''p''), (Some ''p'', ''c'')})"
proof -
  have "abs_trie empty_trie = ({}, {})"
    by (auto simp: abs_trie_def known_def links_def edge_def kids_def empty_trie_def new_block_def)
  then show ?thesis
    using insertLink_refines [OF empty_trie_wf, of "''p''" "''c''" "Some ''v''"]
    by (simp add: spec_link_def)
qed

text \<open>
  C3. The loading loop of visualize_blockchain: when every block of the log has one
  parent hash, as on a real chain, no insertLink raises, whatever the order of the
  entries, and every logged parent link is a link of the resulting trie.
\<close>

theorem load_links_complete:
  assumes "\<And>p q c. (p, c) \<in> links_of es \<Longrightarrow> (q, c) \<in> links_of es \<Longrightarrow> p = q"
  shows "\<exists>t. load_links empty_trie es = Inr t \<and> trie_wf t \<and>
           (\<forall>p c. (p, c) \<in> links_of es \<longrightarrow> (Some p, c) \<in> links t)"
proof -
  obtain t where "load_links empty_trie es = Inr t" "loaded (links_of es) t"
    using load_links_loaded [OF loaded_empty, of es] assms by auto
  then show ?thesis by (auto simp: loaded_def)
qed

theorem load_links_complete_witness:
  "\<exists>t. load_links empty_trie [(''a'', ''b'', ''w''), (''z'', ''a'', ''w'')] = Inr t \<and> trie_wf t \<and>
     (Some ''a'', ''b'') \<in> links t \<and> (Some ''z'', ''a'') \<in> links t"
proof -
  have L: "links_of [(''a'', ''b'', ''w''), (''z'', ''a'', ''w'')] = {(''a'', ''b''), (''z'', ''a'')}"
    by (auto simp: links_of_def)
  obtain t where "load_links empty_trie [(''a'', ''b'', ''w''), (''z'', ''a'', ''w'')] = Inr t"
    and "trie_wf t" and "\<forall>p c. (p, c) \<in> {(''a'', ''b''), (''z'', ''a'')} \<longrightarrow> (Some p, c) \<in> links t"
    using load_links_complete [of "[(''a'', ''b'', ''w''), (''z'', ''a'', ''w'')]"]
    unfolding L by blast
  then show ?thesis by blast
qed

lemma load_chains_wf: "trie_wf t \<Longrightarrow> load_chains t rs = Inr t' \<Longrightarrow> trie_wf t'"
  by (induction t rs rule: load_chains.induct) (auto simp: rbind_eq_Inr dest: insert_chain_wf)

lemma wf_traversals:
  assumes "trie_wf t"
  shows "trie_prefix t \<noteq> None \<and> block_items t \<noteq> None \<and> block_forks t \<noteq> None"
proof -
  have wf: "store_wf t" using assms by (simp add: trie_wf_def)
  have "rwalk t [0]" by simp
  then show ?thesis
    using nodes_enough [OF wf, of 0 "[]"] prefix_enough [OF wf, of 0 "[]"] store_wfD(1) [OF wf]
    by (simp add: trie_prefix_def block_items_def block_forks_def)
qed

lemma insertLink_wf: "trie_wf t \<Longrightarrow> insertLink t p c v = Inr t' \<Longrightarrow> trie_wf t'"
  using insertLink_simulates [of t p c v] by (auto split: option.splits)

text \<open>
  On every trie that the best-tip comparison can build, prefix, items and forks
  return: a walk from the root never meets a block twice, so a depth of the number of
  blocks is enough.
\<close>

theorem traversals_return:
  assumes "load_chains empty_trie results = Inr t"
  shows "trie_prefix t \<noteq> None \<and> block_items t \<noteq> None \<and> block_forks t \<noteq> None"
  using load_chains_wf [OF empty_trie_wf assms] by (rule wf_traversals)

theorem traversals_return_witness:
  "\<exists>t. load_chains empty_trie [([''a'', ''b''], ''pod-0123456789abcdef'')] = Inr t \<and>
     trie_prefix t \<noteq> None \<and> block_items t \<noteq> None \<and> block_forks t \<noteq> None"
proof -
  have "load_chains empty_trie [([''a'', ''b''], ''pod-0123456789abcdef'')] \<noteq> Inl e" for e
    by (simp add: insert_chain_def py_get_last Let_def split: prod.splits)
  then obtain t where t: "load_chains empty_trie [([''a'', ''b''], ''pod-0123456789abcdef'')] = Inr t"
    by (cases "load_chains empty_trie [([''a'', ''b''], ''pod-0123456789abcdef'')]") auto
  show ?thesis using t traversals_return [OF t] by blast
qed

lemma kids_append_label: "kids (append_label t a l) = kids t"
proof
  fix x
  show "kids (append_label t a l) x = kids t x"
    by (cases "a < length (heap t)"; cases "x = a")
      (auto simp: append_label_def kids_def list_update_beyond)
qed

text \<open>
  C8. Inserting one chain without repeated hashes into an empty trie: prefix returns
  that chain, and the label is stored at its last block.
\<close>

theorem single_chain_prefix:
  assumes "chain \<noteq> []" and "distinct chain"
  shows "\<exists>t a. insert_chain empty_trie chain label = Inr t \<and> trie_prefix t = Some chain \<and>
           walk t (root t) chain = Inr a \<and> labels (heap t ! a) = [label]"
proof -
  obtain a t where il: "insert_loop empty_trie 0 chain = (a, t)" by fastforce
  have e: "root empty_trie = 0" "blocks empty_trie = []" "kids empty_trie 0 = []"
    "length (heap empty_trie) = 1" "known empty_trie = {}"
    by (simp_all add: empty_trie_def kids_def new_block_def known_def)
  have wf: "trie_wf t" using insert_loop_wf [OF empty_trie_wf _ il] e(4) by simp
  have F: "length (heap t) = Suc (length chain)" "walk t 0 chain = Inr a" "labels (heap t ! a) = []"
    "a < length (heap t)" "prefix_loop (Suc (length chain)) t 0 [] = Some chain"
    using insert_loop_fresh [OF e(3) _ assms(2) _ il] e assms(1) by (auto simp del: prefix_loop.simps)
  let ?u = "append_label t a label"
  have k: "kids ?u = kids t" by (rule kids_append_label)
  have pl: "prefix_loop n ?u x key = prefix_loop n t x key" for n x key
    by (induction n arbitrary: x key) (simp_all add: k)
  have wk: "walk ?u x hs = walk t x hs" for x hs
    by (induction hs arbitrary: x) (simp_all add: k getChild_def rbind_def split: sum.split)
  have "insert_chain empty_trie chain label = Inr ?u"
    using il e assms(1) by (simp add: insert_chain_def py_get_last)
  moreover have "root ?u = 0" using wf by (simp add: trie_wf_def store_wf_def)
  moreover have "labels (heap ?u ! a) = [label]" using F(3,4) by (simp add: append_label_def)
  ultimately show ?thesis using F by (auto simp: trie_prefix_def pl wk simp del: prefix_loop.simps)
qed

theorem single_chain_prefix_witness:
  "\<exists>t a. insert_chain empty_trie [''g'', ''h''] (Some ''node'') = Inr t \<and>
     trie_prefix t = Some [''g'', ''h''] \<and> walk t (root t) [''g'', ''h''] = Inr a \<and>
     labels (heap t ! a) = [Some ''node'']"
  using single_chain_prefix [of "[''g'', ''h'']" "Some ''node''"] by simp

lemma insert_loop_blocks:
  "insert_loop t a hs = (a', t') \<Longrightarrow> h \<notin> set hs \<Longrightarrow> map_of (blocks t') h = map_of (blocks t) h"
proof (induction t a hs rule: insert_loop.induct)
  case (2 t node g hs)
  define n1 where "n1 = (case map_of (blocks t) g of Some b \<Rightarrow> b | None \<Rightarrow> node)"
  obtain n2 t2 where ic: "insertChild t n1 g = (n2, t2)" by fastforce
  have "blocks t2 = blocks t"
    using ic by (cases "map_of (kids t n1) g") (auto simp: insertChild_new insertChild_old)
  moreover have "insert_loop (register t2 g n2) n2 hs = (a', t')"
    using "2.prems"(1) ic by (simp add: n1_def)
  ultimately show ?case using "2.IH" [OF n1_def refl] ic "2.prems"(2) by (auto simp: n1_def)
qed simp

lemma insert_loop_step:
  assumes wf: "trie_wf t" and a: "a < length (heap t)" and il: "insert_loop t a (h # hs) = (a', t')"
    and n1: "n1 = (case map_of (blocks t) h of Some b \<Rightarrow> b | None \<Rightarrow> a)"
  shows "h \<in> set (dict_keys (kids t' n1))" and "0 < n1 \<Longrightarrow> kids t' 0 = kids t 0"
proof -
  obtain n2 t2 where ic: "insertChild t n1 h = (n2, t2)" by fastforce
  have lt: "n1 < length (heap t)"
    using wf a store_wfD(8) [of t h] by (auto simp: n1 trie_wf_def split: option.splits)
  note st = child_step_wf [OF wf ic lt]
  have "insert_loop (register t2 h n2) n2 hs = (a', t')" using il ic by (simp add: n1)
  note K = insert_loop_keeps [OF st(1) _ this, simplified register_sel, OF st(3)]
  show "h \<in> set (dict_keys (kids t' n1))"
  proof -
    have "n1 < length (heap t2)" using insertChild_sel(3) [OF ic lt] lt by simp
    with K have "set (dict_keys (kids t2 n1)) \<subseteq> set (dict_keys (kids t' n1))" by blast
    then show ?thesis using insertChild_keys [OF ic lt] by (auto simp del: set_map)
  qed
  assume "0 < n1"
  then have "kids t2 0 = kids t 0" using lt by (intro insertChild_kids [OF ic lt]) auto
  with K st(2) show "kids t' 0 = kids t 0" by simp
qed

lemma insert_chain_loop:
  assumes "trie_wf t" and "insert_chain t (h # hs) l = Inr t'"
  obtains node a u where "insert_loop t node (h # hs) = (a, u)" "node < length (heap t)"
    "t' = append_label u a l" "kids t' = kids u" "blocks t' = blocks u"
    "map_of (blocks t) (last (h # hs)) = None \<Longrightarrow> node = 0"
proof -
  define node where
    "node = (case map_of (blocks t) (last (h # hs)) of Some b \<Rightarrow> b | None \<Rightarrow> root t)"
  obtain a u where il: "insert_loop t node (h # hs) = (a, u)" by fastforce
  have n: "node < length (heap t)" "map_of (blocks t) (last (h # hs)) = None \<Longrightarrow> node = 0"
    using assms(1) store_wfD(8) [of t "last (h # hs)"] store_wfD(1,2) [of t]
    by (auto simp: node_def trie_wf_def split: option.splits)
  have t': "t' = append_label u a l"
    using assms(2) il by (simp add: insert_chain_def py_get_last node_def)
  have "kids t' = kids u" by (simp add: t' kids_append_label)
  with that il n t' show ?thesis by simp
qed

lemma first_chain_shape:
  assumes "a \<noteq> b" and "a \<notin> set r" and ins: "insert_chain empty_trie (a # b # r) l = Inr t"
  shows "trie_wf t \<and> kids t 0 = [(a, 1)] \<and> map_of (blocks t) a = Some 1 \<and> b \<in> set (dict_keys (kids t 1))"
proof -
  have e: "blocks empty_trie = []" "kids empty_trie 0 = []" "length (heap empty_trie) = 1"
    by (simp_all add: empty_trie_def kids_def new_block_def)
  obtain x u where il: "insert_loop empty_trie 0 (a # b # r) = (x, u)"
    and k: "kids t = kids u" "blocks t = blocks u"
    using insert_chain_loop [OF empty_trie_wf ins] e(1) by (metis map_of.simps(1))
  obtain t1 where ic: "insertChild empty_trie 0 a = (1, t1)" and k1: "kids t1 0 = [(a, 1)]" "blocks t1 = []"
    using insertChild_empty [OF e(2)] e by auto
  have lt: "0 < length (heap empty_trie)" using e by simp
  note st = child_step_wf [OF empty_trie_wf ic lt]
  have il1: "insert_loop (register t1 a 1) 1 (b # r) = (x, u)" using il ic e by simp
  have n: "1 = (case map_of (blocks (register t1 a 1)) b of Some c \<Rightarrow> c | None \<Rightarrow> 1)"
    using k1 assms(1) by simp
  have l1: "1 < length (heap (register t1 a 1))" using st(3) by simp
  have "kids u 0 = [(a, 1)]" "b \<in> set (dict_keys (kids u 1))"
    using insert_loop_step [OF st(1) l1 il1 n] k1 by (simp_all del: set_map)
  moreover have "map_of (blocks u) a = Some 1"
    using insert_loop_blocks [OF il1, of a] assms(1,2) by simp
  ultimately show ?thesis
    using insert_chain_wf [OF empty_trie_wf ins] k by simp
qed

text \<open>
  Inserting a second chain that starts with the same block: insert looks a known
  hash up in the index and then asks that very block for a child of the same hash, so
  the block becomes its own child. The common prefix that compare_best_tip computes then
  has one block, however long the chains agree.
\<close>

theorem shared_prefix_lost:
  assumes "a \<noteq> b" and "a \<notin> set r1"
    and t1: "insert_chain empty_trie (a # b # r1) l1 = Inr t1"
    and t2: "insert_chain t1 (a # r2) l2 = Inr t2"
  shows "trie_prefix t2 = Some [a]"
proof -
  have F: "trie_wf t1" "kids t1 0 = [(a, 1)]" "map_of (blocks t1) a = Some 1"
    "b \<in> set (dict_keys (kids t1 1))"
    using first_chain_shape [OF assms(1-3)] by auto
  obtain node x u where il: "insert_loop t1 node (a # r2) = (x, u)" "node < length (heap t1)"
    and k: "kids t2 = kids u"
    using insert_chain_loop [OF F(1) t2] by metis
  have n: "1 = (case map_of (blocks t1) a of Some c \<Rightarrow> c | None \<Rightarrow> node)" using F(3) by simp
  have "1 < length (heap t1)" using F(1,3) store_wfD(8) by (auto simp: trie_wf_def)
  then have "set (dict_keys (kids t1 1)) \<subseteq> set (dict_keys (kids u 1))"
    using insert_loop_keeps [OF F(1) il(2,1)] by blast
  then have "{a, b} \<subseteq> set (dict_keys (kids u 1))"
    using F(4) insert_loop_step(1) [OF F(1) il(2,1) n] by (auto simp del: set_map)
  then have "card {a, b} \<le> length (dict_keys (kids u 1))"
    by (meson List.finite_set card_length card_mono le_trans)
  then have "1 < length (kids t2 1)" using assms(1) k by simp
  moreover have "kids t2 0 = [(a, 1)]"
    using insert_loop_step(2) [OF F(1) il(2,1) n] k F(2) by simp
  ultimately show ?thesis using insert_chain_wf [OF F(1) t2] by (auto intro: prefix_one)
qed

theorem shared_prefix_lost_witness:
  "\<exists>t1 t2. insert_chain empty_trie [''g'', ''h'', ''x''] (Some ''n1'') = Inr t1 \<and>
     insert_chain t1 [''g'', ''h'', ''y''] (Some ''n2'') = Inr t2 \<and> trie_prefix t2 = Some [''g'']"
proof -
  have ne: "insert_chain t (h # hs) l \<noteq> Inl e" for t h hs l e
    by (simp add: insert_chain_def py_get_last Let_def split: prod.splits)
  obtain t1 where t1: "insert_chain empty_trie [''g'', ''h'', ''x''] (Some ''n1'') = Inr t1"
    using ne by (metis obj_sumE)
  obtain t2 where t2: "insert_chain t1 [''g'', ''h'', ''y''] (Some ''n2'') = Inr t2"
    using ne by (metis obj_sumE)
  show ?thesis using t1 t2 shared_prefix_lost [OF _ _ t1 t2] by auto
qed

text \<open>
  The order of the log matters for reachability: with the links A-B, C-D, B-C, the
  last one creates a second, childless block C, and the chain A, B, C, D, all of whose
  links were inserted, cannot be followed.
\<close>

theorem out_of_order_links_lost:
  "(case load_links empty_trie [(''A'', ''B'', ''w''), (''C'', ''D'', ''w''), (''B'', ''C'', ''w'')] of
      Inl e \<Rightarrow> False
    | Inr t \<Rightarrow> trie_get t [''C'', ''D''] = Inr [] \<and>
        trie_get t [''A'', ''B'', ''C''] = Inr [''w''] \<and>
        trie_get t [''A'', ''B'', ''C'', ''D''] = Inl (KeyError ''D''))"
  by code_simp

end
