(* ===== verification/GenesisLedger.thy ===== *)
theory GenesisLedger
  imports Py_Strings
begin

text \<open>
  \<open>scripts/generate-local-network-ledger.py\<close>: the command that reads the public keys of
  services, whales and fish from directories, pairs offline accounts with the online
  accounts they delegate to, and writes the genesis ledger of a local network.

  The files are parameters: \<open>pub_files\<close> is what \<open>glob.glob(dir + "/*.pub")\<close> lists, in
  its order, \<open>key_line\<close> the first line of a file, and the staker CSV is the list of rows
  its reader yields. The progress messages of the command are left out; every exception
  is kept.
\<close>

section \<open>Data\<close>

record key_store =
  pub_files :: "string \<Rightarrow> string list"
  key_line :: "string \<Rightarrow> string"

record ledger_args =
  service_accounts_directory :: string
  num_whale_accounts :: int
  online_whale_accounts_directory :: string
  offline_whale_accounts_directory :: string
  num_fish_accounts :: int
  online_fish_accounts_directory :: string
  offline_fish_accounts_directory :: string
  staker_csv_rows :: "string list list option"

record service_key =
  service_public_key :: string
  service :: string
  service_balance :: int

record staker =
  nickname :: string
  staker_public_key :: string

record ledger_public_keys =
  service_keys :: "service_key list"
  online_whale_keys :: "string list"
  offline_whale_keys :: "string list"
  online_fish_keys :: "string list"
  offline_fish_keys :: "string list"
  online_staker_keys :: "string list"
  stakers :: "staker list"

record account =
  pk :: string
  sk :: "string option"
  balance :: string
  delegate :: "string option"

record annotated_account = account +
  acct_nickname :: "string option"
  discord_username :: "string option"
  delegate_discord_username :: "string option"

record ledger_file =
  ledger_name :: string
  num_accounts :: int
  accounts :: "account list"

section \<open>Operations\<close>

definition DEFAULT_SERVICES :: "(string, int) dict" where
  "DEFAULT_SERVICES = [(''faucet'', 100000 * 10 ^ 9), (''echo'', 100 * 10 ^ 9)]"

definition encode_nanocodas :: "int \<Rightarrow> string" where
  "encode_nanocodas nanocodas =
     (let s = str_int nanocodas
      in if length s > 9 then py_slice s 0 (- 9) @ ''.'' @ drop (length s - 9) s
         else ''0.'' @ replicate (9 - length s) (CHR ''0'') @ s)"

definition read_key :: "key_store \<Rightarrow> string \<Rightarrow> string" where
  "read_key ks f = py_strip (key_line ks f)"

definition load_service_key :: "key_store \<Rightarrow> string \<Rightarrow> service_key result" where
  "load_service_key ks f =
     (let service_name = hd (split_on (CHR ''_'') (basename f))
      in case map_of DEFAULT_SERVICES service_name of
           None \<Rightarrow> Inl (KeyError service_name)
         | Some b \<Rightarrow> Inr \<lparr>service_public_key = read_key ks f, service = service_name, service_balance = b\<rparr>)"

definition not_enough :: "string \<Rightarrow> int \<Rightarrow> nat \<Rightarrow> py_error" where
  "not_enough kind required present =
     PyException (''There aren'' @ [CHR 0x27] @ ''t enough '' @ kind @
       '' Keys to populate the genesis ledger! Required '' @ str_int required @
       '', Present '' @ str_nat present)"

text \<open>
  The block the command repeats for offline whales, online whales and offline fish: all
  keys of the directory when there are at least as many as required.
\<close>

definition load_required_keys :: "key_store \<Rightarrow> string \<Rightarrow> string \<Rightarrow> int \<Rightarrow> string list result" where
  "load_required_keys ks kind dir required =
     (let files = pub_files ks dir
      in if int (length files) \<ge> required then Inr (map (read_key ks) files)
         else Inl (not_enough kind required (length files)))"

text \<open>One row of the CSV: \<open>row[1]\<close>, \<open>row[2]\<close>, and the test of the key's first characters.\<close>

definition csv_row :: "string list \<Rightarrow> staker list result" where
  "csv_row row =
     rbind (py_get row 1) (\<lambda>discord. rbind (py_get row 2) (\<lambda>public_key.
       Inr (if startswith public_key ''4vsRC''
            then [\<lparr>nickname = discord, staker_public_key = public_key\<rparr>] else [])))"

definition csv_stakers :: "string list list \<Rightarrow> int \<Rightarrow> staker list result" where
  "csv_stakers rows n =
     (if n < 0 then Inl ValueError else rbind (mapM csv_row (take (nat n) rows)) (\<lambda>ss. Inr (concat ss)))"

definition online_fish_staker :: "key_store \<Rightarrow> string \<Rightarrow> staker" where
  "online_fish_staker ks f = \<lparr>nickname = basename f, staker_public_key = read_key ks f\<rparr>"

text \<open>The guard of the online fish looks at the number of offline files, as the source does.\<close>

definition load_stakers :: "key_store \<Rightarrow> ledger_args \<Rightarrow> staker list result" where
  "load_stakers ks args =
     (case staker_csv_rows args of
        Some rows \<Rightarrow> csv_stakers rows (num_fish_accounts args)
      | None \<Rightarrow>
          (let online_files = pub_files ks (online_fish_accounts_directory args);
               offline_files = pub_files ks (offline_fish_accounts_directory args)
           in if int (length offline_files) \<ge> num_fish_accounts args
              then Inr (map (online_fish_staker ks) (py_slice online_files 0 (num_fish_accounts args)))
              else Inl (not_enough ''Online Fish'' (num_fish_accounts args) (length online_files))))"

definition load_public_keys :: "key_store \<Rightarrow> ledger_args \<Rightarrow> ledger_public_keys result" where
  "load_public_keys ks args =
     rbind (mapM (load_service_key ks) (pub_files ks (service_accounts_directory args))) (\<lambda>svc.
     rbind (load_required_keys ks ''Offline Whale'' (offline_whale_accounts_directory args)
              (num_whale_accounts args)) (\<lambda>off_whales.
     rbind (load_required_keys ks ''Online Whale'' (online_whale_accounts_directory args)
              (num_whale_accounts args)) (\<lambda>on_whales.
     rbind (load_required_keys ks ''Offline Fish'' (offline_fish_accounts_directory args)
              (num_fish_accounts args)) (\<lambda>off_fish.
     rbind (load_stakers ks args) (\<lambda>ss.
       Inr \<lparr>service_keys = svc, online_whale_keys = on_whales, offline_whale_keys = off_whales,
            online_fish_keys = [], offline_fish_keys = off_fish, online_staker_keys = map staker_public_key ss,
            stakers = ss\<rparr>)))))"

definition annotate :: "account \<Rightarrow> string option \<Rightarrow> string option \<Rightarrow> string option \<Rightarrow> annotated_account" where
  "annotate a nick user delegate_user =
     account.extend a (annotated_account.fields nick user delegate_user)"

definition plain_account :: "string \<Rightarrow> string \<Rightarrow> string option \<Rightarrow> account" where
  "plain_account k b d = \<lparr>pk = k, sk = None, balance = b, delegate = d\<rparr>"

definition service_account :: "service_key \<Rightarrow> account" where
  "service_account s = plain_account (service_public_key s) (encode_nanocodas (service_balance s)) None"

definition fish_offline_balance :: string where
  "fish_offline_balance = encode_nanocodas (65500 * 10 ^ 9)"

definition fish_online_balance :: string where
  "fish_online_balance = encode_nanocodas (500 * 10 ^ 9)"

definition whale_offline_balance :: int where
  "whale_offline_balance = 66000 * 175 * 10 ^ 9"

type_synonym ledgers = "account list \<times> annotated_account list"

fun service_loop :: "service_key list \<Rightarrow> ledgers \<Rightarrow> ledgers" where
  "service_loop [] acc = acc"
| "service_loop (s # ss) (ledger, annotated) =
     service_loop ss
       (ledger @ [service_account s],
        annotated @ [annotate (service_account s) (Some (service s)) None None])"

text \<open>
  \<open>stakers[index]\<close> raises IndexError while the first entry is still being built, so the
  handler breaks out of the loop with nothing appended for that fish.
\<close>

fun fish_loop :: "staker list \<Rightarrow> nat \<Rightarrow> string list \<Rightarrow> ledgers \<Rightarrow> ledgers" where
  "fish_loop ss index [] acc = acc"
| "fish_loop ss index (fish # rest) (ledger, annotated) =
     (case py_get ss (int index) of
        Inl e \<Rightarrow> (ledger, annotated)
      | Inr s \<Rightarrow>
          (let offline = plain_account fish fish_offline_balance (Some (staker_public_key s));
               online = plain_account (staker_public_key s) fish_online_balance None
           in fish_loop ss (Suc index) rest
                (ledger @ [offline, online],
                 annotated @ [annotate offline (Some (nickname s)) None None,
                              annotate online (Some (nickname s)) None None])))"

fun whale_loop :: "string list \<Rightarrow> nat \<Rightarrow> string list \<Rightarrow> ledgers \<Rightarrow> ledgers" where
  "whale_loop online_keys index [] acc = acc"
| "whale_loop online_keys index (offline_whale # rest) (ledger, annotated) =
     (case py_get online_keys (int index) of
        Inl e \<Rightarrow> (ledger, annotated)
      | Inr k \<Rightarrow>
          (let offline = plain_account offline_whale (encode_nanocodas whale_offline_balance) (Some k);
               online = plain_account k (encode_nanocodas 0) None;
               user = ''CodaBP'' @ str_nat index
           in whale_loop online_keys (Suc index) rest
                (ledger @ [offline, online],
                 annotated @ [annotate offline None None (Some user),
                              annotate online None (Some user) None])))"

definition build_ledgers :: "ledger_public_keys \<Rightarrow> ledgers" where
  "build_ledgers keys =
     whale_loop (online_whale_keys keys) 0 (offline_whale_keys keys)
       (fish_loop (stakers keys) 0 (offline_fish_keys keys)
         (service_loop (service_keys keys) ([], [])))"

text \<open>The two files written: \<open>genesis_ledger.json\<close> and \<open>annotated_ledger.json\<close>.\<close>

definition generate_ledger :: "key_store \<Rightarrow> ledger_args \<Rightarrow> (ledger_file \<times> ledger_file) result" where
  "generate_ledger ks args =
     rbind (load_public_keys ks args) (\<lambda>keys.
       let (ledger, annotated_ledger) = build_ledgers keys
       in Inr (\<lparr>ledger_name = ''release'', num_accounts = 250, accounts = ledger\<rparr>,
               \<lparr>ledger_name = ''annotated_release'', num_accounts = 250, accounts = ledger\<rparr>))"

section \<open>Specification\<close>

text \<open>The amount a balance string denotes, in nanocodas.\<close>

definition nanocodas_of :: "string \<Rightarrow> nat" where
  "nanocodas_of s = nat_of_digits (filter (\<lambda>c. c \<noteq> CHR ''.'') s)"

definition fish_pair :: "string \<times> staker \<Rightarrow> account list" where
  "fish_pair p = [plain_account (fst p) fish_offline_balance (Some (staker_public_key (snd p))),
                  plain_account (staker_public_key (snd p)) fish_online_balance None]"

definition whale_pair :: "string \<times> string \<Rightarrow> account list" where
  "whale_pair p = [plain_account (fst p) (encode_nanocodas whale_offline_balance) (Some (snd p)),
                   plain_account (snd p) (encode_nanocodas 0) None]"

definition ledger_spec :: "ledger_public_keys \<Rightarrow> account list" where
  "ledger_spec keys =
     map service_account (service_keys keys) @
     concat (map fish_pair (zip (offline_fish_keys keys) (stakers keys))) @
     concat (map whale_pair (zip (offline_whale_keys keys) (online_whale_keys keys)))"

definition ledger_supply :: "account list \<Rightarrow> nat" where
  "ledger_supply as = sum_list (map (\<lambda>a. nanocodas_of (balance a)) as)"

text \<open>A small network, one key per directory, for the examples below.\<close>

definition demo_store :: key_store where
  "demo_store = \<lparr>pub_files = (\<lambda>d. if d = ''services'' then [] else [d @ ''/key.pub'']),
                 key_line = (\<lambda>f. f @ ''\<newline>'')\<rparr>"

definition demo_args :: ledger_args where
  "demo_args = \<lparr>service_accounts_directory = ''services'', num_whale_accounts = 1,
     online_whale_accounts_directory = ''onw'', offline_whale_accounts_directory = ''offw'',
     num_fish_accounts = 1, online_fish_accounts_directory = ''onf'',
     offline_fish_accounts_directory = ''offf'', staker_csv_rows = None\<rparr>"

section \<open>Balances\<close>

lemma digit_not_dot:
  assumes "d < 10"
  shows "digit_char d \<noteq> CHR ''.''"
proof
  assume "digit_char d = CHR ''.''"
  then have "(of_char (digit_char d) :: nat) = 46" by simp
  moreover have "(of_char (digit_char d) :: nat) = 48 + d"
    using assms by (simp add: digit_char_def of_char_of)
  ultimately show False by simp
qed

lemma str_nat_no_dot: "CHR ''.'' \<notin> set (str_nat n)"
proof (induction n rule: str_nat.induct)
  case (1 n)
  then show ?case
    using digit_not_dot [of n] digit_not_dot [of "n mod 10"]
    by (cases "n < 10") (auto simp: str_nat.simps [of n])
qed

lemma filter_no_dot: "filter (\<lambda>c. c \<noteq> CHR ''.'') (str_nat n) = str_nat n"
  using str_nat_no_dot [of n] by (intro filter_True) auto

lemma encode_split:
  assumes "0 \<le> n"
  obtains i f where "encode_nanocodas n = i @ ''.'' @ f" "i \<noteq> []" "length f = 9"
    "CHR ''.'' \<notin> set (i @ f)" "nat_of_digits (i @ f) = nat n"
proof -
  let ?s = "str_nat (nat n)"
  have s: "str_int n = ?s" using assms by (simp add: str_int_def)
  show ?thesis
  proof (cases "length ?s > 9")
    case True
    let ?i = "take (length ?s - 9) ?s" and ?f = "drop (length ?s - 9) ?s"
    have "encode_nanocodas n = ?i @ ''.'' @ ?f"
      using True by (simp add: encode_nanocodas_def s py_slice_0_neg Let_def)
    moreover have "?i \<noteq> []" "length ?f = 9" using True by auto
    ultimately show ?thesis
      using that [of ?i ?f] str_nat_no_dot [of "nat n"] by (simp only: append_take_drop_id) simp
  next
    case False
    let ?f = "replicate (9 - length ?s) (CHR ''0'') @ ?s"
    have "nat_of_digits (''0'' @ ?f) = nat n"
      using nat_of_digits_zeros [of "Suc (9 - length ?s)"]
      by (simp add: nat_of_digits_append digit_val_def flip: replicate_Suc append_Cons)
    then show ?thesis
      using that [of "''0''" ?f] False str_nat_no_dot [of "nat n"]
      by (simp add: encode_nanocodas_def s Let_def)
  qed
qed

lemma nanocodas_encode: "0 \<le> n \<Longrightarrow> nanocodas_of (encode_nanocodas n) = nat n"
proof -
  assume "0 \<le> n"
  then obtain i f where "encode_nanocodas n = i @ ''.'' @ f" "CHR ''.'' \<notin> set (i @ f)"
    "nat_of_digits (i @ f) = nat n" by (rule encode_split)
  moreover from this(2) have "filter (\<lambda>c. c \<noteq> CHR ''.'') i = i" "filter (\<lambda>c. c \<noteq> CHR ''.'') f = f"
    by (auto intro!: filter_True)
  ultimately show ?thesis by (simp add: nanocodas_of_def)
qed

section \<open>The loops and the specified ledger\<close>

lemma service_loop_spec:
  "fst (service_loop ss acc) = fst acc @ map service_account ss"
  by (induction ss acc rule: service_loop.induct) auto

lemma fish_loop_spec:
  "fst (fish_loop ss i fs acc) = fst acc @ concat (map fish_pair (zip fs (drop i ss)))"
proof (induction ss i fs acc rule: fish_loop.induct)
  case (2 ss i f fs L A)
  then show ?case
    by (cases "i < length ss")
      (auto simp: py_get_ok py_get_beyond fish_pair_def Let_def Cons_nth_drop_Suc [symmetric])
qed simp

lemma whale_loop_spec:
  "fst (whale_loop ks i ws acc) = fst acc @ concat (map whale_pair (zip ws (drop i ks)))"
proof (induction ks i ws acc rule: whale_loop.induct)
  case (2 ks i w ws L A)
  then show ?case
    by (cases "i < length ks")
      (auto simp: py_get_ok py_get_beyond whale_pair_def Let_def Cons_nth_drop_Suc [symmetric])
qed simp

lemma build_ledgers_spec: "fst (build_ledgers keys) = ledger_spec keys"
  by (simp add: build_ledgers_def ledger_spec_def whale_loop_spec fish_loop_spec service_loop_spec)

lemma generate_ledger_ok:
  "generate_ledger ks args = Inr (g, a) \<longleftrightarrow>
     (\<exists>keys. load_public_keys ks args = Inr keys \<and>
        g = \<lparr>ledger_name = ''release'', num_accounts = 250, accounts = ledger_spec keys\<rparr> \<and>
        a = \<lparr>ledger_name = ''annotated_release'', num_accounts = 250, accounts = ledger_spec keys\<rparr>)"
  using build_ledgers_spec
  by (auto simp: generate_ledger_def rbind_eq_Inr Let_def split: prod.splits) (metis fst_conv surj_pair)+

lemma ledger_supply_append [simp]: "ledger_supply (as @ bs) = ledger_supply as + ledger_supply bs"
  by (simp add: ledger_supply_def)

lemma supply_fish: "ledger_supply (concat (map fish_pair ps)) = 66000 * 10 ^ 9 * length ps"
  by (induction ps)
    (simp_all add: ledger_supply_def fish_pair_def plain_account_def fish_offline_balance_def
      fish_online_balance_def nanocodas_encode)

lemma supply_whales: "ledger_supply (concat (map whale_pair ps)) = 66000 * 175 * 10 ^ 9 * length ps"
  by (induction ps)
    (simp_all add: ledger_supply_def whale_pair_def plain_account_def whale_offline_balance_def
      nanocodas_encode)

lemma load_service_nonneg: "load_service_key ks f = Inr s \<Longrightarrow> 0 \<le> service_balance s"
  by (auto simp: load_service_key_def DEFAULT_SERVICES_def Let_def split: if_splits option.splits)

lemma load_public_keys_services:
  "load_public_keys ks args = Inr keys \<Longrightarrow>
     list_all2 (\<lambda>f s. load_service_key ks f = Inr s)
       (pub_files ks (service_accounts_directory args)) (service_keys keys)"
  by (auto simp: load_public_keys_def rbind_eq_Inr mapM_eq_Inr)

lemma supply_services:
  "list_all2 (\<lambda>f s. load_service_key ks f = Inr s) fs ss \<Longrightarrow>
     ledger_supply (map service_account ss) = nat (sum_list (map service_balance ss))"
proof (induction rule: list_all2_induct)
  case Nil
  show ?case by (simp add: ledger_supply_def)
next
  case (Cons f fs s ss)
  have "0 \<le> sum_list (map service_balance ss)"
    using Cons.hyps(2) by (induction rule: list_all2_induct) (auto dest: load_service_nonneg)
  with Cons load_service_nonneg [OF Cons.hyps(1)] show ?case
    by (simp add: ledger_supply_def service_account_def plain_account_def nanocodas_encode nat_add_distrib)
qed

lemma ledger_spec_delegate:
  assumes "x \<in> set (ledger_spec keys)" and "delegate x = Some d"
  shows "\<exists>y \<in> set (ledger_spec keys). pk y = d \<and> delegate y = None"
proof -
  from assms consider p where "p \<in> set (zip (offline_fish_keys keys) (stakers keys))" "x \<in> set (fish_pair p)"
    | p where "p \<in> set (zip (offline_whale_keys keys) (online_whale_keys keys))" "x \<in> set (whale_pair p)"
    by (auto simp: ledger_spec_def service_account_def plain_account_def)
  then show ?thesis
  proof cases
    case (1 p)
    then have "plain_account d fish_online_balance None \<in> set (fish_pair p)"
      using assms(2) by (auto simp: fish_pair_def plain_account_def)
    with 1 show ?thesis by (intro bexI [of _ "plain_account d fish_online_balance None"])
        (auto simp: ledger_spec_def plain_account_def)
  next
    case (2 p)
    then have "plain_account d (encode_nanocodas 0) None \<in> set (whale_pair p)"
      using assms(2) by (auto simp: whale_pair_def plain_account_def)
    with 2 show ?thesis by (intro bexI [of _ "plain_account d (encode_nanocodas 0) None"])
        (auto simp: ledger_spec_def plain_account_def)
  qed
qed

lemma demo_ledger:
  "\<exists>g a. generate_ledger demo_store demo_args = Inr (g, a) \<and>
     (\<exists>x \<in> set (accounts g). delegate x = Some ''onw/key.pub'')"
  by (simp add: generate_ledger_ok load_public_keys_def load_required_keys_def load_stakers_def
      demo_store_def demo_args_def Let_def py_slice_0_nonneg online_fish_staker_def read_key_def
      basename_def ledger_spec_def fish_pair_def whale_pair_def plain_account_def py_strip_def
      py_rstrip_def is_space_def)

section \<open>Properties\<close>

text \<open>
  C14. encode_nanocodas loses nothing: read back as a decimal with nine places, the
  string of any amount is that amount, and it always has a non-empty integer part and
  exactly nine places.
\<close>

theorem encode_nanocodas_roundtrip:
  "nanocodas_of (encode_nanocodas (int n)) = n \<and>
   (\<exists>i f. encode_nanocodas (int n) = i @ ''.'' @ f \<and> i \<noteq> [] \<and> length f = 9)"
  using encode_split [of "int n"] nanocodas_encode [of "int n"] by (metis nat_int of_nat_0_le_iff)

text \<open>
  C9. What the command writes: the service accounts, then for each offline fish that has
  a staker the fish delegating to it and the staker, then for each offline whale that
  has an online whale the same; keys without a partner get no account at all. The
  annotated file holds the same plain accounts.
\<close>

theorem generate_ledger_accounts:
  assumes "generate_ledger ks args = Inr (g, a)"
  shows "\<exists>keys. load_public_keys ks args = Inr keys \<and> accounts g = ledger_spec keys \<and>
           accounts a = ledger_spec keys \<and>
           length (accounts g) = length (service_keys keys)
             + 2 * min (length (offline_fish_keys keys)) (length (stakers keys))
             + 2 * min (length (offline_whale_keys keys)) (length (online_whale_keys keys))"
proof -
  have "length (concat (map fish_pair ps)) = 2 * length ps" for ps
    by (induction ps) (simp_all add: fish_pair_def)
  moreover have "length (concat (map whale_pair ps)) = 2 * length ps" for ps
    by (induction ps) (simp_all add: whale_pair_def)
  ultimately have "length (ledger_spec keys) = length (service_keys keys)
      + 2 * min (length (offline_fish_keys keys)) (length (stakers keys))
      + 2 * min (length (offline_whale_keys keys)) (length (online_whale_keys keys))" for keys
    unfolding ledger_spec_def length_append by simp
  with assms show ?thesis by (auto simp: generate_ledger_ok)
qed

theorem generate_ledger_accounts_witness:
  "\<exists>g a keys. generate_ledger demo_store demo_args = Inr (g, a) \<and>
     accounts g = ledger_spec keys \<and> accounts a = ledger_spec keys"
  using demo_ledger generate_ledger_accounts [of demo_store demo_args] by blast

text \<open>
  C11. Every delegate named in the generated ledger is itself an account of the ledger,
  and one that delegates to nobody.
\<close>

theorem delegates_are_accounts:
  assumes "generate_ledger ks args = Inr (g, a)" and "x \<in> set (accounts g)" and "delegate x = Some d"
  shows "\<exists>y \<in> set (accounts g). pk y = d \<and> delegate y = None"
  using assms ledger_spec_delegate by (auto simp: generate_ledger_ok)

theorem delegates_are_accounts_witness:
  "\<exists>g a. generate_ledger demo_store demo_args = Inr (g, a) \<and>
     (\<exists>y \<in> set (accounts g). pk y = ''onw/key.pub'' \<and> delegate y = None)"
  using demo_ledger delegates_are_accounts [of demo_store demo_args] by blast

text \<open>
  C12. The money in the generated ledger: the service balances, 66000 coda for each fish
  pair and 66000 * 175 coda for each whale pair, decoded from the balance strings.
\<close>

theorem ledger_total_supply:
  assumes "generate_ledger ks args = Inr (g, a)"
  shows "\<exists>keys. load_public_keys ks args = Inr keys \<and>
     ledger_supply (accounts g) = nat (sum_list (map service_balance (service_keys keys)))
       + 66000 * 10 ^ 9 * min (length (offline_fish_keys keys)) (length (stakers keys))
       + 66000 * 175 * 10 ^ 9 * min (length (offline_whale_keys keys)) (length (online_whale_keys keys))"
proof -
  obtain keys where k: "load_public_keys ks args = Inr keys" and g: "accounts g = ledger_spec keys"
    using assms by (auto simp: generate_ledger_ok)
  have "ledger_supply (map service_account (service_keys keys)) =
      nat (sum_list (map service_balance (service_keys keys)))"
    by (rule supply_services [OF load_public_keys_services [OF k]])
  with k show ?thesis by (simp add: g ledger_spec_def supply_fish supply_whales)
qed

theorem ledger_total_supply_witness:
  "\<exists>g a keys. generate_ledger demo_store demo_args = Inr (g, a) \<and>
     load_public_keys demo_store demo_args = Inr keys \<and>
     ledger_supply (accounts g) = nat (sum_list (map service_balance (service_keys keys)))
       + 66000 * 10 ^ 9 * min (length (offline_fish_keys keys)) (length (stakers keys))
       + 66000 * 175 * 10 ^ 9 * min (length (offline_whale_keys keys)) (length (online_whale_keys keys))"
  using demo_ledger ledger_total_supply [of demo_store demo_args] by blast

text \<open>
  C13. Without a staker CSV and with service files of known services, the command
  succeeds exactly when there are enough offline whale, online whale and offline fish
  keys. The number of online fish keys does not matter: the guard in front of them
  counts the offline files.
\<close>

theorem ledger_generated_iff:
  assumes "staker_csv_rows args = None"
    and "\<And>f. f \<in> set (pub_files ks (service_accounts_directory args)) \<Longrightarrow>
           hd (split_on (CHR ''_'') (basename f)) \<in> {''faucet'', ''echo''}"
  shows "(\<exists>files. generate_ledger ks args = Inr files) \<longleftrightarrow>
     num_whale_accounts args \<le> int (length (pub_files ks (offline_whale_accounts_directory args))) \<and>
     num_whale_accounts args \<le> int (length (pub_files ks (online_whale_accounts_directory args))) \<and>
     num_fish_accounts args \<le> int (length (pub_files ks (offline_fish_accounts_directory args)))"
proof -
  have "\<exists>s. load_service_key ks f = Inr s"
    if "f \<in> set (pub_files ks (service_accounts_directory args))" for f
    using assms(2) [OF that] by (auto simp: load_service_key_def DEFAULT_SERVICES_def Let_def)
  then obtain h where "f \<in> set (pub_files ks (service_accounts_directory args)) \<Longrightarrow>
      load_service_key ks f = Inr (h f)" for f
    by metis
  then have svc: "mapM (load_service_key ks) (pub_files ks (service_accounts_directory args)) =
      Inr (map h (pub_files ks (service_accounts_directory args)))"
    by (rule mapM_pure)
  have "(\<exists>files. generate_ledger ks args = Inr files) \<longleftrightarrow> (\<exists>keys. load_public_keys ks args = Inr keys)"
    by (simp add: split_paired_Ex generate_ledger_ok)
  also have "\<dots> \<longleftrightarrow>
     num_whale_accounts args \<le> int (length (pub_files ks (offline_whale_accounts_directory args))) \<and>
     num_whale_accounts args \<le> int (length (pub_files ks (online_whale_accounts_directory args))) \<and>
     num_fish_accounts args \<le> int (length (pub_files ks (offline_fish_accounts_directory args)))"
    using assms(1) svc
    by (auto simp: load_public_keys_def load_required_keys_def load_stakers_def rbind_eq_Inr Let_def
        split: if_splits)
  finally show ?thesis .
qed

theorem ledger_generated_iff_witness:
  "\<exists>files. generate_ledger
     (demo_store\<lparr>pub_files := (pub_files demo_store)(''onf'' := [])\<rparr>) demo_args = Inr files"
proof -
  let ?ks = "demo_store\<lparr>pub_files := (pub_files demo_store)(''onf'' := [])\<rparr>"
  have "(\<exists>files. generate_ledger ?ks demo_args = Inr files) \<longleftrightarrow>
     num_whale_accounts demo_args \<le> int (length (pub_files ?ks (offline_whale_accounts_directory demo_args))) \<and>
     num_whale_accounts demo_args \<le> int (length (pub_files ?ks (online_whale_accounts_directory demo_args))) \<and>
     num_fish_accounts demo_args \<le> int (length (pub_files ?ks (offline_fish_accounts_directory demo_args)))"
    by (rule ledger_generated_iff) (simp_all add: demo_store_def demo_args_def)
  then show ?thesis by (simp add: demo_store_def demo_args_def)
qed

end
