(* ===== verification/Py_Effects.thy ===== *)
theory Py_Effects
  imports Py_Strings
begin

text \<open>
  Statements that change a state and may raise. A statement is a function from the state to
  its outcome (an exception or a value) together with the state it leaves behind, so what a
  script did before an exception is still there afterwards. The file also has the contracts
  by which the statements of a script are composed: a relation every statement keeps
  (\<open>effect_frame\<close>) and a plan of events every statement carries out an initial part of
  (\<open>follows_plan\<close>).
\<close>

type_synonym ('s, 'a) eff = "'s \<Rightarrow> 'a result \<times> 's"

named_theorems eff_simps \<open>unfolding of statements\<close>

definition eret :: "'a \<Rightarrow> ('s, 'a) eff" where
  "eret x s = (Inr x, s)"

definition eraise :: "py_error \<Rightarrow> ('s, 'a) eff" where
  "eraise e s = (Inl e, s)"

definition ebind :: "('s, 'a) eff \<Rightarrow> ('a \<Rightarrow> ('s, 'b) eff) \<Rightarrow> ('s, 'b) eff" where
  "ebind m f s = (case m s of (Inl e, t) \<Rightarrow> (Inl e, t) | (Inr x, t) \<Rightarrow> f x t)"

definition eseq :: "('s, 'a) eff \<Rightarrow> ('s, 'b) eff \<Rightarrow> ('s, 'b) eff" where
  "eseq m n = ebind m (\<lambda>_. n)"

definition eget :: "('s \<Rightarrow> 'a) \<Rightarrow> ('s, 'a) eff" where
  "eget g s = (Inr (g s), s)"

definition emodify :: "('s \<Rightarrow> 's) \<Rightarrow> ('s, unit) eff" where
  "emodify f s = (Inr (), f s)"

text \<open>A pure computation that may raise.\<close>

definition elift :: "'a result \<Rightarrow> ('s, 'a) eff" where
  "elift r s = (r, s)"

text \<open>\<open>try: m; except Exception as e: h(e)\<close>; what \<open>m\<close> did before it raised stays done.\<close>

definition ecatch :: "('s, 'a) eff \<Rightarrow> (py_error \<Rightarrow> ('s, 'a) eff) \<Rightarrow> ('s, 'a) eff" where
  "ecatch m h s = (case m s of (Inl e, t) \<Rightarrow> h e t | (Inr x, t) \<Rightarrow> (Inr x, t))"

text \<open>\<open>for x in xs: f(x)\<close>\<close>

fun efor :: "'a list \<Rightarrow> ('a \<Rightarrow> ('s, unit) eff) \<Rightarrow> ('s, unit) eff" where
  "efor [] f = eret ()"
| "efor (x # xs) f = eseq (f x) (efor xs f)"

text \<open>\<open>list(map(f, xs))\<close>\<close>

fun emapM :: "('a \<Rightarrow> ('s, 'b) eff) \<Rightarrow> 'a list \<Rightarrow> ('s, 'b list) eff" where
  "emapM f [] = eret []"
| "emapM f (x # xs) = ebind (f x) (\<lambda>y. ebind (emapM f xs) (\<lambda>ys. eret (y # ys)))"

lemma eff_unfold [simp, eff_simps]:
  "eret x s = (Inr x, s)"
  "eraise e s = (Inl e, s)"
  "eget g s = (Inr (g s), s)"
  "emodify h s = (Inr (), h s)"
  "elift r s = (r, s)"
  by (simp_all add: eret_def eraise_def eget_def emodify_def elift_def)

lemma ebind_prim [simp, eff_simps]:
  "ebind (eret x) f s = f x s"
  "ebind (eraise e) f s = (Inl e, s)"
  "ebind (eget g) f s = f (g s) s"
  "ebind (emodify h) f2 s = f2 () (h s)"
  by (simp_all add: ebind_def)

lemma ebind_run:
  "m s = (Inr x, t) \<Longrightarrow> ebind m f s = f x t"
  "m s = (Inl e, t) \<Longrightarrow> ebind m f s = (Inl e, t)"
  by (simp_all add: ebind_def)

lemma eseq_run:
  "m s = (Inr x, t) \<Longrightarrow> eseq m n s = n t"
  "m s = (Inl e, t) \<Longrightarrow> eseq m n s = (Inl e, t)"
  by (simp_all add: eseq_def ebind_run)

text \<open>What a statement that returned has run through\<close>

lemma ebind_Inr_iff:
  "ebind m f s = (Inr y, t) \<longleftrightarrow> (\<exists>x u. m s = (Inr x, u) \<and> f x u = (Inr y, t))"
  by (cases "m s"; cases "fst (m s)") (auto simp: ebind_def)

lemma eseq_Inr_iff:
  "eseq m n s = (Inr y, t) \<longleftrightarrow> (\<exists>x u. m s = (Inr x, u) \<and> n u = (Inr y, t))"
  by (simp add: eseq_def ebind_Inr_iff)

lemmas run_iffs = ebind_Inr_iff eseq_Inr_iff

lemma emapM_pure:
  "(\<And>x. x \<in> set xs \<Longrightarrow> f x s = (Inr (g x), s)) \<Longrightarrow> emapM f xs s = (Inr (map g xs), s)"
  by (induction xs) (auto simp: ebind_def)

section \<open>What a statement keeps\<close>

text \<open>\<open>m\<close> leaves a state related by \<open>R\<close> to the one it started in, whether it raises or not.\<close>

definition framed :: "('s \<Rightarrow> 's \<Rightarrow> bool) \<Rightarrow> ('s, 'a) eff \<Rightarrow> bool" where
  "framed R m \<longleftrightarrow> (\<forall>s. R s (snd (m s)))"

lemma framedD:
  assumes "framed R m" and "m s = (r, t)"
  shows "R s t"
  using assms(1) [unfolded framed_def, rule_format, of s] assms(2) by simp

locale effect_frame =
  fixes R :: "'s \<Rightarrow> 's \<Rightarrow> bool"
  assumes frame_refl: "R s s"
    and frame_trans: "R s t \<Longrightarrow> R t u \<Longrightarrow> R s u"
begin

lemma framed_prim:
  "framed R (eret x)" "framed R (eraise e)" "framed R (eget g)" "framed R (elift r)"
  by (simp_all add: framed_def frame_refl)

lemma framed_modify: "(\<And>s. R s (h s)) \<Longrightarrow> framed R (emodify h)"
  by (simp add: framed_def)

lemma framed_bind:
  assumes "framed R m" and "\<And>x. framed R (f x)"
  shows "framed R (ebind m f)"
  unfolding framed_def
proof
  fix s
  obtain r t where "m s = (r, t)" by (cases "m s")
  moreover from assms(1) this have "R s t" by (rule framedD)
  moreover have "R t (snd (f x t))" for x using assms(2) by (simp add: framed_def)
  ultimately show "R s (snd (ebind m f s))"
    by (cases r) (auto simp: ebind_def intro: frame_trans)
qed

lemma framed_catch:
  assumes "framed R m" and "\<And>e. framed R (h e)"
  shows "framed R (ecatch m h)"
  unfolding framed_def
proof
  fix s
  obtain r t where "m s = (r, t)" by (cases "m s")
  moreover from assms(1) this have "R s t" by (rule framedD)
  moreover have "R t (snd (h e t))" for e using assms(2) by (simp add: framed_def)
  ultimately show "R s (snd (ecatch m h s))"
    by (cases r) (auto simp: ecatch_def intro: frame_trans)
qed

lemma framed_seq: "framed R m \<Longrightarrow> framed R n \<Longrightarrow> framed R (eseq m n)"
  by (simp add: eseq_def framed_bind)

lemma framed_for: "(\<And>x. x \<in> set xs \<Longrightarrow> framed R (f x)) \<Longrightarrow> framed R (efor xs f)"
  by (induction xs) (auto simp: framed_prim framed_seq)

lemma framed_mapM: "(\<And>x. x \<in> set xs \<Longrightarrow> framed R (f x)) \<Longrightarrow> framed R (emapM f xs)"
  by (induction xs) (auto intro!: framed_prim framed_bind)

lemma framed_if: "framed R m \<Longrightarrow> framed R n \<Longrightarrow> framed R (if b then m else n)"
  by simp

lemmas frame_rules = framed_prim framed_bind framed_seq framed_for framed_mapM framed_if

end

section \<open>What a statement does, as a plan of events\<close>

text \<open>
  \<open>stops_in plan evs ok\<close>: the events \<open>evs\<close>, each with its exit code, are a part of the plan
  carried out in order: everything with code 0 when the statement returned, and otherwise
  an initial part with code 0, at most the last event having another code.
\<close>

definition stops_in :: "'e list \<Rightarrow> ('e \<times> int) list \<Rightarrow> bool \<Rightarrow> bool" where
  "stops_in plan evs ok \<longleftrightarrow>
     (if ok then evs = map (\<lambda>c. (c, 0)) plan
      else (\<exists>fin rest. plan = fin @ rest \<and>
              (evs = map (\<lambda>c. (c, 0)) fin \<or>
               (\<exists>c code rest'. rest = c # rest' \<and> code \<noteq> 0 \<and>
                  evs = map (\<lambda>c. (c, 0)) fin @ [(c, code)]))))"

lemma stops_in_Nil: "stops_in [] [] ok"
  by (simp add: stops_in_def)

lemma stops_in_nothing: "stops_in plan [] False"
  by (simp add: stops_in_def)

lemma stops_in_failed: "code \<noteq> 0 \<Longrightarrow> stops_in (c # plan) [(c, code)] False"
  by (simp add: stops_in_def) (metis append_Nil list.simps(8))

lemma stops_in_extend: "stops_in plan evs False \<Longrightarrow> stops_in (plan @ more) evs False"
  unfolding stops_in_def by simp (metis append_Cons append_assoc)

lemma stops_in_append:
  assumes "stops_in plan evs True" and "stops_in more evs' ok"
  shows "stops_in (plan @ more) (evs @ evs') ok"
proof (cases ok)
  case True
  with assms show ?thesis by (simp add: stops_in_def)
next
  case False
  with assms(2) obtain fin rest where d: "more = fin @ rest"
    and "evs' = map (\<lambda>c. (c, 0)) fin \<or>
         (\<exists>c code rest'. rest = c # rest' \<and> code \<noteq> 0 \<and> evs' = map (\<lambda>c. (c, 0)) fin @ [(c, code)])"
    by (auto simp: stops_in_def)
  moreover have "evs = map (\<lambda>c. (c, 0)) plan" using assms(1) by (simp add: stops_in_def)
  ultimately have "(evs @ evs' = map (\<lambda>c. (c, 0)) (plan @ fin) \<or>
         (\<exists>c code rest'. rest = c # rest' \<and> code \<noteq> 0 \<and>
            evs @ evs' = map (\<lambda>c. (c, 0)) (plan @ fin) @ [(c, code)]))" by auto
  with d False show ?thesis unfolding stops_in_def by (metis append_assoc)
qed

definition returns :: "'a result \<Rightarrow> bool" where
  "returns r = (case r of Inl _ \<Rightarrow> False | Inr _ \<Rightarrow> True)"

lemma returns_simps [simp]: "returns (Inr x)" "\<not> returns (Inl e)"
  by (simp_all add: returns_def)

definition follows_plan ::
    "('s \<Rightarrow> ('e \<times> int) list) \<Rightarrow> ('s, 'a) eff \<Rightarrow> 'e list \<Rightarrow> bool" where
  "follows_plan events m plan \<longleftrightarrow>
     (\<forall>s r t. m s = (r, t) \<longrightarrow> (\<exists>evs. events t = events s @ evs \<and> stops_in plan evs (returns r)))"

lemma follows_planI:
  "(\<And>s r t. m s = (r, t) \<Longrightarrow> \<exists>evs. events t = events s @ evs \<and> stops_in plan evs (returns r)) \<Longrightarrow>
   follows_plan events m plan"
  by (simp add: follows_plan_def)

lemma follows_planD:
  assumes "follows_plan events m plan" and "m s = (r, t)"
  obtains evs where "events t = events s @ evs" and "stops_in plan evs (returns r)"
  using assms unfolding follows_plan_def by blast

lemma follows_silent: "(\<And>s. events (snd (m s)) = events s) \<Longrightarrow> follows_plan events m []"
  by (rule follows_planI) (metis append_Nil2 snd_conv stops_in_Nil)

lemma follows_bind:
  assumes "follows_plan events m plan" and "\<And>x. follows_plan events (f x) more"
  shows "follows_plan events (ebind m f) (plan @ more)"
proof (rule follows_planI)
  fix s r u
  assume run: "ebind m f s = (r, u)"
  obtain q t where m: "m s = (q, t)" by (cases "m s")
  obtain evs where e: "events t = events s @ evs" "stops_in plan evs (returns q)"
    by (rule follows_planD [OF assms(1) m])
  show "\<exists>evs. events u = events s @ evs \<and> stops_in (plan @ more) evs (returns r)"
  proof (cases q)
    case (Inl x)
    with run m have "r = Inl x" "u = t" by (auto simp: ebind_def)
    with e Inl show ?thesis using stops_in_extend by fastforce
  next
    case (Inr x)
    with run m have fx: "f x t = (r, u)" by (simp add: ebind_def)
    obtain evs' where "events u = events t @ evs'" "stops_in more evs' (returns r)"
      by (rule follows_planD [OF assms(2) fx])
    with e Inr show ?thesis using stops_in_append by fastforce
  qed
qed

lemma follows_seq:
  "follows_plan events m plan \<Longrightarrow> follows_plan events n more \<Longrightarrow> follows_plan events (eseq m n) (plan @ more)"
  by (simp add: eseq_def follows_bind)

lemma follows_silent_bind:
  "(\<And>s. events (snd (m s)) = events s) \<Longrightarrow> (\<And>x. follows_plan events (f x) plan) \<Longrightarrow>
   follows_plan events (ebind m f) plan"
  using follows_bind [OF follows_silent] by fastforce

lemma follows_silent_seq:
  "(\<And>s. events (snd (m s)) = events s) \<Longrightarrow> follows_plan events n plan \<Longrightarrow> follows_plan events (eseq m n) plan"
  by (simp add: eseq_def follows_silent_bind)

lemma follows_for:
  "(\<And>x. x \<in> set xs \<Longrightarrow> follows_plan events (f x) (plan x)) \<Longrightarrow>
   follows_plan events (efor xs f) (concat (map plan xs))"
  by (induction xs) (auto simp: follows_silent follows_seq)

end
