(* ===== verification/TestRunner.thy ===== *)
theory TestRunner
  imports Py_Effects
begin

text \<open>
  The integration test runner \<open>scripts/test.py\<close>: its tables of tests, the test filters, the
  \<open>Executive\<close> (dry runs, prompts, commands, artifacts), the \<open>CodaProject\<close> that builds and
  runs tests, and the four actions \<open>run\<close>, \<open>render\<close>, \<open>list\<close> and \<open>required-status\<close>.

  A statement works on a \<open>world\<close>: the current directory, the files, the environment, what
  has been printed, the keys the user will type, the commands run with their exit codes, and
  the mutable objects of the script (the module's \<open>small_curves_tests\<close> dictionary, which
  \<open>run\<close> and \<open>list\<close> update in place, the registered collectors and the current profile).
  What a \<open>bash\<close> command does to the files and what a jinja template renders to are the
  fields of \<open>tools\<close>; \<open>readchar\<close> delivers the typed keys one by one and raises when there
  are no more.
\<close>

section \<open>Files\<close>

type_synonym path = "string list"

datatype entry = Dir | File "string list"

type_synonym filesystem = "(path, entry) dict"

type_synonym test_table = "(string, string list) dict"

datatype collector =
    SingleArtifactCollector string string string "string option"
  | BatchArtifactCollector string string string

record world =
  cwd :: path
  fs :: filesystem
  environ :: "(string, string) dict"
  stdout :: "string list"
  typed :: "char list"
  commands :: "(string \<times> int) list"
  small_tests :: test_table
  artifact_collectors :: "collector list"
  current_profile :: "string option"

text \<open>The arguments with which \<open>render\<close> calls the circle CI template.\<close>

record circle_context =
  ctx_build_artifact_profiles :: "string list"
  ctx_unit_test_profiles :: "string list"
  ctx_unit_test_profiles_medium_curves :: "string list"
  ctx_small_curves_tests :: test_table
  ctx_medium_curves_and_other_tests :: test_table
  ctx_medium_curve_profiles :: "string list"
  ctx_compile_config_agnostic_profiles :: "string list"
  ctx_compile_config_agnostic_tests :: "string list"

record tools =
  call :: "string \<Rightarrow> path \<Rightarrow> (string, string) dict \<Rightarrow> filesystem \<Rightarrow> int \<times> filesystem"
  render_command :: "string \<Rightarrow> (string, string) dict \<Rightarrow> string"
  render_circle :: "filesystem \<Rightarrow> string \<Rightarrow> string \<Rightarrow> circle_context \<Rightarrow> string result"
  render_mergify :: "filesystem \<Rightarrow> string \<Rightarrow> string \<Rightarrow> string list \<Rightarrow> string result"
  time_now :: int

text \<open>\<open>p\<close> as an absolute path, without empty, \<open>.\<close> and \<open>..\<close> components.\<close>

definition path_step :: "path \<Rightarrow> string \<Rightarrow> path" where
  "path_step acc c =
     (if c = '''' \<or> c = ''.'' then acc else if c = ''..'' then butlast acc else acc @ [c])"

definition resolve :: "path \<Rightarrow> string \<Rightarrow> path" where
  "resolve here p =
     foldl path_step (if startswith p ''/'' then [] else here) (split_on (CHR ''/'') p)"

definition entry_at :: "filesystem \<Rightarrow> path \<Rightarrow> entry option" where
  "entry_at f p = (if p = [] then Some Dir else map_of f p)"

definition path_exists :: "string \<Rightarrow> world \<Rightarrow> bool" where
  "path_exists p w = (entry_at (fs w) (resolve (cwd w) p) \<noteq> None)"

definition print :: "string \<Rightarrow> (world, unit) eff" where
  "print msg = emodify (\<lambda>w. w\<lparr>stdout := stdout w @ [msg]\<rparr>)"

definition chdir :: "path \<Rightarrow> (world, unit) eff" where
  "chdir p w =
     (case entry_at (fs w) p of
        None \<Rightarrow> (Inl (PyException ''FileNotFoundError''), w)
      | Some (File _) \<Rightarrow> (Inl (PyException ''NotADirectoryError''), w)
      | Some Dir \<Rightarrow> (Inr (), w\<lparr>cwd := p\<rparr>))"

definition read_lines :: "string \<Rightarrow> (world, string list) eff" where
  "read_lines p w =
     (case entry_at (fs w) (resolve (cwd w) p) of
        None \<Rightarrow> (Inl (PyException ''FileNotFoundError''), w)
      | Some Dir \<Rightarrow> (Inl (PyException ''IsADirectoryError''), w)
      | Some (File ls) \<Rightarrow> (Inr ls, w))"

definition write_file :: "string \<Rightarrow> string list \<Rightarrow> (world, unit) eff" where
  "write_file p ls w =
     (let q = resolve (cwd w) p in
      if entry_at (fs w) q = Some Dir then (Inl (PyException ''IsADirectoryError''), w)
      else case entry_at (fs w) (butlast q) of
        None \<Rightarrow> (Inl (PyException ''FileNotFoundError''), w)
      | Some (File _) \<Rightarrow> (Inl (PyException ''NotADirectoryError''), w)
      | Some Dir \<Rightarrow> (Inr (), w\<lparr>fs := AList.update q (File ls) (fs w)\<rparr>))"

definition copyfile :: "string \<Rightarrow> string \<Rightarrow> (world, unit) eff" where
  "copyfile src dst =
     ebind (eget (\<lambda>w. resolve (cwd w) src = resolve (cwd w) dst \<and> path_exists src w)) (\<lambda>same.
     if same then eraise (PyException ''SameFileError'')
     else ebind (read_lines src) (write_file dst))"

definition os_remove :: "string \<Rightarrow> (world, unit) eff" where
  "os_remove p w =
     (let q = resolve (cwd w) p in
      case entry_at (fs w) q of
        None \<Rightarrow> (Inl (PyException ''FileNotFoundError''), w)
      | Some Dir \<Rightarrow> (Inl (PyException ''IsADirectoryError''), w)
      | Some (File _) \<Rightarrow> (Inr (), w\<lparr>fs := filter (\<lambda>e. fst e \<noteq> q) (fs w)\<rparr>))"

text \<open>\<open>os.makedirs\<close>: every missing directory on the way is made.\<close>

definition mkdir_step :: "path \<Rightarrow> (world, unit) eff" where
  "mkdir_step q w =
     (case entry_at (fs w) q of
        None \<Rightarrow> (Inr (), w\<lparr>fs := AList.update q Dir (fs w)\<rparr>)
      | Some Dir \<Rightarrow> (Inr (), w)
      | Some (File _) \<Rightarrow> (Inl (PyException ''NotADirectoryError''), w))"

definition makedirs :: "string \<Rightarrow> (world, unit) eff" where
  "makedirs p w = efor (prefixes (resolve (cwd w) p)) mkdir_step w"

text \<open>
  \<open>glob\<close> without its \<open>recursive\<close> flag: the pattern is matched component by component, \<open>*\<close>
  (and so \<open>**\<close>) standing for any text without a separator, hidden names only for a pattern
  that starts with a dot.
\<close>

fun wild :: "string \<Rightarrow> string \<Rightarrow> bool" where
  "wild [] s = (s = [])"
| "wild (p # ps) [] = (p = CHR ''*'' \<and> wild ps [])"
| "wild (p # ps) (c # s) =
     (if p = CHR ''*'' then wild ps (c # s) \<or> wild (p # ps) s else p = c \<and> wild ps s)"

definition glob_component :: "string \<Rightarrow> string \<Rightarrow> bool" where
  "glob_component pat name =
     (wild pat name \<and> (startswith name ''.'' \<longrightarrow> startswith pat ''.''))"

definition glob :: "filesystem \<Rightarrow> path \<Rightarrow> string \<Rightarrow> string list" where
  "glob f here pattern =
     map (\<lambda>p. py_join ''/'' (drop (length here) p))
       (filter (\<lambda>p. prefix here p \<and>
           list_all2 glob_component (split_on (CHR ''/'') pattern) (drop (length here) p))
         (dict_keys f))"

section \<open>Configuration\<close>

definition build_artifact_profiles :: "string list" where "build_artifact_profiles = []"

definition unit_test_profiles :: "string list" where "unit_test_profiles = []"

definition unit_test_profiles_medium_curves :: "string list" where
  "unit_test_profiles_medium_curves = []"

definition simple_tests :: "string list" where
  "simple_tests = [''full-test'', ''transaction-snark-profiler -k 1'']"

definition compile_config_agnostic_tests :: "string list" where
  "compile_config_agnostic_tests =
     [''coda-bootstrap-test'',
      ''coda-shared-state-test'',
      ''coda-peers-test'',
      ''coda-transitive-peers-test'',
      ''coda-block-production-test'',
      ''coda-shared-prefix-test -who-produces 0'',
      ''coda-shared-prefix-test -who-produces 1'',
      ''coda-change-snark-worker-test'',
      ''coda-delegation-test'']"

definition compile_config_agnostic_profiles :: "string list" where
  "compile_config_agnostic_profiles = [''dev'']"

definition required_config_agnostic_tests :: test_table where
  "required_config_agnostic_tests =
     [(''dev'', [''coda-bootstrap-test'', ''coda-shared-state-test'', ''coda-delegation-test''])]"

text \<open>The value \<open>small_curves_tests\<close> has when the script starts.\<close>

definition small_curves_tests :: test_table where
  "small_curves_tests =
     [(''test_postake_snarkless'', simple_tests),
      (''test_postake_split'', [''coda-shared-prefix-multiproducer-test -num-block-producers 2'']),
      (''test_postake'', []),
      (''test_postake_catchup'', [''coda-restart-node-test'']),
      (''test_postake_three_producers'', [''coda-txns-and-restart-non-producers'']),
      (''test_postake_five_even_txns'',
        [''coda-shared-prefix-multiproducer-test -num-block-producers 5 -payments''])]"

definition medium_curves_and_other_tests :: test_table where
  "medium_curves_and_other_tests =
     [(''test_postake_medium_curves'', simple_tests),
      (''test_postake_snarkless_medium_curves'', simple_tests),
      (''test_postake_split_medium_curves'',
        [''coda-shared-prefix-multiproducer-test -num-block-producers 2'']),
      (''test_postake_full_epoch'', [''full-test''])]"

definition archive_processor_test :: test_table where
  "archive_processor_test = [(''test_archive_processor'', [''coda-archive-processor-test''])]"

definition medium_curve_profiles_full :: "string list" where
  "medium_curve_profiles_full =
     [''test_postake_medium_curves'', ''testnet_postake_medium_curves'',
      ''testnet_postake_many_producers_medium_curves'']"

definition ci_excludes :: "string list" where
  "ci_excludes = [''ci/circleci: lint-opt'']"

definition required_excludes :: "string list" where
  "required_excludes =
     [''test_postake_five_even_txns:*'',
      ''test_postake_catchup:*'',
      ''test_postake_three_producers:*'',
      ''test_postake_split_snarkless:*'',
      ''test_postake:*'']"

definition extra_required_status_checks :: "string list" where
  "extra_required_status_checks = [''buildkite/mina/pr'', ''buildkite/mina-pr-gating'']"

definition not_required_status_checks :: "string list" where
  "not_required_status_checks = [''ci/circleci: build-macos'']"

section \<open>Utilities\<close>

definition panic :: "string \<Rightarrow> (world, 'a) eff" where
  "panic msg = eseq (print (''ERROR: '' @ msg)) (eraise (SystemExit 1))"

text \<open>
  A \<open>TempWorkingDirectory\<close> object has a \<open>prev_path\<close>, passed in and handed back here;
  \<open>with_directory\<close> is the \<open>with\<close> statement on a new object.
\<close>

definition temp_enter :: "string \<Rightarrow> path option \<Rightarrow> (world, path option) eff" where
  "temp_enter path prev_path =
     (if prev_path \<noteq> None then panic ''cannot enter TempWorkingDirectory in a nested fashion''
      else ebind (eget cwd) (\<lambda>here.
        ebind (eget (\<lambda>w. resolve (cwd w) path)) (\<lambda>p.
        eseq (chdir p) (eret (Some here)))))"

definition temp_exit :: "path option \<Rightarrow> (world, path option) eff" where
  "temp_exit prev_path =
     (case prev_path of
        None \<Rightarrow> panic ''cannot exit TempWorkingDirectory that has not been entered''
      | Some p \<Rightarrow> eseq (chdir p) (eret None))"

definition with_directory :: "string \<Rightarrow> (world, 'a) eff \<Rightarrow> (world, 'a) eff" where
  "with_directory path body =
     ebind (temp_enter path None) (\<lambda>prev w.
       case body w of (r, t) \<Rightarrow>
         (case temp_exit prev t of (Inl e, u) \<Rightarrow> (Inl e, u) | (Inr _, u) \<Rightarrow> (r, u)))"

definition relative_glob :: "string \<Rightarrow> string \<Rightarrow> (world, string list) eff" where
  "relative_glob root_dir pattern =
     with_directory root_dir (eget (\<lambda>w. glob (fs w) (cwd w) pattern))"

section \<open>Test patterns and filtering\<close>

definition test_pattern :: "string option \<Rightarrow> string \<Rightarrow> bool" where
  "test_pattern pattern s =
     (case pattern of
        None \<Rightarrow> False
      | Some p \<Rightarrow> p \<noteq> '''' \<and> (p = ''*'' \<or> p = s))"

type_synonym test_filter = "string option \<times> string option"

definition parse_filter :: "string \<Rightarrow> (world, test_filter) eff" where
  "parse_filter pattern_src =
     (if pattern_src = '''' then eret (None, None)
      else if pattern_src = ''*'' then eret (Some ''*'', Some ''*'')
      else case split_on (CHR '':'') pattern_src of
        [profile, test] \<Rightarrow> eret (Some profile, Some test)
      | _ \<Rightarrow> panic ''invalid filter syntax'')"

definition pattern_matches :: "string \<Rightarrow> string \<Rightarrow> test_filter \<Rightarrow> bool" where
  "pattern_matches profile test pat =
     (test_pattern (fst pat) profile \<and> test_pattern (snd pat) test)"

definition keep :: "test_filter list \<Rightarrow> test_filter list \<Rightarrow> string \<Rightarrow> string \<Rightarrow> bool" where
  "keep includes excludes profile test =
     (list_all (pattern_matches profile test) includes \<and>
      \<not> list_ex (pattern_matches profile test) excludes)"

definition select_tests :: "(string \<Rightarrow> string \<Rightarrow> bool) \<Rightarrow> test_table \<Rightarrow> test_table" where
  "select_tests kp permutations =
     foldl (\<lambda>res (profile, tests).
         foldl (\<lambda>res test. if kp profile test then dict_modify profile [] (\<lambda>l. l @ [test]) res else res)
           res tests)
       [] permutations"

definition filter_tests ::
    "test_table \<Rightarrow> string list \<Rightarrow> string list \<Rightarrow> test_table option \<Rightarrow> (world, test_table) eff" where
  "filter_tests tests includes_filters excludes_filters permutations =
     ebind (emapM parse_filter includes_filters) (\<lambda>includes.
     ebind (emapM parse_filter excludes_filters) (\<lambda>excludes.
     eret (select_tests (keep includes excludes)
       (case permutations of None \<Rightarrow> tests | Some p \<Rightarrow> p))))"

section \<open>Artifact collection\<close>

definition decorate_target_path :: "string \<Rightarrow> string \<Rightarrow> string" where
  "decorate_target_path ctx target_path =
     path_join (dirname target_path) (ctx @ ''--'' @ target_path)"

text \<open>\<open>artifact.replace('/', '--')\<close>\<close>

definition flatten_name :: "string \<Rightarrow> string" where
  "flatten_name artifact = py_join ''--'' (split_on (CHR ''/'') artifact)"

fun collect :: "collector \<Rightarrow> string \<Rightarrow> (world, unit) eff" where
  "collect (SingleArtifactCollector root_dir ctx src_name dst_name) destination =
     (let dst = (case dst_name of
                   None \<Rightarrow> basename src_name
                 | Some d \<Rightarrow> if d = '''' then basename src_name else d)
      in copyfile (path_join root_dir src_name)
           (path_join destination (decorate_target_path ctx dst)))"
| "collect (BatchArtifactCollector root_dir ctx pattern) destination =
     ebind (relative_glob root_dir pattern) (\<lambda>artifacts.
     efor artifacts (\<lambda>artifact.
       copyfile (path_join root_dir artifact)
         (path_join destination (decorate_target_path ctx (flatten_name artifact)))))"

section \<open>The Executive\<close>

record run_args =
  non_interactive :: bool
  yes :: bool
  out_dir :: string
  collect_artifacts_flag :: bool
  dry_run :: bool
  excludes_patterns :: "string list"
  no_build_flag :: bool
  includes_patterns :: "string list"

text \<open>The values the parser gives when no option is on the command line.\<close>

definition default_run_args :: run_args where
  "default_run_args =
     \<lparr>non_interactive = False, yes = False, out_dir = ''test_output'',
      collect_artifacts_flag = False, dry_run = False, excludes_patterns = [],
      no_build_flag = False, includes_patterns = [''*'']\<rparr>"

record executive =
  is_dry :: bool
  ex_non_interactive :: bool
  force_yes :: bool
  should_collect_artifacts :: bool
  artifact_directory :: string

definition mk_executive :: "run_args \<Rightarrow> string \<Rightarrow> executive" where
  "mk_executive args directory =
     \<lparr>is_dry = dry_run args, ex_non_interactive = non_interactive args, force_yes = yes args,
      should_collect_artifacts = collect_artifacts_flag args, artifact_directory = directory\<rparr>"

definition ex_do :: "executive \<Rightarrow> string \<Rightarrow> (world, unit) eff \<Rightarrow> (world, unit) eff" where
  "ex_do ex name f = (if is_dry ex then print name else f)"

definition collect_artifacts :: "executive \<Rightarrow> (world, unit) eff" where
  "collect_artifacts ex =
     (if should_collect_artifacts ex
      then ex_do ex ''collect artifacts''
        (ebind (eget artifact_collectors) (\<lambda>cs.
          efor cs (\<lambda>c. collect c (artifact_directory ex))))
      else eret ())"

definition fail :: "executive \<Rightarrow> string \<Rightarrow> (world, 'a) eff" where
  "fail ex msg = eseq (collect_artifacts ex) (panic msg)"

definition register_artifact_collector :: "collector \<Rightarrow> (world, unit) eff" where
  "register_artifact_collector c =
     emodify (\<lambda>w. w\<lparr>artifact_collectors := artifact_collectors w @ [c]\<rparr>)"

text \<open>\<open>subprocess.call(['bash', '-c', cmd])\<close>\<close>

definition call_bash :: "tools \<Rightarrow> string \<Rightarrow> (world, int) eff" where
  "call_bash env cmd w =
     (case call env cmd (cwd w) (environ w) (fs w) of
        (code, f) \<Rightarrow> (Inr code, w\<lparr>fs := f, commands := commands w @ [(cmd, code)]\<rparr>))"

definition show_log_tail :: "string option \<Rightarrow> (world, unit) eff" where
  "show_log_tail lg =
     (case lg of
        None \<Rightarrow> eret ()
      | Some l \<Rightarrow> if l = '''' then eret ()
          else ebind (read_lines l) (\<lambda>ls. efor (py_slice ls (-200) (int (length ls))) print))"

definition run_cmd ::
    "tools \<Rightarrow> executive \<Rightarrow> string \<Rightarrow> string \<Rightarrow> string option \<Rightarrow> (world, unit) eff" where
  "run_cmd env ex cmd directory lg =
     ex_do ex (''$ '' @ cmd)
       (with_directory directory
         (ebind (call_bash env cmd) (\<lambda>code.
           if code \<noteq> 0
           then eseq (show_log_tail lg) (fail ex (''command failed: '' @ cmd))
           else eret ())))"

text \<open>The loop of \<open>prompt\<close>, over the keys still to be typed and the lines printed so far.\<close>

fun ask :: "string \<Rightarrow> char list \<Rightarrow> string list \<Rightarrow> bool result \<times> char list \<times> string list" where
  "ask msg [] shown = (Inl (PyException ''readchar''), [], shown @ [msg @ '' [y/n] ''])"
| "ask msg (c # cs) shown =
     (let shown' = shown @ [msg @ '' [y/n] ''] in
      if c = CHR ''y'' \<or> c = CHR ''Y'' then (Inr True, cs, shown')
      else if c = CHR ''n'' \<or> c = CHR ''N'' then (Inr False, cs, shown')
      else ask msg cs (shown' @ [''  invalid input'']))"

definition prompt :: "executive \<Rightarrow> string \<Rightarrow> bool \<Rightarrow> (world, bool) eff" where
  "prompt ex msg dflt w =
     (if force_yes ex then (Inr True, w)
      else if ex_non_interactive ex then (Inr dflt, w)
      else case ask msg (typed w) (stdout w) of
        (r, keys, shown) \<Rightarrow> (r, w\<lparr>stdout := shown, typed := keys\<rparr>))"

text \<open>\<open>'... %sdirectory' % context\<close>, after \<open>context += ' '\<close> unless it is empty or \<open>None\<close>.\<close>

definition context_text :: "string option \<Rightarrow> string" where
  "context_text ctx =
     (case ctx of None \<Rightarrow> ''None'' | Some c \<Rightarrow> if c = '''' then '''' else c @ '' '')"

definition remove_directory :: "executive \<Rightarrow> string \<Rightarrow> string option \<Rightarrow> (world, unit) eff" where
  "remove_directory ex directory ctx =
     ex_do ex (''remove '' @ context_text ctx @ ''directory'')
       (ebind (eget (path_exists directory)) (\<lambda>b. if b then os_remove directory else eret ()))"

definition make_directory :: "executive \<Rightarrow> string \<Rightarrow> string option \<Rightarrow> (world, unit) eff" where
  "make_directory ex directory ctx =
     ex_do ex (''make '' @ context_text ctx @ ''directory'')
       (ebind (eget (path_exists directory)) (\<lambda>b. if \<not> b then makedirs directory else eret ()))"

definition quoted :: "string \<Rightarrow> string" where
  "quoted s = [CHR 0x22] @ s @ [CHR 0x22]"

definition reserve_file :: "executive \<Rightarrow> string \<Rightarrow> (world, unit) eff" where
  "reserve_file ex path =
     ebind (eget (path_exists path)) (\<lambda>b.
     if b then
       ebind (prompt ex (quoted path @ '' already exits. Should it be overwritten?'') False)
         (\<lambda>overwrite. if overwrite then remove_directory ex path (Some ''old test logs'')
                else fail ex (''Refusing to overwrite '' @ quoted path))
     else eret ())"

section \<open>The project\<close>

definition logproc_exe_path :: string where
  "logproc_exe_path = ''src/app/logproc/logproc.exe''"

definition coda_exe_path :: string where
  "coda_exe_path = ''src/app/cli/src/mina.exe''"

record coda_project =
  proj_root :: string
  build_path :: string

definition mk_project :: "string \<Rightarrow> coda_project" where
  "mk_project rt = \<lparr>proj_root = rt, build_path = path_join rt ''_build/default''\<rparr>"

definition coda_exe :: "coda_project \<Rightarrow> string" where
  "coda_exe proj = path_join (build_path proj) coda_exe_path"

definition logproc_exe :: "coda_project \<Rightarrow> string" where
  "logproc_exe proj = path_join (build_path proj) logproc_exe_path"

definition set_profile :: "string \<Rightarrow> (world, unit) eff" where
  "set_profile profile = emodify (\<lambda>w. w\<lparr>current_profile := Some profile\<rparr>)"

definition build_command :: "string \<Rightarrow> string \<Rightarrow> string" where
  "build_command build_log profile =
     ''dune build --display=progress --profile='' @ profile @ '' '' @ coda_exe_path @ '' '' @
       logproc_exe_path @ '' 2> '' @ build_log"

definition build ::
    "tools \<Rightarrow> executive \<Rightarrow> coda_project \<Rightarrow> string \<Rightarrow> string \<Rightarrow> (world, unit) eff" where
  "build env ex proj build_log profile =
     eseq (run_cmd env ex (build_command build_log profile) (proj_root proj) (Some build_log))
       (set_profile profile)"

definition no_build :: "string \<Rightarrow> (world, unit) eff" where
  "no_build profile = eseq (print ''Skipping build'') (set_profile profile)"

definition cmd_template :: string where
  "cmd_template =
     ''set -o pipefail && {{coda}} integration-test {{test}} 2>&1 | tee '' @ [CHR 0x27] @
     ''{{log}}'' @ [CHR 0x27] @ '' | {{logproc}} -f '' @ [CHR 0x27] @ ''.level in ['' @
     py_join '', '' (map quoted [''Warn'', ''Error'', ''Fatal'', ''Faulty_peer'']) @ '']'' @ [CHR 0x27]"

definition test_command :: "tools \<Rightarrow> coda_project \<Rightarrow> string \<Rightarrow> string \<Rightarrow> string" where
  "test_command env proj test test_log =
     render_command env cmd_template
       [(''log'', test_log), (''coda'', coda_exe proj), (''logproc'', logproc_exe proj), (''test'', test)]"

definition run_test ::
    "tools \<Rightarrow> executive \<Rightarrow> coda_project \<Rightarrow> string \<Rightarrow> string \<Rightarrow> (world, unit) eff" where
  "run_test env ex proj test test_log =
     ebind (eget current_profile) (\<lambda>p.
     eseq (if p = None then fail ex ''run_test initiated without building'' else eret ())
       (run_cmd env ex (test_command env proj test test_log) ''.'' (Some test_log)))"

section \<open>The actions\<close>

record out_directory =
  out_root :: string
  build_logs :: string
  test_logs :: string
  test_configs :: string
  artifacts :: string

definition mk_out_directory :: "string \<Rightarrow> out_directory" where
  "mk_out_directory rt =
     \<lparr>out_root = rt, build_logs = path_join rt ''build_logs'', test_logs = path_join rt ''test_logs'',
      test_configs = path_join rt ''test_configs'', artifacts = path_join rt ''artifacts''\<rparr>"

definition all_directories :: "out_directory \<Rightarrow> string list" where
  "all_directories d = [out_root d, build_logs d, test_logs d, test_configs d, artifacts d]"

definition out_initialize :: "executive \<Rightarrow> out_directory \<Rightarrow> (world, unit) eff" where
  "out_initialize ex d = efor (all_directories d) (\<lambda>dir. make_directory ex dir None)"

text \<open>
  \<open>all_tests = small_curves_tests\<close> is the module's dictionary itself, so the updates that
  follow change it.
\<close>

definition update_small :: "test_table \<Rightarrow> (world, unit) eff" where
  "update_small table = emodify (\<lambda>w. w\<lparr>small_tests := dict_update (small_tests w) table\<rparr>)"

text \<open>\<open>os.getcwd()\<close>\<close>

definition cwd_string :: "path \<Rightarrow> string" where
  "cwd_string p = ''/'' @ py_join ''/'' p"

definition announce_tests :: "tools \<Rightarrow> test_table \<Rightarrow> (world, unit) eff" where
  "announce_tests env all_tests =
     eseq (print ''Preparing to run the following tests:'')
    (eseq (efor all_tests (\<lambda>(profile, tests).
             eseq (print (''- '' @ profile @ '':'')) (efor tests (\<lambda>test. print (''  - '' @ test)))))
    (eseq (print ''======================================'')
    (eseq (print (''============= '' @ str_int (time_now env) @ '' =============''))
          (print ''======================================''))))"

definition build_profile ::
    "tools \<Rightarrow> run_args \<Rightarrow> executive \<Rightarrow> coda_project \<Rightarrow> out_directory \<Rightarrow> string \<Rightarrow> (world, unit) eff" where
  "build_profile env args ex proj d profile =
     (if no_build_flag args then no_build profile
      else let build_log_name = profile @ ''.log'';
               build_log = path_join (build_logs d) build_log_name in
        eseq (reserve_file ex build_log)
       (eseq (register_artifact_collector
               (SingleArtifactCollector (build_logs d) ''build'' build_log_name None))
             (build env ex proj build_log profile)))"

definition run_one_test ::
    "tools \<Rightarrow> executive \<Rightarrow> coda_project \<Rightarrow> out_directory \<Rightarrow> string \<Rightarrow> string \<Rightarrow> (world, unit) eff" where
  "run_one_test env ex proj d profile test =
     (let test_log_name = profile @ ''--'' @ test @ ''.log'';
          test_log = path_join (test_logs d) test_log_name in
        eseq (print (''  - '' @ test))
       (eseq (reserve_file ex test_log)
       (eseq (register_artifact_collector
               (SingleArtifactCollector (test_logs d) ''test-main'' test_log_name None))
       (eseq (register_artifact_collector
               (BatchArtifactCollector (test_configs d)
                 (''test-node--'' @ profile @ ''--'' @ test) ''**/*.log''))
             (run_test env ex proj test test_log)))))"

definition run_profile ::
    "tools \<Rightarrow> run_args \<Rightarrow> executive \<Rightarrow> coda_project \<Rightarrow> out_directory \<Rightarrow> string \<times> string list \<Rightarrow>
     (world, unit) eff" where
  "run_profile env args ex proj d pt =
     eseq (print (''- '' @ fst pt @ '':''))
    (eseq (build_profile env args ex proj d (fst pt))
          (efor (snd pt) (run_one_test env ex proj d (fst pt))))"

definition run_selected :: "tools \<Rightarrow> run_args \<Rightarrow> test_table \<Rightarrow> (world, unit) eff" where
  "run_selected env args all_tests =
     (let d = mk_out_directory (out_dir args);
          ex = mk_executive args (artifacts d);
          proj = mk_project ''.'' in
        eseq (out_initialize ex d)
       (eseq (emodify (\<lambda>w. w\<lparr>environ := AList.update ''CODA_INTEGRATION_TEST_DIR''
                 (path_join (cwd_string (cwd w)) (test_configs d)) (environ w)\<rparr>))
       (eseq (announce_tests env all_tests)
       (eseq (efor all_tests (run_profile env args ex proj d))
       (eseq (collect_artifacts ex)
             (print ''Testing successful''))))))"

definition selected_tests :: "run_args \<Rightarrow> (world, test_table) eff" where
  "selected_tests args =
     eseq (update_small medium_curves_and_other_tests)
    (eseq (update_small archive_processor_test)
    (eseq (update_small (map (\<lambda>profile. (profile, compile_config_agnostic_tests))
              compile_config_agnostic_profiles))
    (ebind (eget small_tests) (\<lambda>tests.
      filter_tests tests (includes_patterns args) (excludes_patterns args) None))))"

definition run :: "tools \<Rightarrow> run_args \<Rightarrow> (world, unit) eff" where
  "run env args =
     ebind (selected_tests args) (\<lambda>all_tests.
     if all_tests = [] then
       if includes_patterns args \<noteq> [''*'']
       then panic ''no tests were selected -- includes pattern did not match any known tests''
       else panic ''no tests were selected -- excludes is too restrictive''
     else run_selected env args all_tests)"

definition status_jobs :: "test_table \<Rightarrow> string list" where
  "status_jobs tests =
     map (\<lambda>profile. ''test--'' @ profile) (dict_keys tests) @
     map (\<lambda>profile. ''build-artifacts--'' @ profile) build_artifact_profiles @
     concat (map (\<lambda>(profile, names). map (\<lambda>name. ''test--'' @ profile @ ''--'' @ name) names)
       required_config_agnostic_tests)"

definition get_required_status :: "(world, string list) eff" where
  "get_required_status =
     ebind (eget small_tests) (\<lambda>small.
     ebind (filter_tests small [''*''] ci_excludes None) (\<lambda>permutations.
     ebind (filter_tests small [''*''] required_excludes (Some permutations)) (\<lambda>tests.
     eret (filter (\<lambda>el. el \<notin> set not_required_status_checks)
       (map (\<lambda>job. ''ci/circleci: '' @ job) (status_jobs tests) @ extra_required_status_checks)))))"

definition required_status :: "(world, unit) eff" where
  "required_status = ebind get_required_status (\<lambda>checks. print (py_join ''\<newline>'' checks))"

text \<open>
  \<open>os.path.splitext\<close>: the extension starts at the last dot of the last component, leading
  dots of that component not counted.
\<close>

definition splitext :: "string \<Rightarrow> string \<times> string" where
  "splitext p =
     (let b = basename p;
          dir = take (length p - length b) p;
          lead = takeWhile (\<lambda>c. c = CHR ''.'') b;
          body = drop (length lead) b;
          ext = rev (takeWhile (\<lambda>c. c \<noteq> CHR ''.'') (rev body))
      in if CHR ''.'' \<in> set body
         then (dir @ lead @ take (length body - length ext - 1) body, CHR ''.'' # ext)
         else (p, ''''))"

record render_args =
  check :: bool
  circle_jinja_file :: string
  mergify_jinja_file :: string

text \<open>The end of each half of \<open>render\<close>: compare the file with the rendered text, or write it.\<close>

definition check_or_write :: "bool \<Rightarrow> string \<Rightarrow> string \<Rightarrow> string \<Rightarrow> (world, unit) eff" where
  "check_or_write chk output_file rendered msg =
     (if chk then ebind (read_lines output_file) (\<lambda>ls. if concat ls \<noteq> rendered then panic msg else eret ())
      else write_file output_file [rendered])"

definition circle_arguments :: "test_table \<Rightarrow> circle_context" where
  "circle_arguments tests =
     \<lparr>ctx_build_artifact_profiles = build_artifact_profiles,
      ctx_unit_test_profiles = unit_test_profiles,
      ctx_unit_test_profiles_medium_curves = unit_test_profiles_medium_curves,
      ctx_small_curves_tests = tests,
      ctx_medium_curves_and_other_tests = medium_curves_and_other_tests,
      ctx_medium_curve_profiles = medium_curve_profiles_full,
      ctx_compile_config_agnostic_profiles = compile_config_agnostic_profiles,
      ctx_compile_config_agnostic_tests = compile_config_agnostic_tests\<rparr>"

definition render_circle_file :: "tools \<Rightarrow> render_args \<Rightarrow> (world, unit) eff" where
  "render_circle_file env args =
     (let f = circle_jinja_file args; (output_file, ext) = splitext f in
      if ext \<noteq> ''.jinja'' then eraise AssertionError
      else ebind (eget small_tests) (\<lambda>small.
        ebind (filter_tests small [''*''] ci_excludes None) (\<lambda>tests.
        ebind (\<lambda>w. (render_circle env (fs w) (dirname f) (basename f) (circle_arguments tests), w))
          (\<lambda>rendered. check_or_write (check args) output_file rendered
             ''circle CI configuration is out of date, re-render it''))))"

definition render_mergify_file :: "tools \<Rightarrow> render_args \<Rightarrow> (world, unit) eff" where
  "render_mergify_file env args =
     (let f = mergify_jinja_file args; (output_file, ext) = splitext f in
      if ext \<noteq> ''.jinja'' then eraise AssertionError
      else ebind get_required_status (\<lambda>checks.
        ebind (\<lambda>w. (render_mergify env (fs w) (dirname f) (basename f) checks, w))
          (\<lambda>rendered. check_or_write (check args) output_file rendered
             ''mergify configuration is out of date, re-render it'')))"

definition render :: "tools \<Rightarrow> render_args \<Rightarrow> (world, unit) eff" where
  "render env args = eseq (render_circle_file env args) (render_mergify_file env args)"

definition list_tests :: "(world, unit) eff" where
  "list_tests =
     eseq (update_small medium_curves_and_other_tests)
    (ebind (eget small_tests) (\<lambda>all_tests.
      efor (dict_keys all_tests) (\<lambda>profile.
        eseq (print (''- '' @ profile))
       (ebind (eget (\<lambda>w. map_of (small_tests w) profile)) (\<lambda>entry.
         case entry of
           None \<Rightarrow> eraise (KeyError profile)
         | Some tests \<Rightarrow> efor tests (\<lambda>test. print (''  - '' @ test)))))))"

text \<open>The parsed command line: the subcommand with its arguments, or none.\<close>

datatype cli = RunCmd run_args | RenderCmd render_args | ListCmd | RequiredStatusCmd | NoAction

fun main :: "tools \<Rightarrow> cli \<Rightarrow> (world, unit) eff" where
  "main env (RunCmd args) = run env args"
| "main env (RenderCmd args) = render env args"
| "main env ListCmd = list_tests"
| "main env RequiredStatusCmd = required_status"
| "main env NoAction = eseq (print ''Unrecognized action'') (eraise (SystemExit 1))"

text \<open>The world when the script starts.\<close>

definition start_world :: "path \<Rightarrow> filesystem \<Rightarrow> (string, string) dict \<Rightarrow> char list \<Rightarrow> world" where
  "start_world here f vars keys =
     \<lparr>cwd = here, fs = f, environ = vars, stdout = [], typed = keys, commands = [],
      small_tests = small_curves_tests, artifact_collectors = [], current_profile = None\<rparr>"

section \<open>Specifications\<close>

definition good_filter :: "string \<Rightarrow> bool" where
  "good_filter s = (s = '''' \<or> s = ''*'' \<or> length (split_on (CHR '':'') s) = 2)"

definition filter_of :: "string \<Rightarrow> test_filter" where
  "filter_of s =
     (if s = '''' then (None, None) else if s = ''*'' then (Some ''*'', Some ''*'')
      else (Some (split_on (CHR '':'') s ! 0), Some (split_on (CHR '':'') s ! 1)))"

definition filtered_table ::
    "(string \<Rightarrow> string \<Rightarrow> bool) \<Rightarrow> test_table \<Rightarrow> test_table" where
  "filtered_table kp tbl =
     filter (\<lambda>(profile, tests). tests \<noteq> [])
       (map (\<lambda>(profile, tests). (profile, filter (kp profile) tests)) tbl)"

text \<open>The commands \<open>run\<close> is to execute for the selected tests, in order.\<close>

definition profile_plan :: "tools \<Rightarrow> run_args \<Rightarrow> string \<times> string list \<Rightarrow> string list" where
  "profile_plan env args pt =
     (let d = mk_out_directory (out_dir args); proj = mk_project ''.'' in
      (if no_build_flag args then []
       else [build_command (path_join (build_logs d) (fst pt @ ''.log'')) (fst pt)]) @
      map (\<lambda>test. test_command env proj test
             (path_join (test_logs d) (fst pt @ ''--'' @ test @ ''.log''))) (snd pt))"

definition run_plan :: "tools \<Rightarrow> run_args \<Rightarrow> test_table \<Rightarrow> string list" where
  "run_plan env args tests = concat (map (profile_plan env args) tests)"

text \<open>The answer the user gives: the first key that is y or n, in either case.\<close>

definition answer :: "char list \<Rightarrow> bool option" where
  "answer keys =
     (case dropWhile (\<lambda>c. c \<notin> set ''yYnN'') keys of
        [] \<Rightarrow> None
      | c # _ \<Rightarrow> Some (c \<in> set ''yY''))"

definition consents :: "executive \<Rightarrow> char list \<Rightarrow> bool" where
  "consents ex keys = (force_yes ex \<or> \<not> ex_non_interactive ex \<and> answer keys = Some True)"

text \<open>What a dry run must leave alone.\<close>

definition same_files :: "world \<Rightarrow> world \<Rightarrow> bool" where
  "same_files w w' = (fs w' = fs w \<and> commands w' = commands w \<and> cwd w' = cwd w)"

text \<open>A shell whose commands all succeed and leave the files alone.\<close>

definition idle_tools :: tools where
  "idle_tools =
     \<lparr>call = \<lambda>_ _ _ f. (0, f), render_command = \<lambda>t vars. dict_get vars ''test'' t,
      render_circle = \<lambda>_ _ _ _. Inr [], render_mergify = \<lambda>_ _ _ _. Inr [], time_now = 0\<rparr>"

definition catchup_args :: run_args where
  "catchup_args = default_run_args\<lparr>includes_patterns := [''test_postake_catchup:*'']\<rparr>"

section \<open>The filters select what they say\<close>

lemma panic_run [simp]:
  "panic msg w = (Inl (SystemExit 1), w\<lparr>stdout := stdout w @ [''ERROR: '' @ msg]\<rparr>)"
  by (simp add: panic_def print_def eseq_def)

lemma parse_filter_run:
  "parse_filter s w =
     (if good_filter s then (Inr (filter_of s), w) else panic ''invalid filter syntax'' w)"
proof (cases "s = '''' \<or> s = ''*''")
  case True
  then show ?thesis by (auto simp: parse_filter_def good_filter_def filter_of_def)
next
  case False
  consider (two) a b where "split_on (CHR '':'') s = [a, b]"
    | (other) "length (split_on (CHR '':'') s) \<noteq> 2"
    by (metis One_nat_def Suc_1 length_0_conv length_Suc_conv)
  then show ?thesis
  proof cases
    case two
    with False show ?thesis by (simp add: parse_filter_def good_filter_def filter_of_def)
  next
    case other
    with False show ?thesis
      by (auto simp: parse_filter_def good_filter_def split: list.splits)
  qed
qed

lemma parse_filters_run:
  "emapM parse_filter srcs w =
     (if list_all good_filter srcs then (Inr (map filter_of srcs), w)
      else panic ''invalid filter syntax'' w)"
  by (induction srcs) (auto simp: ebind_def parse_filter_run)

lemma select_inner:
  "foldl (\<lambda>res test. if kp test then dict_modify p [] (\<lambda>l. l @ [test]) res else res) res ts =
     (if filter kp ts = [] then res
      else AList.update p (dict_get res p [] @ filter kp ts) res)"
  by (induction ts arbitrary: res)
    (auto simp: dict_modify_def dict_get_update dict_simps)

lemma update_fresh: "p \<notin> set (dict_keys d) \<Longrightarrow> AList.update p v d = d @ [(p, v)]"
  by (induction d) auto

lemma get_fresh: "p \<notin> set (dict_keys d) \<Longrightarrow> dict_get d p v = v"
  by (simp add: dict_get_def map_of_None_iff [THEN iffD2] del: set_map)

lemma select_outer:
  assumes "dict_wf tbl" and "set (dict_keys res) \<inter> set (dict_keys tbl) = {}"
  shows "foldl (\<lambda>res (profile, tests).
         foldl (\<lambda>res test. if kp profile test then dict_modify profile [] (\<lambda>l. l @ [test]) res else res)
           res tests) res tbl = res @ filtered_table kp tbl"
  using assms
proof (induction tbl arbitrary: res)
  case Nil
  then show ?case by (simp add: filtered_table_def)
next
  case (Cons pt tbl)
  obtain p ts where pt: "pt = (p, ts)" by (cases pt)
  have fresh: "p \<notin> set (dict_keys res)" using Cons.prems(2) pt by auto
  show ?case
  proof (cases "filter (kp p) ts = []")
    case True
    with Cons pt show ?thesis by (simp add: select_inner filtered_table_def)
  next
    case False
    have "foldl (\<lambda>res (profile, tests).
         foldl (\<lambda>res test. if kp profile test then dict_modify profile [] (\<lambda>l. l @ [test]) res else res)
           res tests) (res @ [(p, filter (kp p) ts)]) tbl =
        (res @ [(p, filter (kp p) ts)]) @ filtered_table kp tbl"
      using Cons.prems pt by (intro Cons.IH) auto
    with False fresh pt show ?thesis
      by (simp add: select_inner update_fresh get_fresh filtered_table_def del: set_map)
  qed
qed

lemma select_tests_run: "dict_wf tbl \<Longrightarrow> select_tests kp tbl = filtered_table kp tbl"
  using select_outer [of tbl "[]"] by (simp add: select_tests_def)

lemma foldl_ignore: "foldl (\<lambda>r _. r) r xs = r"
  by (induction xs) auto

lemma select_tests_none:
  assumes "\<And>p test. \<not> kp p test"
  shows "select_tests kp tbl = []"
proof -
  have "foldl (\<lambda>res (profile, tests).
         foldl (\<lambda>res test. if kp profile test then dict_modify profile [] (\<lambda>l. l @ [test]) res else res)
           res tests) [] tbl = []"
    using assms by (induction tbl) (auto simp: foldl_ignore)
  then show ?thesis by (simp add: select_tests_def)
qed

lemma filter_tests_run:
  "filter_tests tests inc exc perms w =
     (if list_all good_filter (inc @ exc)
      then (Inr (select_tests (keep (map filter_of inc) (map filter_of exc))
               (case perms of None \<Rightarrow> tests | Some p \<Rightarrow> p)), w)
      else panic ''invalid filter syntax'' w)"
  by (auto simp: filter_tests_def ebind_def parse_filters_run)

text \<open>
  The filters as they are documented: the star names every test, and two parts around one
  colon name the tests whose profile and name they are, the star standing for any.
\<close>

definition well_formed_filter :: "string \<Rightarrow> bool" where
  "well_formed_filter f \<longleftrightarrow> f = '''' \<or> f = ''*'' \<or> count_list f (CHR '':'') = 1"

definition names_test :: "string \<Rightarrow> string \<Rightarrow> string \<Rightarrow> bool" where
  "names_test f profile test \<longleftrightarrow>
     f = ''*'' \<or>
     (\<exists>p\<in>{''*'', profile}. \<exists>t\<in>{''*'', test}.
        f = p @ '':'' @ t \<and> p \<noteq> '''' \<and> t \<noteq> '''' \<and> CHR '':'' \<notin> set p \<and> CHR '':'' \<notin> set t)"

lemma length_split_on: "length (split_on c s) = Suc (count_list s c)"
  by (induction s) (auto split: list.split)

lemma good_filter_iff: "good_filter f \<longleftrightarrow> well_formed_filter f"
  by (simp add: good_filter_def well_formed_filter_def length_split_on)

lemma pattern_names:
  assumes "good_filter f"
  shows "pattern_matches profile test (filter_of f) \<longleftrightarrow> names_test f profile test"
proof (cases "f = '''' \<or> f = ''*''")
  case True
  then show ?thesis by (auto simp: filter_of_def pattern_matches_def test_pattern_def names_test_def)
next
  case False
  with assms have "count_list f (CHR '':'') = 1" by (simp add: good_filter_def length_split_on)
  then have "CHR '':'' \<in> set f" by (metis count_notin zero_neq_one)
  then obtain a b where f: "f = a @ CHR '':'' # b" "CHR '':'' \<notin> set a" by (meson split_list_first)
  with \<open>count_list f (CHR '':'') = 1\<close> have b: "CHR '':'' \<notin> set b" by (simp add: count_list_0_iff)
  have parts: "f = p @ '':'' @ t \<and> CHR '':'' \<notin> set p \<and> CHR '':'' \<notin> set t \<longleftrightarrow> p = a \<and> t = b" for p t
    using f b by (auto simp: append_Cons_eq_iff)
  have "filter_of f = (Some a, Some b)"
    using False f b by (auto simp: filter_of_def split_on_append_sep split_on_no_sep)
  moreover have "names_test f profile test \<longleftrightarrow> a \<in> {''*'', profile} \<and> b \<in> {''*'', test} \<and> a \<noteq> '''' \<and> b \<noteq> ''''"
  proof -
    define P T where "P = {''*'', profile}" and "T = {''*'', test}"
    have "names_test f profile test \<longleftrightarrow>
        (\<exists>p t. (f = p @ '':'' @ t \<and> CHR '':'' \<notin> set p \<and> CHR '':'' \<notin> set t) \<and> p \<in> P \<and> t \<in> T \<and> p \<noteq> '''' \<and> t \<noteq> '''')"
      unfolding names_test_def P_def [symmetric] T_def [symmetric] using False by blast
    also have "\<dots> \<longleftrightarrow> a \<in> P \<and> b \<in> T \<and> a \<noteq> '''' \<and> b \<noteq> ''''" unfolding parts by simp
    finally show ?thesis unfolding P_def T_def .
  qed
  ultimately show ?thesis by (auto simp: pattern_matches_def test_pattern_def)
qed

text \<open>
  C18. filter_tests keeps, for every profile and in the order of the table, the tests
  that every include filter names and no exclude filter names, and drops a profile that keeps
  none; a filter that is neither empty, the single star, nor has exactly one colon
  ends the program with status 1.
\<close>

theorem filter_tests_spec:
  assumes "dict_wf (case perms of None \<Rightarrow> tests | Some p \<Rightarrow> p)"
  shows "filter_tests tests inc exc perms w =
    (if list_all well_formed_filter (inc @ exc)
     then (Inr (filter (\<lambda>(profile, ts). ts \<noteq> [])
                  (map (\<lambda>(profile, ts). (profile, filter (\<lambda>test.
                       (\<forall>f\<in>set inc. names_test f profile test) \<and>
                       \<not> (\<exists>f\<in>set exc. names_test f profile test)) ts))
                    (case perms of None \<Rightarrow> tests | Some p \<Rightarrow> p))), w)
     else (Inl (SystemExit 1), w\<lparr>stdout := stdout w @ [''ERROR: invalid filter syntax'']\<rparr>))"
proof (cases "list_all good_filter (inc @ exc)")
  case True
  then have "keep (map filter_of inc) (map filter_of exc) profile test \<longleftrightarrow>
      (\<forall>f\<in>set inc. names_test f profile test) \<and> \<not> (\<exists>f\<in>set exc. names_test f profile test)" for profile test
    by (auto simp: keep_def list_all_iff list_ex_iff pattern_names)
  then show ?thesis
    using assms True
    by (simp add: filter_tests_run select_tests_run filtered_table_def good_filter_iff [abs_def] cong: filter_cong)
next
  case False
  then have "\<not> list_all well_formed_filter (inc @ exc)" by (simp add: good_filter_iff [abs_def])
  with False show ?thesis unfolding filter_tests_run by (simp only: if_False panic_run append.simps)
qed

lemma selected_tests_run:
  "selected_tests args w =
     (let tbl = dict_update (dict_update (dict_update (small_tests w) medium_curves_and_other_tests)
                   archive_processor_test)
                  (map (\<lambda>profile. (profile, compile_config_agnostic_tests)) compile_config_agnostic_profiles)
      in filter_tests tbl (includes_patterns args) (excludes_patterns args) None (w\<lparr>small_tests := tbl\<rparr>))"
  by (simp add: selected_tests_def eseq_def update_small_def Let_def)

lemma concrete_filter:
  assumes "CHR '':'' \<notin> set p" and "CHR '':'' \<notin> set t" and "p \<noteq> '''' \<and> t \<noteq> ''''"
    and "p \<noteq> ''*''" and "t \<noteq> ''*''"
  shows "pattern_matches profile test (filter_of (p @ '':'' @ t)) \<longleftrightarrow> profile = p \<and> test = t"
proof -
  have "split_on (CHR '':'') (p @ '':'' @ t) = [p, t]"
    using assms(1,2) by (simp add: split_on_append_sep split_on_no_sep)
  moreover have "p @ '':'' @ t \<noteq> ''*''" using assms(3) by (cases p) auto
  ultimately show ?thesis
    using assms(3-) by (auto simp: filter_of_def pattern_matches_def test_pattern_def)
qed

text \<open>
  With two include filters that name two different tests, whatever the other filters
  are, run selects nothing: it exits with status 1 before any command or file change. A
  test has to match all the include filters.
\<close>

theorem two_includes_select_nothing:
  assumes "CHR '':'' \<notin> set p" "CHR '':'' \<notin> set t" "p \<noteq> '''' \<and> t \<noteq> ''''" "p \<noteq> ''*''" "t \<noteq> ''*''"
    and "CHR '':'' \<notin> set p'" "CHR '':'' \<notin> set t'" "p' \<noteq> '''' \<and> t' \<noteq> ''''" "p' \<noteq> ''*''" "t' \<noteq> ''*''"
    and "(p, t) \<noteq> (p', t')"
    and "{p @ '':'' @ t, p' @ '':'' @ t'} \<subseteq> set (includes_patterns args)"
  shows "\<exists>w'. run env args w = (Inl (SystemExit 1), w') \<and> fs w' = fs w \<and> commands w' = commands w"
proof -
  have "\<not> keep (map filter_of (includes_patterns args)) (map filter_of (excludes_patterns args)) profile test"
    for profile test
    using assms(11,12) concrete_filter [OF assms(1-5), of profile test]
      concrete_filter [OF assms(6-10), of profile test]
    by (auto simp: keep_def list_all_iff)
  then have "select_tests (keep (map filter_of (includes_patterns args))
      (map filter_of (excludes_patterns args))) tbl = []" for tbl
    by (rule select_tests_none)
  then show ?thesis
    by (simp add: run_def ebind_def selected_tests_run filter_tests_run Let_def)
qed

theorem two_includes_select_nothing_witness:
  "case run idle_tools
        (default_run_args\<lparr>includes_patterns :=
           [''test_postake_catchup:coda-restart-node-test'', ''dev:coda-peers-test'']\<rparr>)
        (start_world [] [] [] []) of
     (r, w') \<Rightarrow> r = Inl (SystemExit 1) \<and> fs w' = [] \<and> commands w' = []"
  using two_includes_select_nothing [of "''test_postake_catchup''" "''coda-restart-node-test''"
      "''dev''" "''coda-peers-test''"
      "default_run_args\<lparr>includes_patterns :=
         [''test_postake_catchup:coda-restart-node-test'', ''dev:coda-peers-test'']\<rparr>"
      idle_tools
      "start_world [] [] [] []"]
  by (auto simp: start_world_def)

theorem filter_tests_spec_witness:
  "filter_tests small_curves_tests [''*''] [''test_postake_split:*''] None (start_world [] [] [] []) =
     (Inr (filter (\<lambda>(profile, ts). profile \<noteq> ''test_postake_split'' \<and> ts \<noteq> []) small_curves_tests),
      start_world [] [] [] [])"
proof -
  have wf: "dict_wf small_curves_tests" "list_all well_formed_filter [''*'', ''test_postake_split:*'']" by code_simp+
  have "filter (\<lambda>(profile, ts). ts \<noteq> [])
      (map (\<lambda>(profile, ts). (profile, filter (\<lambda>test.
         (\<forall>f\<in>set [''*'']. names_test f profile test) \<and>
         \<not> (\<exists>f\<in>set [''test_postake_split:*'']. names_test f profile test)) ts)) small_curves_tests) =
    filter (\<lambda>(profile, ts). profile \<noteq> ''test_postake_split'' \<and> ts \<noteq> []) small_curves_tests"
    by code_simp
  then show ?thesis
    using filter_tests_spec [of small_curves_tests None "[''*'']" "[''test_postake_split:*'']"
      "start_world [] [] [] []"] wf by simp
qed

section \<open>Dry runs\<close>

interpretation dry: effect_frame same_files
  by unfold_locales (auto simp: same_files_def)

lemma dry_print: "framed same_files (print msg)"
  by (simp add: framed_def print_def same_files_def)

lemma dry_panic: "framed same_files (panic msg)"
  by (simp add: framed_def same_files_def)

lemma dry_prompt: "framed same_files (prompt ex msg d)"
  by (auto simp: framed_def prompt_def same_files_def split: prod.splits)

lemma dry_do: "is_dry ex \<Longrightarrow> framed same_files (ex_do ex name f)"
  by (simp add: ex_do_def dry_print)

lemma dry_collect: "is_dry ex \<Longrightarrow> framed same_files (collect_artifacts ex)"
  by (simp add: collect_artifacts_def dry_do dry.framed_prim)

lemma dry_fail: "is_dry ex \<Longrightarrow> framed same_files (fail ex msg)"
  by (simp add: fail_def dry.framed_seq dry_collect dry_panic)

lemma dry_modify:
  "framed same_files (register_artifact_collector c)"
  "framed same_files (set_profile p)"
  "framed same_files (update_small tbl)"
  "framed same_files (emodify (\<lambda>w. w\<lparr>environ := v w\<rparr>))"
  by (simp_all add: framed_def same_files_def register_artifact_collector_def set_profile_def
      update_small_def)

lemmas dry_rules = dry.frame_rules dry_print dry_panic dry_prompt dry_do dry_collect dry_fail dry_modify

lemma dry_reserve: "is_dry ex \<Longrightarrow> framed same_files (reserve_file ex p)"
  by (auto simp: reserve_file_def remove_directory_def intro!: dry_rules)

lemma dry_run_one: "is_dry ex \<Longrightarrow> framed same_files (run_one_test env ex proj d p test)"
  by (auto simp: run_one_test_def run_test_def run_cmd_def Let_def intro!: dry_rules dry_reserve)

lemma dry_profile: "is_dry ex \<Longrightarrow> framed same_files (run_profile env args ex proj d pt)"
  by (auto simp: run_profile_def build_profile_def no_build_def build_def run_cmd_def Let_def
      intro!: dry_rules dry_reserve dry_run_one)

lemma dry_announce: "framed same_files (announce_tests env tests)"
  by (auto simp: announce_tests_def split: prod.splits intro!: dry_rules)

lemma dry_selected: "framed same_files (selected_tests args)"
  by (auto simp: framed_def selected_tests_run filter_tests_run Let_def same_files_def)

lemma dry_run_selected: "dry_run args \<Longrightarrow> framed same_files (run_selected env args tests)"
  by (auto simp: run_selected_def Let_def out_initialize_def make_directory_def mk_executive_def
      intro!: dry_rules dry_profile dry_announce)

text \<open>
  C19. With the dry-run flag, run changes no file, executes no command and stays in its
  directory, whether it returns or raises.
\<close>

theorem dry_run_keeps_files:
  assumes "dry_run args" and "run env args w = (r, w')"
  shows "fs w' = fs w \<and> commands w' = commands w \<and> cwd w' = cwd w"
proof -
  have "framed same_files (run env args)"
    unfolding run_def
    by (intro dry.framed_bind dry_selected dry.framed_if dry_panic dry_run_selected assms(1))
  from framedD [OF this assms(2)] show ?thesis by (simp add: same_files_def)
qed

section \<open>The commands of a run\<close>

abbreviation follows :: "(world, 'a) eff \<Rightarrow> string list \<Rightarrow> bool" where
  "follows \<equiv> follows_plan commands"

abbreviation silent :: "(world, 'a) eff \<Rightarrow> bool" where
  "silent \<equiv> framed (\<lambda>w w'. commands w' = commands w)"

interpretation quiet: effect_frame "\<lambda>w w'. commands w' = commands w"
  by unfold_locales auto

lemma silent_follows: "silent m \<Longrightarrow> follows m []"
  by (simp add: framed_def follows_silent)

lemma silent_seq: "silent m \<Longrightarrow> follows n plan \<Longrightarrow> follows (eseq m n) plan"
  by (simp add: framed_def follows_silent_seq)

lemma silent_bind: "silent m \<Longrightarrow> (\<And>x. follows (f x) plan) \<Longrightarrow> follows (ebind m f) plan"
  by (simp add: framed_def follows_silent_bind)

lemma follows_seq_silent: "follows m plan \<Longrightarrow> silent n \<Longrightarrow> follows (eseq m n) plan"
  using follows_seq [OF _ silent_follows] by fastforce

lemma silent_prims:
  "silent (print msg)" "silent (panic msg)" "silent (prompt ex msg d)" "silent (chdir p)"
  "silent (read_lines q)" "silent (write_file q ls)" "silent (os_remove q)" "silent (mkdir_step p)"
  "silent (register_artifact_collector c)" "silent (set_profile q)" "silent (update_small tbl)"
  "silent (emodify (\<lambda>w. w\<lparr>environ := v w\<rparr>))"
  by (auto simp: framed_def print_def prompt_def chdir_def read_lines_def write_file_def os_remove_def
      mkdir_step_def register_artifact_collector_def set_profile_def update_small_def Let_def
      split: option.splits entry.splits prod.splits)

lemmas silent_rules = quiet.frame_rules silent_prims

lemma silent_with: "silent m \<Longrightarrow> silent (with_directory p m)"
  unfolding with_directory_def
proof (rule quiet.framed_bind)
  show "silent (temp_enter p None)"
    by (auto simp: temp_enter_def intro!: silent_rules)
  fix prev
  assume m: "silent m"
  have "silent (temp_exit prev)"
    by (auto simp: temp_exit_def split: option.split intro!: silent_rules)
  with m show "silent (\<lambda>w. case m w of (r, t) \<Rightarrow>
       (case temp_exit prev t of (Inl e, u) \<Rightarrow> (Inl e, u) | (Inr _, u) \<Rightarrow> (r, u)))"
    by (auto simp: framed_def split: prod.splits sum.splits) (metis snd_conv)+
qed

lemma silent_copyfile: "silent (copyfile src dst)"
  by (auto simp: copyfile_def intro!: silent_rules)

lemma silent_collect: "silent (collect c dest)"
  by (cases c) (auto simp: Let_def relative_glob_def intro!: silent_rules silent_copyfile silent_with)

lemma silent_collect_artifacts: "silent (collect_artifacts ex)"
  by (auto simp: collect_artifacts_def ex_do_def intro!: silent_rules silent_collect)

lemma silent_fail: "silent (fail ex msg)"
  by (auto simp: fail_def intro!: silent_rules silent_collect_artifacts)

lemma silent_reserve: "silent (reserve_file ex p)"
  by (auto simp: reserve_file_def remove_directory_def ex_do_def intro!: silent_rules silent_fail)

lemma silent_log_tail: "silent (show_log_tail lg)"
  by (auto simp: show_log_tail_def split: option.split intro!: silent_rules)

lemma silent_makedirs: "silent (makedirs p)"
proof -
  have "silent (efor qs mkdir_step)" for qs by (intro silent_rules)
  then show ?thesis by (auto simp: framed_def makedirs_def)
qed

lemma silent_initialize: "silent (out_initialize ex d)"
  by (auto simp: out_initialize_def make_directory_def ex_do_def intro!: silent_rules silent_makedirs)

lemma silent_announce: "silent (announce_tests env tests)"
  by (auto simp: announce_tests_def split: prod.splits intro!: silent_rules)

lemma stops_in_interrupted: "stops_in plan evs ok \<Longrightarrow> stops_in plan evs False"
  by (cases ok) (auto simp: stops_in_def)

lemma follows_with:
  assumes "follows m plan"
  shows "follows (with_directory p m) plan"
  unfolding with_directory_def
proof (rule silent_bind)
  show "silent (temp_enter p None)"
    by (auto simp: temp_enter_def intro!: silent_rules)
  fix prev
  have ex: "silent (temp_exit prev)"
    by (auto simp: temp_exit_def split: option.split intro!: silent_rules)
  show "follows (\<lambda>w. case m w of (r, t) \<Rightarrow>
       (case temp_exit prev t of (Inl e, u) \<Rightarrow> (Inl e, u) | (Inr _, u) \<Rightarrow> (r, u))) plan"
  proof (rule follows_planI)
    fix w r u
    assume run: "(case m w of (r, t) \<Rightarrow>
       (case temp_exit prev t of (Inl e, u) \<Rightarrow> (Inl e, u) | (Inr _, u) \<Rightarrow> (r, u))) = (r, u)"
    obtain q t where m: "m w = (q, t)" by (cases "m w")
    obtain evs where e: "commands t = commands w @ evs" "stops_in plan evs (returns q)"
      by (rule follows_planD [OF assms m])
    obtain x v where x: "temp_exit prev t = (x, v)" by (cases "temp_exit prev t")
    with ex have "commands v = commands t" by (rule framedD)
    then have v: "commands v = commands w @ evs" using e(1) by simp
    have "u = v \<and> (r = q \<or> \<not> returns r)"
    proof (cases x)
      case (Inl e)
      with run m x show ?thesis by auto
    next
      case (Inr y)
      with run m x show ?thesis by auto
    qed
    with v e(2) stops_in_interrupted [OF e(2)] show
      "\<exists>evs. commands u = commands w @ evs \<and> stops_in plan evs (returns r)"
      by (cases "returns r") auto
  qed
qed

lemma fail_raises: "\<not> returns (fst (fail ex msg w))"
  by (auto simp: fail_def eseq_def ebind_def split: prod.splits sum.splits)

lemma follows_run_cmd:
  assumes "\<not> is_dry ex"
  shows "follows (run_cmd env ex cmd dir lg) [cmd]"
proof -
  define tail :: "(world, unit) eff" where "tail = eseq (show_log_tail lg) (fail ex (''command failed: '' @ cmd))"
  have quiet: "silent tail"
    by (auto simp: tail_def intro!: silent_rules silent_log_tail silent_fail)
  have raises: "\<not> returns (fst (tail w))" for w
    using fail_raises by (auto simp: tail_def eseq_def ebind_def split: prod.splits sum.splits)
  have "follows (ebind (call_bash env cmd) (\<lambda>code. if code \<noteq> 0 then tail else eret ())) [cmd]"
  proof (rule follows_planI)
    fix w r u
    assume run: "ebind (call_bash env cmd) (\<lambda>code. if code \<noteq> 0 then tail else eret ()) w = (r, u)"
    obtain code f where c: "call env cmd (cwd w) (environ w) (fs w) = (code, f)"
      by (cases "call env cmd (cwd w) (environ w) (fs w)")
    define t where "t = w\<lparr>fs := f, commands := commands w @ [(cmd, code)]\<rparr>"
    have b: "call_bash env cmd w = (Inr code, t)" by (simp add: call_bash_def c t_def)
    have t: "commands t = commands w @ [(cmd, code)]" by (simp add: t_def)
    show "\<exists>evs. commands u = commands w @ evs \<and> stops_in [cmd] evs (returns r)"
    proof (cases "code = 0")
      case True
      with run b t have "commands u = commands w @ [(cmd, 0)]" "returns r"
        by (auto simp: ebind_def)
      then show ?thesis by (auto simp: stops_in_def)
    next
      case False
      with run b have "tail t = (r, u)" by (simp add: ebind_def)
      with framedD [OF quiet this] raises [of t] t
      have "commands u = commands w @ [(cmd, code)]" "\<not> returns r" by simp_all
      with stops_in_failed [OF False] show ?thesis by auto
    qed
  qed
  from follows_with [OF this, of dir, unfolded tail_def] assms show ?thesis
    by (simp add: run_cmd_def ex_do_def)
qed

lemma follows_run_one:
  assumes "\<not> is_dry ex"
  shows "follows (run_one_test env ex proj d p test)
    [test_command env proj test (path_join (test_logs d) (p @ ''--'' @ test @ ''.log''))]"
  unfolding run_one_test_def run_test_def Let_def
  by (intro silent_seq silent_bind silent_rules silent_reserve silent_fail follows_run_cmd assms)

lemma follows_build:
  assumes "\<not> is_dry ex"
  shows "follows (build_profile env args ex proj d p)
    (if no_build_flag args then [] else [build_command (path_join (build_logs d) (p @ ''.log'')) p])"
proof (cases "no_build_flag args")
  case True
  then show ?thesis
    by (auto simp: build_profile_def no_build_def intro!: silent_follows silent_rules)
next
  case False
  have "follows (build env ex proj lg p) [build_command lg p]" for lg
    unfolding build_def
    by (intro follows_seq_silent follows_run_cmd silent_rules assms)
  with False show ?thesis
    by (simp add: build_profile_def Let_def silent_seq silent_reserve silent_rules)
qed

lemma concat_singletons: "concat (map (\<lambda>x. [f x]) xs) = map f xs"
  by (induction xs) auto

lemma follows_profile:
  assumes "\<not> dry_run args"
  shows "follows (run_profile env args (mk_executive args a) (mk_project ''.'')
           (mk_out_directory (out_dir args)) pt) (profile_plan env args pt)"
proof -
  have "\<not> is_dry (mk_executive args a)" using assms by (simp add: mk_executive_def)
  moreover have "profile_plan env args pt =
     (if no_build_flag args then []
       else [build_command (path_join (build_logs (mk_out_directory (out_dir args))) (fst pt @ ''.log'')) (fst pt)]) @
      concat (map (\<lambda>test. [test_command env (mk_project ''.'') test
        (path_join (test_logs (mk_out_directory (out_dir args))) (fst pt @ ''--'' @ test @ ''.log''))]) (snd pt))"
    by (simp add: profile_plan_def Let_def concat_singletons)
  ultimately show ?thesis
    unfolding run_profile_def
    by (simp only:) (intro silent_seq [OF silent_prims(1)] follows_seq follows_build follows_for follows_run_one)
qed

lemma follows_run_selected:
  assumes "\<not> dry_run args"
  shows "follows (run_selected env args tests) (run_plan env args tests)"
  unfolding run_selected_def run_plan_def Let_def
  by (intro silent_seq follows_seq_silent follows_for follows_profile silent_rules silent_initialize
      silent_announce silent_collect_artifacts assms)

text \<open>
  C15. A run executes the planned commands in order (per selected profile the build,
  unless it is disabled, then its tests) and stops at the first that fails: it returns
  only when all of them were executed with exit code 0, and nothing is executed after a
  code other than 0. When the filters are invalid or select nothing, nothing is
  executed.
\<close>

theorem run_follows_plan:
  assumes "\<not> dry_run args" and "run env args w = (r, w')"
  shows "\<exists>evs. commands w' = commands w @ evs \<and>
    (case selected_tests args w of
       (Inl e, _) \<Rightarrow> evs = [] \<and> r = Inl e
     | (Inr tests, _) \<Rightarrow>
         if tests = [] then evs = [] \<and> r = Inl (SystemExit 1)
         else stops_in (run_plan env args tests) evs (returns r))"
proof -
  obtain s w1 where s: "selected_tests args w = (s, w1)" by (cases "selected_tests args w")
  then have w1: "commands w1 = commands w"
    using framedD [OF dry_selected s] by (simp add: same_files_def)
  show ?thesis
  proof (cases s)
    case (Inl e)
    with assms(2) s w1 show ?thesis by (auto simp: run_def ebind_def)
  next
    case (Inr tests)
    show ?thesis
    proof (cases "tests = []")
      case True
      with assms(2) s Inr w1 show ?thesis by (auto simp: run_def ebind_def split: if_splits)
    next
      case False
      with assms(2) s Inr have "run_selected env args tests w1 = (r, w')"
        by (simp add: run_def ebind_def)
      then obtain evs where "commands w' = commands w1 @ evs"
          "stops_in (run_plan env args tests) evs (returns r)"
        by (rule follows_planD [OF follows_run_selected [OF assms(1)]])
      with s Inr False w1 show ?thesis by auto
    qed
  qed
qed

section \<open>Overwriting a log needs consent\<close>

lemma ask_answer:
  "fst (ask msg keys shown) =
     (case answer keys of None \<Rightarrow> Inl (PyException ''readchar'') | Some b \<Rightarrow> Inr b)"
  by (induction msg keys shown rule: ask.induct) (auto simp: answer_def Let_def)

lemma prompt_run:
  "\<exists>shown keys. prompt ex msg False w =
     (if consents ex (typed w) then Inr True
      else if ex_non_interactive ex \<or> answer (typed w) \<noteq> None then Inr False
      else Inl (PyException ''readchar''), w\<lparr>stdout := shown, typed := keys\<rparr>)"
proof (cases "force_yes ex \<or> ex_non_interactive ex")
  case True
  then have "prompt ex msg False w = (if consents ex (typed w) then Inr True else Inr False, w)"
    by (auto simp: prompt_def consents_def)
  moreover have "w = w\<lparr>stdout := stdout w, typed := typed w\<rparr>" by simp
  ultimately show ?thesis using True
    by (intro exI [of _ "stdout w"] exI [of _ "typed w"]) (auto simp: consents_def)
next
  case False
  obtain r keys shown where a: "ask msg (typed w) (stdout w) = (r, keys, shown)"
    by (cases "ask msg (typed w) (stdout w)") auto
  with ask_answer [of msg "typed w" "stdout w"] False show ?thesis
    by (auto simp: prompt_def consents_def split: option.splits)
qed

text \<open>
  An existing log is removed exactly when the user consents (the yes flag, or the
  first y or n key typed is a y in interactive mode); otherwise the program does not go
  on, the log keeps its contents, and no other file changes in either case.
\<close>

theorem reserve_file_consent:
  assumes "\<not> is_dry ex" and "\<not> should_collect_artifacts ex"
    and "entry_at (fs w) (resolve (cwd w) path) = Some (File ls)"
    and "reserve_file ex path w = (r, w')"
  shows "(r = Inr () \<longleftrightarrow> consents ex (typed w)) \<and>
    entry_at (fs w') (resolve (cwd w) path) = (if consents ex (typed w) then None else Some (File ls)) \<and>
    (q \<noteq> resolve (cwd w) path \<longrightarrow> entry_at (fs w') q = entry_at (fs w) q)"
proof -
  define p where "p = resolve (cwd w) path"
  have ne: "p \<noteq> []" using assms(3) by (auto simp: entry_at_def p_def)
  have gone: "map_of (filter (\<lambda>e. fst e \<noteq> p) f) q = (if q = p then None else map_of f q)" for f :: filesystem and q
    by (induction f) auto
  define msg where "msg = quoted path @ '' already exits. Should it be overwritten?''"
  obtain shown keys where pr: "prompt ex msg False w =
     (if consents ex (typed w) then Inr True
      else if ex_non_interactive ex \<or> answer (typed w) \<noteq> None then Inr False
      else Inl (PyException ''readchar''), w\<lparr>stdout := shown, typed := keys\<rparr>)"
    using prompt_run by blast
  have ex: "path_exists path w" using assms(3) by (simp add: path_exists_def)
  from assms(4) ex have run: "ebind (prompt ex msg False)
      (\<lambda>overwrite. if overwrite then remove_directory ex path (Some ''old test logs'')
                else fail ex (''Refusing to overwrite '' @ quoted path)) w = (r, w')"
    by (simp add: reserve_file_def msg_def)
  show ?thesis
  proof (cases "consents ex (typed w)")
    case True
    with run pr assms(1,3) ne have "r = Inr ()" "fs w' = filter (\<lambda>e. fst e \<noteq> p) (fs w)"
      by (auto simp: ebind_def remove_directory_def ex_do_def path_exists_def os_remove_def p_def)
    moreover have "entry_at (fs w') p' = (if p' = p then None else entry_at (fs w) p')" for p'
      using calculation(2) ne by (simp add: entry_at_def gone)
    ultimately show ?thesis using True by (simp add: p_def)
  next
    case False
    with run pr assms(2) have "r \<noteq> Inr ()" "fs w' = fs w"
      by (auto simp: ebind_def fail_def collect_artifacts_def eseq_def split: if_splits)
    with False assms(3) show ?thesis by simp
  qed
qed

section \<open>The tables\<close>

text \<open>
  The required status checks computed from the tables of the script are exactly
  these seven; the excluded profile test_postake_split_snarkless names no entry of the
  table, so test_postake_split stays required.
\<close>

theorem required_status_list:
  "get_required_status (start_world here f vars keys) =
     (Inr [''ci/circleci: test--test_postake_snarkless'',
           ''ci/circleci: test--test_postake_split'',
           ''ci/circleci: test--dev--coda-bootstrap-test'',
           ''ci/circleci: test--dev--coda-shared-state-test'',
           ''ci/circleci: test--dev--coda-delegation-test'',
           ''buildkite/mina/pr'', ''buildkite/mina-pr-gating''],
      start_world here f vars keys)"
proof -
  have "select_tests (keep [filter_of ''*''] (map filter_of ci_excludes)) small_curves_tests =
      filter (\<lambda>pt. snd pt \<noteq> []) small_curves_tests" by code_simp
  moreover have "status_jobs (select_tests (keep [filter_of ''*''] (map filter_of required_excludes))
        (filter (\<lambda>pt. snd pt \<noteq> []) small_curves_tests)) =
      [''test--test_postake_snarkless'', ''test--test_postake_split'', ''test--dev--coda-bootstrap-test'',
       ''test--dev--coda-shared-state-test'', ''test--dev--coda-delegation-test'']" by code_simp
  moreover have "list_all good_filter ([''*''] @ ci_excludes)" "list_all good_filter ([''*''] @ required_excludes)"
    by code_simp+
  ultimately show ?thesis
    by (simp add: get_required_status_def ebind_def filter_tests_run start_world_def
        extra_required_status_checks_def not_required_status_checks_def)
qed

text \<open>
  The list action does not print the profiles dev and test_archive_processor, which
  a run with the default filters selects, and does print test_postake, which has no
  tests.
\<close>

theorem list_omits_runnable_profiles:
  "(case selected_tests default_run_args (start_world here f vars keys) of
      (Inr tests, _) \<Rightarrow> {''dev'', ''test_archive_processor''} \<subseteq> set (dict_keys tests)
    | _ \<Rightarrow> False) \<and>
   (case list_tests (start_world here f vars keys) of
      (r, w) \<Rightarrow> r = Inr () \<and> ''- dev'' \<notin> set (stdout w) \<and>
        ''- test_archive_processor'' \<notin> set (stdout w) \<and> ''- test_postake'' \<in> set (stdout w))"
  by code_simp


section \<open>Concrete runs\<close>

lemma start_fields [simp]:
  "cwd (start_world here f vars keys) = here" "fs (start_world here f vars keys) = f"
  "commands (start_world here f vars keys) = []" "typed (start_world here f vars keys) = keys"
  by (simp_all add: start_world_def)

theorem dry_run_keeps_files_witness:
  "case run idle_tools (default_run_args\<lparr>dry_run := True\<rparr>) (start_world [] [] [] []) of
     (r, w') \<Rightarrow> fs w' = [] \<and> commands w' = []"
proof -
  obtain r w' where run: "run idle_tools (default_run_args\<lparr>dry_run := True\<rparr>) (start_world [] [] [] []) = (r, w')"
    by (cases "run idle_tools (default_run_args\<lparr>dry_run := True\<rparr>) (start_world [] [] [] [])")
  from dry_run_keeps_files [OF _ this] show ?thesis by (simp add: run)
qed

lemma catchup_returns: "returns (fst (run idle_tools catchup_args (start_world [] [] [] [])))"
  by code_simp

lemma catchup_selected:
  "fst (selected_tests catchup_args (start_world [] [] [] [])) =
     Inr [(''test_postake_catchup'', [''coda-restart-node-test''])]"
  by code_simp

lemma catchup_plan:
  "run_plan idle_tools catchup_args [(''test_postake_catchup'', [''coda-restart-node-test''])] =
     [build_command ''test_output/build_logs/test_postake_catchup.log'' ''test_postake_catchup'',
      ''coda-restart-node-test'']"
  by code_simp

theorem run_follows_plan_witness:
  "case run idle_tools catchup_args (start_world [] [] [] []) of
     (r, w') \<Rightarrow> returns r \<and> map fst (commands w') =
       [build_command ''test_output/build_logs/test_postake_catchup.log'' ''test_postake_catchup'',
        ''coda-restart-node-test'']"
proof -
  obtain r w' where run: "run idle_tools catchup_args (start_world [] [] [] []) = (r, w')"
    by (cases "run idle_tools catchup_args (start_world [] [] [] [])")
  have nd: "\<not> dry_run catchup_args" by (simp add: catchup_args_def default_run_args_def)
  obtain w1 where sel: "selected_tests catchup_args (start_world [] [] [] []) =
      (Inr [(''test_postake_catchup'', [''coda-restart-node-test''])], w1)"
    using catchup_selected by (metis prod.collapse)
  from run_follows_plan [OF nd run] catchup_returns catchup_plan show ?thesis
    by (auto simp: run sel stops_in_def)
qed

theorem reserve_file_consent_witness:
  "case reserve_file (mk_executive default_run_args [])
       ''a.log'' (start_world [] [([''a.log''], File [''old''])] [] ''?n'') of
     (r, w') \<Rightarrow> r \<noteq> Inr () \<and> entry_at (fs w') [''a.log''] = Some (File [''old''])"
proof -
  define w where "w = start_world [] [([''a.log''], File [''old''])] [] ''?n''"
  obtain r w' where run: "reserve_file (mk_executive default_run_args []) ''a.log'' w = (r, w')"
    by (cases "reserve_file (mk_executive default_run_args []) ''a.log'' w")
  have "entry_at (fs w) (resolve (cwd w) ''a.log'') = Some (File [''old''])"
    "resolve (cwd w) ''a.log'' = [''a.log'']" "\<not> consents (mk_executive default_run_args []) (typed w)"
    unfolding w_def by code_simp+
  with reserve_file_consent [OF _ _ this(1) run] run show ?thesis
    by (simp add: mk_executive_def default_run_args_def w_def)
qed

end
