(* ===== verification/PodExec.thy ===== *)
theory PodExec
  imports Py_Effects
begin

text \<open>
  Running a command on a pod and fetching its output in pieces: \<open>exec_on_pod\<close> of
  \<open>automation/services/watchdog/util.py\<close>, repeated as \<open>exec_on_seed\<close> in \<open>make_report.py\<close>.

  What a shell command does on a pod is a parameter, the field \<open>kexec\<close> of a \<open>kubernetes\<close>
  record over an abstract state of the cluster; \<open>kuuid\<close> draws the name of the temporary
  file. The answer of a command is the text the client library made of the stream, as UTF-8 bytes: what
  it decodes, loses or replaces is inside \<open>kexec\<close>, and \<open>exec_on_pod\<close> only compares the lengths at the
  end and prints a warning (\<open>length_warning\<close>). \<open>holds_file\<close> is the case of an exact stream, used by the
  examples: \<open>stat\<close> prints the length of the file and \<open>head\<close> and \<open>tail\<close> cut it by bytes.
\<close>

record 'k kubernetes =
  kexec :: "string \<Rightarrow> string \<Rightarrow> string \<Rightarrow> ('k, string) eff"
  kuuid :: "('k, string) eff"

definition chunk_size :: nat where
  "chunk_size = 20000000"

definition segment_command :: "string \<Rightarrow> nat \<Rightarrow> nat \<Rightarrow> string" where
  "segment_command tmp_file start sz =
     ''cat '' @ tmp_file @ '' | head -c '' @ str_nat (start + sz) @ '' | tail -c '' @ str_nat sz"

definition stat_command :: "string \<Rightarrow> string" where
  "stat_command tmp_file = ''stat --printf='' @ [CHR 0x22] @ ''%s'' @ [CHR 0x22] @ '' '' @ tmp_file"

definition tmp_name :: "string \<Rightarrow> string" where
  "tmp_name uuid = ''/tmp/cns_command.'' @ uuid @ ''.out''"

text \<open>The piece number \<open>i\<close> of a file of the given length, fetched by one command.\<close>

definition read_chunk ::
    "nat \<Rightarrow> (string \<Rightarrow> ('k, string) eff) \<Rightarrow> string \<Rightarrow> nat \<Rightarrow> nat \<Rightarrow> ('k, string) eff" where
  "read_chunk sz exec_cmd tmp_file file_len i =
     exec_cmd (segment_command tmp_file (i * sz) (min ((i + 1) * sz) file_len - i * sz))"

text \<open>\<open>math.ceil(file_len/chunk_size)\<close>\<close>

definition num_chunks :: "nat \<Rightarrow> nat \<Rightarrow> nat" where
  "num_chunks sz file_len = (file_len + sz - 1) div sz"

definition fetch_file ::
    "nat \<Rightarrow> (string \<Rightarrow> ('k, string) eff) \<Rightarrow> string \<Rightarrow> nat \<Rightarrow> ('k, string) eff" where
  "fetch_file sz exec_cmd tmp_file file_len =
     ebind (emapM (read_chunk sz exec_cmd tmp_file file_len) [0 ..< num_chunks sz file_len])
       (\<lambda>chunks. eret (concat chunks))"

text \<open>
  The body both functions share, with the length of the file. A negative length cannot be
  printed by \<open>stat\<close>; it would make an empty range of pieces.
\<close>

definition fetch_output :: "(string \<Rightarrow> ('k, string) eff) \<Rightarrow> ('k, string) eff \<Rightarrow> string \<Rightarrow> ('k, int \<times> string) eff" where
  "fetch_output exec_cmd uuid command =
     ebind uuid (\<lambda>u.
     let tmp_file = tmp_name u in
     eseq (exec_cmd (command @ '' &> '' @ tmp_file))
    (ebind (exec_cmd (stat_command tmp_file)) (\<lambda>len_text.
     ebind (elift (py_int len_text)) (\<lambda>file_len.
     ebind (fetch_file chunk_size exec_cmd tmp_file (nat file_len)) (\<lambda>res.
     eseq (exec_cmd (''rm '' @ tmp_file)) (eret (file_len, res)))))))"

definition exec_and_fetch :: "(string \<Rightarrow> ('k, string) eff) \<Rightarrow> ('k, string) eff \<Rightarrow> string \<Rightarrow> ('k, string) eff" where
  "exec_and_fetch exec_cmd uuid command = ebind (fetch_output exec_cmd uuid command) (\<lambda>r. eret (snd r))"

text \<open>The two numbers of the warning of \<open>exec_on_pod\<close>, when it is printed\<close>

definition length_warning :: "int \<Rightarrow> string \<Rightarrow> (int \<times> int) option" where
  "length_warning file_len res =
     (let received_len = int (length res) in
      if file_len \<noteq> received_len then Some (file_len, received_len) else None)"

definition exec_and_warn ::
    "'k kubernetes \<Rightarrow> string \<Rightarrow> string \<Rightarrow> string \<Rightarrow> ('k, string \<times> (int \<times> int) option) eff" where
  "exec_and_warn k pod container command =
     ebind (fetch_output (kexec k pod container) (kuuid k) command)
       (\<lambda>(file_len, res). eret (res, length_warning file_len res))"

definition exec_on_pod :: "'k kubernetes \<Rightarrow> string \<Rightarrow> string \<Rightarrow> string \<Rightarrow> ('k, string) eff" where
  "exec_on_pod k pod container command = ebind (exec_and_warn k pod container command) (\<lambda>r. eret (fst r))"

definition exec_on_seed :: "'k kubernetes \<Rightarrow> string \<Rightarrow> string \<Rightarrow> ('k, string) eff" where
  "exec_on_seed k seed command = exec_and_fetch (kexec k seed ''coda'') (kuuid k) command"

lemma exec_on_pod_eq:
  "exec_on_pod k pod container command = exec_and_fetch (kexec k pod container) (kuuid k) command"
  by (rule ext) (simp add: exec_on_pod_def exec_and_warn_def exec_and_fetch_def ebind_def split: prod.split sum.split)

section \<open>What the pod's shell is relied on for\<close>

definition last_bytes :: "nat \<Rightarrow> 'a list \<Rightarrow> 'a list" where
  "last_bytes n xs = drop (length xs - n) xs"

definition holds_file :: "(string \<Rightarrow> ('k, string) eff) \<Rightarrow> string \<Rightarrow> string \<Rightarrow> 'k \<Rightarrow> bool" where
  "holds_file exec_cmd tmp_file content s \<longleftrightarrow>
     exec_cmd (stat_command tmp_file) s = (Inr (str_nat (length content)), s) \<and>
     (\<forall>start sz. exec_cmd (segment_command tmp_file start sz) s =
        (Inr (last_bytes sz (take (start + sz) content)), s))"

text \<open>
  One command run with its output redirected: the name is drawn, the command leaves the
  output in the file, and the file can be removed afterwards.
\<close>

definition runs_with_output ::
    "'k kubernetes \<Rightarrow> string \<Rightarrow> string \<Rightarrow> string \<Rightarrow> 'k \<Rightarrow> string \<Rightarrow> 'k \<Rightarrow> bool" where
  "runs_with_output k pod container command s out s' \<longleftrightarrow>
     (\<exists>u s1 s2 ans rm_ans.
        kuuid k s = (Inr u, s1) \<and>
        kexec k pod container (command @ '' &> '' @ tmp_name u) s1 = (Inr ans, s2) \<and>
        holds_file (kexec k pod container) (tmp_name u) out s2 \<and>
        kexec k pod container (''rm '' @ tmp_name u) s2 = (Inr rm_ans, s'))"

text \<open>
  A shell with one stored file, its state, that answers the four kinds of commands; \<open>out\<close>
  is what a redirected command prints.
\<close>

definition demo_exec :: "(string \<Rightarrow> string) \<Rightarrow> string \<Rightarrow> (string option, string) eff" where
  "demo_exec out cmd s =
     (let ws = split_on (CHR '' '') cmd; text = (case s of None \<Rightarrow> [] | Some t \<Rightarrow> t) in
      if hd ws = ''stat'' then (Inr (str_nat (length text)), s)
      else if hd ws = ''cat''
        then (Inr (last_bytes (nat_of_digits (ws ! 9)) (take (nat_of_digits (ws ! 5)) text)), s)
      else if hd ws = ''rm'' then (Inr [], None)
      else (Inr [], Some (out cmd)))"

definition printing_kubernetes :: "(string \<Rightarrow> string) \<Rightarrow> string option kubernetes" where
  "printing_kubernetes out = \<lparr>kexec = \<lambda>pod container. demo_exec out, kuuid = eret ''7''\<rparr>"

definition demo_kubernetes :: "string option kubernetes" where
  "demo_kubernetes = printing_kubernetes (\<lambda>_. ''/ip4/10.0.0.1/tcp/8302'')"

lemma last_bytes_take:
  assumes "a + n \<le> length xs"
  shows "last_bytes n (take (a + n) xs) = take n (drop a xs)"
  using assms by (simp add: last_bytes_def drop_take)

lemma chunk_text:
  assumes "0 < sz" and "i < num_chunks sz (length xs)"
  shows "i * sz \<le> length xs"
    and "last_bytes (min ((i + 1) * sz) (length xs) - i * sz)
           (take (i * sz + (min ((i + 1) * sz) (length xs) - i * sz)) xs) =
         take sz (drop (i * sz) xs)"
proof -
  have le: "(i + 1) * sz \<le> length xs + sz - 1"
    using assms by (metis Suc_eq_plus1 Suc_leI div_times_less_eq_dividend le_trans mult_le_mono1 num_chunks_def)
  then show i: "i * sz \<le> length xs" using assms(1) by simp
  have "min ((i + 1) * sz) (length xs) - i * sz = min sz (length xs - i * sz)"
    using i by (auto simp: min_def algebra_simps)
  moreover have "last_bytes (min sz (length xs - i * sz))
       (take (i * sz + min sz (length xs - i * sz)) xs) =
      take (min sz (length xs - i * sz)) (drop (i * sz) xs)"
    using i by (intro last_bytes_take) simp
  ultimately show "last_bytes (min ((i + 1) * sz) (length xs) - i * sz)
           (take (i * sz + (min ((i + 1) * sz) (length xs) - i * sz)) xs) =
         take sz (drop (i * sz) xs)"
    by (simp add: min_def)
qed

lemma concat_pieces:
  "concat (map (\<lambda>i. take sz (drop (i * sz) xs)) [0 ..< n]) = take (n * sz) xs"
proof (induction n)
  case (Suc n)
  have "take (Suc n * sz) xs = take (n * sz) xs @ take sz (drop (n * sz) xs)"
    by (metis add.commute mult_Suc take_add)
  with Suc show ?case by simp
qed simp

lemma fetch_file_whole:
  assumes "0 < sz" and "holds_file exec_cmd tmp content s"
  shows "fetch_file sz exec_cmd tmp (length content) s = (Inr content, s)"
proof -
  have "emapM (read_chunk sz exec_cmd tmp (length content)) [0 ..< num_chunks sz (length content)] s =
      (Inr (map (\<lambda>i. take sz (drop (i * sz) content)) [0 ..< num_chunks sz (length content)]), s)"
    using assms chunk_text(2) [OF assms(1)]
    by (intro emapM_pure) (simp add: read_chunk_def holds_file_def)
  moreover have "length content \<le> num_chunks sz (length content) * sz"
  proof -
    have "length content + sz - 1 < num_chunks sz (length content) * sz + sz"
      using assms(1) unfolding num_chunks_def
      by (metis add.commute dividend_less_times_div mult.commute mult_Suc)
    then show ?thesis by simp
  qed
  ultimately show ?thesis
    by (simp add: fetch_file_def ebind_def concat_pieces)
qed

lemma exec_and_fetch_run:
  assumes "runs_with_output k pod container command s out s'"
  shows "exec_and_fetch (kexec k pod container) (kuuid k) command s = (Inr out, s')"
proof -
  from assms obtain u s1 s2 ans rm_ans where
    u: "kuuid k s = (Inr u, s1)"
    and r: "kexec k pod container (command @ '' &> '' @ tmp_name u) s1 = (Inr ans, s2)"
    and h: "holds_file (kexec k pod container) (tmp_name u) out s2"
    and d: "kexec k pod container (''rm '' @ tmp_name u) s2 = (Inr rm_ans, s')"
    unfolding runs_with_output_def by blast
  have len: "kexec k pod container (stat_command (tmp_name u)) s2 = (Inr (str_nat (length out)), s2)"
    using h by (simp add: holds_file_def)
  have f: "fetch_file chunk_size (kexec k pod container) (tmp_name u) (length out) s2 = (Inr out, s2)"
    using h by (intro fetch_file_whole) (simp_all add: chunk_size_def)
  show ?thesis
    by (simp add: exec_and_fetch_def fetch_output_def ebind_def eseq_def u r [simplified] len f d [simplified] Let_def)
qed

section \<open>The commands that are sent\<close>

text \<open>The byte ranges the pieces should have: at most twenty million bytes each, end to end.\<close>

function byte_ranges :: "nat \<Rightarrow> nat \<Rightarrow> (nat \<times> nat) list" where
  "byte_ranges a n = (if n \<le> a then [] else (a, min (a + 20000000) n) # byte_ranges (a + 20000000) n)"
  by pat_completeness auto
termination
  by (relation "measure (\<lambda>(a, n). n - a)") simp_all

declare byte_ranges.simps [simp del]

lemma num_chunks_le: "0 < sz \<Longrightarrow> num_chunks sz n \<le> i \<longleftrightarrow> n \<le> i * sz"
proof -
  assume sz: "0 < sz"
  have "num_chunks sz n \<le> i \<longleftrightarrow> (n + sz - 1) div sz < Suc i" by (simp add: num_chunks_def less_Suc_eq_le)
  also have "\<dots> \<longleftrightarrow> n + sz - 1 < Suc i * sz" by (rule div_less_iff_less_mult [OF sz])
  also have "\<dots> \<longleftrightarrow> n \<le> i * sz" using sz by auto
  finally show ?thesis .
qed

lemma byte_ranges_chunks:
  "byte_ranges (i * chunk_size) n =
     map (\<lambda>j. (j * chunk_size, min ((j + 1) * chunk_size) n)) [i ..< num_chunks chunk_size n]"
proof (induction "num_chunks chunk_size n - i" arbitrary: i)
  case 0
  then have "n \<le> i * chunk_size" using num_chunks_le [of chunk_size n i] by (simp add: chunk_size_def)
  with 0 show ?case by (simp add: byte_ranges.simps)
next
  case (Suc m)
  then have "\<not> num_chunks chunk_size n \<le> i" by simp
  then have "\<not> n \<le> i * chunk_size" using num_chunks_le [of chunk_size n i] by (simp add: chunk_size_def)
  moreover have "i * chunk_size + 20000000 = Suc i * chunk_size" by (simp add: chunk_size_def)
  ultimately have "byte_ranges (i * chunk_size) n =
      (i * chunk_size, min ((i + 1) * chunk_size) n) # byte_ranges (Suc i * chunk_size) n"
    by (subst byte_ranges.simps) (simp add: chunk_size_def add.commute)
  with Suc.hyps(1) [of "Suc i"] Suc.hyps(2) show ?case by (simp add: upt_conv_Cons)
qed

lemma byte_ranges_content:
  "concat (map (\<lambda>(a, b). take (b - a) (drop a content)) (byte_ranges a (length content))) = drop a content"
proof (induction a "length content" rule: byte_ranges.induct)
  case (1 a)
  show ?case
  proof (cases "length content \<le> a")
    case False
    have "min (a + 20000000) (length content) - a = min 20000000 (length content - a)" using False by auto
    then have "take (min (a + 20000000) (length content) - a) (drop a content) = take 20000000 (drop a content)"
      by (simp add: min_def)
    then have "take (min (a + 20000000) (length content) - a) (drop a content) @ drop (a + 20000000) content = drop a content"
      by (metis add.commute append_take_drop_id drop_drop)
    with 1 [OF False] False show ?thesis by (subst byte_ranges.simps) simp
  qed (simp add: byte_ranges.simps)
qed

definition range_command :: "string \<Rightarrow> nat \<times> nat \<Rightarrow> string" where
  "range_command tmp ab =
     ''cat '' @ tmp @ '' | head -c '' @ str_nat (snd ab) @ '' | tail -c '' @ str_nat (snd ab - fst ab)"

lemma fetch_file_ranges:
  "fetch_file chunk_size exec_cmd tmp n =
     ebind (emapM exec_cmd (map (range_command tmp) (byte_ranges 0 n))) (\<lambda>chunks. eret (concat chunks))"
proof -
  have "segment_command tmp (i * chunk_size) (min ((i + 1) * chunk_size) n - i * chunk_size) =
      range_command tmp (i * chunk_size, min ((i + 1) * chunk_size) n)" if "i < num_chunks chunk_size n" for i
  proof -
    from that have "i * chunk_size \<le> n"
      using num_chunks_le [of chunk_size n i] by (simp add: chunk_size_def)
    then show ?thesis by (simp add: segment_command_def range_command_def chunk_size_def)
  qed
  then have "map (\<lambda>i. segment_command tmp (i * chunk_size) (min ((i + 1) * chunk_size) n - i * chunk_size))
        [0 ..< num_chunks chunk_size n] =
      map (range_command tmp) (byte_ranges 0 n)"
    using byte_ranges_chunks [of 0 n] by simp
  moreover have "emapM (read_chunk sz exec_cmd tmp n) xs =
      emapM exec_cmd (map (\<lambda>i. segment_command tmp (i * sz) (min ((i + 1) * sz) n - i * sz)) xs)" for sz xs
    by (induction xs) (simp_all add: read_chunk_def)
  ultimately show ?thesis by (simp add: fetch_file_def)
qed

lemma emapM_Cons_iff:
  "emapM f (x # xs) s = (Inr outs, t) \<longleftrightarrow>
     (\<exists>y u ys. f x s = (Inr y, u) \<and> emapM f xs u = (Inr ys, t) \<and> outs = y # ys)"
  by (auto simp: ebind_Inr_iff)

lemma emapM_append_iff:
  "emapM f (xs @ ys) s = (Inr outs, t) \<longleftrightarrow>
     (\<exists>a b u. emapM f xs s = (Inr a, u) \<and> emapM f ys u = (Inr b, t) \<and> outs = a @ b)"
proof (induction xs arbitrary: s outs)
  case (Cons x xs)
  have "emapM f ((x # xs) @ ys) s = (Inr outs, t) \<longleftrightarrow>
      (\<exists>y u zs. f x s = (Inr y, u) \<and> (\<exists>a b v. emapM f xs u = (Inr a, v) \<and> emapM f ys v = (Inr b, t) \<and> zs = a @ b) \<and>
         outs = y # zs)"
    unfolding append_Cons emapM_Cons_iff Cons ..
  then show ?case unfolding emapM_Cons_iff by (auto; metis append_Cons)
qed simp

lemma emapM_plan:
  "emapM f ([a, b] @ ms @ [d]) s = (Inr ([x, y] @ ps @ [z]), t) \<longleftrightarrow>
     (\<exists>u v w. f a s = (Inr x, u) \<and> f b u = (Inr y, v) \<and> emapM f ms v = (Inr ps, w) \<and> f d w = (Inr z, t))"
  unfolding append_Cons append_Nil emapM_Cons_iff emapM_append_iff by auto

lemma fetch_output_iff:
  "fetch_output exec_cmd uuid command s = (Inr (file_len, res), t) \<longleftrightarrow>
     (\<exists>u s1 ran len_text pieces gone.
        uuid s = (Inr u, s1) \<and> py_int len_text = Inr file_len \<and>
        emapM exec_cmd
          ([command @ '' &> '' @ tmp_name u, stat_command (tmp_name u)] @
           map (range_command (tmp_name u)) (byte_ranges 0 (nat file_len)) @ [''rm '' @ tmp_name u]) s1 =
          (Inr ([ran, len_text] @ pieces @ [gone]), t) \<and>
        res = concat pieces)"
proof -
  have e: "elift r s = (Inr x, t) \<longleftrightarrow> r = Inr x \<and> t = s" for r :: "'z result" and x s t by auto
  have r: "eret y s = (Inr x, t) \<longleftrightarrow> x = y \<and> t = s" for x y :: 'z and s t by auto
  show ?thesis
    unfolding fetch_output_def fetch_file_ranges Let_def eseq_def ebind_Inr_iff emapM_plan e r by blast
qed

text \<open>
  C20. exec_on_pod returns exactly when every command it sends is answered and stat
  printed a number. The commands are, in this order: the given one with its output
  redirected to the temporary file, stat on the file, one command per byte range of at most
  twenty million bytes, and rm. The result is what the range commands answered, joined, whatever
  that is; the warning is printed when its length is not the one stat printed. The
  ranges lie end to end from 0 to the length: of a text they cut out the text.
\<close>

theorem exec_on_pod_output:
  "(exec_and_warn k pod container command s = (Inr (res, warning), t) \<longleftrightarrow>
     (\<exists>u s1 ran len_text file_len pieces gone.
        kuuid k s = (Inr u, s1) \<and> py_int len_text = Inr file_len \<and>
        emapM (kexec k pod container)
          ([command @ '' &> '' @ tmp_name u, stat_command (tmp_name u)] @
           map (range_command (tmp_name u)) (byte_ranges 0 (nat file_len)) @ [''rm '' @ tmp_name u]) s1 =
          (Inr ([ran, len_text] @ pieces @ [gone]), t) \<and>
        res = concat pieces \<and>
        warning = (if int (length res) = file_len then None else Some (file_len, int (length res))))) \<and>
   (exec_on_pod k pod container command s = (Inr res, t) \<longleftrightarrow>
     (\<exists>w. exec_and_warn k pod container command s = (Inr (res, w), t))) \<and>
   concat (map (\<lambda>(a, b). take (b - a) (drop a content)) (byte_ranges 0 (length content))) = content"
proof (intro conjI)
  show "exec_and_warn k pod container command s = (Inr (res, warning), t) \<longleftrightarrow>
     (\<exists>u s1 ran len_text file_len pieces gone.
        kuuid k s = (Inr u, s1) \<and> py_int len_text = Inr file_len \<and>
        emapM (kexec k pod container)
          ([command @ '' &> '' @ tmp_name u, stat_command (tmp_name u)] @
           map (range_command (tmp_name u)) (byte_ranges 0 (nat file_len)) @ [''rm '' @ tmp_name u]) s1 =
          (Inr ([ran, len_text] @ pieces @ [gone]), t) \<and>
        res = concat pieces \<and>
        warning = (if int (length res) = file_len then None else Some (file_len, int (length res))))"
    (is "_ \<longleftrightarrow> ?plan")
  proof -
    have "exec_and_warn k pod container command s = (Inr (res, warning), t) \<longleftrightarrow>
        (\<exists>n. fetch_output (kexec k pod container) (kuuid k) command s = (Inr (n, res), t) \<and> warning = length_warning n res)"
      unfolding exec_and_warn_def ebind_Inr_iff by auto
    also have "\<dots> \<longleftrightarrow> ?plan" unfolding fetch_output_iff length_warning_def Let_def by (smt (verit))
    finally show ?thesis .
  qed
  show "exec_on_pod k pod container command s = (Inr res, t) \<longleftrightarrow>
     (\<exists>w. exec_and_warn k pod container command s = (Inr (res, w), t))"
    unfolding exec_on_pod_def ebind_Inr_iff by auto
  show "concat (map (\<lambda>(a, b). take (b - a) (drop a content)) (byte_ranges 0 (length content))) = content"
    using byte_ranges_content [where a = 0] by simp
qed

lemma str_nat_no_space: "CHR '' '' \<notin> set (str_nat n)"
proof
  assume "CHR '' '' \<in> set (str_nat n)"
  from str_nat_digits [OF this] obtain d where "d < 10" "CHR '' '' = digit_char d" by auto
  moreover have "is_space (CHR '' '')" by code_simp
  ultimately show False using digit_char_props(2) [of d] by simp
qed

lemma demo_holds: "holds_file (demo_exec out) (tmp_name ''7'') content (Some content)"
proof -
  have "split_on (CHR '' '') (segment_command (tmp_name ''7'') start sz) =
      [''cat'', tmp_name ''7'', ''|'', ''head'', ''-c'', str_nat (start + sz), ''|'', ''tail'', ''-c'', str_nat sz]"
    for start sz
    by (simp add: segment_command_def tmp_name_def split_on_append_sep [OF str_nat_no_space]
        split_on_no_sep [OF str_nat_no_space])
  then show ?thesis
    by (simp add: holds_file_def demo_exec_def stat_command_def tmp_name_def Let_def)
qed

lemma printing_runs:
  "runs_with_output (printing_kubernetes out) pod c (''mina '' @ args) s
     (out (''mina '' @ args @ '' &> '' @ tmp_name ''7'')) None"
proof -
  have "demo_exec out ((''mina '' @ args) @ '' &> '' @ tmp_name ''7'') s =
      (Inr [], Some (out (''mina '' @ args @ '' &> '' @ tmp_name ''7'')))"
    by (simp add: demo_exec_def Let_def)
  moreover have "demo_exec out (''rm '' @ tmp_name ''7'') t = (Inr [], None)" for t
    by (simp add: demo_exec_def Let_def)
  ultimately show ?thesis
    using demo_holds unfolding runs_with_output_def printing_kubernetes_def
    by (auto simp del: append.simps append_assoc)
qed

text \<open>On a shell that keeps the file, the output comes back.\<close>

lemma exec_on_pod_example:
  "exec_on_pod demo_kubernetes ''seed-1'' ''coda'' (''mina '' @ ''advanced get-peers'') None =
     (Inr ''/ip4/10.0.0.1/tcp/8302'', None)"
  unfolding demo_kubernetes_def exec_on_pod_eq by (rule exec_and_fetch_run) (rule printing_runs)

end
