(* ===== verification/NodeStatus.thy ===== *)
theory NodeStatus
  imports PodExec
begin

text \<open>
  The node status metrics of the watchdog: \<open>automation/services/watchdog/node_status_metrics.py\<close>.

  A node's answer is a \<open>response\<close>, the dictionary that \<open>ast.literal_eval\<close> makes of one line:
  every key the scripts read is a field, \<open>None\<close> when the key is missing (reading it then raises
  \<open>KeyError\<close>), with the type the daemon gives its value. The value under \<open>error\<close> is kept as
  an arbitrary literal, since the classification of errors has to cope with any. How a line is
  parsed is the parameter \<open>literal_eval\<close>. Fractions are exact rationals. The dictionary
  \<open>tree\<close> and the function \<open>get_deepest_child\<close> of the source are never used and are left out,
  as are the printed messages.
\<close>

section \<open>Data\<close>

datatype literal =
    LNone
  | LInt int
  | LStr string
  | LList "literal list"
  | LDict "(string \<times> literal) list"

record response =
  r_error :: "literal option"
  node_ip_addr :: "string option"
  node_peer_id :: "string option"
  sync_status :: "string option"
  protocol_state_hash :: "string option"
  k_block_hashes_and_timestamps :: "(string \<times> string) list option"
  k_block_hashes :: "string list option"
  uptime_minutes :: "int option"
  block_producers :: "string list option"
  peers :: "string list option"
  git_commit :: "string option"

text \<open>\<open>p[key]\<close> for a key of the response.\<close>

definition key :: "string \<Rightarrow> 'a option \<Rightarrow> 'a result" where
  "key name v = (case v of None \<Rightarrow> Inl (KeyError name) | Some x \<Rightarrow> Inr x)"

fun lit_item :: "literal \<Rightarrow> string \<Rightarrow> literal result" where
  "lit_item (LDict kvs) k = key k (map_of kvs k)"
| "lit_item _ k = Inl TypeError"

text \<open>\<open>s in value\<close>\<close>

fun lit_contains :: "string \<Rightarrow> literal \<Rightarrow> bool result" where
  "lit_contains s (LStr t) = Inr (str_in s t)"
| "lit_contains s (LList xs) = Inr (list_ex (\<lambda>x. x = LStr s) xs)"
| "lit_contains s (LDict kvs) = Inr (s \<in> set (dict_keys kvs))"
| "lit_contains s _ = Inl TypeError"

record container =
  c_args :: "string list"
  c_env :: "(string \<times> string) list"

record pod =
  pod_name :: string
  phase :: string
  containers :: "container list"

record 'k status_state =
  cluster :: 'k
  peer_table :: "((string \<times> string) \<times> response) list"
  error_resps :: "response list"
  all_resps :: "response list"
  peer_set :: "string set"
  seed_nodes_responded :: "(string, nat) dict"
  seed_nodes_queried :: "(string, nat) dict"

section \<open>Collecting the responses\<close>

definition peer_to_multiaddr :: "string \<Rightarrow> string \<Rightarrow> string \<Rightarrow> string" where
  "peer_to_multiaddr host libp2p_port peer_id =
     ''/ip4/'' @ host @ ''/tcp/'' @ libp2p_port @ ''/p2p/'' @ peer_id"

definition contains_error :: "response \<Rightarrow> bool" where
  "contains_error resp = (case key ''error'' (r_error resp) of Inl _ \<Rightarrow> False | Inr _ \<Rightarrow> True)"

definition no_error :: "response \<Rightarrow> bool" where
  "no_error resp = (\<not> contains_error resp)"

text \<open>\<open>[ ast.literal_eval(s) for s in raw.split('\n') if s != '' ]\<close>\<close>

definition parse_resps :: "(string \<Rightarrow> response result) \<Rightarrow> string \<Rightarrow> response list result" where
  "parse_resps literal_eval raw =
     mapM literal_eval (filter (\<lambda>s. s \<noteq> '''') (split_on (CHR ''\<newline>'') raw))"

definition table_entry :: "response \<Rightarrow> ((string \<times> string) \<times> response) result" where
  "table_entry r =
     rbind (key ''node_ip_addr'' (node_ip_addr r)) (\<lambda>ip.
     rbind (key ''node_peer_id'' (node_peer_id r)) (\<lambda>pid. Inr ((ip, pid), r)))"

definition add_new_entries ::
    "((string \<times> string) \<times> response) list \<Rightarrow> ((string \<times> string) \<times> response) list \<Rightarrow>
     ((string \<times> string) \<times> response) list" where
  "add_new_entries table entries =
     foldl (\<lambda>acc (k, v). if k \<in> set (dict_keys acc) then acc else AList.update k v acc) table entries"

definition add_resp ::
    "(string \<Rightarrow> response result) \<Rightarrow> string \<Rightarrow> string list \<Rightarrow> string \<Rightarrow> ('k status_state, unit) eff" where
  "add_resp literal_eval raw prs seed =
     ebind (elift (parse_resps literal_eval raw)) (\<lambda>resps.
     let valid_resps = filter no_error resps in
     eseq (emodify (\<lambda>s. s\<lparr>error_resps := error_resps s @ filter contains_error resps,
                          all_resps := all_resps s @ resps,
                          peer_set := peer_set s \<union> set prs,
                          seed_nodes_responded :=
                            AList.update seed (length valid_resps) (seed_nodes_responded s),
                          seed_nodes_queried :=
                            AList.update seed (length prs) (seed_nodes_queried s)\<rparr>))
    (ebind (elift (mapM table_entry valid_resps)) (\<lambda>entries.
     emodify (\<lambda>s. s\<lparr>peer_table := add_new_entries (peer_table s) entries\<rparr>))))"

text \<open>The \<open>DAEMON_CLIENT_PORT\<close> of a seed, found through its pod's daemon container.\<close>

definition is_daemon :: "container \<Rightarrow> bool result" where
  "is_daemon c = rbind (py_get (c_args c) 0) (\<lambda>a. Inr (a = ''daemon''))"

fun filterM :: "('a \<Rightarrow> bool result) \<Rightarrow> 'a list \<Rightarrow> 'a list result" where
  "filterM f [] = Inr []"
| "filterM f (x # xs) =
     rbind (f x) (\<lambda>b. rbind (filterM f xs) (\<lambda>ys. Inr (if b then x # ys else ys)))"

definition seed_port :: "pod list \<Rightarrow> string \<Rightarrow> string result" where
  "seed_port pods seed =
     rbind (py_get (filter (\<lambda>p. pod_name p = seed) pods) 0) (\<lambda>seed_pod.
     rbind (filterM is_daemon (containers seed_pod)) (\<lambda>daemons.
     rbind (py_get daemons 0) (\<lambda>daemon.
     py_get (map snd (filter (\<lambda>v. fst v = ''DAEMON_CLIENT_PORT'') (c_env daemon))) 0)))"

definition on_cluster :: "('k, 'a) eff \<Rightarrow> ('k status_state, 'a) eff" where
  "on_cluster m s = (case m (cluster s) of (r, k) \<Rightarrow> (r, s\<lparr>cluster := k\<rparr>))"

definition query_seed ::
    "'k kubernetes \<Rightarrow> (string \<Rightarrow> response result) \<Rightarrow> string \<Rightarrow> string \<Rightarrow> ('k status_state, unit) eff" where
  "query_seed k literal_eval seed port =
     ebind (on_cluster (exec_on_pod k seed ''coda'' ''mina advanced get-peers'')) (\<lambda>out.
     let prs = split_on (CHR ''\<newline>'') (py_rstrip out);
         cmd = ''mina advanced node-status -daemon-port '' @ port @ '' -peers '' @ py_join '','' prs @
               '' -show-errors''
     in ebind (on_cluster (exec_on_pod k seed ''coda'' cmd)) (\<lambda>resp.
        if \<not> str_in ''Error: Unable to connect to Mina Daemon.'' resp
        then add_resp literal_eval resp prs seed else eret ()))"

text \<open>\<open>try: ... except Exception: continue\<close>; \<open>SystemExit\<close> is no \<open>Exception\<close> and passes through.\<close>

definition attempt :: "('s, unit) eff \<Rightarrow> ('s, unit) eff" where
  "attempt m s =
     (case m s of
        (Inl (SystemExit n), t) \<Rightarrow> (Inl (SystemExit n), t)
      | (_, t) \<Rightarrow> (Inr (), t))"

definition collect_node_status ::
    "'k kubernetes \<Rightarrow> (string \<Rightarrow> response result) \<Rightarrow> pod list \<Rightarrow> string list \<Rightarrow>
     ('k status_state, nat \<times> response list \<times> response list) eff" where
  "collect_node_status k literal_eval pods seeds =
     eseq (emodify (\<lambda>s. s\<lparr>peer_table := [], error_resps := [], all_resps := [], peer_set := {}\<rparr>))
    (eseq (efor seeds (\<lambda>seed.
       ebind (elift (seed_port pods seed)) (\<lambda>port. attempt (query_seed k literal_eval seed port))))
     (eget (\<lambda>s. (card (peer_set s), dict_values (peer_table s), error_resps s))))"

section \<open>Classifying errors\<close>

datatype err_class =
    Context_Deadline | Negotiate_Security_Protocol | Connection_Refused | Time_Out
  | Size_Limit_Exceeded | Stream_Reset | Other_Error

fun first_match :: "(string \<times> err_class) list \<Rightarrow> literal \<Rightarrow> err_class result" where
  "first_match [] v = Inr Other_Error"
| "first_match ((s, c) # rest) v = rbind (lit_contains s v) (\<lambda>b. if b then Inr c else first_match rest v)"

definition error_texts :: "(string \<times> err_class) list" where
  "error_texts =
     [(''context deadline exceeded'', Context_Deadline),
      (''failed to negotiate security protocol'', Negotiate_Security_Protocol),
      (''connection refused'', Connection_Refused),
      (''timed out requesting node status data from peer'', Time_Out),
      (''node status data was greater than'', Size_Limit_Exceeded),
      (''stream reset'', Stream_Reset)]"

text \<open>The body of the loop's \<open>try\<close>; whatever it raises counts as an other error.\<close>

definition classify :: "response \<Rightarrow> err_class" where
  "classify p =
     (case rbind (key ''error'' (r_error p)) (\<lambda>e.
           rbind (lit_item e ''string'') (first_match error_texts)) of
        Inl _ \<Rightarrow> Other_Error
      | Inr c \<Rightarrow> c)"

record err_counts =
  err_context_deadline :: nat
  err_negotiate_security_protocol :: nat
  err_connection_refused :: nat
  err_time_out :: nat
  err_stream_reset :: nat
  err_size_limit_exceeded :: nat
  err_others :: nat

definition no_errors :: err_counts where
  "no_errors = \<lparr>err_context_deadline = 0, err_negotiate_security_protocol = 0,
     err_connection_refused = 0, err_time_out = 0, err_stream_reset = 0,
     err_size_limit_exceeded = 0, err_others = 0\<rparr>"

definition count_error :: "err_counts \<Rightarrow> response \<Rightarrow> err_counts" where
  "count_error n p =
     (case classify p of
        Context_Deadline \<Rightarrow> n\<lparr>err_context_deadline := err_context_deadline n + 1\<rparr>
      | Negotiate_Security_Protocol \<Rightarrow>
          n\<lparr>err_negotiate_security_protocol := err_negotiate_security_protocol n + 1\<rparr>
      | Connection_Refused \<Rightarrow> n\<lparr>err_connection_refused := err_connection_refused n + 1\<rparr>
      | Time_Out \<Rightarrow> n\<lparr>err_time_out := err_time_out n + 1\<rparr>
      | Size_Limit_Exceeded \<Rightarrow> n\<lparr>err_size_limit_exceeded := err_size_limit_exceeded n + 1\<rparr>
      | Stream_Reset \<Rightarrow> n\<lparr>err_stream_reset := err_stream_reset n + 1\<rparr>
      | Other_Error \<Rightarrow> n\<lparr>err_others := err_others n + 1\<rparr>)"

definition count_errors :: "response list \<Rightarrow> err_counts" where
  "count_errors ps = foldl count_error no_errors ps"

section \<open>The gauges\<close>

record gauges =
  g_nodes_synced_near_best_tip :: rat
  g_nodes_synced :: rat
  g_nodes_queried :: nat
  g_nodes_responded :: nat
  g_nodes_errored :: nat
  g_context_deadline_exceeded :: nat
  g_failed_security_protocol_negotiation :: nat
  g_connection_refused_errors :: nat
  g_size_limit_exceeded_errors :: nat
  g_timed_out_errors :: nat
  g_stream_reset_errors :: nat
  g_other_connection_errors :: nat

definition py_div :: "nat \<Rightarrow> nat \<Rightarrow> rat result" where
  "py_div a b = (if b = 0 then Inl ZeroDivisionError else Inr (of_nat a / of_nat b))"

definition count_true :: "bool list \<Rightarrow> nat" where
  "count_true bs = length (filter (\<lambda>b. b) bs)"

definition synced_flags :: "response list \<Rightarrow> bool list result" where
  "synced_flags ps = mapM (\<lambda>p. rbind (key ''sync_status'' (sync_status p)) (\<lambda>s. Inr (s = ''Synced''))) ps"

definition set_gauges ::
    "nat \<Rightarrow> response list \<Rightarrow> response list \<Rightarrow> rat \<Rightarrow> gauges \<Rightarrow> gauges" where
  "set_gauges resp_count valid_resps errs synced_fraction g =
     (let n = count_errors errs in
      g\<lparr>g_nodes_synced := synced_fraction,
        g_nodes_queried := resp_count,
        g_nodes_responded := length valid_resps,
        g_nodes_errored := length errs,
        g_context_deadline_exceeded := err_context_deadline n,
        g_failed_security_protocol_negotiation := err_negotiate_security_protocol n,
        g_connection_refused_errors := err_connection_refused n,
        g_size_limit_exceeded_errors := err_size_limit_exceeded n,
        g_timed_out_errors := err_time_out n,
        g_stream_reset_errors := err_stream_reset n,
        g_other_connection_errors := err_others n\<rparr>)"

section \<open>The best tip\<close>

type_synonym chain = "(string \<times> string) list"

definition add_parents :: "(string, string) dict \<Rightarrow> chain \<Rightarrow> (string, string) dict" where
  "add_parents parents c =
     foldl (\<lambda>acc (parent, child). AList.update (fst child) (fst parent) acc) parents (zip c (tl c))"

definition parents_of :: "chain list \<Rightarrow> (string, string) dict" where
  "parents_of block_lists = foldl add_parents [] block_lists"

text \<open>The tips of the chains that are long enough.\<close>

definition latest_protocol_states :: "chain list \<Rightarrow> string list" where
  "latest_protocol_states block_lists = map (\<lambda>c. fst (last c)) (filter (\<lambda>c. 290 \<le> length c) block_lists)"

definition common_states :: "string list \<Rightarrow> (string, nat) dict" where
  "common_states hashes = foldl (\<lambda>acc h. dict_modify h 0 Suc acc) [] hashes"

text \<open>\<open>max(items, key=lambda x: x[1])\<close>: the first item with the greatest count.\<close>

fun max_item :: "('a \<times> nat) list \<Rightarrow> ('a \<times> nat) result" where
  "max_item [] = Inl ValueError"
| "max_item (x # xs) = Inr (foldl (\<lambda>m y. if snd m < snd y then y else m) x xs)"

definition last_n_step :: "(string, string) dict \<Rightarrow> string list \<Rightarrow> string list" where
  "last_n_step parents states =
     (case map_of parents (last states) of None \<Rightarrow> states | Some p \<Rightarrow> states @ [p])"

definition last_n_protocol_states :: "nat \<Rightarrow> (string, string) dict \<Rightarrow> string \<Rightarrow> string list" where
  "last_n_protocol_states n parents best = (last_n_step parents ^^ n) [best]"

definition any_hash_in_last_n :: "string list \<Rightarrow> chain \<Rightarrow> bool" where
  "any_hash_in_last_n states c =
     list_ex (\<lambda>h. fst h \<in> set states) (py_slice c (- 3) (int (length c)))"

definition near_best_tip :: "string list \<Rightarrow> response list \<Rightarrow> bool list result" where
  "near_best_tip states ps =
     rbind (filterM (\<lambda>p. rbind (key ''sync_status'' (sync_status p)) (\<lambda>s. Inr (s = ''Synced''))) ps)
       (\<lambda>synced. mapM (\<lambda>p. rbind (key ''k_block_hashes_and_timestamps'' (k_block_hashes_and_timestamps p))
         (\<lambda>c. Inr (any_hash_in_last_n states c))) synced)"

text \<open>The list of out-of-sync peers is only printed, but building it may raise.\<close>

definition peers_out_of_sync :: "string list \<Rightarrow> response list \<Rightarrow> (string \<times> string \<times> string) list result" where
  "peers_out_of_sync states ps =
     rbind (filterM (\<lambda>p.
         rbind (key ''k_block_hashes_and_timestamps'' (k_block_hashes_and_timestamps p)) (\<lambda>c.
         if any_hash_in_last_n states c then Inr False
         else rbind (key ''sync_status'' (sync_status p)) (\<lambda>s. Inr (s = ''Synced'')))) ps)
       (\<lambda>out. mapM (\<lambda>p.
         rbind (key ''node_peer_id'' (node_peer_id p)) (\<lambda>i.
         rbind (key ''protocol_state_hash'' (protocol_state_hash p)) (\<lambda>h.
         rbind (key ''sync_status'' (sync_status p)) (\<lambda>s.
         Inr (''peer-id:'' @ i, ''state-hash:'' @ h, ''status:'' @ s))))) out)"

definition near_best_tip_fraction :: "response list \<Rightarrow> rat result" where
  "near_best_tip_fraction valid_resps =
     rbind (mapM (\<lambda>p. key ''k_block_hashes_and_timestamps'' (k_block_hashes_and_timestamps p)) valid_resps)
       (\<lambda>block_lists.
     rbind (max_item (common_states (latest_protocol_states block_lists))) (\<lambda>best.
     let states = last_n_protocol_states 3 (parents_of block_lists) (fst best) in
     rbind (near_best_tip states valid_resps) (\<lambda>near.
     rbind (synced_flags valid_resps) (\<lambda>synced.
     rbind (py_div (count_true near) (count_true synced)) (\<lambda>fraction.
     rbind (peers_out_of_sync states valid_resps) (\<lambda>_. Inr fraction))))))"

text \<open>
  The second half of the function, on the collected responses: what it leaves in the gauges
  and whether it raises.
\<close>

definition update_gauges :: "nat \<Rightarrow> response list \<Rightarrow> response list \<Rightarrow> (gauges, unit) eff" where
  "update_gauges resp_count valid_resps errs =
     ebind (elift (synced_flags valid_resps)) (\<lambda>flags.
     ebind (elift (py_div (count_true flags) (length valid_resps))) (\<lambda>synced_fraction.
     eseq (emodify (set_gauges resp_count valid_resps errs synced_fraction))
    (ebind (elift (near_best_tip_fraction valid_resps)) (\<lambda>fraction.
     emodify (\<lambda>g. g\<lparr>g_nodes_synced_near_best_tip := fraction\<rparr>)))))"

definition running_seeds :: "pod list \<Rightarrow> string list" where
  "running_seeds pods =
     filter (\<lambda>n. str_in ''seed'' n) (map pod_name (filter (\<lambda>p. phase p = ''Running'') pods))"

definition collect_node_status_metrics ::
    "'k kubernetes \<Rightarrow> (string \<Rightarrow> response result) \<Rightarrow> pod list \<Rightarrow>
     ('k status_state \<times> gauges, unit) eff" where
  "collect_node_status_metrics k literal_eval pods sg =
     (case collect_node_status k literal_eval pods (running_seeds pods) (fst sg) of
        (Inl e, s) \<Rightarrow> (Inl e, (s, snd sg))
      | (Inr (resp_count, valid_resps, errs), s) \<Rightarrow>
          (case update_gauges resp_count valid_resps errs (snd sg) of (r, g) \<Rightarrow> (r, (s, g))))"

section \<open>Specifications\<close>

fun tally_of :: "err_counts \<Rightarrow> err_class \<Rightarrow> nat" where
  "tally_of n Context_Deadline = err_context_deadline n"
| "tally_of n Negotiate_Security_Protocol = err_negotiate_security_protocol n"
| "tally_of n Connection_Refused = err_connection_refused n"
| "tally_of n Time_Out = err_time_out n"
| "tally_of n Size_Limit_Exceeded = err_size_limit_exceeded n"
| "tally_of n Stream_Reset = err_stream_reset n"
| "tally_of n Other_Error = err_others n"

definition all_classes :: "err_class list" where
  "all_classes = [Context_Deadline, Negotiate_Security_Protocol, Connection_Refused, Time_Out,
     Size_Limit_Exceeded, Stream_Reset, Other_Error]"

text \<open>What holds of the collected data after any number of responses.\<close>

definition entry_ok :: "(string \<times> string) \<times> response \<Rightarrow> bool" where
  "entry_ok e = (table_entry (snd e) = Inr e \<and> no_error (snd e))"

definition collected_ok :: "'k status_state \<Rightarrow> bool" where
  "collected_ok s \<longleftrightarrow>
     dict_wf (peer_table s) \<and> list_all entry_ok (peer_table s) \<and>
     set (dict_values (peer_table s)) \<subseteq> set (all_resps s) \<and>
     error_resps s = filter contains_error (all_resps s) \<and> finite (peer_set s)"

text \<open>An answer of a synced node, and a network of one seed.\<close>

definition demo_response :: response where
  "demo_response =
     \<lparr>r_error = None, node_ip_addr = Some ''10.0.0.1'', node_peer_id = Some ''p1'',
      sync_status = Some ''Synced'', protocol_state_hash = Some ''B'',
      k_block_hashes_and_timestamps = Some [(''A'', ''1''), (''B'', ''2'')], k_block_hashes = None,
      uptime_minutes = Some 90, block_producers = Some [''key''], peers = Some [''p2''],
      git_commit = Some ''c0''\<rparr>"

definition demo_pods :: "pod list" where
  "demo_pods =
     [\<lparr>pod_name = ''seed-1'', phase = ''Running'',
       containers = [\<lparr>c_args = [''daemon''], c_env = [(''DAEMON_CLIENT_PORT'', ''8301'')]\<rparr>]\<rparr>]"

definition demo_state :: "string option status_state" where
  "demo_state = \<lparr>cluster = None, peer_table = [], error_resps = [], all_resps = [], peer_set = {},
     seed_nodes_responded = [], seed_nodes_queried = []\<rparr>"

definition demo_gauges :: gauges where
  "demo_gauges = \<lparr>g_nodes_synced_near_best_tip = 0, g_nodes_synced = 1, g_nodes_queried = 4,
     g_nodes_responded = 4, g_nodes_errored = 0, g_context_deadline_exceeded = 0,
     g_failed_security_protocol_negotiation = 0, g_connection_refused_errors = 0,
     g_size_limit_exceeded_errors = 0, g_timed_out_errors = 0, g_stream_reset_errors = 0,
     g_other_connection_errors = 0\<rparr>"

section \<open>Every error is counted once\<close>

interpretation errs: tally_loop classify count_error tally_of
proof
  fix s x b
  show "tally_of (count_error s x) b = tally_of s b + (if classify x = b then 1 else 0)"
    by (cases "classify x"; cases b) (simp_all add: count_error_def)
qed

lemma in_all_classes: "c \<in> set all_classes"
  by (cases c) (simp_all add: all_classes_def)

lemma tally_no_errors: "tally_of no_errors b = 0"
  by (cases b) (simp_all add: no_errors_def)

lemma count_errors_tally:
  "tally_of (count_errors ps) b = length (filter (\<lambda>p. classify p = b) ps)"
  by (simp add: count_errors_def errs.tally_foldl tally_no_errors)

lemma count_errors_total: "(\<Sum>b\<leftarrow>all_classes. tally_of (count_errors ps) b) = length ps"
proof -
  have "(\<Sum>b\<in>set all_classes. tally_of (count_errors ps) b) = length ps"
    unfolding count_errors_def
    by (subst errs.tally_total) (simp_all add: tally_no_errors in_all_classes)
  moreover have "distinct all_classes" by (simp add: all_classes_def)
  ultimately show ?thesis by (simp add: sum_list_distinct_conv_sum_set)
qed

text \<open>
  Each of the seven error counters is the number of error responses of its class,
  and together they count every error response exactly once, also those on which the
  classification itself raises.
\<close>

theorem errors_partitioned:
  "(\<forall>c. tally_of (count_errors ps) c = length (filter (\<lambda>p. classify p = c) ps)) \<and>
   (\<Sum>c\<leftarrow>all_classes. tally_of (count_errors ps) c) = length ps"
  by (intro conjI allI count_errors_tally count_errors_total)

section \<open>The collected responses\<close>

interpretation collected: effect_frame "\<lambda>s t. collected_ok s \<longrightarrow> collected_ok t"
  by unfold_locales auto

lemma collected_irrelevant:
  "collected_ok (s\<lparr>cluster := k\<rparr>) = collected_ok s"
  by (simp add: collected_ok_def)

lemma table_entry_snd: "table_entry r = Inr e \<Longrightarrow> snd e = r"
  by (auto simp: table_entry_def rbind_eq_Inr)

lemma add_new_entries_ok:
  assumes "dict_wf t" and "list_all entry_ok t" and "list_all entry_ok es"
    and "set (dict_values t) \<subseteq> X" and "set (dict_values es) \<subseteq> X"
  shows "dict_wf (add_new_entries t es) \<and> list_all entry_ok (add_new_entries t es) \<and>
    set (dict_values (add_new_entries t es)) \<subseteq> X"
  using assms
proof (induction es arbitrary: t)
  case Nil
  then show ?case by (simp add: add_new_entries_def)
next
  case (Cons e es)
  obtain k v where e: "e = (k, v)" by (cases e)
  show ?case
  proof (cases "k \<in> set (dict_keys t)")
    case True
    with Cons e show ?thesis by (simp add: add_new_entries_def)
  next
    case False
    have u: "AList.update k v t = t @ [(k, v)]"
      using False by (induction t) auto
    have "add_new_entries t (e # es) = add_new_entries (t @ [(k, v)]) es"
      using False e u by (simp add: add_new_entries_def)
    with Cons.IH [of "t @ [(k, v)]"] Cons.prems False e show ?thesis by simp
  qed
qed

lemma add_resp_ok: "framed (\<lambda>s t. collected_ok s \<longrightarrow> collected_ok t) (add_resp ev raw prs seed)"
  unfolding framed_def
proof (intro allI impI)
  fix s :: "'k status_state"
  assume ok: "collected_ok s"
  show "collected_ok (snd (add_resp ev raw prs seed s))"
  proof (cases "parse_resps ev raw")
    case (Inl e)
    with ok show ?thesis by (simp add: add_resp_def ebind_def)
  next
    case (Inr resps)
    define s1 where "s1 = s\<lparr>error_resps := error_resps s @ filter contains_error resps,
        all_resps := all_resps s @ resps, peer_set := peer_set s \<union> set prs,
        seed_nodes_responded := AList.update seed (length (filter no_error resps)) (seed_nodes_responded s),
        seed_nodes_queried := AList.update seed (length prs) (seed_nodes_queried s)\<rparr>"
    have s1: "collected_ok s1" using ok by (auto simp: collected_ok_def s1_def)
    show ?thesis
    proof (cases "mapM table_entry (filter no_error resps)")
      case (Inl e)
      with Inr s1 show ?thesis
        by (simp add: add_resp_def ebind_def eseq_def Let_def s1_def)
    next
      case es: (Inr entries)
      then have rel: "e \<in> set entries \<Longrightarrow> \<exists>r\<in>set (filter no_error resps). table_entry r = Inr e" for e
        by (rule mapM_in)
      have "list_all entry_ok entries"
        using rel table_entry_snd by (fastforce simp: list_all_iff entry_ok_def)
      moreover have "set (dict_values entries) \<subseteq> set (all_resps s1)"
        using rel table_entry_snd by (fastforce simp: s1_def)
      ultimately have "collected_ok (s1\<lparr>peer_table := add_new_entries (peer_table s1) entries\<rparr>)"
        using s1 add_new_entries_ok [of "peer_table s1" entries "set (all_resps s1)"]
        by (simp add: collected_ok_def)
      with Inr es show ?thesis
        by (simp add: add_resp_def ebind_def eseq_def Let_def s1_def)
    qed
  qed
qed

lemma on_cluster_ok: "framed (\<lambda>s t. collected_ok s \<longrightarrow> collected_ok t) (on_cluster m)"
  by (auto simp: framed_def on_cluster_def collected_irrelevant split: prod.splits)

lemma attempt_ok:
  assumes "framed (\<lambda>s t. collected_ok s \<longrightarrow> collected_ok t) m"
  shows "framed (\<lambda>s t. collected_ok s \<longrightarrow> collected_ok t) (attempt m)"
proof -
  have "snd (attempt m s) = snd (m s)" for s
    by (simp add: attempt_def split: prod.split sum.split py_error.split)
  with assms show ?thesis by (simp add: framed_def)
qed

lemma query_seed_ok: "framed (\<lambda>s t. collected_ok s \<longrightarrow> collected_ok t) (query_seed k ev seed port)"
  unfolding query_seed_def Let_def
  by (intro collected.framed_bind collected.framed_if collected.framed_prim on_cluster_ok add_resp_ok)

text \<open>
  C21. Whatever the seeds answer or fail to answer, the responses collect_node_status
  returns as valid are pairwise different in address and peer id, contain no error and
  were received; the error responses are all the received ones with an error, in order;
  and the first component is the number of different queried peers.
\<close>

theorem collected_responses_sound:
  assumes "collect_node_status k ev pods seeds s = (Inr (n, valid, errs), t)"
  shows "distinct (map (\<lambda>r. (node_ip_addr r, node_peer_id r)) valid) \<and>
    list_all no_error valid \<and> set valid \<subseteq> set (all_resps t) \<and>
    errs = filter contains_error (all_resps t) \<and> n = card (peer_set t)"
proof -
  define s0 where "s0 = s\<lparr>peer_table := [], error_resps := [], all_resps := [], peer_set := {}\<rparr>"
  define loop where "loop = efor seeds (\<lambda>seed.
       ebind (elift (seed_port pods seed)) (\<lambda>port. attempt (query_seed k ev seed port)))"
  obtain r u where l: "loop s0 = (r, u)" by (cases "loop s0")
  with assms have "r = Inr () \<and> u = t \<and> n = card (peer_set t) \<and> valid = dict_values (peer_table t) \<and>
      errs = error_resps t"
    by (cases r) (auto simp: collect_node_status_def eseq_def ebind_def loop_def s0_def)
  moreover have "framed (\<lambda>s t. collected_ok s \<longrightarrow> collected_ok t) loop"
    unfolding loop_def
    by (intro collected.framed_for collected.framed_bind collected.framed_prim attempt_ok query_seed_ok)
  then have "collected_ok u" using framedD l by (fastforce simp: collected_ok_def s0_def)
  moreover have "distinct (map (\<lambda>r. (node_ip_addr r, node_peer_id r)) (dict_values tab))"
    if "dict_wf tab" "list_all entry_ok tab" for tab
  proof -
    have "map (\<lambda>r. (node_ip_addr r, node_peer_id r)) (dict_values tab) =
        map (\<lambda>k. (Some (fst k), Some (snd k))) (dict_keys tab)"
      using that(2) by (induction tab)
        (auto simp: entry_ok_def table_entry_def rbind_eq_Inr key_def split: option.splits)
    moreover have "inj_on (\<lambda>k :: string \<times> string. (Some (fst k), Some (snd k))) (set (dict_keys tab))"
      by (intro inj_onI) (metis option.inject prod.expand prod.inject)
    ultimately show ?thesis using that(1) by (simp only: distinct_map [of _ "dict_keys tab"])
  qed
  ultimately show ?thesis
    by (auto simp: collected_ok_def list_all_iff entry_ok_def)
qed

section \<open>The gauges\<close>

lemma py_div_unit:
  assumes "py_div a b = Inr q" and "a \<le> b"
  shows "0 \<le> q \<and> q \<le> 1"
  using assms by (auto simp: py_div_def split: if_splits)

lemma count_true_le: "count_true bs \<le> length bs"
  by (simp add: count_true_def)

lemma filterM_length:
  "filterM f xs = Inr ys \<Longrightarrow> mapM f xs = Inr bs \<Longrightarrow> length ys = count_true bs"
  by (induction xs arbitrary: ys bs) (auto simp: rbind_eq_Inr count_true_def)

lemma near_le_synced:
  assumes "near_best_tip states ps = Inr near" and "synced_flags ps = Inr flags"
  shows "count_true near \<le> count_true flags"
proof -
  from assms(1) obtain synced where
    f: "filterM (\<lambda>p. rbind (key ''sync_status'' (sync_status p)) (\<lambda>s. Inr (s = ''Synced''))) ps = Inr synced"
    and "length near = length synced"
    by (auto simp: near_best_tip_def rbind_eq_Inr dest: mapM_length)
  with filterM_length [OF f] assms(2) count_true_le [of near] show ?thesis
    by (simp add: synced_flags_def)
qed

lemma near_fraction_unit: "near_best_tip_fraction ps = Inr q \<Longrightarrow> 0 \<le> q \<and> q \<le> 1"
  by (auto simp: near_best_tip_fraction_def rbind_eq_Inr Let_def)
    (meson near_le_synced py_div_unit)+

lemma update_gauges_empty: "update_gauges n [] errs g = (Inl ZeroDivisionError, g)"
  by (simp add: update_gauges_def synced_flags_def py_div_def ebind_def)

text \<open>
  When no node gives a valid response, the metric raises ZeroDivisionError before it
  sets any gauge: all of them, the number of responding nodes included, keep their
  former values.
\<close>

theorem silent_network_keeps_gauges:
  assumes "collect_node_status k ev pods (running_seeds pods) s = (Inr (n, [], errs), t)"
  shows "collect_node_status_metrics k ev pods (s, g) = (Inl ZeroDivisionError, (t, g))"
  using assms by (simp add: collect_node_status_metrics_def update_gauges_empty)

text \<open>
  C22. With at least one valid response, the gauges set are consistent: the error gauge
  is the sum of the seven error kinds, the synced fraction lies between 0 and 1, and the
  fraction near the best tip is either left as it was (when the function raises later)
  or set between 0 and 1.
\<close>

theorem gauges_consistent:
  assumes "valid \<noteq> []" and "synced_flags valid = Inr flags"
    and "update_gauges n valid errs g = (r, g')"
  shows "g_nodes_responded g' = length valid \<and> g_nodes_errored g' = length errs \<and>
    g_nodes_errored g' = g_context_deadline_exceeded g' + g_failed_security_protocol_negotiation g' +
      g_connection_refused_errors g' + g_timed_out_errors g' + g_size_limit_exceeded_errors g' +
      g_stream_reset_errors g' + g_other_connection_errors g' \<and>
    0 \<le> g_nodes_synced g' \<and> g_nodes_synced g' \<le> 1 \<and>
    (case r of
       Inl _ \<Rightarrow> g_nodes_synced_near_best_tip g' = g_nodes_synced_near_best_tip g
     | Inr _ \<Rightarrow> 0 \<le> g_nodes_synced_near_best_tip g' \<and> g_nodes_synced_near_best_tip g' \<le> 1)"
proof -
  define q where "q = (of_nat (count_true flags) / of_nat (length valid) :: rat)"
  have d: "py_div (count_true flags) (length valid) = Inr q"
    using assms(1) by (simp add: py_div_def q_def)
  have "count_true flags \<le> length valid"
    using mapM_length [OF assms(2) [unfolded synced_flags_def]] count_true_le [of flags] by simp
  then have unit: "0 \<le> q \<and> q \<le> 1" by (rule py_div_unit [OF d])
  define g1 where "g1 = set_gauges n valid errs q g"
  have total: "length errs = err_context_deadline (count_errors errs) +
      err_negotiate_security_protocol (count_errors errs) + err_connection_refused (count_errors errs) +
      err_time_out (count_errors errs) + err_size_limit_exceeded (count_errors errs) +
      err_stream_reset (count_errors errs) + err_others (count_errors errs)"
    using count_errors_total [of errs] by (simp add: all_classes_def)
  from assms(2,3) d have "r = (case near_best_tip_fraction valid of Inl e \<Rightarrow> Inl e | Inr _ \<Rightarrow> Inr ()) \<and>
      g' = (case near_best_tip_fraction valid of
              Inl _ \<Rightarrow> g1 | Inr x \<Rightarrow> g1\<lparr>g_nodes_synced_near_best_tip := x\<rparr>)"
    by (auto simp: update_gauges_def ebind_def eseq_def g1_def split: sum.splits)
  with unit near_fraction_unit [of valid] show ?thesis
    by (cases "near_best_tip_fraction valid")
      (simp_all add: g1_def set_gauges_def Let_def total [symmetric])
qed

section \<open>The best tip\<close>

lemma common_states_get:
  "dict_get (foldl (\<lambda>acc h. dict_modify h 0 Suc acc) d hs) h 0 = dict_get d h 0 + count_list hs h"
  by (induction hs arbitrary: d) (auto simp: dict_modify_get)

lemma common_states_keys:
  "set (dict_keys (foldl (\<lambda>acc h. dict_modify h 0 Suc acc) d hs)) = set (dict_keys d) \<union> set hs"
  by (induction hs arbitrary: d) (auto simp: dict_modify_keys simp del: set_map)

lemma common_states_wf:
  "dict_wf d \<Longrightarrow> dict_wf (foldl (\<lambda>acc h. dict_modify h 0 Suc acc) d hs)"
  by (induction hs arbitrary: d) (auto simp: dict_modify_wf)

lemma common_states_item:
  assumes "(h, n) \<in> set (common_states hs)"
  shows "h \<in> set hs \<and> n = count_list hs h"
proof -
  have "dict_wf (common_states hs)" by (simp add: common_states_def common_states_wf)
  with assms have "dict_get (common_states hs) h 0 = n" by (simp add: dict_get_def)
  moreover have "h \<in> set (dict_keys (common_states hs))" using assms by force
  ultimately show ?thesis
    using common_states_get [of "[]" hs h] common_states_keys [of "[]" hs]
    by (simp add: common_states_def dict_get_def del: set_map)
qed

lemma max_fold:
  "foldl (\<lambda>m y. if snd m < snd y then y else m) x xs \<in> set (x # xs) \<and>
   (\<forall>y\<in>set (x # xs). snd y \<le> snd (foldl (\<lambda>m y. if snd m < snd y then y else m) x (xs :: ('a \<times> nat) list)))"
proof (induction xs arbitrary: x)
  case (Cons y xs)
  show ?case using Cons [of x] Cons [of y] by (auto intro: order.trans)
qed simp

lemma best_hash:
  "case max_item (common_states hashes) of
     Inl e \<Rightarrow> hashes = [] \<and> e = ValueError
   | Inr (best, n) \<Rightarrow> best \<in> set hashes \<and> n = count_list hashes best \<and>
       (\<forall>h. count_list hashes h \<le> n)"
proof (cases "common_states hashes")
  case Nil
  then have "hashes = []" using common_states_keys [of "[]" hashes] by (simp add: common_states_def)
  with Nil show ?thesis by simp
next
  case (Cons x xs)
  obtain best n where m: "foldl (\<lambda>m y. if snd m < snd y then y else m) x xs = (best, n)" by force
  with max_fold [of x xs] Cons have mem: "(best, n) \<in> set (common_states hashes)"
    and ge: "\<forall>y\<in>set (common_states hashes). snd y \<le> n" by auto
  have "count_list hashes h \<le> n" for h
  proof (cases "h \<in> set hashes")
    case True
    then have "h \<in> fst ` set (common_states hashes)"
      using common_states_keys [of "[]" hashes] by (simp add: common_states_def)
    then obtain c where c: "(h, c) \<in> set (common_states hashes)" by auto
    with ge common_states_item [OF c] show ?thesis by auto
  qed simp
  with common_states_item [OF mem] m Cons show ?thesis by simp
qed

text \<open>The chains of at least 290 blocks whose last block has the hash\<close>

definition tip_votes :: "chain list \<Rightarrow> string \<Rightarrow> nat" where
  "tip_votes block_lists h =
     length (filter (\<lambda>c. 290 \<le> length c \<and> fst (c ! (length c - 1)) = h) block_lists)"

lemma votes_count: "count_list (latest_protocol_states block_lists) h = tip_votes block_lists h"
proof (induction block_lists)
  case (Cons c cs)
  have "c \<noteq> []" if "290 \<le> length c" using that by auto
  with Cons show ?case by (auto simp: latest_protocol_states_def tip_votes_def last_conv_nth)
qed (simp add: latest_protocol_states_def tip_votes_def)

text \<open>
  C23. The state taken for the best tip is the hash of the last block of some chain
  of at least 290 blocks, its count is the number of such chains that end in it, and no
  hash ends more of them; ValueError is raised exactly when every chain is shorter.
\<close>

theorem best_tip_is_most_common:
  "case max_item (common_states (latest_protocol_states block_lists)) of
     Inl e \<Rightarrow> list_all (\<lambda>c. length c < 290) block_lists \<and> e = ValueError
   | Inr (best, n) \<Rightarrow> 0 < n \<and> n = tip_votes block_lists best \<and> (\<forall>h. tip_votes block_lists h \<le> n)"
proof (cases "max_item (common_states (latest_protocol_states block_lists))")
  case (Inl e)
  with best_hash [of "latest_protocol_states block_lists"]
  have "latest_protocol_states block_lists = []" "e = ValueError" by simp_all
  with Inl show ?thesis
    by (auto simp: latest_protocol_states_def filter_empty_conv list_all_iff)
next
  case (Inr r)
  obtain best n where r: "r = (best, n)" by (cases r)
  have b: "best \<in> set (latest_protocol_states block_lists)" "n = tip_votes block_lists best"
    "\<forall>h. tip_votes block_lists h \<le> n"
    using best_hash [of "latest_protocol_states block_lists"] unfolding Inr r votes_count by auto
  from b(1) have "count_list (latest_protocol_states block_lists) best \<noteq> 0" by (simp add: count_list_0_iff)
  with b(2) have "0 < n" by (simp add: votes_count)
  with b(2,3) Inr r show ?thesis by simp
qed

lemma last_n_step_ok:
  assumes "states \<noteq> []"
  shows "last_n_step parents states \<noteq> [] \<and> hd (last_n_step parents states) = hd states \<and>
    length (last_n_step parents states) \<le> Suc (length states)"
  using assms by (auto simp: last_n_step_def split: option.splits)

lemma successively_snoc:
  "xs \<noteq> [] \<Longrightarrow> successively P (xs @ [y]) \<longleftrightarrow> successively P xs \<and> P (last xs) y"
  by (simp add: successively_append_iff)

text \<open>
  The last protocol states start at the best tip, each next one is the recorded
  parent of the one before, there are at most n + 1 of them, and fewer only when the
  last has no recorded parent.
\<close>

theorem last_states_follow_parents:
  "let states = last_n_protocol_states n parents best in
     states \<noteq> [] \<and> hd states = best \<and> length states \<le> n + 1 \<and>
     successively (\<lambda>child parent. map_of parents child = Some parent) states \<and>
     (length states = n + 1 \<or> map_of parents (last states) = None)"
proof (induction n)
  case 0
  show ?case by (simp add: last_n_protocol_states_def)
next
  case (Suc n)
  define st where "st = last_n_protocol_states n parents best"
  have next_st: "last_n_protocol_states (Suc n) parents best = last_n_step parents st"
    by (simp add: st_def last_n_protocol_states_def)
  show ?case
  proof (cases "map_of parents (last st)")
    case None
    then have "last_n_step parents st = st" by (simp add: last_n_step_def)
    with Suc None next_st show ?thesis by (simp add: Let_def st_def)
  next
    case (Some p)
    then have "last_n_step parents st = st @ [p]" by (simp add: last_n_step_def)
    with Suc Some next_st show ?thesis
      by (auto simp: Let_def st_def successively_snoc)
  qed
qed

section \<open>Concrete networks\<close>

lemma printing_exec:
  "exec_on_pod (printing_kubernetes out) pod c (''mina '' @ args) s =
     (Inr (out (''mina '' @ args @ '' &> '' @ tmp_name ''7'')), None)"
  unfolding exec_on_pod_eq by (rule exec_and_fetch_run) (rule printing_runs)

lemma demo_exec_on_pod:
  "exec_on_pod demo_kubernetes pod c (''mina '' @ args) s = (Inr ''/ip4/10.0.0.1/tcp/8302'', None)"
  unfolding demo_kubernetes_def by (rule printing_exec)

lemma demo_seed_port: "seed_port demo_pods ''seed-1'' = Inr ''8301''"
  by code_simp

lemma demo_collect:
  "\<exists>t. collect_node_status demo_kubernetes (\<lambda>_. Inr demo_response) demo_pods [''seed-1''] demo_state =
     (Inr (1, [demo_response], []), t)"
proof -
  have out: "split_on (CHR ''\<newline>'') (py_rstrip ''/ip4/10.0.0.1/tcp/8302'') = [''/ip4/10.0.0.1/tcp/8302'']"
    "parse_resps (\<lambda>_. Inr demo_response) ''/ip4/10.0.0.1/tcp/8302'' = Inr [demo_response]"
    "\<not> str_in ''Error: Unable to connect to Mina Daemon.'' ''/ip4/10.0.0.1/tcp/8302''"
    "table_entry demo_response = Inr ((''10.0.0.1'', ''p1''), demo_response)" "no_error demo_response"
    by code_simp+
  note run = demo_exec_on_pod [of "''seed-1''" "''coda''" "''advanced get-peers''", simplified]
    demo_exec_on_pod [of "''seed-1''" "''coda''"
      "''advanced node-status -daemon-port 8301 -peers /ip4/10.0.0.1/tcp/8302 -show-errors''", simplified]
  show ?thesis
    using out by (simp add: collect_node_status_def eseq_def ebind_def demo_seed_port attempt_def
        query_seed_def on_cluster_def run add_resp_def demo_state_def no_error_def add_new_entries_def
        Let_def)
qed

theorem collected_responses_sound_witness:
  "\<exists>n valid errs t.
     collect_node_status demo_kubernetes (\<lambda>_. Inr demo_response) demo_pods [''seed-1''] demo_state =
       (Inr (n, valid, errs), t) \<and> valid = [demo_response] \<and> list_all no_error valid \<and>
     set valid \<subseteq> set (all_resps t)"
proof -
  obtain t where "collect_node_status demo_kubernetes (\<lambda>_. Inr demo_response) demo_pods [''seed-1''] demo_state =
     (Inr (1, [demo_response], []), t)" using demo_collect by blast
  with collected_responses_sound [OF this] show ?thesis by blast
qed

theorem silent_network_keeps_gauges_witness:
  "fst (collect_node_status_metrics demo_kubernetes (\<lambda>_. Inr demo_response) [] (demo_state, demo_gauges)) =
     Inl ZeroDivisionError \<and>
   snd (snd (collect_node_status_metrics demo_kubernetes (\<lambda>_. Inr demo_response) []
     (demo_state, demo_gauges))) = demo_gauges"
proof -
  have "collect_node_status demo_kubernetes (\<lambda>_. Inr demo_response) [] (running_seeds []) demo_state =
      (Inr (0, [], []), demo_state)"
    by (simp add: collect_node_status_def running_seeds_def eseq_def ebind_def demo_state_def)
  from silent_network_keeps_gauges [OF this] show ?thesis by simp
qed

theorem gauges_consistent_witness:
  "case update_gauges 1 [demo_response] [] demo_gauges of
     (r, g') \<Rightarrow> g_nodes_responded g' = 1 \<and> g_nodes_errored g' = 0 \<and> g_nodes_synced g' \<le> 1"
proof -
  have "synced_flags [demo_response] = Inr [True]" by code_simp
  from gauges_consistent [OF _ this, of 1 "[]" demo_gauges] show ?thesis
    by (auto split: prod.splits)
qed

end
