(* ===== verification/WatchdogMetrics.thy ===== *)
theory WatchdogMetrics
  imports NodeStatus
begin

text \<open>
  The other metrics of the watchdog (\<open>automation/services/watchdog/metrics.py\<close>), the loop that
  runs a metric over and over (\<open>run_periodically\<close> of \<open>util.py\<close>) and the table of jobs of
  \<open>watchdog.py\<close>. Answers of the kubernetes API, the storage bucket, the seed list and the
  \<open>check_libp2p\<close> program are arguments. Times are rational seconds. Each metric is a
  statement on its gauge, so that what it leaves there when it raises is part of the model.
\<close>

record container_status =
  cs_name :: string
  restart_count :: nat
  last_terminated_started_at :: "rat option"

record running_pod =
  rp_name :: string
  rp_phase :: string
  container_statuses :: "container_status list"

section \<open>Crashes\<close>

definition restarted_recently :: "rat \<Rightarrow> container_status \<Rightarrow> bool" where
  "restarted_recently now c =
     (if restart_count c = 0 then False
      else case last_terminated_started_at c of
        None \<Rightarrow> False
      | Some restart_time \<Rightarrow> now - restart_time \<le> 30 * 60)"

definition running_containers :: "running_pod list \<Rightarrow> container_status list" where
  "running_containers pods =
     concat (map container_statuses (filter (\<lambda>p. rp_phase p = ''Running'') pods))"

definition collect_cluster_crashes :: "rat \<Rightarrow> running_pod list \<Rightarrow> (rat, unit) eff" where
  "collect_cluster_crashes now pods =
     (let mina_containers = filter (\<lambda>c. cs_name c \<in> set [''coda'', ''seed'', ''coordinator'', ''archive''])
            (running_containers pods);
          recently_restarted = filter (restarted_recently now) mina_containers
      in ebind (elift (py_div (length recently_restarted) (length mina_containers)))
           (\<lambda>fraction. emodify (\<lambda>_. fraction)))"

section \<open>Pods without logs\<close>

text \<open>
  \<open>read_log name container\<close> is the log of the last hour. The loop carries the two counters.
\<close>

fun count_silent_pods ::
    "(string \<Rightarrow> string \<Rightarrow> string result) \<Rightarrow> running_pod list \<Rightarrow> nat \<times> nat \<Rightarrow> (nat \<times> nat) result" where
  "count_silent_pods read_log [] acc = Inr acc"
| "count_silent_pods read_log (p # ps) (silent, running) =
     (if rp_phase p = ''Running'' then
        case filter (\<lambda>c. cs_name c \<in> set [''coda'', ''seed'', ''coordinator'']) (container_statuses p) of
          [] \<Rightarrow> count_silent_pods read_log ps (silent, running + 1)
        | c # _ \<Rightarrow> rbind (read_log (rp_name p) (cs_name c)) (\<lambda>recent_logs.
            count_silent_pods read_log ps (if recent_logs = [] then silent + 1 else silent, running + 1))
      else count_silent_pods read_log ps (silent, running))"

definition pods_with_no_new_logs ::
    "(string \<Rightarrow> string \<Rightarrow> string result) \<Rightarrow> running_pod list \<Rightarrow> (rat, unit) eff" where
  "pods_with_no_new_logs read_log pods =
     ebind (elift (count_silent_pods read_log pods (0, 0))) (\<lambda>(silent, running).
     ebind (elift (py_div silent running)) (\<lambda>fraction. emodify (\<lambda>_. fraction)))"

section \<open>The storage bucket\<close>

fun py_min :: "rat list \<Rightarrow> rat result" where
  "py_min [] = Inl ValueError"
| "py_min (x # xs) = Inr (foldl min x xs)"

definition check_google_storage_bucket :: "rat \<Rightarrow> int list \<Rightarrow> (rat, unit) eff" where
  "check_google_storage_bucket now generations =
     ebind (elift (py_min (map (\<lambda>g. now - of_int g / 1000000) generations)))
       (\<lambda>newest_age. emodify (\<lambda>_. newest_age))"

section \<open>The chain id and the seed list\<close>

definition daemon_containers :: "running_pod list \<Rightarrow> (string \<times> string) list" where
  "daemon_containers pods =
     concat (map (\<lambda>p. map (\<lambda>c. (rp_name p, cs_name c))
         (filter (\<lambda>c. cs_name c \<in> set [''coda'', ''mina'', ''seed'']) (container_statuses p)))
       (filter (\<lambda>p. rp_phase p = ''Running'') pods))"

text \<open>What the \<open>try\<close> block makes of the answer \<open>resp\<close>; \<open>resp.split("\n", 1)[1]\<close> drops the first line.\<close>

definition drop_first_line :: "string \<Rightarrow> string result" where
  "drop_first_line s =
     (case dropWhile (\<lambda>c. c \<noteq> CHR ''\<newline>'') s of [] \<Rightarrow> Inl IndexError | _ # rest \<Rightarrow> Inr rest)"

definition chain_id_of :: "(string \<Rightarrow> literal result) \<Rightarrow> string \<Rightarrow> literal result" where
  "chain_id_of literal_eval resp =
     (let resp = py_strip resp in
      rbind (py_get resp 0) (\<lambda>c.
      rbind (if c \<noteq> CHR ''{'' then drop_first_line resp else Inr resp) (\<lambda>body.
      rbind (literal_eval (py_strip body)) (\<lambda>d. lit_item d ''chain_id''))))"

text \<open>
  The loop over the containers. \<open>bound\<close> says whether the local variable \<open>resp\<close> has been
  assigned: the handler prints it, which raises when it has not.
\<close>

fun chain_id_loop ::
    "'k kubernetes \<Rightarrow> (string \<Rightarrow> literal result) \<Rightarrow> bool \<Rightarrow> (string \<times> string) list \<Rightarrow>
     ('k, literal option) eff" where
  "chain_id_loop k literal_eval bound [] s = (Inr None, s)"
| "chain_id_loop k literal_eval bound ((pod, container) # rest) s =
     (case exec_on_pod k pod container ''mina client status --json'' s of
        (Inl e, t) \<Rightarrow>
          if bound then chain_id_loop k literal_eval bound rest t
          else (Inl (NameError ''resp''), t)
      | (Inr resp, t) \<Rightarrow>
          (case chain_id_of literal_eval resp of
             Inl e \<Rightarrow> chain_id_loop k literal_eval True rest t
           | Inr chain_id \<Rightarrow> (Inr (Some chain_id), t)))"

definition get_chain_id ::
    "'k kubernetes \<Rightarrow> (string \<Rightarrow> literal result) \<Rightarrow> running_pod list \<Rightarrow> ('k, literal option) eff" where
  "get_chain_id k literal_eval pods = chain_id_loop k literal_eval False (daemon_containers pods)"

text \<open>
  \<open>seed_contents\<close> is the downloaded list, \<open>check_libp2p\<close> the JSON answer of the program run
  with the given command line.
\<close>

definition check_seed_list_up ::
    "'k kubernetes \<Rightarrow> (string \<Rightarrow> literal result) \<Rightarrow> (string \<Rightarrow> (string \<times> bool) list result) \<Rightarrow>
     string \<Rightarrow> running_pod list \<Rightarrow> ('k \<times> rat, unit) eff" where
  "check_seed_list_up k literal_eval check_libp2p seed_contents pods sg =
     (let seeds = py_join '' '' (split_on (CHR ''\<newline>'') seed_contents) in
      case get_chain_id k literal_eval pods (fst sg) of
        (Inl e, t) \<Rightarrow> (Inl e, (t, snd sg))
      | (Inr None, t) \<Rightarrow> (Inr (), (t, snd sg))
      | (Inr (Some LNone), t) \<Rightarrow> (Inr (), (t, snd sg))
      | (Inr (Some (LStr chain_id)), t) \<Rightarrow>
          (case rbind (check_libp2p (''stdbuf -o0 check_libp2p/check_libp2p '' @ chain_id @ '' '' @ seeds))
                  (\<lambda>res. py_div (count_true (dict_values res)) (length res)) of
             Inl e \<Rightarrow> (Inl e, (t, snd sg))
           | Inr fraction_up \<Rightarrow> (Inr (), (t, fraction_up)))
      | (Inr (Some _), t) \<Rightarrow> (Inl TypeError, (t, snd sg)))"

section \<open>Running a metric over and over\<close>

text \<open>\<open>n\<close> rounds of \<open>run_periodically\<close>: the state of the metric and the error counter.\<close>

fun run_periodically :: "nat \<Rightarrow> ('s, unit) eff \<Rightarrow> 's \<times> nat \<Rightarrow> 's \<times> nat" where
  "run_periodically 0 fn (s, errors) = (s, errors)"
| "run_periodically (Suc n) fn (s, errors) =
     (case fn s of
        (Inl e, t) \<Rightarrow> run_periodically n fn (t, errors + 1)
      | (Inr _, t) \<Rightarrow> run_periodically n fn (t, errors))"

datatype watchdog_job =
    Collect_Cluster_Crashes | Collect_Node_Status_Metrics | Check_Seed_List_Up
  | Pods_With_No_New_Logs | Check_Google_Storage_Bucket

text \<open>The metrics with the seconds between two runs.\<close>

definition watchdog_jobs :: "bool \<Rightarrow> (watchdog_job \<times> nat) list" where
  "watchdog_jobs check_bucket =
     [(Collect_Cluster_Crashes, 30 * 60), (Collect_Node_Status_Metrics, 10 * 60),
      (Check_Seed_List_Up, 60 * 60), (Pods_With_No_New_Logs, 60 * 10)] @
     (if check_bucket then [(Check_Google_Storage_Bucket, 30 * 60)] else [])"

section \<open>The program\<close>

text \<open>
  \<open>get_kubernetes\<close>: the kind of configuration and the namespace, from the environment or from the file of the
  cluster. The gauges and counters \<open>main\<close> registers, with their labels; the order of its effects.
\<close>

datatype kube_config = Local_Config | In_Cluster_Config

definition config_kind :: "(string, string) dict \<Rightarrow> kube_config" where
  "config_kind environ = (if map_of environ ''LOCAL_KUBERNETES'' \<noteq> None then Local_Config else In_Cluster_Config)"

definition get_kubernetes :: "(string, string) dict \<Rightarrow> string result \<Rightarrow> string option result" where
  "get_kubernetes environ namespace_file =
     (if config_kind environ = Local_Config
      then Inr (map_of environ ''KUBERNETES_NAMESPACE'')
      else rbind namespace_file (\<lambda>namespace. Inr (Some namespace)))"

datatype metric_kind = Gauge | Counter

definition watchdog_gauges :: "(metric_kind \<times> string \<times> string list) list" where
  "watchdog_gauges =
     [(Gauge, ''Coda_watchdog_cluster_crashes'', []), (Counter, ''Coda_watchdog_errors'', []),
      (Gauge, ''Coda_watchdog_nodes_synced_near_best_tip'', []), (Gauge, ''Coda_watchdog_nodes_synced'', []),
      (Gauge, ''Coda_watchdog_nodes_responded'', []), (Counter, ''Coda_watchdog_prover_errors'', []),
      (Gauge, ''Coda_watchdog_pods_with_no_new_logs'', []), (Gauge, ''Coda_watchdog_nodes_queried'', []),
      (Gauge, ''Coda_watchdog_nodes_responded_to_seed'', [''seed'']),
      (Gauge, ''Coda_watchdog_nodes_queried_by_seed'', [''seed'']),
      (Gauge, ''Coda_watchdog_deadline_exceeded'', []), (Gauge, ''Coda_watchdog_failed_negotiation'', []),
      (Gauge, ''Coda_watchdog_connection_refused'', []), (Gauge, ''Coda_watchdog_size_limit_exceeded'', []),
      (Gauge, ''Coda_watchdog_timed_out'', []), (Gauge, ''Coda_watchdog_stream_reset'', []),
      (Gauge, ''Coda_watchdog_node_status_other_errors'', []), (Gauge, ''Coda_watchdog_node_status_errors'', []),
      (Gauge, ''Coda_watchdog_recent_google_bucket_blocks'', []), (Gauge, ''Coda_watchdog_seeds_reachable'', [])]"

datatype watchdog_call =
    Metrics_Server int
  | Load_Config kube_config
  | Register metric_kind string "string list"
  | Run_Periodically watchdog_job nat

definition environ_item :: "(string, string) dict \<Rightarrow> string \<Rightarrow> string result" where
  "environ_item environ k = (case map_of environ k of None \<Rightarrow> Inl (KeyError k) | Some v \<Rightarrow> Inr v)"

definition watchdog_main :: "(string, string) dict \<Rightarrow> string result \<Rightarrow> (watchdog_call list, unit) eff" where
  "watchdog_main environ namespace_file =
     (let note = (\<lambda>cs. emodify (\<lambda>calls. calls @ cs)) in
      ebind (elift (rbind (environ_item environ ''METRICS_PORT'') py_int)) (\<lambda>port.
      eseq (note [Metrics_Server port, Load_Config (config_kind environ)])
     (ebind (elift (get_kubernetes environ namespace_file)) (\<lambda>namespace.
      note (map (\<lambda>(k, name, labels). Register k name labels) watchdog_gauges @
            map (\<lambda>(job, secs). Run_Periodically job secs)
              (watchdog_jobs (map_of environ ''CHECK_GCLOUD_STORAGE_BUCKET'' \<noteq> None)))))))"

text \<open>
  No metric is registered twice, which prometheus refuses. The program starts exactly when its port is a number and, unless
  it is run locally, the file of the cluster can be read.
\<close>

lemma gauges_distinct: "distinct (map (\<lambda>(k, name, labels). name) watchdog_gauges)"
  by code_simp

theorem watchdog_starts_iff:
  "fst (watchdog_main environ namespace_file calls) = Inr () \<longleftrightarrow>
     (\<exists>v port. map_of environ ''METRICS_PORT'' = Some v \<and> py_int v = Inr port) \<and>
     (map_of environ ''LOCAL_KUBERNETES'' = None \<longrightarrow> (\<exists>namespace. namespace_file = Inr namespace))"
proof (cases "rbind (environ_item environ ''METRICS_PORT'') py_int")
  case (Inl e)
  then show ?thesis
    by (auto simp: watchdog_main_def Let_def ebind_def environ_item_def split: option.splits)
next
  case (Inr port)
  then show ?thesis
    by (cases namespace_file)
      (auto simp: watchdog_main_def Let_def eseq_def ebind_def get_kubernetes_def config_kind_def environ_item_def split: option.splits)
qed

section \<open>Properties\<close>

text \<open>The states before the rounds, and how many of the rounds raise.\<close>

fun round_states :: "nat \<Rightarrow> ('s, unit) eff \<Rightarrow> 's \<Rightarrow> 's list" where
  "round_states 0 fn s = []"
| "round_states (Suc n) fn s = s # round_states n fn (snd (fn s))"

theorem crash_fraction:
  "case collect_cluster_crashes now pods g of
     (Inl e, g') \<Rightarrow> e = ZeroDivisionError \<and> g' = g
   | (Inr _, g') \<Rightarrow> 0 \<le> g' \<and> g' \<le> 1 \<and>
       (g' = 0 \<longleftrightarrow> \<not> list_ex (\<lambda>c. cs_name c \<in> set [''coda'', ''seed'', ''coordinator'', ''archive''] \<and>
            restarted_recently now c) (running_containers pods))"
proof -
  define m where "m = filter (\<lambda>c. cs_name c \<in> set [''coda'', ''seed'', ''coordinator'', ''archive''])
    (running_containers pods)"
  have *: "list_ex (\<lambda>c. cs_name c \<in> set [''coda'', ''seed'', ''coordinator'', ''archive''] \<and>
            restarted_recently now c) (running_containers pods) \<longleftrightarrow> filter (restarted_recently now) m \<noteq> []"
    by (auto simp: m_def list_ex_iff filter_empty_conv)
  show ?thesis
    unfolding * collect_cluster_crashes_def m_def [symmetric] Let_def
    by (auto simp: ebind_def py_div_def divide_le_eq_1)
qed

lemma count_silent_le:
  "count_silent_pods read_log ps (a, b) = Inr (a', b') \<Longrightarrow> a \<le> b \<Longrightarrow> a' \<le> b'"
proof (induction ps arbitrary: a b)
  case (Cons p ps)
  from Cons.prems(1) obtain c where "count_silent_pods read_log ps c = Inr (a', b')"
    and "c \<in> {(a, b), (a, b + 1), (a + 1, b + 1)}"
    by (auto simp: rbind_eq_Inr split: if_splits list.splits)
  with Cons.IH Cons.prems(2) show ?case by fastforce
qed simp

theorem silent_pod_fraction:
  "case pods_with_no_new_logs read_log pods g of
     (Inl e, g') \<Rightarrow> g' = g
   | (Inr _, g') \<Rightarrow> 0 \<le> g' \<and> g' \<le> 1"
proof (cases "count_silent_pods read_log pods (0, 0)")
  case (Inl e)
  then show ?thesis by (simp add: pods_with_no_new_logs_def ebind_def)
next
  case (Inr c)
  obtain a b where c: "c = (a, b)" by (cases c)
  with Inr count_silent_le [of read_log pods 0 0 a b] have "a \<le> b" by simp
  with Inr c show ?thesis
    by (auto simp: pods_with_no_new_logs_def ebind_def py_div_def divide_le_eq_1)
qed

text \<open>
  After n rounds of run_periodically the error counter has grown by the number of
  rounds that raised, and the metric has run n times from the state it was left in.
\<close>

theorem errors_counted:
  "run_periodically n fn (s, errors) =
     (foldl (\<lambda>t _. snd (fn t)) s [0 ..< n],
      errors + length (filter (\<lambda>t. \<not> returns (fst (fn t))) (round_states n fn s)))"
proof (induction n arbitrary: s errors)
  case (Suc n)
  have "foldl (\<lambda>t _. snd (fn t)) s [0 ..< Suc n] = foldl (\<lambda>t _. snd (fn t)) (snd (fn s)) [0 ..< n]"
  proof -
    have shift: "foldl (\<lambda>t _. f t) a xs = foldl (\<lambda>t _. f t) a ys" if "length xs = length ys"
      for f :: "'a \<Rightarrow> 'a" and a :: 'a and xs ys :: "nat list"
      using that by (induction xs ys arbitrary: a rule: list_induct2) auto
    have "[0 ..< Suc n] = 0 # [1 ..< Suc n]" by (simp add: upt_rec)
    then show ?thesis using shift [of "[1 ..< Suc n]" "[0 ..< n]" "\<lambda>t. snd (fn t)" "snd (fn s)"] by simp
  qed
  with Suc show ?case by (auto split: prod.splits sum.splits)
qed simp

text \<open>
  When the command fails on the first daemon container, get_chain_id raises
  NameError from its own handler, whatever the other containers would answer, and
  check_seed_list_up raises with its gauge unchanged.
\<close>

theorem chain_id_needs_first_container:
  assumes "daemon_containers pods = (pod, container) # rest"
    and "exec_on_pod k pod container ''mina client status --json'' s = (Inl e, t)"
  shows "get_chain_id k ev pods s = (Inl (NameError ''resp''), t) \<and>
    check_seed_list_up k ev check_libp2p contents pods (s, g) = (Inl (NameError ''resp''), (t, g))"
  using assms by (simp add: get_chain_id_def check_seed_list_up_def)

theorem chain_id_needs_first_container_witness:
  "\<exists>k :: unit kubernetes. \<forall>ev.
     fst (get_chain_id k ev
       [\<lparr>rp_name = ''seed-1'', rp_phase = ''Running'',
         container_statuses = [\<lparr>cs_name = ''coda'', restart_count = 0, last_terminated_started_at = None\<rparr>]\<rparr>,
        \<lparr>rp_name = ''seed-2'', rp_phase = ''Running'',
         container_statuses = [\<lparr>cs_name = ''coda'', restart_count = 0, last_terminated_started_at = None\<rparr>]\<rparr>] ()) =
     Inl (NameError ''resp'')"
proof -
  define k :: "unit kubernetes" where
    "k = \<lparr>kexec = \<lambda>pod c cmd s. if pod = ''seed-1'' then (Inl (PyException ''ApiException''), s) else (Inr [], s),
          kuuid = eret ''7''\<rparr>"
  define pods where "pods =
       [\<lparr>rp_name = ''seed-1'', rp_phase = ''Running'',
         container_statuses = [\<lparr>cs_name = ''coda'', restart_count = 0, last_terminated_started_at = None\<rparr>]\<rparr>,
        \<lparr>rp_name = ''seed-2'', rp_phase = ''Running'',
         container_statuses = [\<lparr>cs_name = ''coda'', restart_count = 0, last_terminated_started_at = None\<rparr>]\<rparr>]"
  have d: "daemon_containers pods = [(''seed-1'', ''coda''), (''seed-2'', ''coda'')]"
    by (simp add: pods_def daemon_containers_def)
  have x: "exec_on_pod k ''seed-1'' ''coda'' ''mina client status --json'' () =
      (Inl (PyException ''ApiException''), ())"
    by (simp add: exec_on_pod_eq exec_and_fetch_def fetch_output_def k_def ebind_def eseq_def Let_def)
  have "fst (get_chain_id k ev pods ()) = Inl (NameError ''resp'')" for ev
    using chain_id_needs_first_container [OF d x] by simp
  then show ?thesis unfolding pods_def by blast
qed

end
