(* ===== verification/NetworkReport.thy ===== *)
theory NetworkReport
  imports NodeStatus
begin

text \<open>
  The network report \<open>automation/services/watchdog/make_report.py\<close>: the responses of the seeds
  sorted into a peer table, error kinds and uptime buckets, the seed's status, the block tree
  with its summary and the fork check, the participants, the windows of past reports, and the
  message sent to discord.

  Responses, their parser and the pod shell are as in \<open>NodeStatus\<close>. Further parameters are
  \<open>py_str\<close> (the text of a literal), \<open>percentile\<close> (numpy), the rows of the accounts file and
  the contents of earlier peer tables. A Python set of block hashes is a list without
  repetitions in insertion order. The two loops over the block tree end only when the tree has
  no cycle; they take fuel, and \<open>None\<close> is the run that does not end.
\<close>

section \<open>Responses\<close>

record report_state =
  rep_peer_table :: "((string \<times> string) \<times> response) list"
  queried_peers :: "string set"
  printed_counts :: "err_counts list"
  node_status_heartbeat_errors :: "response list"
  node_status_transport_stopped_errors :: "response list"
  node_status_handshake_errors :: "response list"
  node_status_libp2p_errors :: "response list"
  node_status_other_errors :: "response list"
  uptime_less_than_10_min :: "int list"
  uptime_less_than_30_min :: "int list"
  uptime_less_than_1_hour :: "int list"
  uptime_less_than_6_hour :: "int list"
  uptime_less_than_12_hour :: "int list"
  uptime_less_than_24_hour :: "int list"
  uptime_greater_than_24_hour :: "int list"

definition empty_report :: report_state where
  "empty_report =
     \<lparr>rep_peer_table = [], queried_peers = {}, printed_counts = [],
      node_status_heartbeat_errors = [], node_status_transport_stopped_errors = [],
      node_status_handshake_errors = [], node_status_libp2p_errors = [], node_status_other_errors = [],
      uptime_less_than_10_min = [], uptime_less_than_30_min = [], uptime_less_than_1_hour = [],
      uptime_less_than_6_hour = [], uptime_less_than_12_hour = [], uptime_less_than_24_hour = [],
      uptime_greater_than_24_hour = []\<rparr>"

definition add_uptime :: "report_state \<Rightarrow> int \<Rightarrow> report_state" where
  "add_uptime s uptime =
     (if uptime < 10 then s\<lparr>uptime_less_than_10_min := uptime_less_than_10_min s @ [uptime]\<rparr>
      else if uptime < 30 then s\<lparr>uptime_less_than_30_min := uptime_less_than_30_min s @ [uptime]\<rparr>
      else if uptime < 60 then s\<lparr>uptime_less_than_1_hour := uptime_less_than_1_hour s @ [uptime]\<rparr>
      else if uptime < 3600 then s\<lparr>uptime_less_than_6_hour := uptime_less_than_6_hour s @ [uptime]\<rparr>
      else if uptime < 7200 then s\<lparr>uptime_less_than_12_hour := uptime_less_than_12_hour s @ [uptime]\<rparr>
      else if uptime < 14400 then s\<lparr>uptime_less_than_24_hour := uptime_less_than_24_hour s @ [uptime]\<rparr>
      else s\<lparr>uptime_greater_than_24_hour := uptime_greater_than_24_hour s @ [uptime]\<rparr>)"

definition add_uptimes :: "response list \<Rightarrow> (report_state, unit) eff" where
  "add_uptimes ps =
     efor ps (\<lambda>p. ebind (elift (key ''uptime_minutes'' (uptime_minutes p)))
       (\<lambda>u. emodify (\<lambda>s. add_uptime s u)))"

definition add_error :: "(literal \<Rightarrow> string) \<Rightarrow> response \<Rightarrow> (report_state, unit) eff" where
  "add_error py_str e =
     ebind (elift (key ''error'' (r_error e))) (\<lambda>v.
     let err = py_str v in
     emodify (\<lambda>s.
       if str_in ''handshake error'' err
         then s\<lparr>node_status_handshake_errors := node_status_handshake_errors s @ [e]\<rparr>
       else if str_in ''heartbeats'' err
         then s\<lparr>node_status_heartbeat_errors := node_status_heartbeat_errors s @ [e]\<rparr>
       else if str_in ''transport stopped'' err
         then s\<lparr>node_status_transport_stopped_errors := node_status_transport_stopped_errors s @ [e]\<rparr>
       else if str_in ''libp2p'' err
         then s\<lparr>node_status_libp2p_errors := node_status_libp2p_errors s @ [e]\<rparr>
       else s\<lparr>node_status_other_errors := node_status_other_errors s @ [e]\<rparr>))"

text \<open>The peer table and the set of queried peers.\<close>

definition record_peers :: "response list \<Rightarrow> (report_state, unit) eff" where
  "record_peers valid =
     ebind (elift (mapM table_entry valid)) (\<lambda>entries.
     eseq (emodify (\<lambda>s. s\<lparr>rep_peer_table := add_new_entries (rep_peer_table s) entries\<rparr>))
    (ebind (elift (mapM (\<lambda>p. key ''node_peer_id'' (node_peer_id p)) valid)) (\<lambda>ids.
     emodify (\<lambda>s. s\<lparr>queried_peers := queried_peers s \<union> set ids\<rparr>))))"

definition report_resp ::
    "(string \<Rightarrow> response result) \<Rightarrow> (literal \<Rightarrow> string) \<Rightarrow> string \<Rightarrow> (report_state, unit) eff" where
  "report_resp literal_eval py_str resp =
     ebind (elift (parse_resps literal_eval resp)) (\<lambda>resps.
     let valid = filter no_error resps; errs = filter contains_error resps in
     eseq (emodify (\<lambda>s. s\<lparr>printed_counts := printed_counts s @ [count_errors errs]\<rparr>))
    (eseq (record_peers valid)
    (eseq (add_uptimes valid) (efor errs (add_error py_str)))))"

section \<open>The seed's status\<close>

text \<open>The local shell runs the command with the program named by the option.\<close>

definition exec_locally :: "(string \<Rightarrow> ('k, string) eff) \<Rightarrow> string \<Rightarrow> string \<Rightarrow> ('k, string) eff" where
  "exec_locally popen binary command = popen (py_replace ''mina'' binary command)"

definition get_status_value :: "string \<Rightarrow> string \<Rightarrow> string result" where
  "get_status_value seed_status name =
     rbind (py_get (filter (str_in name) (split_on (CHR ''\<newline>'') seed_status)) 0) (\<lambda>line.
     rbind (py_get (split_on (CHR '':'') line) 1) (\<lambda>v. Inr (py_strip v)))"

record seed_summary =
  ss_blocks :: int
  ss_epoch :: int
  ss_slot :: int
  ss_global_slot :: int

definition slot_field :: "string \<Rightarrow> int result" where
  "slot_field s = rbind (py_get (split_on (CHR ''='') s) 1) py_int"

definition seed_summary_of :: "string \<Rightarrow> seed_summary result" where
  "seed_summary_of seed_status =
     (if seed_status = [] then Inl (PyException ''unable to connect to seed node'')
      else
        rbind (rbind (get_status_value seed_status ''Max observed block height'') py_int) (\<lambda>blocks.
        rbind (get_status_value seed_status ''Consensus time now'') (\<lambda>slot_time.
        rbind (mapM slot_field (split_on (CHR '','') slot_time)) (\<lambda>fields.
        rbind (case fields of [e, s] \<Rightarrow> Inr (e, s) | _ \<Rightarrow> Inl ValueError) (\<lambda>(epoch, slot).
        rbind (rbind (get_status_value seed_status ''Slots per epoch'') py_int) (\<lambda>slots_per_epoch.
        Inr \<lparr>ss_blocks = blocks, ss_epoch = epoch, ss_slot = slot,
             ss_global_slot = epoch * slots_per_epoch + slot\<rparr>))))))"

text \<open>Every seed is asked; nothing is caught here.\<close>

definition query_one_seed ::
    "'k kubernetes \<Rightarrow> (string \<Rightarrow> response result) \<Rightarrow> (literal \<Rightarrow> string) \<Rightarrow> pod list \<Rightarrow> string \<Rightarrow>
     ('k \<times> report_state, unit) eff" where
  "query_one_seed k literal_eval py_str pods seed st =
     (case seed_port pods seed of
        Inl e \<Rightarrow> (Inl e, st)
      | Inr port \<Rightarrow>
          (case exec_on_pod k seed ''coda''
                 (''mina advanced node-status -daemon-port '' @ port @ '' -daemon-peers -show-errors'') (fst st) of
             (Inl e, t) \<Rightarrow> (Inl e, (t, snd st))
           | (Inr resp, t) \<Rightarrow>
               (case report_resp literal_eval py_str resp (snd st) of (r, s) \<Rightarrow> (r, (t, s)))))"

definition query_seeds ::
    "'k kubernetes \<Rightarrow> (string \<Rightarrow> response result) \<Rightarrow> (literal \<Rightarrow> string) \<Rightarrow> pod list \<Rightarrow> string list \<Rightarrow>
     ('k \<times> report_state, unit) eff" where
  "query_seeds k literal_eval py_str pods seeds = efor seeds (query_one_seed k literal_eval py_str pods)"

section \<open>The block tree\<close>

definition peer_percentiles :: "nat list" where
  "peer_percentiles = [0, 5, 25, 50, 95, 100]"

definition peer_percentile_numbers ::
    "(nat list \<Rightarrow> nat list \<Rightarrow> rat list) \<Rightarrow> response list \<Rightarrow> (nat \<times> rat) list result" where
  "peer_percentile_numbers percentile nodes =
     rbind (mapM (\<lambda>p. rbind (key ''peers'' (peers p)) (\<lambda>ps. Inr (length ps))) nodes) (\<lambda>peer_numbers.
     Inr (if 0 < length peer_numbers then zip peer_percentiles (percentile peer_numbers peer_percentiles)
          else []))"

definition all_block_producers :: "response list \<Rightarrow> string list result" where
  "all_block_producers nodes =
     rbind (mapM (\<lambda>p. key ''block_producers'' (block_producers p)) nodes) (\<lambda>ls. Inr (concat ls))"

text \<open>The first node decides under which key all the hash lists are read.\<close>

definition block_hash_lists :: "response list \<Rightarrow> string list list result" where
  "block_hash_lists nodes =
     (if nodes \<noteq> [] \<and> k_block_hashes (hd nodes) \<noteq> None
      then mapM (\<lambda>p. key ''k_block_hashes'' (k_block_hashes p)) nodes
      else mapM (\<lambda>p. rbind (key ''k_block_hashes_and_timestamps'' (k_block_hashes_and_timestamps p))
             (\<lambda>c. Inr (map fst c))) nodes)"

record tree_node =
  children :: "string list"
  node_peers :: nat

definition new_node :: tree_node where
  "new_node = \<lparr>children = [], node_peers = 0\<rparr>"

text \<open>\<open>set.update\<close> with at most one element.\<close>

definition set_add :: "'a list \<Rightarrow> 'a list \<Rightarrow> 'a list" where
  "set_add xs ys = xs @ filter (\<lambda>y. y \<notin> set xs) ys"

definition visit_block ::
    "(string, tree_node) dict \<Rightarrow> string \<times> string list \<Rightarrow> (string, tree_node) dict" where
  "visit_block tree pc =
     dict_modify (fst pc) new_node
       (\<lambda>n. n\<lparr>children := set_add (children n) (snd pc), node_peers := node_peers n + 1\<rparr>) tree"

definition add_hashes :: "(string, tree_node) dict \<Rightarrow> string list \<Rightarrow> (string, tree_node) dict" where
  "add_hashes tree block_hashes =
     foldl visit_block tree (zip block_hashes (map (\<lambda>c. [c]) (tl block_hashes) @ [[]]))"

definition make_fork_tree :: "string list list \<Rightarrow> (string, tree_node) dict" where
  "make_fork_tree hash_lists = foldl add_hashes [] hash_lists"

definition roots :: "(string, tree_node) dict \<Rightarrow> string list" where
  "roots fork_tree =
     filter (\<lambda>h. h \<notin> set (concat (map children (dict_values fork_tree)))) (dict_keys fork_tree)"

record summary_node =
  sum_children :: "string list"
  sum_peers :: nat
  intermediate_nodes :: nat

text \<open>
  The \<open>while\<close> loop: it skips the blocks in the middle of an unbranched stretch seen by the
  same number of peers. The condition and the body read the only child's entry, which is
  \<open>KeyError\<close> when it is missing.
\<close>

fun skip_blocks ::
    "nat \<Rightarrow> (string, tree_node) dict \<Rightarrow> nat \<Rightarrow> string list \<Rightarrow> nat \<Rightarrow> (string list \<times> nat) result option" where
  "skip_blocks 0 tree prs cs n = None"
| "skip_blocks (Suc fuel) tree prs cs n =
     (case cs of
        [c] \<Rightarrow>
          (case map_of tree c of
             None \<Rightarrow> Some (Inl (KeyError c))
           | Some nd \<Rightarrow>
               if node_peers nd = prs \<and> children nd \<noteq> []
               then skip_blocks fuel tree prs (children nd) (n + 1)
               else Some (Inr (cs, n)))
      | _ \<Rightarrow> Some (Inr (cs, n)))"

text \<open>
  \<open>add_to_summarized_tree\<close> on a list of blocks, with the summary so far. The recursion takes
  the blocks below a block before the rest of the list.
\<close>

fun summarize ::
    "nat \<Rightarrow> (string, tree_node) dict \<Rightarrow> string list \<Rightarrow> (string, summary_node) dict \<Rightarrow>
     (string, summary_node) dict result option" where
  "summarize 0 tree blocks acc = (if blocks = [] then Some (Inr acc) else None)"
| "summarize (Suc fuel) tree [] acc = Some (Inr acc)"
| "summarize (Suc fuel) tree (b # blocks) acc =
     (case map_of tree b of
        None \<Rightarrow> Some (Inl (KeyError b))
      | Some nd \<Rightarrow>
          (case skip_blocks (Suc fuel) tree (node_peers nd) (children nd) 0 of
             None \<Rightarrow> None
           | Some (Inl e) \<Rightarrow> Some (Inl e)
           | Some (Inr (cs, n)) \<Rightarrow>
               (case summarize fuel tree cs
                   (AList.update b \<lparr>sum_children = cs, sum_peers = node_peers nd, intermediate_nodes = n\<rparr> acc) of
                  None \<Rightarrow> None
                | Some (Inl e) \<Rightarrow> Some (Inl e)
                | Some (Inr acc') \<Rightarrow> summarize (Suc fuel) tree blocks acc')))"

definition summarized_fork_tree ::
    "nat \<Rightarrow> (string, tree_node) dict \<Rightarrow> (string, summary_node) dict result option" where
  "summarized_fork_tree fuel tree = summarize fuel tree (roots tree) []"

definition has_forks :: "(string, tree_node) dict \<Rightarrow> (string, summary_node) dict \<Rightarrow> bool" where
  "has_forks fork_tree summary =
     (let roots_with_children =
            filter (\<lambda>r. case map_of fork_tree r of None \<Rightarrow> False | Some nd \<Rightarrow> children nd \<noteq> []) (roots fork_tree)
      in if 1 < length roots_with_children then True
         else if length roots_with_children = 0 then False
         else
           let tips = dict_keys (filter (\<lambda>(h, v). sum_children v = []) summary);
               tip_parents = dict_keys (filter (\<lambda>(h, v). list_ex (\<lambda>c. c \<in> set tips) (sum_children v)) summary)
           in 1 < length tip_parents)"

section \<open>Participants\<close>

text \<open>The rows of the accounts file give discord names with their keys.\<close>

definition add_account ::
    "(string, string list) dict \<times> (string, string) dict \<Rightarrow> string list \<Rightarrow>
     ((string, string list) dict \<times> (string, string) dict) result" where
  "add_account acc row =
     rbind (py_get row 0) (\<lambda>discord.
     rbind (py_get row 1) (\<lambda>k.
     Inr (if k \<noteq> []
          then (dict_modify discord [] (\<lambda>ks. set_add ks [k]) (fst acc), AList.update k discord (snd acc))
          else acc)))"

fun load_accounts ::
    "(string, string list) dict \<times> (string, string) dict \<Rightarrow> string list list \<Rightarrow>
     ((string, string list) dict \<times> (string, string) dict) result" where
  "load_accounts acc [] = Inr acc"
| "load_accounts acc (r # rs) = rbind (add_account acc r) (\<lambda>acc'. load_accounts acc' rs)"

definition online_discord_counts ::
    "string list \<Rightarrow> (string, string list) dict \<Rightarrow> (string, nat) dict" where
  "online_discord_counts producers discord_to_keys =
     map (\<lambda>(d, ks). (d, length (filter (\<lambda>k. k \<in> set producers) ks))) discord_to_keys"

definition participants_online :: "(string, nat) dict \<Rightarrow> string list" where
  "participants_online counts = dict_keys (filter (\<lambda>dc. 0 < snd dc) counts)"

definition participants_offline :: "(string, nat) dict \<Rightarrow> string list" where
  "participants_offline counts = dict_keys (filter (\<lambda>dc. snd dc = 0) counts)"

definition has_participants :: "string option \<Rightarrow> bool" where
  "has_participants accounts_csv =
     (case accounts_csv of None \<Rightarrow> False | Some t \<Rightarrow> 0 < length (py_strip t))"

definition version_counts :: "response list \<Rightarrow> (string, nat) dict" where
  "version_counts nodes =
     foldl (\<lambda>acc p. case git_commit p of None \<Rightarrow> acc | Some v \<Rightarrow> dict_modify v 0 Suc acc) [] nodes"

section \<open>Windows of earlier reports\<close>

record peer_file =
  pf_timestamp :: rat
  pf_peers :: "(string \<times> string) list"
  pf_discords :: "string list"

definition windows_in_hours :: "nat list" where
  "windows_in_hours = [1, 3, 6, 12, 24, 72, 24 * 7]"

definition is_peer_file :: "string \<Rightarrow> bool" where
  "is_peer_file fname =
     (\<not> (\<not> str_in ''peer_table'' fname \<or> startswith fname ''.'' \<or> \<not> endswith fname ''txt''))"

text \<open>The three dictionaries of sets, one per window, filled from one file.\<close>

definition add_to_window :: "rat \<Rightarrow> rat \<Rightarrow> 'a list \<Rightarrow> (nat, 'a set) dict \<Rightarrow> nat \<Rightarrow> (nat, 'a set) dict" where
  "add_to_window now file_time items by_window w =
     dict_modify w {} (\<lambda>s. if now - file_time \<le> of_nat w * 3600 then s \<union> set items else s) by_window"

definition responding_by_window ::
    "(peer_file \<Rightarrow> 'a list) \<Rightarrow> rat \<Rightarrow> peer_file list \<Rightarrow> (nat, 'a set) dict" where
  "responding_by_window items now files =
     foldl (\<lambda>d f. foldl (add_to_window now (pf_timestamp f) (items f)) d windows_in_hours) [] files"

definition oldest_report :: "rat \<Rightarrow> peer_file list \<Rightarrow> rat" where
  "oldest_report now files = foldl (\<lambda>t f. min t (pf_timestamp f)) now files"

section \<open>The message\<close>

definition discord_char_limit :: int where
  "discord_char_limit = 2000"

definition discord_message :: "string \<Rightarrow> string" where
  "discord_message msg =
     (if int (length msg) > discord_char_limit - 5
      then py_slice msg 0 (discord_char_limit - 5) @ ''...'' else msg)"

text \<open>
  What \<open>main\<close> sends when a webhook is configured, and what the handler around it sends
  when \<open>main\<close> raises.
\<close>

definition webhook_set :: "string option \<Rightarrow> bool" where
  "webhook_set url = (case url of None \<Rightarrow> False | Some u \<Rightarrow> 0 < length u)"

definition send_report :: "string option \<Rightarrow> string \<Rightarrow> string list" where
  "send_report url formatted_report = (if webhook_set url then [discord_message formatted_report] else [])"

definition send_failure :: "string option \<Rightarrow> string \<Rightarrow> string \<Rightarrow> string list" where
  "send_failure url ns trace =
     (if webhook_set url then [discord_message (ns @ '' exited with error: '' @ trace)] else [])"

section \<open>The whole report\<close>

record report =
  rp_queried_nodes :: nat
  rp_responding_nodes :: nat
  rp_counts :: report_state
  rp_seed :: seed_summary
  rp_block_fill_rate :: rat
  rp_percentiles :: "(nat \<times> rat) list"
  rp_summary :: "(string, summary_node) dict"
  rp_has_forks :: bool
  rp_has_participants :: bool
  rp_participants_online :: "string list"
  rp_participants_offline :: "string list"
  rp_oldest :: rat
  rp_peers_by_window :: "(nat, (string \<times> string) set) dict"
  rp_ips_by_window :: "(nat, string set) dict"
  rp_discords_by_window :: "(nat, string set) dict"
  rp_online_counts :: "(string, nat) dict"
  rp_versions :: "(string, nat) dict"

text \<open>\<open>blocks / global_slot\<close>\<close>

definition fill_rate :: "seed_summary \<Rightarrow> rat result" where
  "fill_rate ss =
     (if ss_global_slot ss = 0 then Inl ZeroDivisionError
      else Inr (of_int (ss_blocks ss) / of_int (ss_global_slot ss)))"

text \<open>The table written to the peer file reads two more keys of every response.\<close>

definition peer_table_dict ::
    "(string, string) dict \<Rightarrow> ((string \<times> string) \<times> response) list \<Rightarrow>
     ((string \<times> string) \<times> string list \<times> string \<times> string list) list result" where
  "peer_table_dict key_to_discord table =
     mapM (\<lambda>(k, v).
       rbind (key ''block_producers'' (block_producers v)) (\<lambda>bps.
       rbind (key ''protocol_state_hash'' (protocol_state_hash v)) (\<lambda>h.
       Inr (k, bps, h, map (\<lambda>b. dict_get key_to_discord b []) bps)))) table"

text \<open>
  The part of \<open>main\<close> after the responses have been collected. \<open>rows\<close> are the rows of the
  accounts file, \<open>files\<close> the peer files in the directory, the new one included.
\<close>

definition build_report ::
    "nat \<Rightarrow> (nat list \<Rightarrow> nat list \<Rightarrow> rat list) \<Rightarrow> string option \<Rightarrow> string list list \<Rightarrow> peer_file list \<Rightarrow> rat \<Rightarrow>
     seed_summary \<Rightarrow> report_state \<Rightarrow> report result option" where
  "build_report fuel percentile accounts_csv rows files now ss s =
     (let nodes = dict_values (rep_peer_table s) in
      case rbind (peer_percentile_numbers percentile nodes) (\<lambda>pcts.
           rbind (all_block_producers nodes) (\<lambda>producers.
           rbind (block_hash_lists nodes) (\<lambda>hash_lists. Inr (pcts, producers, make_fork_tree hash_lists)))) of
        Inl e \<Rightarrow> Some (Inl e)
      | Inr (pcts, producers, fork_tree) \<Rightarrow>
          (case summarized_fork_tree fuel fork_tree of
             None \<Rightarrow> None
           | Some (Inl e) \<Rightarrow> Some (Inl e)
           | Some (Inr summary) \<Rightarrow> Some (
               rbind (if has_participants accounts_csv then load_accounts ([], []) rows else Inr ([], [])) (\<lambda>(dk, kd).
               let counts = online_discord_counts producers dk in
               rbind (peer_table_dict kd (rep_peer_table s)) (\<lambda>_.
               rbind (fill_rate ss) (\<lambda>rate.
               Inr \<lparr>rp_queried_nodes = card (queried_peers s), rp_responding_nodes = length (rep_peer_table s),
                    rp_counts = s, rp_seed = ss, rp_block_fill_rate = rate, rp_percentiles = pcts,
                    rp_summary = summary, rp_has_forks = has_forks fork_tree summary,
                    rp_has_participants = has_participants accounts_csv,
                    rp_participants_online = participants_online counts,
                    rp_participants_offline = participants_offline counts,
                    rp_oldest = oldest_report now files,
                    rp_peers_by_window = responding_by_window pf_peers now files,
                    rp_ips_by_window = responding_by_window (\<lambda>f. map fst (pf_peers f)) now files,
                    rp_discords_by_window = responding_by_window pf_discords now files,
                    rp_online_counts = counts, rp_versions = version_counts nodes\<rparr>))))))"

text \<open>The commands to the cluster come first: the status of the last seed, then all seeds.\<close>

definition gather ::
    "'k kubernetes \<Rightarrow> (string \<Rightarrow> response result) \<Rightarrow> (literal \<Rightarrow> string) \<Rightarrow> pod list \<Rightarrow>
     ('k \<times> report_state, seed_summary) eff" where
  "gather k literal_eval py_str pods =
     (let seeds = running_seeds pods in
      ebind (elift (py_get seeds (- 1))) (\<lambda>seed.
      ebind (elift (seed_port pods seed)) (\<lambda>_.
      ebind (\<lambda>(c, s). case exec_on_seed k seed ''mina client status'' c of (r, c') \<Rightarrow> (r, (c', s))) (\<lambda>status.
      ebind (elift (seed_summary_of status)) (\<lambda>ss.
      eseq (query_seeds k literal_eval py_str pods seeds) (eret ss))))))"

definition make_report ::
    "nat \<Rightarrow> 'k kubernetes \<Rightarrow> (string \<Rightarrow> response result) \<Rightarrow> (literal \<Rightarrow> string) \<Rightarrow>
     (nat list \<Rightarrow> nat list \<Rightarrow> rat list) \<Rightarrow> string \<Rightarrow> pod list \<Rightarrow> string option \<Rightarrow> string list list \<Rightarrow>
     peer_file list \<Rightarrow> rat \<Rightarrow> 'k \<Rightarrow> report option result option" where
  "make_report fuel k literal_eval py_str percentile ns pods accounts_csv rows files now c =
     (if startswith ns ''integration-test-'' then Some (Inr None)
      else case gather k literal_eval py_str pods (c, empty_report) of
        (Inl e, _) \<Rightarrow> Some (Inl e)
      | (Inr ss, (c', s)) \<Rightarrow>
          map_option (\<lambda>r. rbind r (\<lambda>rep. Inr (Some rep)))
            (build_report fuel percentile accounts_csv rows files now ss s))"

section \<open>Specifications\<close>

text \<open>The number of the bucket an uptime in minutes falls into, and the buckets' sizes.\<close>

definition uptime_bucket :: "int \<Rightarrow> nat" where
  "uptime_bucket u =
     (if u < 10 then 0 else if u < 30 then 1 else if u < 60 then 2 else if u < 3600 then 3
      else if u < 7200 then 4 else if u < 14400 then 5 else 6)"

definition buckets :: "report_state \<Rightarrow> int list list" where
  "buckets s =
     [uptime_less_than_10_min s, uptime_less_than_30_min s, uptime_less_than_1_hour s,
      uptime_less_than_6_hour s, uptime_less_than_12_hour s, uptime_less_than_24_hour s,
      uptime_greater_than_24_hour s]"

definition bucket_size :: "report_state \<Rightarrow> nat \<Rightarrow> nat" where
  "bucket_size s b = (if b < 7 then length (buckets s ! b) else 0)"

text \<open>The tree of \<open>k\<close> nodes that all report the same chain.\<close>

fun chain_tree :: "nat \<Rightarrow> string list \<Rightarrow> (string, tree_node) dict" where
  "chain_tree k [] = []"
| "chain_tree k (h # hs) = (h, \<lparr>children = take 1 hs, node_peers = k\<rparr>) # chain_tree k hs"

text \<open>A tree in which every child is a block of the tree and of smaller rank.\<close>

definition ranked :: "(string, tree_node) dict \<Rightarrow> (string \<Rightarrow> nat) \<Rightarrow> bool" where
  "ranked tree rk \<longleftrightarrow>
     (\<forall>h nd c. map_of tree h = Some nd \<longrightarrow> c \<in> set (children nd) \<longrightarrow>
        rk c < rk h \<and> map_of tree c \<noteq> None)"

text \<open>The keys a discord name has in the rows.\<close>

definition keys_of :: "string list list \<Rightarrow> string \<Rightarrow> string set" where
  "keys_of rows d = {k. \<exists>r\<in>set rows. \<exists>rest. r = d # k # rest \<and> k \<noteq> []}"

text \<open>Every peer id counted as queried belongs to an entry of the peer table.\<close>

definition queried_in_table :: "report_state \<Rightarrow> bool" where
  "queried_in_table s \<longleftrightarrow> queried_peers s \<subseteq> snd ` set (dict_keys (rep_peer_table s))"

text \<open>A seed that prints its status and one line of node status.\<close>

definition demo_status_text :: string where
  "demo_status_text =
     ''Max observed block height: 5'' @ [CHR ''\<newline>''] @ ''Consensus time now: epoch=0, slot=7'' @
     [CHR ''\<newline>''] @ ''Slots per epoch: 10''"

definition demo_answers :: "string \<Rightarrow> string" where
  "demo_answers cmd = (if startswith cmd ''mina client'' then demo_status_text else ''x'')"

definition demo_status_kubernetes :: "string option kubernetes" where
  "demo_status_kubernetes = printing_kubernetes demo_answers"

section \<open>Uptimes\<close>

interpretation uptimes: tally_loop uptime_bucket add_uptime bucket_size
proof
  fix s x b
  have cases7: "b = 0 \<or> b = 1 \<or> b = 2 \<or> b = 3 \<or> b = 4 \<or> b = 5 \<or> b = 6 \<or> 7 \<le> b" for b :: nat by presburger
  show "bucket_size (add_uptime s x) b = bucket_size s b + (if uptime_bucket x = b then 1 else 0)"
    using cases7 [of b]
    by (elim disjE) (simp_all add: bucket_size_def buckets_def uptime_bucket_def add_uptime_def)
qed

lemma add_uptime_buckets:
  "b < 7 \<Longrightarrow> buckets (add_uptime s u) ! b = buckets s ! b @ (if uptime_bucket u = b then [u] else [])"
proof -
  assume "b < 7"
  then have "b = 0 \<or> b = 1 \<or> b = 2 \<or> b = 3 \<or> b = 4 \<or> b = 5 \<or> b = 6" by presburger
  then show ?thesis
    by (elim disjE) (simp_all add: buckets_def uptime_bucket_def add_uptime_def)
qed

lemma foldl_buckets:
  "b < 7 \<Longrightarrow> buckets (foldl add_uptime s us) ! b = buckets s ! b @ filter (\<lambda>u. uptime_bucket u = b) us"
  by (induction us arbitrary: s) (simp_all add: add_uptime_buckets)

lemma add_uptimes_run:
  "mapM (\<lambda>p. key ''uptime_minutes'' (uptime_minutes p)) ps = Inr us \<Longrightarrow>
   add_uptimes ps s = (Inr (), foldl add_uptime s us)"
  by (induction ps arbitrary: us s)
    (auto simp: add_uptimes_def rbind_eq_Inr eseq_def ebind_def)

text \<open>
  Every uptime goes into exactly one of the seven lists, in order, and the lists
  together hold one entry per response; the thresholds are minutes, so an uptime of over
  six hours (361 minutes) still lands in the list named uptime_less_than_6_hour.
\<close>

theorem uptimes_sorted_into_buckets:
  assumes "mapM (\<lambda>p. key ''uptime_minutes'' (uptime_minutes p)) ps = Inr us"
  shows "\<exists>s. add_uptimes ps empty_report = (Inr (), s) \<and>
    (\<forall>b. b < 7 \<longrightarrow> buckets s ! b = filter (\<lambda>u. uptime_bucket u = b) us) \<and>
    (\<Sum>b<7. bucket_size s b) = length ps \<and>
    uptime_bucket (6 * 60 + 1) = uptime_bucket 60"
proof -
  have e: "b < 7 \<Longrightarrow> buckets empty_report ! b = []" for b
    using less_numeral_extra by (auto simp: buckets_def empty_report_def nth_Cons' numeral_eq_Suc less_Suc_eq)
  have "(\<Sum>b<7. bucket_size (foldl add_uptime empty_report us) b) =
      (\<Sum>b<7. bucket_size empty_report b) + length us"
    by (rule uptimes.tally_total) (simp_all add: uptime_bucket_def)
  moreover have "(\<Sum>b<7. bucket_size empty_report b) = 0" by (simp add: bucket_size_def e)
  ultimately show ?thesis
    using add_uptimes_run [OF assms] mapM_length [OF assms]
    by (simp add: foldl_buckets e uptime_bucket_def)
qed

section \<open>The tree is closed and the summary returns\<close>

lemma add_hashes_zip:
  "zip (h # hs) (map (\<lambda>c. [c]) hs @ [[]]) = (h, take 1 hs) # zip hs (map (\<lambda>c. [c]) (tl hs) @ [[]])"
  by (cases hs) simp_all

lemma visit_block_keys: "set (dict_keys (visit_block t pc)) = insert (fst pc) (set (dict_keys t))"
  by (auto simp: visit_block_def dict_modify_keys simp del: set_map)

lemma visit_block_lookup:
  "map_of (visit_block t pc) h =
     (if h = fst pc then
        let n = dict_get t h new_node
        in Some (n\<lparr>children := set_add (children n) (snd pc), node_peers := node_peers n + 1\<rparr>)
      else map_of t h)"
  by (simp add: visit_block_def dict_modify_lookup Let_def)

lemma fold_visit_keys:
  "set (dict_keys (foldl visit_block t pcs)) = set (dict_keys t) \<union> fst ` set pcs"
  by (induction pcs arbitrary: t) (auto simp: visit_block_keys simp del: set_map)

text \<open>Every child relation of the result was there before or comes from a visited pair.\<close>

lemma fold_visit_children:
  "map_of (foldl visit_block t pcs) h = Some nd \<Longrightarrow> c \<in> set (children nd) \<Longrightarrow>
   (\<exists>nd0. map_of t h = Some nd0 \<and> c \<in> set (children nd0)) \<or> (\<exists>cs. (h, cs) \<in> set pcs \<and> c \<in> set cs)"
proof (induction pcs arbitrary: t)
  case (Cons pc pcs)
  from Cons.IH [of "visit_block t pc"] Cons.prems
  have "(\<exists>nd0. map_of (visit_block t pc) h = Some nd0 \<and> c \<in> set (children nd0)) \<or>
      (\<exists>cs. (h, cs) \<in> set pcs \<and> c \<in> set cs)" by simp
  then show ?case
  proof
    assume "\<exists>nd0. map_of (visit_block t pc) h = Some nd0 \<and> c \<in> set (children nd0)"
    then show ?thesis
      by (cases pc) (auto simp: visit_block_lookup Let_def set_add_def dict_get_def new_node_def
          split: if_splits option.splits)
  qed auto
qed auto

lemma pairs_of_list:
  "(h, cs) \<in> set (zip hs (map (\<lambda>c. [c]) (tl hs) @ [[]])) \<Longrightarrow> c \<in> set cs \<Longrightarrow>
   c \<in> set hs \<and> (successively P hs \<longrightarrow> P h c)"
proof (induction hs)
  case (Cons x hs)
  from Cons.prems(1) have "(h, cs) = (x, take 1 hs) \<or> (h, cs) \<in> set (zip hs (map (\<lambda>c. [c]) (tl hs) @ [[]]))"
    by (simp only: list.sel add_hashes_zip set_simps) auto
  then show ?case
    using Cons.IH Cons.prems(2) by (cases hs) auto
qed simp

lemma zip_keys: "fst ` set (zip hs (map (\<lambda>c. [c]) (tl hs) @ [[]])) = set hs"
proof -
  have "length hs \<le> length (map (\<lambda>c. [c]) (tl hs) @ [[]])" by (cases hs) simp_all
  then have "map fst (zip hs (map (\<lambda>c. [c]) (tl hs) @ [[]])) = hs"
    by (simp add: map_fst_zip_take)
  then show ?thesis by (metis set_map)
qed

lemma fork_tree_edges:
  assumes "map_of (foldl add_hashes t hash_lists) h = Some nd" and "c \<in> set (children nd)"
    and "\<And>h nd c. map_of t h = Some nd \<Longrightarrow> c \<in> set (children nd) \<Longrightarrow> P h c \<and> c \<in> set (dict_keys t)"
    and "\<And>l. l \<in> set hash_lists \<Longrightarrow> successively P l"
  shows "P h c \<and> c \<in> set (dict_keys (foldl add_hashes t hash_lists))"
  using assms
proof (induction hash_lists arbitrary: t)
  case Nil
  from Nil.prems(3) [of h nd c] Nil.prems(1,2) show ?case by simp
next
  case (Cons l ls)
  have keys: "set (dict_keys (add_hashes t l)) = set (dict_keys t) \<union> set l"
    by (simp add: add_hashes_def fold_visit_keys zip_keys del: set_map)
  have "P h' c' \<and> c' \<in> set (dict_keys (add_hashes t l))"
    if "map_of (add_hashes t l) h' = Some nd'" "c' \<in> set (children nd')" for h' nd' c'
    using fold_visit_children [OF that [unfolded add_hashes_def]] Cons.prems(3) [of h'] Cons.prems(4) [of l]
      pairs_of_list [of h' _ l c' P] unfolding keys by auto
  from Cons.IH [OF _ Cons.prems(2) this] Cons.prems(1,4) show ?case by simp
qed

lemma rankedD:
  "ranked tree rk \<Longrightarrow> map_of tree h = Some nd \<Longrightarrow> c \<in> set (children nd) \<Longrightarrow>
   rk c < rk h \<and> map_of tree c \<noteq> None"
  by (simp add: ranked_def)

lemma skip_blocks_returns:
  assumes rk: "ranked tree rk"
    and "\<And>c. c \<in> set cs \<Longrightarrow> rk c < fuel \<and> rk c < m \<and> map_of tree c \<noteq> None" and "0 < fuel"
  shows "\<exists>cs' n'. skip_blocks fuel tree p cs n = Some (Inr (cs', n')) \<and>
    (\<forall>c\<in>set cs'. rk c < m \<and> map_of tree c \<noteq> None)"
  using assms(2,3)
proof (induction fuel arbitrary: cs n)
  case (Suc fuel)
  show ?case
  proof (cases "\<exists>c. cs = [c]")
    case False
    then have "skip_blocks (Suc fuel) tree p cs n = Some (Inr (cs, n))"
      by (auto split: list.splits)
    with Suc.prems(1) show ?thesis by auto
  next
    case True
    then obtain c where c: "cs = [c]" by blast
    with Suc.prems(1) obtain nd where nd: "map_of tree c = Some nd" and r: "rk c < Suc fuel" "rk c < m"
      by fastforce
    show ?thesis
    proof (cases "node_peers nd = p \<and> children nd \<noteq> []")
      case False
      with c nd r show ?thesis by auto
    next
      case go: True
      have ch: "d \<in> set (children nd) \<Longrightarrow> rk d < fuel \<and> rk d < m \<and> map_of tree d \<noteq> None" for d
        using rankedD [OF rk nd, of d] r by auto
      obtain d where "d \<in> set (children nd)" using go by (cases "children nd") auto
      then have "0 < fuel" using ch [of d] by auto
      from Suc.IH [OF ch this] go c nd show ?thesis by simp
    qed
  qed
qed simp

lemma summarize_returns:
  assumes rk: "ranked tree rk"
    and "\<And>b. b \<in> set blocks \<Longrightarrow> rk b < fuel \<and> map_of tree b \<noteq> None"
  shows "\<exists>s. summarize fuel tree blocks acc = Some (Inr s)"
  using assms(2)
proof (induction fuel arbitrary: blocks acc)
  case 0
  then show ?case by (cases blocks) auto
next
  case (Suc fuel)
  from Suc.prems show ?case
  proof (induction blocks arbitrary: acc)
    case Nil
    show ?case by simp
  next
    case (Cons b blocks)
    obtain nd where nd: "map_of tree b = Some nd" and b: "rk b < Suc fuel"
      using Cons.prems [of b] by auto
    have ch: "c \<in> set (children nd) \<Longrightarrow> rk c < Suc fuel \<and> rk c < rk b \<and> map_of tree c \<noteq> None" for c
      using rankedD [OF rk nd, of c] b by auto
    obtain cs n where sk: "skip_blocks (Suc fuel) tree (node_peers nd) (children nd) 0 = Some (Inr (cs, n))"
      and cs: "\<forall>c\<in>set cs. rk c < rk b \<and> map_of tree c \<noteq> None"
      using skip_blocks_returns [OF rk ch] by blast
    define acc1 where
      "acc1 = AList.update b \<lparr>sum_children = cs, sum_peers = node_peers nd, intermediate_nodes = n\<rparr> acc"
    obtain acc' where "summarize fuel tree cs acc1 = Some (Inr acc')"
      using Suc.IH [of cs acc1] cs b by fastforce
    with nd sk Cons.IH [of acc'] Cons.prems show ?case by (simp add: acc1_def)
  qed
qed

text \<open>
  C24. When heights grow along every reported chain and are at most n, building the
  summarised block tree ends, with recursion depth and loop length at most n + 1, and
  raises no KeyError.
\<close>

theorem block_tree_summary_returns:
  assumes "\<And>l. l \<in> set hash_lists \<Longrightarrow> successively (\<lambda>a b. height a < height b) l"
    and "\<And>l h. l \<in> set hash_lists \<Longrightarrow> h \<in> set l \<Longrightarrow> height h \<le> (n :: nat)"
  shows "\<exists>s. summarized_fork_tree (n + 1) (make_fork_tree hash_lists) = Some (Inr s)"
proof -
  define tree where "tree = make_fork_tree hash_lists"
  define rk where "rk = (\<lambda>h. n - height h)"
  have lists: "successively (\<lambda>a b. rk b < rk a) l" if "l \<in> set hash_lists" for l
    using assms(1) [OF that]
  proof (rule successively_mono)
    fix x y
    assume "height x < height y" "x \<in> set l" "y \<in> set l"
    with assms(2) [OF that, of y] show "rk y < rk x" by (simp add: rk_def)
  qed
  have "ranked tree rk"
    unfolding ranked_def
  proof (intro allI impI)
    fix h nd c
    assume "map_of tree h = Some nd" "c \<in> set (children nd)"
    then have "rk c < rk h \<and> c \<in> set (dict_keys tree)"
      using fork_tree_edges [where P = "\<lambda>a b. rk b < rk a" and t = "[]"] lists
      unfolding tree_def make_fork_tree_def by auto
    then show "rk c < rk h \<and> map_of tree c \<noteq> None" by (simp add: map_of_None_iff del: set_map)
  qed
  moreover have "b \<in> set (roots tree) \<Longrightarrow> rk b < n + 1 \<and> map_of tree b \<noteq> None" for b
    by (auto simp: roots_def rk_def map_of_None_iff simp del: set_map)
  ultimately show ?thesis
    unfolding summarized_fork_tree_def tree_def [symmetric] by (rule summarize_returns)
qed

section \<open>Nodes that agree\<close>

lemma summarize_Nil [simp]: "summarize fuel tree [] acc = Some (Inr acc)"
  by (cases fuel) simp_all

lemma update_middle:
  "p \<notin> set (dict_keys pre) \<Longrightarrow> AList.update p v (pre @ (p, w) # rest) = pre @ (p, v) # rest"
  by (induction pre) auto

lemma get_middle:
  "p \<notin> set (dict_keys pre) \<Longrightarrow> dict_get (pre @ (p, w) # rest) p d = w"
  by (induction pre) (auto simp: dict_get_def)

lemma visit_fresh:
  assumes "distinct hs" and "set hs \<inter> set (dict_keys pre) = {}"
  shows "foldl visit_block pre (zip hs (map (\<lambda>c. [c]) (tl hs) @ [[]])) = pre @ chain_tree 1 hs"
  using assms
proof (induction hs arbitrary: pre)
  case (Cons h hs)
  have "h \<notin> set (dict_keys pre)" using Cons.prems(2) by auto
  then have "visit_block pre (h, take 1 hs) = pre @ [(h, \<lparr>children = take 1 hs, node_peers = 1\<rparr>)]"
    by (induction pre) (auto simp: visit_block_def dict_modify_def dict_get_def new_node_def set_add_def)
  with Cons.IH [of "pre @ [(h, \<lparr>children = take 1 hs, node_peers = 1\<rparr>)]"] Cons.prems
  show ?case by (simp only: list.sel add_hashes_zip foldl_Cons) auto
qed simp

lemma visit_again:
  assumes "distinct hs" and "set hs \<inter> set (dict_keys pre) = {}"
  shows "foldl visit_block (pre @ chain_tree k hs) (zip hs (map (\<lambda>c. [c]) (tl hs) @ [[]])) =
    pre @ chain_tree (Suc k) hs"
  using assms
proof (induction hs arbitrary: pre)
  case (Cons h hs)
  have h: "h \<notin> set (dict_keys pre)" using Cons.prems(2) by auto
  have "set_add (take 1 hs) (take 1 hs) = take 1 hs" by (cases hs) (simp_all add: set_add_def)
  then have "visit_block (pre @ chain_tree k (h # hs)) (h, take 1 hs) =
      pre @ (h, \<lparr>children = take 1 hs, node_peers = Suc k\<rparr>) # chain_tree k hs"
    using h by (simp add: visit_block_def dict_modify_def get_middle update_middle del: set_map)
  with Cons.IH [of "pre @ [(h, \<lparr>children = take 1 hs, node_peers = Suc k\<rparr>)]"] Cons.prems
  show ?case by (simp only: list.sel add_hashes_zip foldl_Cons) auto
qed simp

lemma tree_of_agreeing_nodes:
  assumes "distinct hs"
  shows "make_fork_tree (replicate (Suc k) hs) = chain_tree (Suc k) hs"
proof (induction k)
  case 0
  show ?case using visit_fresh [of hs "[]"] assms by (simp add: make_fork_tree_def add_hashes_def)
next
  case (Suc k)
  have "replicate (Suc (Suc k)) hs = replicate (Suc k) hs @ [hs]"
    by (metis replicate_append_same replicate_Suc)
  with Suc visit_again [of hs "[]" "Suc k"] assms show ?case
    by (simp add: make_fork_tree_def add_hashes_def del: replicate_Suc)
qed

lemma chain_tree_keys: "dict_keys (chain_tree k hs) = hs"
  by (induction hs) auto

lemma chain_tree_children: "concat (map children (dict_values (chain_tree k hs))) = tl hs"
proof (induction hs)
  case (Cons h hs)
  then show ?case by (cases hs) auto
qed simp

lemma chain_roots: "distinct (h # hs) \<Longrightarrow> roots (chain_tree k (h # hs)) = [h]"
  unfolding roots_def chain_tree_keys chain_tree_children
  by (auto simp: filter_empty_conv)

lemma chain_skip:
  assumes "\<And>h nd. (h, nd) \<in> set (chain_tree k (c # cs)) \<Longrightarrow> map_of tree h = Some nd"
    and "length cs < fuel"
  shows "skip_blocks fuel tree k [c] n = Some (Inr ([last (c # cs)], n + length cs))"
  using assms
proof (induction cs arbitrary: c n fuel)
  case Nil
  then obtain f where "fuel = Suc f" by (cases fuel) auto
  with Nil.prems(1) [of c] show ?case by simp
next
  case (Cons d cs)
  then obtain f where f: "fuel = Suc f" by (cases fuel) auto
  have m: "map_of tree c = Some \<lparr>children = [d], node_peers = k\<rparr>" using Cons.prems(1) by simp
  have "skip_blocks f tree k [d] (n + 1) = Some (Inr ([last (d # cs)], n + 1 + length cs))"
    using Cons.prems f by (intro Cons.IH) simp_all
  with m f show ?case by simp
qed

lemma chain_lookup:
  assumes "distinct hs" and "(h, nd) \<in> set (chain_tree k hs)"
  shows "map_of (chain_tree k hs) h = Some nd"
  using assms by (intro map_of_is_SomeI) (simp_all add: chain_tree_keys)

lemma chain_tree_last: "hs \<noteq> [] \<Longrightarrow> (last hs, \<lparr>children = [], node_peers = k\<rparr>) \<in> set (chain_tree k hs)"
  by (induction hs) auto

lemma agreeing_nodes:
  assumes "distinct hs" and "hs \<noteq> []" and "0 < k" and "length hs < fuel"
  shows "\<exists>s. summarized_fork_tree fuel (make_fork_tree (replicate k hs)) = Some (Inr s) \<and>
    \<not> has_forks (make_fork_tree (replicate k hs)) s"
proof -
  obtain h cs where hs: "hs = h # cs" using assms(2) by (cases hs) auto
  obtain j where j: "k = Suc j" using assms(3) by (cases k) auto
  define tree where "tree = chain_tree k hs"
  have t: "make_fork_tree (replicate k hs) = tree"
    using tree_of_agreeing_nodes [OF assms(1), of j] by (simp add: j tree_def del: replicate_Suc)
  have look: "(x, nd) \<in> set tree \<Longrightarrow> map_of tree x = Some nd" for x nd
    unfolding tree_def using assms(1) by (rule chain_lookup)
  have rt: "roots tree = [h]" using chain_roots assms(1) by (simp add: tree_def hs)
  have nd: "map_of tree h = Some \<lparr>children = take 1 cs, node_peers = k\<rparr>"
    by (rule look) (simp add: tree_def hs)
  obtain f where f: "fuel = Suc (Suc f)" using assms(4) hs by (cases fuel; cases "fuel - 1") auto
  show ?thesis
  proof (cases cs)
    case Nil
    with nd rt f show ?thesis unfolding t
      by (simp add: summarized_fork_tree_def has_forks_def)
  next
    case (Cons c ds)
    have sk: "skip_blocks fuel tree k [c] 0 = Some (Inr ([last (c # ds)], length ds))"
      using chain_skip [of k c ds tree fuel 0] look assms(4) by (simp add: tree_def hs Cons)
    have la: "map_of tree (last (c # ds)) = Some \<lparr>children = [], node_peers = k\<rparr>"
      using look chain_tree_last [of hs k] by (simp add: tree_def hs Cons)
    have ne: "last (c # ds) \<noteq> h" using assms(1) hs Cons by (metis distinct.simps(2) last_in_set list.distinct(1))
    have s: "summarized_fork_tree fuel tree = Some (Inr
        [(h, \<lparr>sum_children = [last (c # ds)], sum_peers = k, intermediate_nodes = length ds\<rparr>),
         (last (c # ds), \<lparr>sum_children = [], sum_peers = k, intermediate_nodes = 0\<rparr>)])"
      using nd rt la ne sk by (simp add: summarized_fork_tree_def f Cons del: last.simps)
    show ?thesis unfolding t using s nd rt ne Cons
      by (simp add: has_forks_def del: last.simps)
  qed
qed

text \<open>
  When all nodes report the same chain of different blocks, the report says there is
  no fork, whatever the number of nodes and the length of the chain.
\<close>

theorem agreeing_nodes_have_no_fork:
  assumes "distinct hs" and "hs \<noteq> []" and "0 < k" and "length hs < fuel"
  shows "\<exists>s. summarized_fork_tree fuel (make_fork_tree (replicate k hs)) = Some (Inr s) \<and>
    \<not> has_forks (make_fork_tree (replicate k hs)) s"
  by (rule agreeing_nodes [OF assms])

section \<open>Participants\<close>

lemma row_shape: "py_get r 0 = Inr a \<Longrightarrow> py_get r 1 = Inr b \<Longrightarrow> \<exists>rest. r = a # b # rest"
  by (cases r; cases "tl r") (auto simp: py_get_def split: if_splits)

lemma load_accounts_keys:
  assumes "load_accounts acc rows = Inr (dk, kd)" and "dict_wf (fst acc)"
    and "\<And>d ks. (d, ks) \<in> set (fst acc) \<Longrightarrow> ks \<noteq> []"
  shows "dict_wf dk \<and> (\<forall>(d, ks)\<in>set dk. ks \<noteq> []) \<and>
    (\<forall>d. set (dict_get dk d []) = set (dict_get (fst acc) d []) \<union> keys_of rows d)"
  using assms
proof (induction rows arbitrary: acc)
  case Nil
  then show ?case by (auto simp: keys_of_def)
next
  case (Cons r rows)
  from Cons.prems(1) obtain acc' where a: "add_account acc r = Inr acc'"
    and l: "load_accounts acc' rows = Inr (dk, kd)" by (auto simp: rbind_eq_Inr)
  from a obtain d k rest where r: "r = d # k # rest"
    and acc': "acc' = (if k \<noteq> [] then (dict_modify d [] (\<lambda>ks. set_add ks [k]) (fst acc), AList.update k d (snd acc)) else acc)"
    by (auto simp: add_account_def rbind_eq_Inr dest!: row_shape)
  have wf: "dict_wf (fst acc')" using Cons.prems(2) by (simp add: acc' dict_modify_wf)
  have ne: "(d', ks) \<in> set (fst acc') \<Longrightarrow> ks \<noteq> []" for d' ks
  proof -
    assume e: "(d', ks) \<in> set (fst acc')"
    then have m: "map_of (fst acc') d' = Some ks" using wf by simp
    show ?thesis
    proof (cases "k \<noteq> [] \<and> d' = d")
      case True
      with m show ?thesis by (auto simp: acc' dict_modify_lookup set_add_def)
    next
      case False
      with m have "map_of (fst acc) d' = Some ks" by (auto simp: acc' dict_modify_lookup split: if_splits)
      then show ?thesis using Cons.prems(3) [of d' ks] map_of_SomeD by fastforce
    qed
  qed
  have get: "set (dict_get (fst acc') x []) = set (dict_get (fst acc) x []) \<union> keys_of [r] x" for x
    by (auto simp: acc' dict_modify_get set_add_def keys_of_def r)
  have "keys_of (r # rows) x = keys_of [r] x \<union> keys_of rows x" for x by (auto simp: keys_of_def)
  with Cons.IH [OF l wf ne] get show ?case by auto
qed

text \<open>
  A participant is listed as online exactly when one of the keys given for it in the
  accounts file is an active block producer, and as offline exactly when it has keys and
  none of them is.
\<close>

theorem participants_classified:
  assumes "load_accounts ([], []) rows = Inr (discord_to_keys, key_to_discord)"
    and "counts = online_discord_counts producers discord_to_keys"
  shows "(d \<in> set (participants_online counts) \<longleftrightarrow> keys_of rows d \<inter> set producers \<noteq> {}) \<and>
    (d \<in> set (participants_offline counts) \<longleftrightarrow>
       keys_of rows d \<noteq> {} \<and> keys_of rows d \<inter> set producers = {})"
proof -
  have k: "dict_wf discord_to_keys" "\<forall>(d, ks)\<in>set discord_to_keys. ks \<noteq> []"
    "\<And>d. set (dict_get discord_to_keys d []) = keys_of rows d"
    using load_accounts_keys [OF assms(1)] by simp_all
  have item: "(\<exists>ks. (d, ks) \<in> set discord_to_keys \<and> P ks) \<longleftrightarrow>
      keys_of rows d \<noteq> {} \<and> P (dict_get discord_to_keys d [])" for P
  proof (cases "map_of discord_to_keys d")
    case None
    then have "keys_of rows d = {}" using k(3) [of d] by (simp add: dict_get_def)
    moreover have "(d, ks) \<notin> set discord_to_keys" for ks
      using None by (auto simp: map_of_eq_None_iff image_iff)
    ultimately show ?thesis by simp
  next
    case (Some ks)
    then have "ks \<noteq> []" using k(2) map_of_SomeD by fastforce
    moreover have "(d, ks') \<in> set discord_to_keys \<longleftrightarrow> ks' = ks" for ks'
      using Some k(1) by (metis map_of_eq_Some_iff option.inject)
    ultimately show ?thesis using Some k(3) [of d] by (auto simp: dict_get_def)
  qed
  have "d \<in> set (participants_online counts) \<longleftrightarrow>
      (\<exists>ks. (d, ks) \<in> set discord_to_keys \<and> filter (\<lambda>k. k \<in> set producers) ks \<noteq> [])"
    by (force simp: participants_online_def online_discord_counts_def assms(2) image_iff)
  moreover have "d \<in> set (participants_offline counts) \<longleftrightarrow>
      (\<exists>ks. (d, ks) \<in> set discord_to_keys \<and> filter (\<lambda>k. k \<in> set producers) ks = [])"
    by (force simp: participants_offline_def online_discord_counts_def assms(2) image_iff)
  ultimately show ?thesis
    using k(3) [of d] unfolding item by (auto simp: filter_empty_conv)
qed

section \<open>The message\<close>

theorem message_within_limit:
  "length (discord_message msg) \<le> 1998 \<and> prefix (take 1995 msg) (discord_message msg) \<and>
   (discord_message msg = msg \<or> discord_message msg = take 1995 msg @ ''...'')"
  by (auto simp: discord_message_def discord_char_limit_def py_slice_0_nonneg take_is_prefix)

section \<open>Queried peers\<close>

interpretation queried: effect_frame "\<lambda>s t. queried_in_table s \<longrightarrow> queried_in_table t"
  by unfold_locales auto

lemma add_new_entries_keys:
  "set (dict_keys (add_new_entries t es)) = set (dict_keys t) \<union> set (dict_keys es)"
proof (induction es arbitrary: t)
  case (Cons e es)
  obtain k v where e: "e = (k, v)" by (cases e)
  have "add_new_entries t (e # es) =
      add_new_entries (if k \<in> set (dict_keys t) then t else AList.update k v t) es"
    by (simp add: add_new_entries_def e)
  then show ?case using Cons e by (auto simp: dict_keys_update simp del: set_map)
qed (simp add: add_new_entries_def)

lemma queried_add_uptimes: "framed (\<lambda>s t. queried_in_table s \<longrightarrow> queried_in_table t) (add_uptimes ps)"
  unfolding add_uptimes_def
  by (intro queried.framed_for queried.framed_bind queried.framed_prim queried.framed_modify)
    (simp add: queried_in_table_def add_uptime_def)

lemma queried_add_error: "framed (\<lambda>s t. queried_in_table s \<longrightarrow> queried_in_table t) (add_error py_str e)"
  unfolding add_error_def Let_def
  by (intro queried.framed_bind queried.framed_prim queried.framed_modify) (simp add: queried_in_table_def)

lemma ids_in_entries:
  assumes "mapM table_entry ps = Inr es" and "mapM (\<lambda>p. key ''node_peer_id'' (node_peer_id p)) ps = Inr ids"
  shows "set ids \<subseteq> snd ` set (dict_keys es)"
  using assms
  by (induction ps arbitrary: es ids) (auto simp: rbind_eq_Inr table_entry_def, blast)

lemma queried_record_peers:
  "framed (\<lambda>s t. queried_in_table s \<longrightarrow> queried_in_table t) (record_peers valid)"
  unfolding framed_def
proof (intro allI impI)
  fix s
  assume q: "queried_in_table s"
  show "queried_in_table (snd (record_peers valid s))"
  proof (cases "mapM table_entry valid")
    case (Inl e)
    with q show ?thesis by (simp add: record_peers_def ebind_def)
  next
    case es: (Inr es)
    define s1 where "s1 = s\<lparr>rep_peer_table := add_new_entries (rep_peer_table s) es\<rparr>"
    have q1: "queried_in_table s1"
      using q by (auto simp: queried_in_table_def s1_def add_new_entries_keys simp del: set_map)
    show ?thesis
    proof (cases "mapM (\<lambda>p. key ''node_peer_id'' (node_peer_id p)) valid")
      case (Inl e)
      with es q1 show ?thesis by (simp add: record_peers_def ebind_def eseq_def s1_def)
    next
      case ids: (Inr ids)
      have "queried_in_table (s1\<lparr>queried_peers := queried_peers s1 \<union> set ids\<rparr>)"
        using q1 ids_in_entries [OF es ids]
        by (auto simp: queried_in_table_def s1_def add_new_entries_keys simp del: set_map)
      with es ids show ?thesis by (simp add: record_peers_def ebind_def eseq_def s1_def)
    qed
  qed
qed

lemma queried_report_resp:
  "framed (\<lambda>s t. queried_in_table s \<longrightarrow> queried_in_table t) (report_resp ev py_str raw)"
  unfolding report_resp_def Let_def
  by (intro queried.framed_bind queried.framed_seq queried.framed_for queried.framed_prim
      queried.framed_modify queried_record_peers queried_add_uptimes queried_add_error)
    (simp add: queried_in_table_def)

interpretation queried_seeds:
  effect_frame "\<lambda>s t :: 'k \<times> report_state. queried_in_table (snd s) \<longrightarrow> queried_in_table (snd t)"
  by unfold_locales auto

lemma queried_one_seed:
  "framed (\<lambda>s t. queried_in_table (snd s) \<longrightarrow> queried_in_table (snd t)) (query_one_seed k ev py_str pods seed)"
  unfolding framed_def query_one_seed_def
  by (auto split: sum.splits prod.splits dest: framedD [OF queried_report_resp])

lemma queried_query_seeds:
  "framed (\<lambda>s t. queried_in_table (snd s) \<longrightarrow> queried_in_table (snd t)) (query_seeds k ev py_str pods seeds)"
  unfolding query_seeds_def by (intro queried_seeds.framed_for queried_one_seed)

lemma gather_queried:
  assumes "gather k ev py_str pods (c, empty_report) = (Inr ss, (c', s))"
  shows "queried_in_table s"
proof -
  from assms obtain c1 where
    "query_seeds k ev py_str pods (running_seeds pods) (c1, empty_report) = (Inr (), (c', s))"
    by (auto simp: gather_def Let_def ebind_def eseq_def split: sum.splits prod.splits)
  from framedD [OF queried_query_seeds this] show ?thesis
    by (simp add: queried_in_table_def empty_report_def)
qed

text \<open>
  In every report that is made, the number of queried nodes is at most the number of
  responding nodes: only peers that gave a valid response are counted as queried.
\<close>

theorem queried_at_most_responding:
  assumes "make_report fuel k ev py_str percentile ns pods csv rows files now c = Some (Inr (Some rep))"
  shows "rp_queried_nodes rep \<le> rp_responding_nodes rep"
proof -
  from assms obtain ss c' s where g: "gather k ev py_str pods (c, empty_report) = (Inr ss, (c', s))"
    and b: "build_report fuel percentile csv rows files now ss s = Some (Inr rep)"
    by (auto simp: make_report_def rbind_eq_Inr split: if_splits sum.splits prod.splits)
  from b have "rp_queried_nodes rep = card (queried_peers s)" "rp_responding_nodes rep = length (rep_peer_table s)"
    by (auto simp: build_report_def Let_def rbind_eq_Inr split: sum.splits option.splits prod.splits)
  moreover have "card (queried_peers s) \<le> length (rep_peer_table s)"
  proof -
    have "card (queried_peers s) \<le> card (snd ` set (dict_keys (rep_peer_table s)))"
      using gather_queried [OF g] by (intro card_mono) (simp_all add: queried_in_table_def)
    also have "\<dots> \<le> card (set (dict_keys (rep_peer_table s)))" by (rule card_image_le) simp
    also have "\<dots> \<le> length (rep_peer_table s)" by (metis card_length length_map)
    finally show ?thesis .
  qed
  ultimately show ?thesis by simp
qed

section \<open>Concrete reports\<close>

theorem uptimes_sorted_into_buckets_witness:
  "\<exists>s. add_uptimes [demo_response] empty_report = (Inr (), s) \<and> buckets s ! 3 = [90]"
proof -
  have "mapM (\<lambda>p. key ''uptime_minutes'' (uptime_minutes p)) [demo_response] = Inr [90]"
    by (simp add: demo_response_def key_def)
  from uptimes_sorted_into_buckets [OF this] show ?thesis by (auto simp: uptime_bucket_def)
qed

theorem block_tree_summary_returns_witness:
  "\<exists>s. summarized_fork_tree 11 (make_fork_tree [[''a'', ''bb'', ''ccc''], [''a'', ''xx'']]) = Some (Inr s)"
  using block_tree_summary_returns [of "[[''a'', ''bb'', ''ccc''], [''a'', ''xx'']]" length 10] by force

theorem agreeing_nodes_have_no_fork_witness:
  "\<exists>s. summarized_fork_tree 4 (make_fork_tree (replicate 2 [''a'', ''b'', ''c''])) = Some (Inr s) \<and>
     \<not> has_forks (make_fork_tree (replicate 2 [''a'', ''b'', ''c''])) s"
  using agreeing_nodes_have_no_fork [of "[''a'', ''b'', ''c'']" 2 4] by simp

theorem participants_classified_witness:
  "\<exists>dk kd. load_accounts ([], []) [[''ann'', ''k1''], [''bob'', ''k2'']] = Inr (dk, kd) \<and>
     ''ann'' \<in> set (participants_online (online_discord_counts [''k1''] dk)) \<and>
     ''bob'' \<in> set (participants_offline (online_discord_counts [''k1''] dk))"
proof -
  have l: "load_accounts ([], []) [[''ann'', ''k1''], [''bob'', ''k2'']] =
      Inr ([(''ann'', [''k1'']), (''bob'', [''k2''])], [(''k1'', ''ann''), (''k2'', ''bob'')])"
    by code_simp
  show ?thesis
    using participants_classified [OF l refl, of "''ann''" "[''k1'']"]
      participants_classified [OF l refl, of "''bob''" "[''k1'']"] l
    by (auto simp: keys_of_def)
qed

lemma demo_status:
  "\<exists>ss. seed_summary_of demo_status_text = Inr ss \<and> ss_global_slot ss = 7"
proof -
  have "seed_summary_of demo_status_text =
      Inr \<lparr>ss_blocks = 5, ss_epoch = 0, ss_slot = 7, ss_global_slot = 7\<rparr>" by code_simp
  then show ?thesis by simp
qed

lemma demo_report_resp:
  "\<exists>s. report_resp (\<lambda>_. Inr demo_response) (\<lambda>_. []) ''x'' empty_report = (Inr (), s) \<and>
     rep_peer_table s = [((''10.0.0.1'', ''p1''), demo_response)] \<and> queried_peers s = {''p1''}"
proof -
  have "parse_resps (\<lambda>_. Inr demo_response) ''x'' = Inr [demo_response]" by code_simp
  moreover have "no_error demo_response" "\<not> contains_error demo_response" by code_simp+
  ultimately show ?thesis
    by (simp add: report_resp_def ebind_def eseq_def Let_def record_peers_def table_entry_def
        demo_response_def key_def add_uptimes_def empty_report_def add_new_entries_def add_uptime_def)
qed

lemma demo_gather:
  "\<exists>ss c s. gather demo_status_kubernetes (\<lambda>_. Inr demo_response) (\<lambda>_. []) demo_pods (None, empty_report) =
     (Inr ss, (c, s)) \<and> ss_global_slot ss = 7 \<and>
     rep_peer_table s = [((''10.0.0.1'', ''p1''), demo_response)] \<and> queried_peers s = {''p1''}"
proof -
  obtain ss where ss: "seed_summary_of demo_status_text = Inr ss" "ss_global_slot ss = 7"
    using demo_status by blast
  obtain s where s: "report_resp (\<lambda>_. Inr demo_response) (\<lambda>_. []) ''x'' empty_report = (Inr (), s)"
      "rep_peer_table s = [((''10.0.0.1'', ''p1''), demo_response)]" "queried_peers s = {''p1''}"
    using demo_report_resp by blast
  have seeds: "running_seeds demo_pods = [''seed-1'']" by code_simp
  note run = printing_exec [where args = "''client status''" and pod = "''seed-1''" and c = "''coda''"]
    printing_exec [where args = "''advanced node-status -daemon-port 8301 -daemon-peers -show-errors''"]
  have "exec_on_seed demo_status_kubernetes ''seed-1'' ''mina client status'' None = (Inr demo_status_text, None)"
    using run(1) [of demo_answers None]
    by (simp add: exec_on_seed_def exec_on_pod_eq demo_status_kubernetes_def demo_answers_def startswith_def)
  moreover have "exec_on_pod demo_status_kubernetes ''seed-1'' ''coda''
      (''mina advanced node-status -daemon-port '' @ ''8301'' @ '' -daemon-peers -show-errors'') None = (Inr ''x'', None)"
    using run(2) [of demo_answers "''seed-1''" "''coda''" None]
    by (simp add: demo_status_kubernetes_def demo_answers_def startswith_def)
  ultimately show ?thesis
    using s ss by (simp add: gather_def Let_def seeds py_get_def demo_seed_port ebind_def eseq_def
        query_seeds_def query_one_seed_def)
qed

theorem queried_at_most_responding_witness:
  "\<exists>rep. make_report 5 demo_status_kubernetes (\<lambda>_. Inr demo_response) (\<lambda>_. []) (\<lambda>_ _. []) ''mainnet''
       demo_pods None [] [] 0 None = Some (Inr (Some rep)) \<and>
     rp_queried_nodes rep \<le> rp_responding_nodes rep"
proof -
  obtain ss c s where g: "gather demo_status_kubernetes (\<lambda>_. Inr demo_response) (\<lambda>_. []) demo_pods (None, empty_report) =
     (Inr ss, (c, s))" "ss_global_slot ss = 7"
     "rep_peer_table s = [((''10.0.0.1'', ''p1''), demo_response)]" "queried_peers s = {''p1''}"
    using demo_gather by (elim exE conjE) (rule that)
  obtain sm where sm: "summarized_fork_tree 5 (make_fork_tree [[''A'', ''B'']]) = Some (Inr sm)"
    using agreeing_nodes [of "[''A'', ''B'']" 1 5] by auto
  have parts: "peer_percentile_numbers (\<lambda>_ _. []) [demo_response] = Inr []"
    "all_block_producers [demo_response] = Inr [''key'']"
    "block_hash_lists [demo_response] = Inr [[''A'', ''B'']]"
    "\<exists>d. peer_table_dict [] [((''10.0.0.1'', ''p1''), demo_response)] = Inr d"
    "fill_rate ss = Inr (of_int (ss_blocks ss) / of_int (ss_global_slot ss))" "\<not> has_participants None"
    using g(2) by (simp_all add: peer_percentile_numbers_def all_block_producers_def block_hash_lists_def
        peer_table_dict_def demo_response_def key_def fill_rate_def has_participants_def)
  have "\<exists>rep. build_report 5 (\<lambda>_ _. []) None [] [] 0 ss s = Some (Inr rep)"
    using parts(4) by (elim exE) (simp add: build_report_def Let_def g(3) parts sm)
  then obtain rep where "build_report 5 (\<lambda>_ _. []) None [] [] 0 ss s = Some (Inr rep)" ..
  with g(1) have "make_report 5 demo_status_kubernetes (\<lambda>_. Inr demo_response) (\<lambda>_. []) (\<lambda>_ _. []) ''mainnet''
       demo_pods None [] [] 0 None = Some (Inr (Some rep))"
    by (simp add: make_report_def startswith_def)
  from this queried_at_most_responding [OF this] show ?thesis by blast
qed

end
