(* ===== verification/Puppeteer.thy ===== *)
theory Puppeteer
  imports Py_Strings
begin

text \<open>
  The daemon puppeteer \<open>dockerfiles/puppeteer-context/mina_daemon_puppeteer.py\<close> as a step
  relation. A state has the place of the main thread in \<open>inactive_loop\<close> or \<open>active_loop\<close>, the
  two request flags the signal handlers set, the daemon process, the marker file
  \<open>daemon-active\<close> and whether the mock server is open. Steps of the program are \<open>prog\<close>; steps of
  the environment are \<open>env\<close>: the signals, which may come between any two program steps and end a
  \<open>signal.pause\<close> that is under way, and the end of the daemon.

  \<open>SIGUSR1\<close> is registered with the stop handler and \<open>SIGUSR2\<close> with the start handler. The
  handler of \<open>SIGCHLD\<close> reaps some dead child, which may be the daemon (then \<open>poll\<close> cannot learn its exit
  status any more and reports 0) or another one: the \<open>tail\<close> process, a \<open>ps\<close>, or an orphan the script
  adopted. When there is no child at all \<open>waitpid\<close> raises \<open>ChildProcessError\<close> wherever the main
  thread is (\<open>unwind\<close>). Starting the process and touching the marker are two steps, and so are
  removing the marker and forgetting the process. To stop the daemon the script asks \<open>ps\<close> for its children, waits for
  it and then for each of them; the processes \<open>kill\<close> finds are part of the state and change at
  any time, and what \<open>ps\<close> prints is any text. The log lines are left out. The mutual tail calls of the two loops are jumps here; the growth of
  the Python stack is not modelled.
\<close>

section \<open>States\<close>

text \<open>
  The places of \<open>inactive_loop\<close> are before its \<open>try\<close>, in it (from \<open>Opening\<close> to \<open>Leaving\<close>, \<open>Starting\<close> and
  \<open>Spawned\<close> being inside \<open>start_daemon\<close>), in its \<open>finally\<close> (\<open>Closing\<close>), in its handler (\<open>Failing\<close>) and in the
  \<open>finally\<close> with an exception under way. \<open>Stopping\<close> to \<open>Unlinked\<close> are inside \<open>stop_daemon\<close>.
\<close>

datatype place =
    Inactive_Start
  | Opening
  | Serving
  | Starting
  | Spawned
  | Launched
  | Leaving
  | Closing
  | Failing
  | Closing_On py_error
  | Active_Head
  | Paused
  | Awake
  | Stopping
  | Listing
  | Joining "int list"
  | Outliving "int list"
  | Unlinked
  | Stopped
  | Cleaning int
  | Exited int
  | Crashed py_error

datatype child = Running | Zombie int | Reaped

record puppet =
  place :: place
  active_daemon_request :: bool
  inactive_daemon_request :: bool
  mina_process :: "child option"
  other_children :: "child list"
  daemon_active :: bool
  server_open :: bool
  os_pids :: "int list"

text \<open>\<open>inactive_loop\<close> begins when the \<open>tail\<close> process has been started.\<close>

definition init_puppet :: puppet where
  "init_puppet =
     \<lparr>place = Inactive_Start, active_daemon_request = False, inactive_daemon_request = False,
      mina_process = None, other_children = [Running], daemon_active = False, server_open = False, os_pids = []\<rparr>"

text \<open>A handled signal ends a \<open>pause\<close>.\<close>

definition wake :: "puppet \<Rightarrow> puppet" where
  "wake s = (if place s = Paused then s\<lparr>place := Awake\<rparr> else s)"

definition alive :: "puppet \<Rightarrow> bool" where
  "alive s = (case place s of Exited _ \<Rightarrow> False | Crashed _ \<Rightarrow> False | _ \<Rightarrow> True)"

section \<open>The handlers\<close>

definition handle_start_request :: "puppet \<Rightarrow> puppet" where
  "handle_start_request s = wake (s\<lparr>active_daemon_request := True\<rparr>)"

definition handle_stop_request :: "puppet \<Rightarrow> puppet" where
  "handle_stop_request s = wake (s\<lparr>inactive_daemon_request := True\<rparr>)"

text \<open>
  The outcomes of \<open>os.waitpid(-1, os.WNOHANG)\<close>: any dead child may be the one it reaps, with only
  running children it does nothing, and without a child it raises.
\<close>

definition wait_any :: "puppet \<Rightarrow> puppet result list" where
  "wait_any s =
     (let daemon = (case mina_process s of
                      Some (Zombie status) \<Rightarrow> [s\<lparr>mina_process := Some Reaped\<rparr>]
                    | _ \<Rightarrow> []);
          others = map (\<lambda>i. s\<lparr>other_children := take i (other_children s) @ drop (Suc i) (other_children s)\<rparr>)
                     (filter (\<lambda>i. other_children s ! i \<noteq> Running) [0..<length (other_children s)])
      in if other_children s = [] \<and> (mina_process s = None \<or> mina_process s = Some Reaped)
         then [Inl (PyException ''ChildProcessError'')]
         else if daemon @ others = [] then [Inr s] else map Inr (daemon @ others))"

definition handle_child_termination :: "puppet \<Rightarrow> puppet result list" where
  "handle_child_termination s = map (map_sum id wake) (wait_any s)"

text \<open>
  An exception at a place: caught by the handler of \<open>inactive_loop\<close>, from that handler on to its
  \<open>finally\<close>, or to the end of the process, which closes the socket of the server with it.
\<close>

definition crash :: "py_error \<Rightarrow> puppet \<Rightarrow> puppet" where
  "crash e s = s\<lparr>server_open := False, place := Crashed e\<rparr>"

definition in_try :: "place \<Rightarrow> bool" where
  "in_try p = (p \<in> set [Opening, Serving, Starting, Spawned, Launched, Leaving])"

definition unwind :: "py_error \<Rightarrow> puppet \<Rightarrow> puppet" where
  "unwind e s =
     (if in_try (place s) then s\<lparr>place := Failing\<rparr>
      else if place s = Failing then s\<lparr>place := Closing_On e\<rparr>
      else crash e s)"

text \<open>\<open>mina_process.poll()\<close>: \<open>None\<close> while the process runs.\<close>

fun poll :: "child \<Rightarrow> int option" where
  "poll Running = None"
| "poll (Zombie status) = Some status"
| "poll Reaped = Some 0"

text \<open>
  An exception of the handler while \<open>handle_request\<close> answers a client is caught by the server class,
  which prints it and goes on.
\<close>

inductive env :: "puppet \<Rightarrow> puppet \<Rightarrow> bool" where
  sigusr1: "alive s \<Longrightarrow> env s (handle_stop_request s)"
| sigusr2: "alive s \<Longrightarrow> env s (handle_start_request s)"
| sigchld: "alive s \<Longrightarrow> Inr t \<in> set (handle_child_termination s) \<Longrightarrow> env s t"
| sigchld_raises: "alive s \<Longrightarrow> Inl e \<in> set (handle_child_termination s) \<Longrightarrow> env s (unwind e s)"
| sigchld_in_request: "place s = Serving \<Longrightarrow> Inl e \<in> set (handle_child_termination s) \<Longrightarrow> env s s"
| daemon_ends: "mina_process s = Some Running \<Longrightarrow> env s (s\<lparr>mina_process := Some (Zombie status)\<rparr>)"
| child_begins: "alive s \<Longrightarrow> env s (s\<lparr>other_children := Running # other_children s\<rparr>)"
| child_ends: "other_children s = xs @ Running # ys \<Longrightarrow> env s (s\<lparr>other_children := xs @ Zombie status # ys\<rparr>)"
| process_begins: "env s (s\<lparr>os_pids := pid # os_pids s\<rparr>)"
| process_ends: "env s (s\<lparr>os_pids := removeAll pid (os_pids s)\<rparr>)"

section \<open>The children of the daemon\<close>

text \<open>What \<open>ps -o pid= --ppid\<close> printed, split at single blanks\<close>

definition get_child_processes :: "string \<Rightarrow> int list result" where
  "get_child_processes output = mapM py_int (filter (\<lambda>s. s \<noteq> []) (split_on (CHR '' '') output))"

definition pid_is_running :: "puppet \<Rightarrow> int \<Rightarrow> bool" where
  "pid_is_running s pid = (pid \<in> set (os_pids s))"

section \<open>The two loops\<close>

text \<open>
  The two steps of \<open>start_daemon\<close> and the two at the end of \<open>stop_daemon\<close>.
\<close>

definition start_process :: "puppet \<Rightarrow> puppet" where
  "start_process s = s\<lparr>mina_process := Some Running\<rparr>"

definition touch_marker :: "puppet \<Rightarrow> puppet" where
  "touch_marker s = s\<lparr>daemon_active := True\<rparr>"

definition unlink_marker :: "puppet \<Rightarrow> puppet" where
  "unlink_marker s = s\<lparr>daemon_active := False\<rparr>"

definition forget_process :: "puppet \<Rightarrow> puppet" where
  "forget_process s = s\<lparr>mina_process := None\<rparr>"

text \<open>
  The handler of \<open>inactive_loop\<close> calls \<open>log(err)\<close>, which adds an exception to a string and so raises
  \<open>TypeError\<close> itself. \<open>send_signal\<close> raises \<open>ProcessLookupError\<close> when the process was reaped by the signal handler
  (before Python 3.10; later it does nothing then, so both are steps).
\<close>

inductive prog :: "puppet \<Rightarrow> puppet \<Rightarrow> bool" where
  begin_try:
    "place s = Inactive_Start \<Longrightarrow> prog s (s\<lparr>place := Opening\<rparr>)"
| open_server:
    "place s = Opening \<Longrightarrow> prog s (s\<lparr>server_open := True, place := Serving\<rparr>)"
| handle_request:
    "place s = Serving \<Longrightarrow> \<not> active_daemon_request s \<Longrightarrow> prog s s"
| launch:
    "place s = Serving \<Longrightarrow> active_daemon_request s \<Longrightarrow> prog s (s\<lparr>place := Starting\<rparr>)"
| spawn:
    "place s = Starting \<Longrightarrow> prog s ((start_process s)\<lparr>place := Spawned\<rparr>)"
| touch:
    "place s = Spawned \<Longrightarrow> prog s ((touch_marker s)\<lparr>place := Launched\<rparr>)"
| reset_start_request:
    "place s = Launched \<Longrightarrow> prog s (s\<lparr>active_daemon_request := False, place := Leaving\<rparr>)"
| break_loop:
    "place s = Leaving \<Longrightarrow> prog s (s\<lparr>place := Closing\<rparr>)"
| leave_inactive:
    "place s = Closing \<Longrightarrow> prog s (s\<lparr>server_open := False, place := Active_Head\<rparr>)"
| error_in_try:
    "in_try (place s) \<Longrightarrow> prog s (s\<lparr>place := Failing\<rparr>)"
| log_error:
    "place s = Failing \<Longrightarrow> prog s (s\<lparr>place := Closing_On TypeError\<rparr>)"
| close_and_raise:
    "place s = Closing_On e \<Longrightarrow> prog s (crash e s)"
| pause:
    "place s = Active_Head \<Longrightarrow> prog s (s\<lparr>place := Paused\<rparr>)"
| poll_nothing:
    "place s = Awake \<Longrightarrow> mina_process s = None \<Longrightarrow> prog s (crash AttributeError s)"
| cleanup:
    "place s = Awake \<Longrightarrow> mina_process s = Some d \<Longrightarrow> poll d = Some status \<Longrightarrow>
     prog s (s\<lparr>mina_process := Some Reaped, place := Cleaning status\<rparr>)"
| exit_script:
    "place s = Cleaning status \<Longrightarrow> prog s (s\<lparr>place := Exited status\<rparr>)"
| begin_stop:
    "place s = Awake \<Longrightarrow> mina_process s = Some d \<Longrightarrow> poll d = None \<Longrightarrow> inactive_daemon_request s \<Longrightarrow>
     prog s (s\<lparr>place := Stopping\<rparr>)"
| keep_active:
    "place s = Awake \<Longrightarrow> mina_process s = Some d \<Longrightarrow> poll d = None \<Longrightarrow> \<not> inactive_daemon_request s \<Longrightarrow>
     prog s (s\<lparr>place := Active_Head\<rparr>)"
| send_sigterm:
    "place s = Stopping \<Longrightarrow> prog s (s\<lparr>place := Listing\<rparr>)"
| signal_nothing:
    "place s = Stopping \<Longrightarrow> mina_process s = Some Reaped \<Longrightarrow>
     prog s (crash (PyException ''ProcessLookupError'') s)"
| list_children:
    "place s = Listing \<Longrightarrow> get_child_processes output = Inr child_pids \<Longrightarrow>
     prog s (s\<lparr>place := Joining child_pids\<rparr>)"
| list_error:
    "place s = Listing \<Longrightarrow> get_child_processes output = Inl e \<Longrightarrow> prog s (crash e s)"
| wait_daemon:
    "place s = Joining child_pids \<Longrightarrow> mina_process s = Some d \<Longrightarrow> d \<noteq> Running \<Longrightarrow>
     prog s (s\<lparr>mina_process := Some Reaped, place := Outliving child_pids\<rparr>)"
| wait_for_pid:
    "place s = Outliving (pid # child_pids) \<Longrightarrow> pid_is_running s pid \<Longrightarrow> prog s s"
| waited_for_pid:
    "place s = Outliving (pid # child_pids) \<Longrightarrow> \<not> pid_is_running s pid \<Longrightarrow>
     prog s (s\<lparr>place := Outliving child_pids\<rparr>)"
| unlink:
    "place s = Outliving [] \<Longrightarrow> daemon_active s \<Longrightarrow> prog s ((unlink_marker s)\<lparr>place := Unlinked\<rparr>)"
| unlink_nothing:
    "place s = Outliving [] \<Longrightarrow> \<not> daemon_active s \<Longrightarrow> prog s (crash (PyException ''FileNotFoundError'') s)"
| finish_stop:
    "place s = Unlinked \<Longrightarrow> prog s ((forget_process s)\<lparr>place := Stopped\<rparr>)"
| leave_active:
    "place s = Stopped \<Longrightarrow> prog s (s\<lparr>inactive_daemon_request := False, place := Inactive_Start\<rparr>)"

definition pstep :: "puppet \<Rightarrow> puppet \<Rightarrow> bool" where
  "pstep s t \<longleftrightarrow> prog s t \<or> env s t"

text \<open>The daemon is up and the program waits; \<open>stale\<close> is a stop request from before the start.\<close>

definition waiting :: "bool \<Rightarrow> puppet" where
  "waiting stale =
     \<lparr>place = Paused, active_daemon_request = False, inactive_daemon_request = stale,
      mina_process = Some Running, other_children = [Running], daemon_active = True, server_open = False,
      os_pids = []\<rparr>"

inductive_cases prog_waitingE: "prog (waiting stale) t"
inductive_cases prog_stepE: "prog s t"

section \<open>The program's start and its answers\<close>

text \<open>
  The line of an event, the answer of the mock server as the calls on the handler, the files made at
  the start and the command that shows them.
\<close>

definition SCRIPT_LOG_OUTPUT_FILENAME :: string where
  "SCRIPT_LOG_OUTPUT_FILENAME = ''mina_daemon_puppeteer.log''"

definition log_event :: "string \<Rightarrow> string \<Rightarrow> string" where
  "log_event puppeteer_event_type message =
     ''{\"puppeteer_script_event\": true, \"puppeteer_event_type\": \"'' @ puppeteer_event_type @
     ''\", \"message\":\"'' @ message @ ''\"}\<newline>''"

datatype response_call =
    Send_Response int
  | Send_Header string string
  | End_Headers
  | Write_Body string

definition do_GET :: "response_call list" where
  "do_GET =
     [Send_Response 200, Send_Header ''Content-Type'' ''text/html'', End_Headers,
      Write_Body (''<html><body>The daemon is currently offline.<br/><i>'' @
        ''This broadcast was brought to you by the puppeteer mock server</i></body></html>'')]"

definition tailed_files :: "string list" where
  "tailed_files =
     [''mina.log'', ''.mina-config/mina-prover.log'', ''.mina-config/mina-verifier.log'', ''.mina-config/mina-best-tip.log'']"

definition start_command :: "string list \<Rightarrow> string list" where
  "start_command daemon_args = ''mina'' # daemon_args"

datatype startup_call =
    Open_Log string
  | Handle_Signal string "puppet \<Rightarrow> puppet result list"
  | Make_Directory string
  | Touch_File string
  | Start_Process "string list"

definition puppeteer_main :: "startup_call list" where
  "puppeteer_main =
     [Open_Log SCRIPT_LOG_OUTPUT_FILENAME,
      Handle_Signal ''SIGCHLD'' handle_child_termination,
      Handle_Signal ''SIGUSR1'' (\<lambda>s. [Inr (handle_stop_request s)]),
      Handle_Signal ''SIGUSR2'' (\<lambda>s. [Inr (handle_start_request s)]),
      Make_Directory ''.mina-config''] @
     map Touch_File tailed_files @
     [Start_Process ([''tail'', ''-q''] @ concat (map (\<lambda>f. [''-f'', f]) (tailed_files @ [SCRIPT_LOG_OUTPUT_FILENAME])))]"

text \<open>The signals of the environment are the ones the start registers, with their handlers.\<close>

lemma registered_handlers:
  assumes "Handle_Signal sig h \<in> set puppeteer_main" and "alive s"
  shows "Inr t \<in> set (h s) \<Longrightarrow> env s t" and "Inl e \<in> set (h s) \<Longrightarrow> env s (unwind e s)"
  using assms by (auto simp: puppeteer_main_def intro: env.intros)

section \<open>The invariant\<close>

text \<open>
  The process object, the marker file and the server as each place has them. At a crash and on the
  way to it there may be an object without a marker, but no marker without an object; the exceptions that
  end the program are the \<open>TypeError\<close> of the error handler, a \<open>ValueError\<close> on the output of \<open>ps\<close>, and the
  errors of \<open>waitpid\<close> and \<open>send_signal\<close> without a process.
\<close>

definition crash_errors :: "py_error list" where
  "crash_errors = [TypeError, ValueError, PyException ''ChildProcessError'', PyException ''ProcessLookupError'']"

definition puppet_inv :: "puppet \<Rightarrow> bool" where
  "puppet_inv s =
     (case place s of
        Inactive_Start \<Rightarrow> mina_process s = None \<and> \<not> daemon_active s \<and> \<not> server_open s
      | Opening \<Rightarrow> mina_process s = None \<and> \<not> daemon_active s \<and> \<not> server_open s
      | Serving \<Rightarrow> mina_process s = None \<and> \<not> daemon_active s \<and> server_open s
      | Starting \<Rightarrow> mina_process s = None \<and> \<not> daemon_active s \<and> server_open s
      | Spawned \<Rightarrow> mina_process s \<noteq> None \<and> \<not> daemon_active s \<and> server_open s
      | Launched \<Rightarrow> mina_process s \<noteq> None \<and> daemon_active s \<and> server_open s
      | Leaving \<Rightarrow> mina_process s \<noteq> None \<and> daemon_active s \<and> server_open s
      | Closing \<Rightarrow> mina_process s \<noteq> None \<and> daemon_active s \<and> server_open s
      | Failing \<Rightarrow> (mina_process s = None \<longrightarrow> \<not> daemon_active s)
      | Closing_On e \<Rightarrow> (mina_process s = None \<longrightarrow> \<not> daemon_active s) \<and> e \<in> set crash_errors
      | Outliving _ \<Rightarrow> mina_process s = Some Reaped \<and> daemon_active s \<and> \<not> server_open s
      | Unlinked \<Rightarrow> mina_process s = Some Reaped \<and> \<not> daemon_active s \<and> \<not> server_open s
      | Stopped \<Rightarrow> mina_process s = None \<and> \<not> daemon_active s \<and> \<not> server_open s
      | Crashed e \<Rightarrow> (mina_process s = None \<longrightarrow> \<not> daemon_active s) \<and> \<not> server_open s \<and> e \<in> set crash_errors
      | _ \<Rightarrow> mina_process s \<noteq> None \<and> daemon_active s \<and> \<not> server_open s)"

lemma py_int_error: "py_int s = Inl e \<Longrightarrow> e = ValueError"
  by (auto simp: py_int_def Let_def split: if_splits)

lemma mapM_error: "mapM f xs = Inl e \<Longrightarrow> \<exists>x \<in> set xs. f x = Inl e"
  by (induction xs) (auto simp: rbind_eq_Inl)

lemma child_error: "get_child_processes output = Inl e \<Longrightarrow> e = ValueError"
  unfolding get_child_processes_def using mapM_error py_int_error by blast

text \<open>The handler of SIGCHLD changes no object but the children, and raises one exception only.\<close>

lemma wait_any_outcome:
  assumes "Inr t \<in> set (wait_any s)"
  shows "place t = place s" "daemon_active t = daemon_active s" "server_open t = server_open s"
    "mina_process t = None \<longleftrightarrow> mina_process s = None" "mina_process s = Some Reaped \<Longrightarrow> mina_process t = Some Reaped"
  using assms by (auto simp: wait_any_def Let_def split: if_splits option.splits child.splits)

lemma wait_any_error: "Inl e \<in> set (wait_any s) \<Longrightarrow> e = PyException ''ChildProcessError''"
  by (auto simp: wait_any_def Let_def split: if_splits option.splits child.splits)

lemma puppet_inv_same:
  assumes "puppet_inv s" and "place t = place s" "daemon_active t = daemon_active s" "server_open t = server_open s"
    and "mina_process t = None \<longleftrightarrow> mina_process s = None" "mina_process s = Some Reaped \<Longrightarrow> mina_process t = Some Reaped"
  shows "puppet_inv t"
  using assms by (auto simp: puppet_inv_def split: place.splits)

lemma wake_inv: "puppet_inv s \<Longrightarrow> puppet_inv (wake s)"
  by (auto simp: puppet_inv_def wake_def split: place.splits)

lemma unwind_inv:
  assumes "puppet_inv s" and "alive s" and "e \<in> set crash_errors"
  shows "puppet_inv (unwind e s)"
  using assms by (cases "place s") (auto simp: puppet_inv_def unwind_def in_try_def crash_def alive_def)

lemma env_inv:
  assumes "env s t" and ok: "puppet_inv s"
  shows "puppet_inv t"
  using assms(1)
proof cases
  case sigusr1
  have "puppet_inv (s\<lparr>inactive_daemon_request := True\<rparr>)" by (rule puppet_inv_same [OF ok]) simp_all
  then show ?thesis unfolding sigusr1 handle_stop_request_def by (rule wake_inv)
next
  case sigusr2
  have "puppet_inv (s\<lparr>active_daemon_request := True\<rparr>)" by (rule puppet_inv_same [OF ok]) simp_all
  then show ?thesis unfolding sigusr2 handle_start_request_def by (rule wake_inv)
next
  case sigchld
  from sigchld(2) obtain x where x: "x \<in> set (wait_any s)" "Inr t = map_sum id wake x"
    by (auto simp: handle_child_termination_def)
  from x(2) obtain u where "x = Inr u" "t = wake u" by (cases x) simp_all
  with x(1) show ?thesis
    using wake_inv [OF puppet_inv_same [OF ok wait_any_outcome [of u s]]] by simp
next
  case (sigchld_raises e)
  from sigchld_raises(3) obtain x where x: "x \<in> set (wait_any s)" "Inl e = map_sum id wake x"
    by (auto simp: handle_child_termination_def)
  from x(2) have "x = Inl e" by (cases x) simp_all
  with x(1) have "Inl e \<in> set (wait_any s)" by simp
  with unwind_inv [OF ok sigchld_raises(2)] show ?thesis
    unfolding sigchld_raises(1) by (auto simp: crash_errors_def dest: wait_any_error)
next
  case (daemon_ends status)
  with ok show ?thesis by (auto simp: puppet_inv_def split: place.splits)
qed (use ok in \<open>auto intro: puppet_inv_same [OF ok]\<close>)

lemma prog_inv:
  assumes "prog s t" and "puppet_inv s"
  shows "puppet_inv t"
  using assms
  by cases (auto simp: puppet_inv_def start_process_def touch_marker_def unlink_marker_def forget_process_def
      crash_def in_try_def crash_errors_def dest: child_error)

interpretation puppeteer: guarded_machine pstep "\<lambda>s. s = init_puppet" puppet_inv
proof
  show "puppet_inv s" if "s = init_puppet" for s
    using that by (simp add: puppet_inv_def init_puppet_def)
  show "puppet_inv t" if "pstep s t" "puppet_inv s" for s t
    using that env_inv prog_inv by (auto simp: pstep_def)
qed

text \<open>
  C26. In every reachable state, whatever signals arrive and whenever: where the marker
  file daemon-active exists the script holds a process object, running or ended; it holds one
  without the marker only between the start of the process and the touch, between the
  removal of the marker and the reset, or when an exception got it there. While the mock
  server waits for requests there is neither marker nor process, while the script pauses
  there are both and no server. A missing process is never polled and a missing marker never removed; the
  exceptions that can end the script are the four of the model. A process is only started when the
  script holds none, and the marker is only removed once the process has ended.
\<close>

theorem puppeteer_never_loses_daemon:
  assumes "pstep\<^sup>*\<^sup>* init_puppet s"
  shows "(daemon_active s \<longrightarrow> mina_process s \<noteq> None) \<and>
    (mina_process s \<noteq> None \<and> \<not> daemon_active s \<longrightarrow>
       place s \<in> {Spawned, Unlinked, Failing} \<or> (\<exists>e. place s = Closing_On e \<or> place s = Crashed e)) \<and>
    (place s = Serving \<longrightarrow> server_open s \<and> mina_process s = None \<and> \<not> daemon_active s) \<and>
    (place s = Paused \<longrightarrow> \<not> server_open s \<and> mina_process s \<noteq> None \<and> daemon_active s) \<and>
    (\<forall>e. place s = Crashed e \<longrightarrow>
       e \<in> {TypeError, ValueError, PyException ''ChildProcessError'', PyException ''ProcessLookupError''}) \<and>
    (\<forall>t. prog s t \<and> place t = Spawned \<longrightarrow> mina_process s = None) \<and>
    (\<forall>t. prog s t \<and> daemon_active s \<and> \<not> daemon_active t \<longrightarrow> mina_process s = Some Reaped)"
proof -
  from puppeteer.inv_reachable [OF refl assms] have i: "puppet_inv s" .
  note steps = start_process_def touch_marker_def unlink_marker_def forget_process_def crash_def
  have 1: "mina_process s = Some Reaped" if "prog s t" "daemon_active s" "\<not> daemon_active t" for t
    using that i by (auto simp: puppet_inv_def steps elim!: prog_stepE)
  have 2: "mina_process s = None" if "prog s t" "place t = Spawned" for t
    using that i by (auto simp: puppet_inv_def steps elim!: prog_stepE)
  have 3: "daemon_active s \<longrightarrow> mina_process s \<noteq> None"
    and 4: "mina_process s \<noteq> None \<and> \<not> daemon_active s \<longrightarrow>
       place s \<in> {Spawned, Unlinked, Failing} \<or> (\<exists>e. place s = Closing_On e \<or> place s = Crashed e)"
    using i by (auto simp: puppet_inv_def split: place.splits)
  have 5: "\<forall>e. place s = Crashed e \<longrightarrow>
       e \<in> {TypeError, ValueError, PyException ''ChildProcessError'', PyException ''ProcessLookupError''}"
    using i by (auto simp: puppet_inv_def crash_errors_def)
  have 6: "place s = Serving \<longrightarrow> server_open s \<and> mina_process s = None \<and> \<not> daemon_active s"
    and 7: "place s = Paused \<longrightarrow> \<not> server_open s \<and> mina_process s \<noteq> None \<and> daemon_active s"
    using i by (auto simp: puppet_inv_def)
  show ?thesis using 1 2 3 4 5 6 7 by blast
qed

section \<open>Requests that are kept too long, and wakeups that are lost\<close>

lemma prog_step: "prog s t \<Longrightarrow> pstep\<^sup>*\<^sup>* t u \<Longrightarrow> pstep\<^sup>*\<^sup>* s u"
  using converse_rtranclp_into_rtranclp [of pstep s t u] by (simp add: pstep_def)

lemma env_step: "env s t \<Longrightarrow> pstep\<^sup>*\<^sup>* t u \<Longrightarrow> pstep\<^sup>*\<^sup>* s u"
  using converse_rtranclp_into_rtranclp [of pstep s t u] by (simp add: pstep_def)

lemma open_serving: "pstep\<^sup>*\<^sup>* init_puppet (init_puppet\<lparr>server_open := True, place := Serving\<rparr>)"
proof -
  define a where "a = init_puppet\<lparr>place := Opening\<rparr>"
  have 1: "prog init_puppet a" unfolding a_def by (rule prog.begin_try) (simp add: init_puppet_def)
  have 2: "prog a (a\<lparr>server_open := True, place := Serving\<rparr>)" by (rule prog.open_server) (simp add: a_def)
  have "pstep\<^sup>*\<^sup>* init_puppet (a\<lparr>server_open := True, place := Serving\<rparr>)"
    by (rule prog_step [OF 1 prog_step [OF 2]]) simp
  then show ?thesis by (simp add: a_def)
qed

text \<open>From the mock server, with or without an early stop request, to the waiting daemon.\<close>

lemma serving_to_waiting:
  assumes "place s = Serving" "server_open s" "mina_process s = None" "\<not> daemon_active s"
    "inactive_daemon_request s = stale" "os_pids s = []" "other_children s = [Running]"
  shows "pstep\<^sup>*\<^sup>* (s\<lparr>active_daemon_request := True\<rparr>) (waiting stale)"
proof -
  define a where "a = s\<lparr>active_daemon_request := True\<rparr>"
  define b where "b = a\<lparr>place := Starting\<rparr>"
  define c where "c = (start_process b)\<lparr>place := Spawned\<rparr>"
  define d where "d = (touch_marker c)\<lparr>place := Launched\<rparr>"
  define e where "e = d\<lparr>active_daemon_request := False, place := Leaving\<rparr>"
  define f where "f = e\<lparr>place := Closing\<rparr>"
  define g where "g = f\<lparr>server_open := False, place := Active_Head\<rparr>"
  have 1: "prog a b" unfolding b_def by (rule prog.launch) (simp_all add: a_def assms(1))
  have 2: "prog b c" unfolding c_def by (rule prog.spawn) (simp add: b_def)
  have 3: "prog c d" unfolding d_def by (rule prog.touch) (simp add: c_def)
  have 4: "prog d e" unfolding e_def by (rule prog.reset_start_request) (simp add: d_def)
  have 5: "prog e f" unfolding f_def by (rule prog.break_loop) (simp add: e_def)
  have 6: "prog f g" unfolding g_def by (rule prog.leave_inactive) (simp add: f_def)
  have 7: "prog g (g\<lparr>place := Paused\<rparr>)" by (rule prog.pause) (simp add: g_def)
  have "g\<lparr>place := Paused\<rparr> = waiting stale"
    using assms(5-7)
    by (simp add: g_def f_def e_def d_def c_def b_def a_def start_process_def touch_marker_def waiting_def)
  then show ?thesis unfolding a_def [symmetric]
    using prog_step [OF 1 prog_step [OF 2 prog_step [OF 3 prog_step [OF 4 prog_step [OF 5 prog_step [OF 6 prog_step [OF 7]]]]]]]
    by simp
qed

lemma waiting_reachable: "pstep\<^sup>*\<^sup>* init_puppet (waiting stale)"
proof -
  define s where "s = init_puppet\<lparr>server_open := True, place := Serving\<rparr>"
  define t where "t = (if stale then handle_stop_request s else s)"
  have f: "place t = Serving" "server_open t" "mina_process t = None" "\<not> daemon_active t"
    "inactive_daemon_request t = stale" "os_pids t = []" "other_children t = [Running]"
    by (simp_all add: t_def s_def init_puppet_def handle_stop_request_def wake_def)
  have "pstep\<^sup>*\<^sup>* s t"
  proof (cases stale)
    case True
    have "env s (handle_stop_request s)" by (rule env.sigusr1) (simp add: alive_def s_def)
    with True show ?thesis by (auto simp: t_def pstep_def)
  qed (simp add: t_def)
  moreover have "env t (t\<lparr>active_daemon_request := True\<rparr>)"
    using env.sigusr2 [of t] f(1) by (simp add: alive_def handle_start_request_def wake_def)
  ultimately have "pstep\<^sup>*\<^sup>* s (waiting stale)"
    using serving_to_waiting [OF f] by (meson env_step rtranclp_trans)
  then show ?thesis unfolding s_def using open_serving by (rule rtranclp_trans [rotated])
qed

text \<open>Once the children are gone the stop is completed without any further event.\<close>

definition stop_end :: "puppet \<Rightarrow> puppet" where
  "stop_end s = (forget_process (unlink_marker s))\<lparr>inactive_daemon_request := False, place := Inactive_Start\<rparr>"

lemma outlive_children:
  assumes "place s = Outliving child_pids" and "\<And>pid. pid \<in> set child_pids \<Longrightarrow> \<not> pid_is_running s pid"
    and "daemon_active s"
  shows "prog\<^sup>*\<^sup>* s (stop_end s)"
  using assms
proof (induction child_pids arbitrary: s)
  case Nil
  define a where "a = (unlink_marker s)\<lparr>place := Unlinked\<rparr>"
  define b where "b = (forget_process a)\<lparr>place := Stopped\<rparr>"
  have "prog s a" unfolding a_def by (rule prog.unlink [OF Nil(1,3)])
  moreover have "prog a b" unfolding b_def by (rule prog.finish_stop) (simp add: a_def)
  moreover have "prog b (b\<lparr>inactive_daemon_request := False, place := Inactive_Start\<rparr>)"
    by (rule prog.leave_active) (simp add: b_def)
  moreover have "b\<lparr>inactive_daemon_request := False, place := Inactive_Start\<rparr> = stop_end s"
    by (simp add: b_def a_def stop_end_def unlink_marker_def forget_process_def)
  ultimately show ?case by (metis converse_rtranclp_into_rtranclp rtranclp.rtrancl_refl)
next
  case (Cons pid child_pids)
  have "prog s (s\<lparr>place := Outliving child_pids\<rparr>)"
    using Cons.prems(1) Cons.prems(2) [of pid] by (intro prog.waited_for_pid) simp_all
  moreover have "prog\<^sup>*\<^sup>* (s\<lparr>place := Outliving child_pids\<rparr>) (stop_end s)"
    using Cons.IH [of "s\<lparr>place := Outliving child_pids\<rparr>"] Cons.prems
    by (simp add: pid_is_running_def stop_end_def unlink_marker_def forget_process_def)
  ultimately show ?case by (rule converse_rtranclp_into_rtranclp)
qed

text \<open>A child that never goes away keeps the script where it is.\<close>

lemma waits_for_child:
  assumes "prog s t" and "place s = Outliving (pid # child_pids)" and "pid_is_running s pid"
  shows "t = s"
  using assms by (auto simp: in_try_def elim!: prog_stepE)

text \<open>
  A stop request that arrives while no daemon runs is kept: the state in which the
  daemon runs with the old request pending is reachable, and there the next signal, even
  a start request, makes the program send SIGTERM to the running daemon without any
  further event, and the daemon can be gone in the end.
\<close>

theorem stale_stop_request_stops_daemon:
  "pstep\<^sup>*\<^sup>* init_puppet (waiting True) \<and>
   env (waiting True) (handle_start_request (waiting True)) \<and>
   (\<exists>s. prog\<^sup>*\<^sup>* (handle_start_request (waiting True)) s \<and> place s = Listing \<and> mina_process s = Some Running \<and>
      (\<exists>t. pstep\<^sup>*\<^sup>* s t \<and> place t = Inactive_Start \<and> mina_process t = None))"
proof -
  define a where "a = handle_start_request (waiting True)"
  define b where "b = a\<lparr>place := Stopping\<rparr>"
  define c where "c = b\<lparr>place := Listing\<rparr>"
  define d where "d = c\<lparr>place := Joining []\<rparr>"
  define e where "e = d\<lparr>mina_process := Some (Zombie 0)\<rparr>"
  define f where "f = e\<lparr>mina_process := Some Reaped, place := Outliving []\<rparr>"
  define g where "g = stop_end f"
  have a: "place a = Awake" "mina_process a = Some Running" "inactive_daemon_request a" "daemon_active a"
    by (simp_all add: a_def handle_start_request_def wake_def waiting_def)
  have "prog a b" unfolding b_def using a by (intro prog.begin_stop [where d = Running]) simp_all
  moreover have "prog b c" unfolding c_def by (rule prog.send_sigterm) (simp add: b_def)
  ultimately have s: "prog\<^sup>*\<^sup>* a c" by (meson converse_rtranclp_into_rtranclp rtranclp.rtrancl_refl)
  have "get_child_processes [] = Inr []" by (simp add: get_child_processes_def)
  then have 1: "prog c d" unfolding d_def by (intro prog.list_children) (simp_all add: c_def)
  have 2: "env d e" unfolding e_def by (rule env.daemon_ends) (simp add: d_def c_def b_def a)
  have 3: "prog e f" unfolding f_def by (rule prog.wait_daemon [where d = "Zombie 0"]) (simp_all add: e_def d_def)
  have "prog\<^sup>*\<^sup>* f g" unfolding g_def by (rule outlive_children [of _ "[]"]) (simp_all add: f_def e_def d_def c_def b_def a)
  then have 4: "pstep\<^sup>*\<^sup>* f g" by (rule rtranclp_mono [THEN predicate2D, rotated]) (auto simp: pstep_def)
  have "pstep\<^sup>*\<^sup>* c g" by (rule prog_step [OF 1 env_step [OF 2 prog_step [OF 3 4]]])
  moreover have "place g = Inactive_Start \<and> mina_process g = None" by (simp add: g_def stop_end_def forget_process_def)
  moreover have "env (waiting True) a" unfolding a_def by (rule env.sigusr2) (simp add: alive_def waiting_def)
  moreover have "place c = Listing \<and> mina_process c = Some Running" by (simp add: c_def b_def a)
  ultimately show ?thesis using waiting_reachable s unfolding a_def by blast
qed

section \<open>Reading the children\<close>

lemma py_rstrip_newline: "py_rstrip (s @ ''\<newline>'') = py_rstrip s"
proof -
  have "is_space (CHR ''\<newline>'')" by code_simp
  then show ?thesis by (simp add: py_rstrip_def)
qed

lemma str_nat_char:
  assumes "c \<in> set (str_nat n)"
  shows "\<not> is_space c" and "c \<noteq> CHR '' ''" and "is_digit c" and "c \<noteq> CHR ''-''" and "c \<noteq> CHR ''+''"
proof -
  from str_nat_digits [OF assms] obtain d where d: "d < 10" "c = digit_char d" by auto
  with digit_char_props [of d] show "\<not> is_space c" "is_digit c" "c \<noteq> CHR ''-''" "c \<noteq> CHR ''+''" by simp_all
  moreover have "is_space (CHR '' '')" by code_simp
  ultimately show "c \<noteq> CHR '' ''" by auto
qed

lemma str_nat_lead: "dropWhile is_space (str_nat n @ s) = str_nat n @ s"
  by (cases "str_nat n") (use str_nat_char(1) [of "hd (str_nat n)" n] in auto)

lemma py_int_line: "py_int (str_nat n @ ''\<newline>'') = Inr (int n)"
proof -
  have "py_strip (str_nat n @ ''\<newline>'') = py_strip (str_nat n)"
    using str_nat_lead [of n "[]"] by (simp add: py_strip_def str_nat_lead py_rstrip_newline)
  then have "py_int (str_nat n @ ''\<newline>'') = py_int (str_nat n)" by (simp add: py_int_def)
  then show ?thesis by simp
qed

text \<open>A line of \<open>ps\<close>: the number, padded with blanks in front.\<close>

definition ps_line :: "nat \<times> nat \<Rightarrow> string" where
  "ps_line kn = replicate (fst kn) (CHR '' '') @ str_nat (snd kn) @ ''\<newline>''"

lemma split_blanks:
  "filter (\<lambda>s. s \<noteq> []) (split_on c (replicate k c @ s)) = filter (\<lambda>s. s \<noteq> []) (split_on c s)"
  by (induction k) simp_all

text \<open>The children are read right when every line but the first has a blank in front.\<close>

lemma children_read:
  assumes "list_all (\<lambda>kn. 0 < fst kn) (tl lines)"
  shows "get_child_processes (concat (map ps_line lines)) = Inr (map (int \<circ> snd) lines)"
proof -
  have words: "filter (\<lambda>s. s \<noteq> []) (split_on (CHR '' '') (concat (map ps_line lines))) =
      map (\<lambda>kn. str_nat (snd kn) @ ''\<newline>'') lines"
    using assms
  proof (induction lines)
    case (Cons kn lines)
    obtain k n where kn: "kn = (k, n)" by (cases kn)
    have free: "CHR '' '' \<notin> set (str_nat n @ ''\<newline>'')" using str_nat_char(2) by auto
    have "filter (\<lambda>s. s \<noteq> []) (split_on (CHR '' '') ((str_nat n @ ''\<newline>'') @ concat (map ps_line lines))) =
        (str_nat n @ ''\<newline>'') # filter (\<lambda>s. s \<noteq> []) (split_on (CHR '' '') (concat (map ps_line lines)))"
    proof (cases lines)
      case Nil
      with free show ?thesis by (simp add: split_on_no_sep)
    next
      case (Cons jm rest)
      with Cons.prems obtain j m where "jm = (Suc j, m)" by (cases jm; cases "fst jm") auto
      then have "concat (map ps_line lines) = CHR '' '' # replicate j (CHR '' '') @ str_nat m @ ''\<newline>'' @ concat (map ps_line rest)"
        using Cons by (simp add: ps_line_def)
      with split_on_append_sep [OF free] show ?thesis by simp
    qed
    moreover have "list_all (\<lambda>kn. 0 < fst kn) (tl lines)" using Cons.prems by (cases lines) simp_all
    moreover have "ps_line kn = replicate k (CHR '' '') @ str_nat n @ ''\<newline>''" by (simp add: ps_line_def kn)
    ultimately show ?case using Cons.IH by (simp add: kn split_blanks)
  qed simp
  have "mapM py_int (map (\<lambda>kn. str_nat (snd kn) @ ''\<newline>'') lines) = Inr (map (int \<circ> snd) lines)"
    by (induction lines) (simp_all add: py_int_line)
  then show ?thesis by (simp add: get_child_processes_def words)
qed

text \<open>Two numbers that fill the column are one word, which is no number.\<close>

lemma wide_pids_raise:
  "get_child_processes (ps_line (0, m) @ ps_line (0, n)) = Inl ValueError"
proof -
  define s where "s = str_nat m @ ''\<newline>'' @ str_nat n"
  have free: "CHR '' '' \<notin> set (s @ ''\<newline>'')" using str_nat_char(2) by (auto simp: s_def)
  have r: "py_rstrip s = s"
    using str_nat_char(1) [of "last (str_nat n)" n] by (cases "str_nat n" rule: rev_cases) (simp_all add: s_def py_rstrip_def)
  have "py_strip (s @ ''\<newline>'') = s"
    using str_nat_lead [of m "''\<newline>'' @ str_nat n"] r str_nat_lead [of m "''\<newline>'' @ str_nat n @ ''\<newline>''"]
    by (simp add: py_strip_def s_def py_rstrip_newline [of "str_nat m @ ''\<newline>'' @ str_nat n", simplified])
  moreover have "\<not> startswith s ''-''" "\<not> startswith s ''+''"
    using str_nat_char(4,5) [of "hd (str_nat m)" m] by (cases "str_nat m"; auto simp: startswith_def s_def)+
  moreover have "\<not> list_all is_digit s"
  proof -
    have "\<not> is_digit (CHR ''\<newline>'')" by code_simp
    then show ?thesis by (simp add: s_def)
  qed
  ultimately have "py_int (s @ ''\<newline>'') = Inl ValueError" by (simp add: py_int_def Let_def)
  then show ?thesis
    using split_on_no_sep [OF free] by (simp add: get_child_processes_def ps_line_def s_def)
qed

text \<open>
  A daemon with two children whose numbers fill the column of ps makes the stop request end
  the script by an exception, with the daemon signalled and the marker file left behind.
\<close>

theorem wide_pids_end_script:
  "\<exists>s. pstep\<^sup>*\<^sup>* init_puppet s \<and> place s = Crashed ValueError \<and> daemon_active s \<and> mina_process s = Some Running"
proof -
  define a where "a = handle_start_request (waiting True)"
  define b where "b = a\<lparr>place := Stopping\<rparr>"
  define c where "c = b\<lparr>place := Listing\<rparr>"
  define d where "d = crash ValueError c"
  have a: "place a = Awake" "mina_process a = Some Running" "inactive_daemon_request a" "daemon_active a"
    by (simp_all add: a_def handle_start_request_def wake_def waiting_def)
  have 1: "env (waiting True) a" unfolding a_def by (rule env.sigusr2) (simp add: alive_def waiting_def)
  have 2: "prog a b" unfolding b_def using a by (intro prog.begin_stop [where d = Running]) simp_all
  have 3: "prog b c" unfolding c_def by (rule prog.send_sigterm) (simp add: b_def)
  have 4: "prog c d" unfolding d_def
    by (rule prog.list_error [OF _ wide_pids_raise [of 1234567 1234568]]) (simp add: c_def)
  have "pstep\<^sup>*\<^sup>* (waiting True) d" by (rule env_step [OF 1 prog_step [OF 2 prog_step [OF 3 prog_step [OF 4]]]]) simp
  with waiting_reachable have "pstep\<^sup>*\<^sup>* init_puppet d" by (meson rtranclp_trans)
  then show ?thesis using a by (intro exI [of _ d]) (simp add: d_def c_def b_def crash_def)
qed

text \<open>
  A stop request that arrives after the check and before signal.pause is not acted
  upon: the program then sleeps with the request pending and no step of its own is
  possible until another signal comes.
\<close>

theorem stop_request_before_pause_is_ignored:
  "\<exists>s. pstep\<^sup>*\<^sup>* init_puppet s \<and> place s = Active_Head \<and>
     prog (handle_stop_request s) (waiting True) \<and> (\<nexists>t. prog (waiting True) t)"
proof -
  define s where "s = (waiting False)\<lparr>place := Active_Head\<rparr>"
  have "pstep\<^sup>*\<^sup>* init_puppet s"
  proof -
    have "env (waiting False) ((waiting False)\<lparr>place := Awake\<rparr>)"
      by (rule env.sigchld) (simp_all add: alive_def waiting_def handle_child_termination_def wait_any_def wake_def)
    moreover have "prog ((waiting False)\<lparr>place := Awake\<rparr>) s"
      using prog.keep_active [of "(waiting False)\<lparr>place := Awake\<rparr>" Running]
      by (simp add: waiting_def s_def)
    ultimately have "pstep\<^sup>*\<^sup>* (waiting False) s" by (meson env_step prog_step rtranclp.rtrancl_refl)
    then show ?thesis using waiting_reachable by (meson rtranclp_trans)
  qed
  moreover have "prog (handle_stop_request s) (waiting True)"
    using prog.pause [of "handle_stop_request s"]
    by (simp add: s_def handle_stop_request_def wake_def waiting_def)
  moreover have "\<not> prog (waiting True) t" for t
    by (auto simp: waiting_def in_try_def elim!: prog_waitingE [unfolded waiting_def])
  ultimately show ?thesis unfolding s_def by (intro exI [of _ s]) (simp add: s_def)
qed

theorem puppeteer_never_loses_daemon_witness:
  "place (waiting True) = Paused \<and> \<not> server_open (waiting True) \<and>
   mina_process (waiting True) \<noteq> None \<and> daemon_active (waiting True)"
  using puppeteer_never_loses_daemon [OF waiting_reachable [of True]] by (simp add: waiting_def)

end
