(* ===== verification/ScanStateSize.thy ===== *)
theory ScanStateSize
  imports Py_Prelude
begin

text \<open>
  The memory estimate of the scan state, \<open>rfcs/res/scan_state_memory_usage.py\<close>: sizes in bytes
  and the numbers of branches and leaves as functions of the depth \<open>M\<close>, the number of trees
  \<open>T\<close> and the delay \<open>D\<close>. \<open>M\<close> is a natural number (for a negative one Python's power is a
  float), the rest are integers.
\<close>

definition Word :: int where "Word = 8"

definition Nonce :: int where "Nonce = 4"

definition Amount :: int where "Amount = 8"

definition Fee :: int where "Fee = 8"

definition Memo :: int where "Memo = 8"

definition TxnProofType :: int where "TxnProofType = 8"

definition LedgerDepth :: int where "LedgerDepth = 30"

definition FieldSize :: int where "FieldSize = 95"

definition Hash :: int where "Hash = FieldSize"

definition GroupSize :: int where "GroupSize = 3 * FieldSize"

definition Pk :: int where "Pk = FieldSize"

definition Sig :: int where "Sig = 2 * FieldSize"

definition Proof :: int where "Proof = 5 * GroupSize"

definition Sok :: int where "Sok = Fee + Pk"

definition Account :: int where "Account = 2 * Pk + Amount + Nonce + Hash"

definition Txn :: int where "Txn = 2 * Pk + Sig + 2 * Amount + Memo + Nonce"

definition Undo :: int where "Undo = 2 * Hash + 2 * Pk + Txn"

definition TxnStatement :: int where "TxnStatement = 4 * Hash + Amount + Fee + TxnProofType"

definition TxnWitness :: int where "TxnWitness = 2 * (2 * LedgerDepth * Hash + Account)"

definition Base :: int where "Base = Undo + TxnStatement + TxnWitness"

definition Merge :: int where "Merge = TxnStatement + Proof + Sok"

definition FullLeaf :: int where "FullLeaf = Base + 5 * Word"

definition EmptyLeaf :: int where "EmptyLeaf = 3 * Word"

definition FullBranch :: int where "FullBranch = 2 * Merge + 7 * Word"

definition EmptyBranch :: int where "EmptyBranch = 5 * Word"

definition NumberOfBranches :: "nat \<Rightarrow> int \<Rightarrow> int" where
  "NumberOfBranches M T = T * (2 ^ M - 1)"

definition NumberOfFullBranches :: "nat \<Rightarrow> int \<Rightarrow> int \<Rightarrow> int" where
  "NumberOfFullBranches M T D =
     foldl (\<lambda>acc i. foldl (\<lambda>acc j. acc + 2 ^ (M - j) * (D + 1)) acc [1 ..< i + 1]) 0 [1 ..< M + 1]"

definition NumberOfEmptyBranches :: "nat \<Rightarrow> int \<Rightarrow> int \<Rightarrow> int" where
  "NumberOfEmptyBranches M T D = NumberOfBranches M T - NumberOfFullBranches M T D"

definition NumberOfFullLeaves :: "nat \<Rightarrow> int \<Rightarrow> int" where
  "NumberOfFullLeaves M T = (T - 1) * 2 ^ M"

definition NumberOfEmptyLeaves :: "nat \<Rightarrow> int" where
  "NumberOfEmptyLeaves M = 2 ^ M"

definition ScanState :: "nat \<Rightarrow> int \<Rightarrow> int \<Rightarrow> int" where
  "ScanState M T D =
     T * ((2 ^ M - 1) * Word) + NumberOfFullBranches M T D * FullBranch +
     NumberOfEmptyBranches M T D * EmptyBranch + NumberOfFullLeaves M T * FullLeaf +
     NumberOfEmptyLeaves M * EmptyLeaf"

text \<open>The number of trees the script computes from its two arguments.\<close>

definition trees :: "nat \<Rightarrow> int \<Rightarrow> int" where
  "trees M D = (int M + 1) * (D + 1) + 1"

section \<open>Closed forms\<close>

lemmas sizes = Word_def Nonce_def Amount_def Fee_def Memo_def TxnProofType_def LedgerDepth_def
  FieldSize_def Hash_def GroupSize_def Pk_def Sig_def Proof_def Sok_def Account_def Txn_def Undo_def
  TxnStatement_def TxnWitness_def Base_def Merge_def FullLeaf_def EmptyLeaf_def FullBranch_def
  EmptyBranch_def

lemma leaf_sizes:
  "Txn = 408" "Undo = 788" "TxnWitness = 11994" "Base = 13186" "FullLeaf = 13226" "FullBranch = 3920"
  by (simp_all add: sizes)

lemma inner_loop:
  "i \<le> M \<Longrightarrow> foldl (\<lambda>acc j. acc + 2 ^ (M - j) * (D + 1)) a [1 ..< i + 1] =
     a + (2 ^ M - 2 ^ (M - i)) * (D + 1 :: int)"
proof (induction i)
  case (Suc i)
  then have "M - i = Suc (M - Suc i)" by simp
  then have "2 ^ (M - i) = 2 * (2 :: int) ^ (M - Suc i)" by simp
  with Suc show ?case by (simp add: algebra_simps)
qed simp

lemma outer_loop:
  "k \<le> M \<Longrightarrow>
   foldl (\<lambda>acc i. foldl (\<lambda>acc j. acc + 2 ^ (M - j) * (D + 1)) acc [1 ..< i + 1]) 0 [1 ..< k + 1] =
     (int k * 2 ^ M - (2 ^ M - 2 ^ (M - k))) * (D + 1)"
proof (induction k)
  case (Suc k)
  define f where "f = (\<lambda>acc i. foldl (\<lambda>acc j. acc + 2 ^ (M - j) * (D + 1)) acc [1 ..< i + 1])"
  have "M - k = Suc (M - Suc k)" using Suc.prems by simp
  then have p: "2 ^ (M - k) = 2 * (2 :: int) ^ (M - Suc k)" by simp
  have "[1 ..< Suc k + 1] = [1 ..< k + 1] @ [Suc k]" by simp
  then have "foldl f 0 [1 ..< Suc k + 1] = f (foldl f 0 [1 ..< k + 1]) (Suc k)"
    by (simp only: foldl_append foldl.simps)
  also have "\<dots> = foldl f 0 [1 ..< k + 1] + (2 ^ M - 2 ^ (M - Suc k)) * (D + 1)"
    unfolding f_def by (rule inner_loop) (rule Suc.prems)
  also have "foldl f 0 [1 ..< k + 1] = (int k * 2 ^ M - (2 ^ M - 2 ^ (M - k))) * (D + 1)"
    unfolding f_def using Suc by simp
  finally show ?case unfolding f_def p by (simp add: algebra_simps)
qed simp

lemma full_branches: "NumberOfFullBranches M T D = ((int M - 1) * 2 ^ M + 1) * (D + 1)"
  using outer_loop [of M M D] by (simp add: NumberOfFullBranches_def algebra_simps)

lemma empty_branches:
  "NumberOfEmptyBranches M (trees M D) D = (2 ^ (M + 1) - int M - 2) * (D + 1) + 2 ^ M - 1"
  by (simp add: NumberOfEmptyBranches_def NumberOfBranches_def full_branches trees_def algebra_simps)

lemma power_bound: "int M + 2 \<le> 2 ^ (M + 1)"
  by (induction M) auto

text \<open>
  C28. The double loop of NumberOfFullBranches equals the closed form ((M - 1) 2^M + 1)
  (D + 1); with the number of trees the script computes, the number of empty branches
  has a closed form too and is never negative for a delay D of at least 0.
\<close>

theorem branch_counts:
  "NumberOfFullBranches M T D = ((int M - 1) * 2 ^ M + 1) * (D + 1) \<and>
   NumberOfEmptyBranches M (trees M D) D = (2 ^ (M + 1) - int M - 2) * (D + 1) + 2 ^ M - 1 \<and>
   0 \<le> NumberOfEmptyBranches M (trees M (int d)) (int d)"
proof -
  have "0 \<le> (2 ^ (M + 1) - int M - 2) * (int d + 1)"
    using power_bound [of M] by (intro mult_nonneg_nonneg) auto
  moreover have "(1 :: int) \<le> 2 ^ M" by simp
  ultimately have "0 \<le> NumberOfEmptyBranches M (trees M (int d)) (int d)"
    unfolding empty_branches by linarith
  then show ?thesis using full_branches empty_branches by blast
qed

end
