(* ===== verification/VersionedItems.thy ===== *)
theory VersionedItems
  imports Py_Effects
begin

text \<open>
  The comparison of versioned OCaml items: \<open>scripts/compare_versioned_items.py\<close> with its callers
  \<open>compare_binables.py\<close> and \<open>compare_versioned_types.py\<close>, and the pull request drivers
  \<open>compare_pr_diff_items.py\<close>, \<open>compare_pr_diff_binables.py\<close> and \<open>compare_pr_diff_types.py\<close>.
  The programs that print the items of a file, and the comparison scripts as the drivers run
  them, are arguments; a file is its list of lines. Removing an old items file is left
  out.
\<close>

section \<open>Items\<close>

text \<open>\<open>line.split(':', 1)\<close>\<close>

definition split_once :: "char \<Rightarrow> string \<Rightarrow> string list" where
  "split_once c s =
     (case dropWhile (\<lambda>x. x \<noteq> c) s of [] \<Rightarrow> [s] | _ # rest \<Rightarrow> [takeWhile (\<lambda>x. x \<noteq> c) s, rest])"

definition item_of_line :: "string \<Rightarrow> (string \<times> string) result" where
  "item_of_line line =
     (let fields = split_once (CHR '':'') (strip_chars [CHR '' '', CHR ''\<newline>''] line) in
      rbind (py_get fields 1) (\<lambda>item. rbind (py_get fields 0) (\<lambda>path. Inr (path, item))))"

fun create_dict_loop :: "(string, string) dict \<Rightarrow> string list \<Rightarrow> (string, string) dict result" where
  "create_dict_loop items [] = Inr items"
| "create_dict_loop items (line # rest) =
     rbind (item_of_line line) (\<lambda>(path, item). create_dict_loop (AList.update path item items) rest)"

definition create_dict :: "string list \<Rightarrow> (string, string) dict result" where
  "create_dict file_lines = create_dict_loop [] file_lines"

section \<open>Comparison\<close>

text \<open>The printed lines and the exit code are the state.\<close>

definition report_change ::
    "string \<Rightarrow> string \<Rightarrow> string \<Rightarrow> string \<Rightarrow> string \<Rightarrow> string list \<times> int \<Rightarrow> string list \<times> int" where
  "report_change item_kind fn path orig now s =
     (fst s @ [''In file: '' @ fn,
               ''  '' @ item_kind @ '' changed at module path: '' @ path,
               ''  Was: '' @ orig,
               ''  Now: '' @ now], 1)"

definition compare_one ::
    "string \<Rightarrow> string \<Rightarrow> (string, string) dict \<Rightarrow> string \<times> string \<Rightarrow> (string list \<times> int, unit) eff" where
  "compare_one item_kind fn items_mod po =
     (case map_of items_mod (fst po) of
        None \<Rightarrow> eret ()
      | Some now \<Rightarrow>
          if now = snd po then eret ()
          else emodify (report_change item_kind fn (fst po) (snd po) now))"

definition compare_items ::
    "string \<Rightarrow> string \<Rightarrow> string list \<Rightarrow> string list \<Rightarrow> (string list \<times> int, unit) eff" where
  "compare_items item_kind fn original modified =
     ebind (elift (create_dict original)) (\<lambda>items_orig.
     ebind (elift (create_dict modified)) (\<lambda>items_mod.
     efor items_orig (compare_one item_kind fn items_mod)))"

text \<open>The lines a printer wrote, or \<open>CalledProcessError\<close> when its exit status is not 0.\<close>

definition create_items_file :: "(string \<Rightarrow> int \<times> string list) \<Rightarrow> string \<Rightarrow> string list result" where
  "create_items_file printer ocaml =
     (case printer ocaml of
        (status, out) \<Rightarrow> if status = 0 then Inr out else Inl (PyException ''CalledProcessError''))"

definition run_comparison ::
    "(string \<Rightarrow> int \<times> string list) \<Rightarrow> string \<Rightarrow> string \<Rightarrow> string \<Rightarrow> (string list \<times> int, unit) eff" where
  "run_comparison printer item_kind original modified =
     ebind (elift (create_items_file printer original)) (\<lambda>orig_items.
     ebind (elift (create_items_file printer modified)) (\<lambda>mod_items.
     eseq (compare_items item_kind modified orig_items mod_items)
    (ebind (eget snd) (\<lambda>exit_code. eraise (SystemExit exit_code)))))"

text \<open>The two command line programs: \<open>argv\<close> with the program name first.\<close>

definition compare_main ::
    "(string \<Rightarrow> int \<times> string list) \<Rightarrow> string \<Rightarrow> string list \<Rightarrow> (string list \<times> int, unit) eff" where
  "compare_main printer item_kind argv =
     (case argv of
        [_, a, b] \<Rightarrow> if a = b then eraise (SystemExit 1) else run_comparison printer item_kind a b
      | _ \<Rightarrow> eraise (SystemExit 1))"

definition compare_binables ::
    "(string \<Rightarrow> int \<times> string list) \<Rightarrow> string list \<Rightarrow> (string list \<times> int, unit) eff" where
  "compare_binables printer argv = compare_main printer ''Binable functors'' argv"

definition compare_versioned_types ::
    "(string \<Rightarrow> int \<times> string list) \<Rightarrow> string list \<Rightarrow> (string list \<times> int, unit) eff" where
  "compare_versioned_types printer argv = compare_main printer ''Versioned types'' argv"

section \<open>Pull requests\<close>

text \<open>
  The loop over the changed files: \<open>exists\<close> tells which paths exist, \<open>compare\<close> the exit status of
  the comparison script on two files. The result is the final exit code.
\<close>

definition pr_step ::
    "(string \<Rightarrow> bool) \<Rightarrow> (string \<Rightarrow> string \<Rightarrow> int) \<Rightarrow> int \<Rightarrow> string \<Rightarrow> int" where
  "pr_step path_exists compare exit_code diff =
     (if \<not> endswith (basename diff) ''.ml'' then exit_code
      else let orig = ''base/mina/'' @ diff in
        if \<not> (path_exists orig \<and> path_exists diff) then exit_code
        else if compare orig diff = 0 then exit_code else 1)"

definition run_pr_comparison ::
    "(string \<Rightarrow> bool) \<Rightarrow> (string \<Rightarrow> string \<Rightarrow> int) \<Rightarrow> string \<Rightarrow> int" where
  "run_pr_comparison path_exists compare diffs_decoded =
     foldl (pr_step path_exists compare) 0 (split_on (CHR ''\<newline>'') diffs_decoded)"

text \<open>
  The whole driver: the calls on the file system and the commands it runs, and the status it ends with.
  \<open>git_diff\<close> is the output of \<open>git diff\<close> against a branch or its error, \<open>script\<close> the exit status of a comparison
  script on its two arguments. A checkout that fails is not noticed; the
  error of entering a directory that a failing clone did not make is left out.
\<close>

datatype pr_call =
    Remove_Tree string
  | Make_Dir string
  | Change_Dir string
  | Run_Command "string list"

definition base_copy :: "(string \<Rightarrow> bool) \<Rightarrow> string \<Rightarrow> string \<Rightarrow> pr_call list" where
  "base_copy path_exists cwd base_commit =
     (if path_exists ''base'' then [Remove_Tree ''base''] else []) @
     [Make_Dir ''base'', Change_Dir ''base'',
      Run_Command [''git'', ''clone'', ''https://github.com/MinaProtocol/mina.git''],
      Change_Dir ''mina'', Run_Command [''git'', ''checkout'', base_commit], Change_Dir cwd]"

definition compared :: "(string \<Rightarrow> bool) \<Rightarrow> string \<Rightarrow> bool" where
  "compared path_exists diff \<longleftrightarrow>
     endswith (basename diff) ''.ml'' \<and> path_exists (''base/mina/'' @ diff) \<and> path_exists diff"

definition pr_comparisons :: "(string \<Rightarrow> bool) \<Rightarrow> string \<Rightarrow> string \<Rightarrow> pr_call list" where
  "pr_comparisons path_exists compare_script diffs_decoded =
     map (\<lambda>diff. Run_Command [''./scripts/'' @ compare_script, ''base/mina/'' @ diff, diff])
       (filter (compared path_exists) (split_on (CHR ''\<newline>'') diffs_decoded))"

definition pr_diff_main ::
    "(string \<Rightarrow> bool) \<Rightarrow> string \<Rightarrow> (string \<Rightarrow> string result) \<Rightarrow> (string \<Rightarrow> string \<Rightarrow> string \<Rightarrow> int) \<Rightarrow> string \<Rightarrow> string list \<Rightarrow>
     (pr_call list, unit) eff" where
  "pr_diff_main path_exists cwd git_diff script compare_script argv =
     (case argv of
        [_, base_commit] \<Rightarrow>
          eseq (emodify (\<lambda>cs. cs @ base_copy path_exists cwd base_commit @
                  [Run_Command [''git'', ''diff'', ''--name-only'', ''origin/'' @ base_commit]]))
         (ebind (elift (git_diff base_commit)) (\<lambda>diffs_decoded.
          eseq (emodify (\<lambda>cs. cs @ pr_comparisons path_exists compare_script diffs_decoded))
            (eraise (SystemExit (run_pr_comparison path_exists (script compare_script) diffs_decoded)))))
      | _ \<Rightarrow> eraise (SystemExit 1))"

definition compare_pr_diff_binables ::
    "(string \<Rightarrow> bool) \<Rightarrow> string \<Rightarrow> (string \<Rightarrow> string result) \<Rightarrow> (string \<Rightarrow> string \<Rightarrow> string \<Rightarrow> int) \<Rightarrow> string list \<Rightarrow>
     (pr_call list, unit) eff" where
  "compare_pr_diff_binables path_exists cwd git_diff script = pr_diff_main path_exists cwd git_diff script ''compare_binables.py''"

definition compare_pr_diff_types ::
    "(string \<Rightarrow> bool) \<Rightarrow> string \<Rightarrow> (string \<Rightarrow> string result) \<Rightarrow> (string \<Rightarrow> string \<Rightarrow> string \<Rightarrow> int) \<Rightarrow> string list \<Rightarrow>
     (pr_call list, unit) eff" where
  "compare_pr_diff_types path_exists cwd git_diff script =
     pr_diff_main path_exists cwd git_diff script ''compare_versioned_types.py''"

text \<open>
  The status is 1 exactly when one of the comparisons that are run fails, and 0 otherwise.
\<close>

lemma pr_exit:
  "foldl (pr_step path_exists compare) c ds =
     (if list_ex (\<lambda>diff. compare (''base/mina/'' @ diff) diff \<noteq> 0) (filter (compared path_exists) ds) then 1 else c)"
  by (induction ds arbitrary: c) (auto simp: pr_step_def compared_def Let_def)

theorem pr_comparison_outcome:
  assumes "git_diff base_commit = Inr diffs_decoded"
  shows "fst (pr_diff_main path_exists cwd git_diff script compare_script [prog, base_commit] cs) =
     Inl (SystemExit (if \<exists>orig diff. Run_Command [''./scripts/'' @ compare_script, orig, diff] \<in>
           set (pr_comparisons path_exists compare_script diffs_decoded) \<and>
           script compare_script orig diff \<noteq> 0 then 1 else 0))"
proof -
  have "(\<exists>orig diff. Run_Command [''./scripts/'' @ compare_script, orig, diff] \<in>
           set (pr_comparisons path_exists compare_script diffs_decoded) \<and>
           script compare_script orig diff \<noteq> 0) \<longleftrightarrow>
      list_ex (\<lambda>diff. script compare_script (''base/mina/'' @ diff) diff \<noteq> 0)
        (filter (compared path_exists) (split_on (CHR ''\<newline>'') diffs_decoded))"
    by (auto simp: pr_comparisons_def list_ex_iff)
  then show ?thesis
    using assms by (simp add: pr_diff_main_def run_pr_comparison_def pr_exit eseq_def ebind_def)
qed

section \<open>Specification\<close>

text \<open>
  A line \<open>path:item\<close>, with blanks and newlines around it: the path is what stands before the first
  colon. An item of a file is that of the last line with the path.
\<close>

definition blanks :: "char set" where
  "blanks = {CHR '' '', CHR ''\<newline>''}"

definition line_gives :: "string \<Rightarrow> string \<Rightarrow> string \<Rightarrow> bool" where
  "line_gives line path item \<longleftrightarrow>
     (\<exists>u v. line = u @ path @ '':'' @ item @ v \<and> set u \<subseteq> blanks \<and> set v \<subseteq> blanks \<and>
        CHR '':'' \<notin> set path \<and> (path = [] \<or> hd path \<notin> blanks) \<and> (item = [] \<or> last item \<notin> blanks))"

definition file_gives :: "string list \<Rightarrow> string \<Rightarrow> string \<Rightarrow> bool" where
  "file_gives file_lines path item \<longleftrightarrow>
     (\<exists>before line after. file_lines = before @ line # after \<and> line_gives line path item \<and>
        \<not> (\<exists>l\<in>set after. \<exists>i. line_gives l path i))"

definition item_changed :: "string list \<Rightarrow> string list \<Rightarrow> string \<Rightarrow> bool" where
  "item_changed original modified path \<longleftrightarrow>
     (\<exists>a b. file_gives original path a \<and> file_gives modified path b \<and> a \<noteq> b)"

text \<open>The line as the code reads it\<close>

lemma strip_parts:
  "\<exists>u v. l = u @ strip_chars cs l @ v \<and> set u \<subseteq> set cs \<and> set v \<subseteq> set cs"
proof -
  let ?d = "dropWhile (\<lambda>c. c \<in> set cs) l" and ?P = "\<lambda>c. c \<in> set cs"
  have "?d = strip_chars cs l @ rev (takeWhile ?P (rev ?d))"
    unfolding strip_chars_def rstrip_chars_def by (metis rev_append rev_rev_ident takeWhile_dropWhile_id)
  then have "l = takeWhile ?P l @ strip_chars cs l @ rev (takeWhile ?P (rev ?d))" by (metis takeWhile_dropWhile_id)
  moreover have "set (takeWhile ?P l) \<subseteq> set cs" "set (rev (takeWhile ?P (rev ?d))) \<subseteq> set cs"
    by (auto dest: set_takeWhileD)
  ultimately show ?thesis by blast
qed

lemma strip_ends:
  "strip_chars cs l \<noteq> [] \<Longrightarrow> hd (strip_chars cs l) \<notin> set cs \<and> last (strip_chars cs l) \<notin> set cs"
proof -
  let ?P = "\<lambda>c. c \<in> set cs"
  let ?d = "dropWhile ?P l"
  assume n: "strip_chars cs l \<noteq> []"
  have "last (strip_chars cs l) = hd (dropWhile ?P (rev ?d))"
    using n by (simp add: strip_chars_def rstrip_chars_def last_rev)
  moreover have "dropWhile ?P (rev ?d) \<noteq> []" using n by (simp add: strip_chars_def rstrip_chars_def)
  ultimately have 1: "last (strip_chars cs l) \<notin> set cs" by (metis hd_dropWhile)
  have "?d = strip_chars cs l @ rev (takeWhile ?P (rev ?d))"
    unfolding strip_chars_def rstrip_chars_def by (metis rev_append rev_rev_ident takeWhile_dropWhile_id)
  then have "hd (strip_chars cs l) = hd ?d" "?d \<noteq> []" using n by (metis hd_append2, metis append_is_Nil_conv)
  then have "hd (strip_chars cs l) \<notin> set cs" by (metis hd_dropWhile)
  with 1 show ?thesis by blast
qed

lemma strip_unique:
  assumes "l = u @ b @ v" "set u \<subseteq> set cs" "set v \<subseteq> set cs" "b \<noteq> []" "hd b \<notin> set cs" "last b \<notin> set cs"
  shows "strip_chars cs l = b"
proof -
  let ?P = "\<lambda>c. c \<in> set cs"
  have stop: "dropWhile ?P xs = xs" if "xs \<noteq> []" "hd xs \<notin> set cs" for xs using that by (cases xs) auto
  have "dropWhile ?P l = b @ v"
    using assms stop [of "b @ v"] by (simp add: dropWhile_append2 subset_iff)
  moreover have "dropWhile ?P (rev v @ rev b) = dropWhile ?P (rev b)"
    using assms(3) by (intro dropWhile_append2) auto
  moreover have "dropWhile ?P (rev b) = rev b" using assms(4,6) by (intro stop) (simp_all add: hd_rev)
  ultimately show ?thesis by (simp add: strip_chars_def rstrip_chars_def)
qed

lemma split_once_first: "c \<notin> set a \<Longrightarrow> split_once c (a @ c # b) = [a, b]"
proof -
  assume "c \<notin> set a"
  then have "dropWhile (\<lambda>x. x \<noteq> c) (a @ c # b) = c # b" "takeWhile (\<lambda>x. x \<noteq> c) (a @ c # b) = a"
    by (induction a) auto
  then show ?thesis by (simp add: split_once_def)
qed

lemma blanks_set: "blanks = set [CHR '' '', CHR ''\<newline>'']"
  by (auto simp: blanks_def)

lemma item_of_line_gives: "line_gives l path item \<longleftrightarrow> item_of_line l = Inr (path, item)"
proof
  assume "line_gives l path item"
  then obtain u v where l: "l = u @ (path @ '':'' @ item) @ v" "set u \<subseteq> blanks" "set v \<subseteq> blanks"
    "CHR '':'' \<notin> set path" "path = [] \<or> hd path \<notin> blanks" "item = [] \<or> last item \<notin> blanks"
    unfolding line_gives_def by auto
  have colon: "CHR '':'' \<notin> blanks" by (simp add: blanks_def)
  have "strip_chars [CHR '' '', CHR ''\<newline>''] l = path @ '':'' @ item"
    using l colon unfolding blanks_set by (intro strip_unique [OF l(1)]) (auto simp: hd_append)
  with l(4) show "item_of_line l = Inr (path, item)"
    by (simp add: item_of_line_def split_once_first py_get_def)
next
  define b where "b = strip_chars [CHR '' '', CHR ''\<newline>''] l"
  assume "item_of_line l = Inr (path, item)"
  then have f: "rbind (py_get (split_once (CHR '':'') b) 1) (\<lambda>i. rbind (py_get (split_once (CHR '':'') b) 0) (\<lambda>p. Inr (p, i))) =
      Inr (path, item)" by (simp only: item_of_line_def b_def Let_def)
  have "CHR '':'' \<in> set b"
  proof (rule ccontr)
    assume "CHR '':'' \<notin> set b"
    then have "dropWhile (\<lambda>x. x \<noteq> CHR '':'') b = []" by (simp add: dropWhile_eq_Nil_conv) metis
    with f show False by (simp add: split_once_def py_get_def)
  qed
  then obtain x y where xy: "b = x @ CHR '':'' # y" "CHR '':'' \<notin> set x" by (meson split_list_first)
  with f have "x = path" "y = item" by (simp_all add: split_once_first py_get_def)
  with xy have b: "b = path @ '':'' @ item" "CHR '':'' \<notin> set path" by simp_all
  have "hd b \<notin> blanks" "last b \<notin> blanks" using strip_ends [of "[CHR '' '', CHR ''\<newline>'']" l] b
    unfolding blanks_set b_def [symmetric] by simp_all
  then have "path = [] \<or> hd path \<notin> blanks" "item = [] \<or> last item \<notin> blanks" using b(1) by (auto simp: hd_append)
  moreover obtain u v where "l = u @ b @ v" "set u \<subseteq> blanks" "set v \<subseteq> blanks"
    using strip_parts [of l "[CHR '' '', CHR ''\<newline>'']"] unfolding blanks_set b_def by blast
  ultimately show "line_gives l path item" unfolding line_gives_def using b by (intro exI [of _ u] exI [of _ v]) simp
qed

lemma item_of_line_returns: "returns (item_of_line l) \<longleftrightarrow> CHR '':'' \<in> set l"
proof
  assume "returns (item_of_line l)"
  then obtain p i where "item_of_line l = Inr (p, i)" by (cases "item_of_line l") (auto simp: returns_def)
  then have "line_gives l p i" by (simp add: item_of_line_gives)
  then show "CHR '':'' \<in> set l" by (auto simp: line_gives_def)
next
  define b where "b = strip_chars [CHR '' '', CHR ''\<newline>''] l"
  assume "CHR '':'' \<in> set l"
  moreover obtain u v where "l = u @ b @ v" "set u \<subseteq> blanks" "set v \<subseteq> blanks"
    using strip_parts [of l "[CHR '' '', CHR ''\<newline>'']"] unfolding blanks_set b_def by blast
  moreover have "CHR '':'' \<notin> blanks" by (simp add: blanks_def)
  ultimately have "CHR '':'' \<in> set b" by auto
  then obtain x y where "b = x @ CHR '':'' # y" "CHR '':'' \<notin> set x" by (meson split_list_first)
  then have "item_of_line l = Inr (x, y)" unfolding item_of_line_def b_def [symmetric]
    by (simp add: split_once_first py_get_def)
  then show "returns (item_of_line l)" by (simp add: returns_def)
qed

text \<open>The dictionary of the code\<close>

definition item_at :: "string list \<Rightarrow> string \<Rightarrow> string option" where
  "item_at file_lines path =
     map_of (rev (map (\<lambda>l. case item_of_line l of Inl _ \<Rightarrow> ([], []) | Inr kv \<Rightarrow> kv) file_lines)) path"

definition well_formed :: "string list \<Rightarrow> bool" where
  "well_formed file_lines = list_all (\<lambda>l. returns (item_of_line l)) file_lines"

lemma file_gives_snoc:
  "file_gives (ls @ [l]) path i \<longleftrightarrow>
     (if \<exists>j. line_gives l path j then line_gives l path i else file_gives ls path i)"
proof -
  have "file_gives (ls @ [l]) path i \<longleftrightarrow> line_gives l path i \<or> (file_gives ls path i \<and> \<not> (\<exists>j. line_gives l path j))"
    (is "?L \<longleftrightarrow> ?R")
  proof
    assume ?L
    then obtain xs x ys where *: "ls @ [l] = xs @ x # ys" "line_gives x path i" "\<not> (\<exists>k\<in>set ys. \<exists>j. line_gives k path j)"
      unfolding file_gives_def by blast
    show ?R
    proof (cases ys rule: rev_cases)
      case Nil
      with * show ?thesis by simp
    next
      case (snoc zs z)
      with * show ?thesis unfolding file_gives_def by auto
    qed
  next
    assume ?R
    then show ?L
    proof
      assume "line_gives l path i"
      then show ?L unfolding file_gives_def by (intro exI [of _ ls] exI [of _ l] exI [of _ "[]"]) simp
    next
      assume r: "file_gives ls path i \<and> \<not> (\<exists>j. line_gives l path j)"
      then obtain xs x ys where "ls = xs @ x # ys" "line_gives x path i" "\<not> (\<exists>k\<in>set ys. \<exists>j. line_gives k path j)"
        unfolding file_gives_def by blast
      with r show ?L unfolding file_gives_def by (intro exI [of _ xs] exI [of _ x] exI [of _ "ys @ [l]"]) auto
    qed
  qed
  moreover have "line_gives l path i \<Longrightarrow> line_gives l path j \<Longrightarrow> i = j" for j by (simp add: item_of_line_gives)
  ultimately show ?thesis by auto
qed

lemma item_at_gives: "well_formed ls \<Longrightarrow> item_at ls path = Some i \<longleftrightarrow> file_gives ls path i"
proof (induction ls arbitrary: i rule: rev_induct)
  case Nil
  then show ?case by (simp add: item_at_def file_gives_def)
next
  case (snoc l ls)
  then obtain p j where l: "item_of_line l = Inr (p, j)"
    by (cases "item_of_line l") (auto simp: well_formed_def returns_def)
  have wf: "well_formed ls" using snoc.prems by (simp add: well_formed_def)
  have "item_at (ls @ [l]) path = (if path = p then Some j else item_at ls path)"
    by (simp add: item_at_def l)
  then show ?case using snoc.IH [OF wf, of i] by (auto simp: file_gives_snoc item_of_line_gives l)
qed

definition differs :: "(string, string) dict \<Rightarrow> string \<times> string \<Rightarrow> bool" where
  "differs items_mod po =
     (case map_of items_mod (fst po) of None \<Rightarrow> False | Some now \<Rightarrow> now \<noteq> snd po)"

lemma item_of_line_error: "item_of_line l = Inl e \<Longrightarrow> e = IndexError"
  by (auto simp: item_of_line_def Let_def rbind_eq_Inl py_get_def split_once_def
      split: if_splits list.splits)

lemma create_dict_loop_spec:
  "create_dict_loop items ls =
     (if well_formed ls
      then Inr (foldl (\<lambda>acc (k, v). AList.update k v acc) items
             (map (\<lambda>l. case item_of_line l of Inl _ \<Rightarrow> ([], []) | Inr kv \<Rightarrow> kv) ls))
      else Inl IndexError)"
proof (induction ls arbitrary: items)
  case (Cons l ls)
  show ?case
  proof (cases "item_of_line l")
    case (Inl e)
    with item_of_line_error [OF Inl] show ?thesis by (simp add: well_formed_def)
  next
    case (Inr kv)
    with Cons show ?thesis by (cases kv) (simp add: well_formed_def)
  qed
qed (simp add: well_formed_def)

lemma create_dict_lookup:
  assumes "create_dict ls = Inr d"
  shows "map_of d path = item_at ls path" and "dict_wf d" and "well_formed ls"
proof -
  have d: "well_formed ls" "d = foldl (\<lambda>acc (k, v). AList.update k v acc) []
      (map (\<lambda>l. case item_of_line l of Inl _ \<Rightarrow> ([], []) | Inr kv \<Rightarrow> kv) ls)"
    using assms by (auto simp: create_dict_def create_dict_loop_spec split: if_splits)
  show "map_of d path = item_at ls path"
    unfolding d(2) pydict.overwrite_loop item_at_def by (simp split: option.split)
  show "dict_wf d" unfolding d(2) by (rule pydict.wfd_loop) simp
  show "well_formed ls" by (rule d(1))
qed

text \<open>The loop over the items, whose exit code is set by any difference.\<close>

lemma compare_one_run:
  "fst (compare_one kind fn items_mod po s) = Inr ()"
  "snd (snd (compare_one kind fn items_mod po s)) = (if differs items_mod po then 1 else snd s)"
  by (auto simp: compare_one_def differs_def report_change_def split: option.split)

lemma compare_loop:
  "fst (efor items (compare_one kind fn items_mod) s) = Inr () \<and>
   snd (snd (efor items (compare_one kind fn items_mod) s)) =
     (if list_ex (differs items_mod) items then 1 else snd s)"
proof (induction items arbitrary: s)
  case (Cons po items)
  obtain r u where c: "compare_one kind fn items_mod po s = (r, u)"
    by (cases "compare_one kind fn items_mod po s")
  with compare_one_run [of kind fn items_mod po s]
  have "r = Inr ()" "snd u = (if differs items_mod po then 1 else snd s)" by simp_all
  with c Cons.IH [of u] show ?case by (simp add: eseq_def ebind_def)
qed simp

lemma differs_changed:
  assumes "create_dict orig_lines = Inr d" and "create_dict mod_lines = Inr d'"
  shows "list_ex (differs d') d \<longleftrightarrow> (\<exists>path. item_changed orig_lines mod_lines path)"
proof -
  have "item_changed orig_lines mod_lines p \<longleftrightarrow> (\<exists>v. map_of d p = Some v \<and> differs d' (p, v))" for p
    unfolding item_changed_def item_at_gives [OF create_dict_lookup(3) [OF assms(1)], symmetric]
      item_at_gives [OF create_dict_lookup(3) [OF assms(2)], symmetric]
      create_dict_lookup(1) [OF assms(1), symmetric] create_dict_lookup(1) [OF assms(2), symmetric]
    by (auto simp: differs_def split: option.splits)
  moreover have "list_ex (differs d') d \<longleftrightarrow> (\<exists>p v. map_of d p = Some v \<and> differs d' (p, v))"
    using create_dict_lookup(2) [OF assms(1)] by (auto simp: list_ex_iff)
  ultimately show ?thesis by blast
qed

lemma well_formed_colons: "well_formed ls \<longleftrightarrow> \<not> list_ex (\<lambda>l. CHR '':'' \<notin> set l) ls"
  by (auto simp: well_formed_def item_of_line_returns list_all_iff list_ex_iff)

text \<open>
  C27. When the printer succeeds on both files, the comparison raises IndexError exactly
  when a printed line has no colon; otherwise it exits with status 1 exactly when some
  module path has an item in both files and the two items differ, and with 0 when there is
  none. The path of a line is what stands before its first colon, the item all that
  follows it, without the blanks at the ends of the line; the last line with a path counts.
\<close>

theorem comparison_exit_status:
  assumes "printer original = (0, orig_lines)" and "printer modified = (0, mod_lines)"
  shows "fst (run_comparison printer kind original modified ([], 0)) =
    (if list_ex (\<lambda>l. CHR '':'' \<notin> set l) (orig_lines @ mod_lines) then Inl IndexError
     else Inl (SystemExit (if \<exists>path a b. file_gives orig_lines path a \<and> file_gives mod_lines path b \<and> a \<noteq> b
       then 1 else 0)))"
proof (cases "well_formed orig_lines \<and> well_formed mod_lines")
  case False
  then have "list_ex (\<lambda>l. CHR '':'' \<notin> set l) (orig_lines @ mod_lines)" by (auto simp: well_formed_colons)
  with False show ?thesis
    using assms by (auto simp: run_comparison_def create_items_file_def compare_items_def ebind_def
        eseq_def create_dict_def create_dict_loop_spec)
next
  case True
  then obtain d d' where d: "create_dict orig_lines = Inr d" "create_dict mod_lines = Inr d'"
    by (auto simp: create_dict_def create_dict_loop_spec)
  obtain r u where l: "efor d (compare_one kind modified d') ([], 0) = (r, u)"
    by (cases "efor d (compare_one kind modified d') ([], 0)")
  with compare_loop [of d kind modified d' "([], 0)"] differs_changed [OF d]
  have "r = Inr ()" "snd u = (if \<exists>path. item_changed orig_lines mod_lines path then 1 else 0)" by simp_all
  moreover have "\<not> list_ex (\<lambda>l. CHR '':'' \<notin> set l) (orig_lines @ mod_lines)" using True by (simp add: well_formed_colons)
  ultimately show ?thesis using l assms d
    by (simp add: run_comparison_def create_items_file_def compare_items_def ebind_def eseq_def
        item_changed_def [abs_def])
qed

theorem comparison_exit_status_witness:
  "fst (run_comparison (\<lambda>f. (0, if f = ''a.ml'' then [''M.t:int''] else [''M.t:string:x'', ''N.t:int'']))
     ''Versioned types'' ''a.ml'' ''b.ml'' ([], 0)) = Inl (SystemExit 1)"
proof -
  have w: "well_formed [''M.t:int'']" "well_formed [''M.t:string:x'', ''N.t:int'']"
    "item_at [''M.t:int''] ''M.t'' = Some ''int''" "item_at [''M.t:string:x'', ''N.t:int''] ''M.t'' = Some ''string:x''"
    "\<not> list_ex (\<lambda>l. CHR '':'' \<notin> set l) ([''M.t:int''] @ [''M.t:string:x'', ''N.t:int''])" by code_simp+
  have "file_gives [''M.t:int''] ''M.t'' ''int'' \<and> file_gives [''M.t:string:x'', ''N.t:int''] ''M.t'' ''string:x''"
    using w item_at_gives [OF w(1)] item_at_gives [OF w(2)] by blast
  then have "\<exists>path a b. file_gives [''M.t:int''] path a \<and> file_gives [''M.t:string:x'', ''N.t:int''] path b \<and> a \<noteq> b"
    by (intro exI [of _ "''M.t''"] exI [of _ "''int''"] exI [of _ "''string:x''"]) simp
  with w(5) comparison_exit_status [of "\<lambda>f. (0, if f = ''a.ml'' then [''M.t:int''] else [''M.t:string:x'', ''N.t:int''])"
      "''a.ml''" "[''M.t:int'']" "''b.ml''" "[''M.t:string:x'', ''N.t:int'']" "''Versioned types''"]
  show ?thesis by (simp only: if_False if_True) simp
qed

end
