(* ===== verification/Py_Json.thy ===== *)
theory Py_Json
  imports Py_Effects
begin

text \<open>
  The Python values \<open>json.loads\<close> produces and what the scripts do with them: reading an item,
  iterating, using a value as a dictionary key, arithmetic on a number and the text
  \<open>str\<close> gives. Numbers are integers; the scripts read no fractional ones. Every operation
  raises what Python raises when the value has another type, so a malformed answer of a node is
  an ordinary input of the model. A \<open>dict\<close> is an association list in insertion order.
\<close>

datatype json =
    JNull
  | JBool bool
  | JInt int
  | JStr string
  | JList "json list"
  | JDict "(string \<times> json) list"

text \<open>\<open>v[k]\<close> with a string \<open>k\<close>\<close>

fun json_item :: "json \<Rightarrow> string \<Rightarrow> json result" where
  "json_item (JDict kvs) k = (case map_of kvs k of None \<Rightarrow> Inl (KeyError k) | Some v \<Rightarrow> Inr v)"
| "json_item _ k = Inl TypeError"

text \<open>\<open>v[i]\<close> with an integer\<close>

fun json_index :: "json \<Rightarrow> int \<Rightarrow> json result" where
  "json_index (JList xs) i = py_get xs i"
| "json_index (JStr s) i = rbind (py_get s i) (\<lambda>c. Inr (JStr [c]))"
| "json_index (JDict kvs) i = Inl (KeyError (str_int i))"
| "json_index _ i = Inl TypeError"

text \<open>\<open>v[k1][k2]\<dots>[kn]\<close>\<close>

definition json_path :: "json \<Rightarrow> string list \<Rightarrow> json result" where
  "json_path v ks = foldl (\<lambda>r k. rbind r (\<lambda>w. json_item w k)) (Inr v) ks"

text \<open>\<open>for x in v\<close>: a dictionary gives its keys, a string its characters.\<close>

fun json_iter :: "json \<Rightarrow> json list result" where
  "json_iter (JList xs) = Inr xs"
| "json_iter (JDict kvs) = Inr (map (\<lambda>kv. JStr (fst kv)) kvs)"
| "json_iter (JStr s) = Inr (map (\<lambda>c. JStr [c]) s)"
| "json_iter _ = Inl TypeError"

text \<open>\<open>s in v\<close>\<close>

fun json_contains :: "string \<Rightarrow> json \<Rightarrow> bool result" where
  "json_contains s (JStr t) = Inr (str_in s t)"
| "json_contains s (JList xs) = Inr (JStr s \<in> set xs)"
| "json_contains s (JDict kvs) = Inr (s \<in> set (dict_keys kvs))"
| "json_contains s _ = Inl TypeError"

text \<open>\<open>len(v)\<close>\<close>

definition json_len :: "json \<Rightarrow> nat result" where
  "json_len v = rbind (json_iter v) (\<lambda>xs. Inr (length xs))"

text \<open>Lists and dictionaries cannot be keys of a dictionary or elements of a set.\<close>

fun hashable :: "json \<Rightarrow> json result" where
  "hashable (JList xs) = Inl TypeError"
| "hashable (JDict kvs) = Inl TypeError"
| "hashable v = Inr v"

text \<open>\<open>v - n\<close>: a boolean counts as 0 or 1.\<close>

fun json_minus :: "json \<Rightarrow> int \<Rightarrow> int result" where
  "json_minus (JInt m) n = Inr (m - n)"
| "json_minus (JBool b) n = Inr (of_bool b - n)"
| "json_minus _ n = Inl TypeError"

text \<open>The truth value of \<open>v\<close> in a condition or under \<open>or\<close>\<close>

fun json_true :: "json \<Rightarrow> bool" where
  "json_true JNull = False"
| "json_true (JBool b) = b"
| "json_true (JInt n) = (n \<noteq> 0)"
| "json_true (JStr s) = (s \<noteq> [])"
| "json_true (JList xs) = (xs \<noteq> [])"
| "json_true (JDict kvs) = (kvs \<noteq> [])"

text \<open>A string where the script needs one: \<open>v.m(\<dots>)\<close> raises on a value without the method.\<close>

fun json_string_method :: "json \<Rightarrow> string result" where
  "json_string_method (JStr s) = Inr s"
| "json_string_method _ = Inl AttributeError"

text \<open>\<open>','.join(v)\<close>\<close>

fun json_str_item :: "json \<Rightarrow> string result" where
  "json_str_item (JStr s) = Inr s"
| "json_str_item _ = Inl TypeError"

definition json_join :: "string \<Rightarrow> json \<Rightarrow> string result" where
  "json_join sep v =
     rbind (json_iter v) (\<lambda>xs. rbind (mapM json_str_item xs) (\<lambda>ss. Inr (py_join sep ss)))"

section \<open>The text of a value\<close>

definition hex_digit :: "nat \<Rightarrow> char" where
  "hex_digit d = char_of (if d < 10 then 48 + d else 87 + d)"

definition repr_char :: "char \<Rightarrow> char \<Rightarrow> string" where
  "repr_char quote c =
     (let n = of_char c :: nat in
      if c = quote \<or> n = 92 then [CHR 92, c]
      else if n = 10 then [CHR 92, CHR ''n'']
      else if n = 13 then [CHR 92, CHR ''r'']
      else if n = 9 then [CHR 92, CHR ''t'']
      else if n < 32 \<or> 127 \<le> n \<and> n \<le> 160 \<or> n = 173
        then [CHR 92, CHR ''x'', hex_digit (n div 16), hex_digit (n mod 16)]
      else [c])"

text \<open>\<open>repr\<close> of a string: single quotes unless only the double ones need no escape.\<close>

definition repr_string :: "string \<Rightarrow> string" where
  "repr_string s =
     (let quote = (if CHR 39 \<in> set s \<and> CHR 34 \<notin> set s then CHR 34 else CHR 39) in
      [quote] @ concat (map (repr_char quote) s) @ [quote])"

fun json_repr :: "json \<Rightarrow> string" where
  "json_repr JNull = ''None''"
| "json_repr (JBool b) = (if b then ''True'' else ''False'')"
| "json_repr (JInt n) = str_int n"
| "json_repr (JStr s) = repr_string s"
| "json_repr (JList xs) = ''['' @ py_join '', '' (map json_repr xs) @ '']''"
| "json_repr (JDict kvs) =
     ''{'' @ py_join '', '' (map (\<lambda>(k, v). repr_string k @ '': '' @ json_repr v) kvs) @ ''}''"

fun json_str :: "json \<Rightarrow> string" where
  "json_str (JStr s) = s"
| "json_str v = json_repr v"

section \<open>Lemmas\<close>

lemma json_path_simps [simp]:
  "json_path v [] = Inr v"
  by (simp add: json_path_def)

lemma json_path_raised: "foldl (\<lambda>r k. rbind r (\<lambda>w. json_item w k)) (Inl e) ks = Inl e"
  by (induction ks) simp_all

lemma json_path_Cons: "json_path v (k # ks) = rbind (json_item v k) (\<lambda>w. json_path w ks)"
  by (cases "json_item v k") (simp_all add: json_path_def json_path_raised)

lemma json_item_eq_Inr: "json_item v k = Inr w \<longleftrightarrow> (\<exists>kvs. v = JDict kvs \<and> map_of kvs k = Some w)"
  by (cases v) (auto split: option.splits)

lemma json_minus_eq_Inr:
  "json_minus v n = Inr m \<longleftrightarrow> v = JInt (m + n) \<or> (\<exists>b. v = JBool b \<and> m = of_bool b - n)"
  by (cases v) auto

lemma hashable_eq_Inr: "hashable v = Inr w \<Longrightarrow> w = v"
  by (cases v) auto

end
