(* ===== verification/NodeCrawl.thy ===== *)
theory NodeCrawl
  imports Py_Json
begin

text \<open>
  \<open>scripts/node-status-crawl.py\<close>: the statuses of the nodes the local daemon can reach, printed
  as one document.

  The state is the script's two tables, the dictionary of peers the last answer named, the
  commands run and the lines printed. What a command prints is the parameter \<open>answer\<close>, which may
  depend on the commands run before it; \<open>loads\<close> is the JSON parser. The loop has fuel; one round
  is shown to be always enough.
\<close>

record crawl =
  node_statuses :: "(json, json) dict"
  seen_peer_ids :: "json list"
  to_query :: "(json, json) dict"
  commands :: "string list list"
  out_lines :: "string list"

type_synonym command_answers = "string list list \<Rightarrow> string list \<Rightarrow> string result"

definition start_crawl :: crawl where
  "start_crawl =
     \<lparr>node_statuses = [], seen_peer_ids = [], to_query = [], commands = [], out_lines = []\<rparr>"

definition default_port :: nat where
  "default_port = 8301"

definition default_prog :: string where
  "default_prog = ''mina''"

definition daemon_port :: "string option \<Rightarrow> string" where
  "daemon_port arg = (case arg of None \<Rightarrow> str_nat default_port | Some p \<Rightarrow> p)"

definition executable :: "string option \<Rightarrow> string" where
  "executable arg = (case arg of None \<Rightarrow> default_prog | Some p \<Rightarrow> p)"

definition say :: "string \<Rightarrow> (crawl, unit) eff" where
  "say line = emodify (\<lambda>s. s\<lparr>out_lines := out_lines s @ [line]\<rparr>)"

definition check_output :: "command_answers \<Rightarrow> string list \<Rightarrow> (crawl, string) eff" where
  "check_output answer cmd =
     ebind (eget commands) (\<lambda>before.
     eseq (emodify (\<lambda>s. s\<lparr>commands := commands s @ [cmd]\<rparr>)) (elift (answer before cmd)))"

section \<open>One answer\<close>

text \<open>The body of \<open>for peer in status['peers']\<close>\<close>

definition note_peer :: "json \<Rightarrow> (crawl, unit) eff" where
  "note_peer peer =
     ebind (elift (json_item peer ''peer_id'')) (\<lambda>peer_id.
     eseq (elift (hashable peer_id))
    (eseq (emodify (\<lambda>s. s\<lparr>to_query := AList.update peer_id peer (to_query s)\<rparr>))
          (emodify (\<lambda>s. s\<lparr>seen_peer_ids := List.insert peer_id (seen_peer_ids s)\<rparr>))))"

text \<open>The body of the \<open>try\<close>\<close>

definition note_status :: "json \<Rightarrow> (crawl, unit) eff" where
  "note_status status =
     ebind (elift (json_item status ''node_peer_id'')) (\<lambda>i.
     eseq (elift (hashable i))
    (eseq (emodify (\<lambda>s. s\<lparr>node_statuses := AList.update i status (node_statuses s)\<rparr>))
    (ebind (elift (rbind (json_item status ''peers'') json_iter)) (\<lambda>ps. efor ps note_peer))))"

definition add_line :: "(string \<Rightarrow> json result) \<Rightarrow> string \<Rightarrow> (crawl, unit) eff" where
  "add_line loads line =
     (if line = '''' then eret ()
      else ebind (elift (loads line)) (\<lambda>status.
           ecatch (note_status status) (\<lambda>_. say (''Error in node status response: '' @ line))))"

definition add_node_statuses ::
    "(string \<Rightarrow> json result) \<Rightarrow> string \<Rightarrow> (crawl, (json, json) dict) eff" where
  "add_node_statuses loads output =
     eseq (emodify (\<lambda>s. s\<lparr>to_query := []\<rparr>))
    (eseq (efor (split_on (CHR ''\<newline>'') output) (add_line loads))
          (eget to_query))"

section \<open>The loop\<close>

definition crawl_peer_to_multiaddr :: "json \<Rightarrow> string result" where
  "crawl_peer_to_multiaddr peer =
     rbind (json_item peer ''host'') (\<lambda>host.
     rbind (json_item peer ''libp2p_port'') (\<lambda>libp2p_port.
     rbind (json_item peer ''peer_id'') (\<lambda>peer_id.
     Inr (''/ip4/'' @ json_str host @ ''/tcp/'' @ json_str libp2p_port @ ''/p2p/'' @ json_str peer_id))))"

text \<open>The script never assigns this variable.\<close>

definition peer_id_count :: "int result" where
  "peer_id_count = Inl (NameError ''peer_id_count'')"

text \<open>
  The inner loop with its variables \<open>done\<close> and \<open>formatted_peers\<close>.
\<close>

fun format_peers ::
    "json list \<Rightarrow> (json, json) dict \<Rightarrow> bool \<Rightarrow> string \<Rightarrow> (bool \<times> string) result" where
  "format_peers seen [] finished formatted_peers = Inr (finished, formatted_peers)"
| "format_peers seen ((peer_id, peer) # rest) finished formatted_peers =
     rbind (crawl_peer_to_multiaddr peer) (\<lambda>addr.
     if peer_id \<in> set seen then format_peers seen rest finished formatted_peers
     else rbind peer_id_count (\<lambda>n.
          format_peers seen rest False
            (if n = 0 then addr else addr @ '','' @ formatted_peers)))"

definition daemon_query :: "string \<Rightarrow> string \<Rightarrow> string list" where
  "daemon_query prg port =
     [prg, ''advanced'', ''node-status'', ''-daemon-peers'', ''-daemon-port'', port]"

definition peers_query :: "string \<Rightarrow> string \<Rightarrow> string \<Rightarrow> string list" where
  "peers_query prg port formatted_peers =
     [prg, ''advanced'', ''node-status'', ''-peers'', formatted_peers, ''-daemon-port'', port]"

text \<open>The value \<open>None\<close> means that the loop is still running.\<close>

fun crawl_loop ::
    "nat \<Rightarrow> command_answers \<Rightarrow> (string \<Rightarrow> json result) \<Rightarrow> string \<Rightarrow> string \<Rightarrow>
     (json, json) dict \<Rightarrow> crawl \<Rightarrow> (unit result \<times> crawl) option" where
  "crawl_loop 0 answer loads prg port peers_to_query s = None"
| "crawl_loop (Suc fuel) answer loads prg port peers_to_query s =
     (case format_peers (seen_peer_ids s) peers_to_query True '''' of
        Inl e \<Rightarrow> Some (Inl e, s)
      | Inr (finished, formatted_peers) \<Rightarrow>
          if finished then Some (Inr (), s)
          else case ebind (check_output answer (peers_query prg port formatted_peers))
                      (add_node_statuses loads) s of
                 (Inl e, t) \<Rightarrow> Some (Inl e, t)
               | (Inr next_peers, t) \<Rightarrow> crawl_loop fuel answer loads prg port next_peers t)"

section \<open>The document printed\<close>

text \<open>\<open>str(status).replace("'", '"')\<close>\<close>

definition status_line :: "json \<Rightarrow> string" where
  "status_line status = map (\<lambda>c. if c = CHR 39 then CHR 34 else c) (json_str status)"

definition print_document :: "(crawl, unit) eff" where
  "print_document =
     ebind (eget seen_peer_ids) (\<lambda>seen.
     ebind (eget node_statuses) (\<lambda>statuses.
     eseq (say (''{ '' @ [CHR 34] @ ''peer_ids_queried'' @ [CHR 34] @ '': '' @ str_nat (length seen) @ '',''))
    (eseq (say (''  '' @ [CHR 34] @ ''node_statuses'' @ [CHR 34] @ '': [''))
    (eseq (efor (enumerate 0 (dict_values statuses)) (\<lambda>(count, status).
             say (''  '' @ status_line status @ (if int count < int (length statuses) - 1 then '','' else ''''))))
          (say ''  ]}'')))))"

definition node_status_crawl ::
    "nat \<Rightarrow> command_answers \<Rightarrow> (string \<Rightarrow> json result) \<Rightarrow> string option \<Rightarrow> string option \<Rightarrow>
     (unit result \<times> crawl) option" where
  "node_status_crawl fuel answer loads port_arg executable_arg =
     (let port = daemon_port port_arg; prg = executable executable_arg in
      case ebind (check_output answer (daemon_query prg port)) (add_node_statuses loads) start_crawl of
        (Inl e, s) \<Rightarrow> Some (Inl e, s)
      | (Inr peers_to_query, s) \<Rightarrow>
          (case crawl_loop fuel answer loads prg port peers_to_query s of
             None \<Rightarrow> None
           | Some (Inl e, t) \<Rightarrow> Some (Inl e, t)
           | Some (Inr u, t) \<Rightarrow> Some (print_document t)))"

section \<open>Every peer named by an answer has been seen\<close>

definition peers_seen :: "crawl \<Rightarrow> bool" where
  "peers_seen s \<longleftrightarrow> set (dict_keys (to_query s)) \<subseteq> set (seen_peer_ids s)"

text \<open>
  What reading an answer keeps: no command is run, the peers to query stay among the seen
  ones, and no peer is forgotten.
\<close>

definition reading :: "crawl \<Rightarrow> crawl \<Rightarrow> bool" where
  "reading s t \<longleftrightarrow> commands t = commands s \<and> (peers_seen s \<longrightarrow> peers_seen t) \<and>
     set (seen_peer_ids s) \<subseteq> set (seen_peer_ids t)"

interpretation reads: effect_frame reading
  by unfold_locales (auto simp: reading_def)

lemma framed_say: "framed reading (say line)"
  unfolding say_def by (rule reads.framed_modify) (simp add: reading_def peers_seen_def)

lemma reading_note_peer:
  "reading s (s\<lparr>to_query := AList.update i p (to_query s), seen_peer_ids := List.insert i (seen_peer_ids s)\<rparr>)"
  by (auto simp: reading_def peers_seen_def dict_keys_update simp del: set_map)

lemma framed_note_peer: "framed reading (note_peer peer)"
proof -
  have "framed reading (eseq (emodify (\<lambda>s. s\<lparr>to_query := AList.update i peer (to_query s)\<rparr>))
          (emodify (\<lambda>s. s\<lparr>seen_peer_ids := List.insert i (seen_peer_ids s)\<rparr>)))" for i
    using reading_note_peer by (simp add: framed_def eseq_def)
  then show ?thesis
    unfolding note_peer_def
    by (rule reads.framed_bind [OF reads.framed_prim(4) reads.framed_seq [OF reads.framed_prim(4)]])
qed

lemma framed_note_status: "framed reading (note_status status)"
proof -
  have "framed reading (emodify (\<lambda>s. s\<lparr>node_statuses := AList.update i status (node_statuses s)\<rparr>))" for i
    by (rule reads.framed_modify) (simp add: reading_def peers_seen_def)
  then show ?thesis
    unfolding note_status_def by (intro reads.frame_rules framed_note_peer)
qed

lemma framed_add_line: "framed reading (add_line loads line)"
  unfolding add_line_def
  by (intro reads.framed_if reads.framed_bind reads.framed_catch reads.framed_prim
      framed_note_status framed_say)

lemma add_node_statuses_seen:
  assumes "add_node_statuses loads output s = (r, t)"
  shows "commands t = commands s" and "r = Inr q \<Longrightarrow> set (dict_keys q) \<subseteq> set (seen_peer_ids t)"
proof -
  let ?s = "s\<lparr>to_query := []\<rparr>"
  have "framed reading (efor (split_on (CHR ''\<newline>'') output) (add_line loads))"
    by (intro reads.framed_for framed_add_line)
  then have f: "reading ?s (snd (efor (split_on (CHR ''\<newline>'') output) (add_line loads) ?s))"
    by (simp add: framed_def)
  have t: "t = snd (efor (split_on (CHR ''\<newline>'') output) (add_line loads) ?s)"
    and q: "r = Inr q \<Longrightarrow> q = to_query t"
    using assms by (auto simp: add_node_statuses_def eseq_def ebind_def split: sum.splits prod.splits)
  show "commands t = commands s" using f t by (simp add: reading_def)
  have "peers_seen t" using f t by (simp add: reading_def) (simp add: peers_seen_def)
  then show "set (dict_keys q) \<subseteq> set (seen_peer_ids t)" if "r = Inr q"
    using q [OF that] by (simp add: peers_seen_def)
qed

lemma format_peers_seen:
  assumes "set (dict_keys ps) \<subseteq> set seen"
  shows "format_peers seen ps finished fmt =
    rbind (mapM crawl_peer_to_multiaddr (dict_values ps)) (\<lambda>_. Inr (finished, fmt))"
  using assms by (induction seen ps finished fmt rule: format_peers.induct)
    (auto simp: rbind_def split: sum.splits)

lemma crawl_loop_one_round:
  assumes "set (dict_keys ps) \<subseteq> set (seen_peer_ids s)"
  shows "crawl_loop (Suc fuel) answer loads prg port ps s =
    Some (rbind (mapM crawl_peer_to_multiaddr (dict_values ps)) (\<lambda>_. Inr ()), s)"
  using assms by (simp add: format_peers_seen rbind_def split: sum.split)

lemma print_document_keeps: "commands (snd (print_document s)) = commands s"
proof -
  have "effect_frame (\<lambda>s t. commands t = commands s)" by unfold_locales auto
  note fr = effect_frame.frame_rules [OF this]
  have s: "framed (\<lambda>s t. commands t = commands s) (say line)" for line
    by (simp add: framed_def say_def)
  have "framed (\<lambda>s t. commands t = commands s) print_document"
    unfolding print_document_def by (intro fr) (auto intro: s)
  then show ?thesis by (simp add: framed_def)
qed

text \<open>
  Whatever the answers are, the crawl ends within one round of its loop and has run
  exactly one command, the query of the local daemon: no peer is queried.
\<close>

theorem crawl_queries_only_the_daemon:
  "\<exists>r t. node_status_crawl (Suc fuel) answer loads port_arg executable_arg = Some (r, t) \<and>
         commands t = [daemon_query (executable executable_arg) (daemon_port port_arg)]"
proof -
  let ?q = "daemon_query (executable executable_arg) (daemon_port port_arg)"
  let ?m = "ebind (check_output answer ?q) (add_node_statuses loads)"
  obtain r s where run: "?m start_crawl = (r, s)" by (cases "?m start_crawl")
  have c: "commands s = [?q] \<and> (\<forall>q. r = Inr q \<longrightarrow> set (dict_keys q) \<subseteq> set (seen_peer_ids s))"
  proof (cases "answer [] ?q")
    case (Inl e)
    with run show ?thesis
      by (auto simp: check_output_def start_crawl_def eseq_def ebind_def)
  next
    case (Inr out)
    with run have "add_node_statuses loads out (start_crawl\<lparr>commands := [?q]\<rparr>) = (r, s)"
      by (simp add: check_output_def start_crawl_def eseq_def ebind_def)
    from add_node_statuses_seen [OF this] show ?thesis by (auto simp: start_crawl_def)
  qed
  show ?thesis
  proof (cases r)
    case (Inl e)
    with run c show ?thesis by (simp add: node_status_crawl_def Let_def)
  next
    case (Inr q)
    with c have q: "set (dict_keys q) \<subseteq> set (seen_peer_ids s)" by blast
    show ?thesis
      using run c Inr print_document_keeps [of s]
      by (cases "mapM crawl_peer_to_multiaddr (dict_values q)"; cases "print_document s")
        (auto simp: node_status_crawl_def Let_def crawl_loop_one_round [OF q] simp del: crawl_loop.simps)
  qed
qed

end
