(* ===== verification/Sidecar.thy ===== *)
theory Sidecar
  imports Py_Json
begin

text \<open>
  The block producer sidecar \<open>automation/services/mina-bp-stats/sidecar/sidecar.py\<close>: it asks a
  Mina node for the block twelve below its head and posts the answer to a collector.

  The state is the history of what the program did: each request with its outcome, and each
  sleep. What the network answers is the parameter \<open>urlopen\<close>, a function of the history and the
  request, and \<open>clock\<close> gives the time; \<open>loads\<close> is the JSON parser. A request body is kept as the
  value given to \<open>json.dumps\<close>. Log lines are left out. The loop that waits for the node to be
  synchronised has fuel; \<open>None\<close> means that it is still waiting. The main loop never ends by
  itself, so it is an inductive relation between the states at the head of the loop.
\<close>

section \<open>Requests and the history\<close>

record request =
  url :: string
  req_data :: json

datatype sidecar_event =
    Asked request "(nat \<times> string) result"
  | Slept nat

type_synonym history = "sidecar_event list"

record network =
  urlopen :: "history \<Rightarrow> request \<Rightarrow> (nat \<times> string) result"
  clock :: "history \<Rightarrow> rat"
  loads :: "string \<Rightarrow> json result"

record sidecar_config =
  upload_url :: string
  node_url :: string

definition FETCH_INTERVAL :: nat where
  "FETCH_INTERVAL = 60 * 3"

definition ERROR_SLEEP_INTERVAL :: nat where
  "ERROR_SLEEP_INTERVAL = 30"

definition FINALIZATION_THRESHOLD :: int where
  "FINALIZATION_THRESHOLD = 12"

definition SYNC_STATUS_GRAPHQL :: string where
  "SYNC_STATUS_GRAPHQL = ''\<newline>query SyncStatus {\<newline>  daemonStatus {\<newline>    syncStatus\<newline>    blockchainLength\<newline>  }\<newline>}\<newline>''"

definition FETCH_BLOCK_GRAPHQL :: string where
  "FETCH_BLOCK_GRAPHQL =
     ''\<newline>query FetchBlockData($blockID: Int!) {\<newline>  version\<newline>  daemonStatus {\<newline>    blockchainLength\<newline>    syncStatus\<newline>'' @
     ''    chainId\<newline>    commitId\<newline>    highestBlockLengthReceived\<newline>    highestUnvalidatedBlockLengthReceived\<newline>'' @
     ''    stateHash\<newline>    blockProductionKeys\<newline>    uptimeSecs\<newline>  }\<newline>'' @
     ''  block(height: $blockID) {\<newline>    stateHash\<newline>  }\<newline>}\<newline>''"

definition open_url :: "network \<Rightarrow> request \<Rightarrow> (history, nat \<times> string) eff" where
  "open_url net req h = (let r = urlopen net h req in (r, h @ [Asked req r]))"

definition sleep :: "nat \<Rightarrow> (history, unit) eff" where
  "sleep secs = emodify (\<lambda>h. h @ [Slept secs])"

section \<open>Configuration\<close>

text \<open>
  \<open>parsed_config_file['uploadURL'].rstrip('/')\<close> and the same for \<open>nodeURL\<close>; \<open>config_file\<close> is the
  content of the file when it exists.
\<close>

definition config_from_file ::
    "(string \<Rightarrow> json result) \<Rightarrow> string option \<Rightarrow> (string option \<times> string option) result" where
  "config_from_file parse config_file =
     (case config_file of
        None \<Rightarrow> Inr (None, None)
      | Some content \<Rightarrow>
          rbind (parse (py_strip content)) (\<lambda>parsed.
          rbind (rbind (json_item parsed ''uploadURL'') json_string_method) (\<lambda>up.
          rbind (rbind (json_item parsed ''nodeURL'') json_string_method) (\<lambda>node.
          Inr (Some (rstrip_chars ''/'' up), Some (rstrip_chars ''/'' node))))))"

definition or_environ :: "(string, string) dict \<Rightarrow> string \<Rightarrow> string option \<Rightarrow> string option" where
  "or_environ environ name v = (case map_of environ name of Some w \<Rightarrow> Some w | None \<Rightarrow> v)"

definition missing_setting :: "string \<Rightarrow> py_error" where
  "missing_setting name =
     PyException (''Could not find /etc/mina-sidecar.json or '' @ name @ '' environment variable is not set.'')"

definition configure ::
    "(string \<Rightarrow> json result) \<Rightarrow> string option \<Rightarrow> (string, string) dict \<Rightarrow> sidecar_config result" where
  "configure parse config_file environ =
     rbind (config_from_file parse config_file) (\<lambda>(up, node).
     case or_environ environ ''MINA_BP_UPLOAD_URL'' up of
       None \<Rightarrow> Inl (missing_setting ''MINA_BP_UPLOAD_URL'')
     | Some u \<Rightarrow>
         (case or_environ environ ''MINA_NODE_URL'' node of
            None \<Rightarrow> Inl (missing_setting ''MINA_NODE_URL'')
          | Some n \<Rightarrow> Inr \<lparr>upload_url = u, node_url = n\<rparr>))"

section \<open>The three requests\<close>

definition graphql_request :: "sidecar_config \<Rightarrow> string \<Rightarrow> (string \<times> json) list \<Rightarrow> string \<Rightarrow> request" where
  "graphql_request cfg query variables operation =
     \<lparr>url = node_url cfg @ ''/graphql'',
      req_data = JDict [(''query'', JStr query), (''variables'', JDict variables),
                        (''operationName'', JStr operation)]\<rparr>"

definition status_request :: "sidecar_config \<Rightarrow> request" where
  "status_request cfg = graphql_request cfg SYNC_STATUS_GRAPHQL [] ''SyncStatus''"

definition block_request :: "sidecar_config \<Rightarrow> int \<Rightarrow> request" where
  "block_request cfg block_id =
     graphql_request cfg FETCH_BLOCK_GRAPHQL [(''blockID'', JInt block_id)] ''FetchBlockData''"

definition read_status :: "network \<Rightarrow> string \<Rightarrow> (json \<times> json) result" where
  "read_status net body =
     rbind (loads net body) (\<lambda>parsed.
     rbind (json_item parsed ''data'') (\<lambda>d.
     rbind (json_path d [''daemonStatus'', ''syncStatus'']) (\<lambda>sync.
     rbind (json_path d [''daemonStatus'', ''blockchainLength'']) (\<lambda>len.
     Inr (sync, len)))))"

definition fetch_mina_status :: "network \<Rightarrow> sidecar_config \<Rightarrow> (history, json \<times> json) eff" where
  "fetch_mina_status net cfg =
     ebind (open_url net (status_request cfg)) (\<lambda>(code, body). elift (read_status net body))"

definition read_block :: "network \<Rightarrow> string \<Rightarrow> json result" where
  "read_block net body =
     rbind (loads net body) (\<lambda>parsed.
     rbind (json_item parsed ''data'') (\<lambda>d.
     if d = JNull then Inl (PyException (''Response seems to be an error! '' @ body)) else Inr d))"

definition fetch_block :: "network \<Rightarrow> sidecar_config \<Rightarrow> int \<Rightarrow> (history, json) eff" where
  "fetch_block net cfg block_id =
     ebind (open_url net (block_request cfg block_id)) (\<lambda>(code, body). elift (read_block net body))"

text \<open>
  \<open>block_data.update(\<dots>)\<close> changes the dictionary in place, so the caller sees the added entries.
\<close>

definition with_receipt :: "int \<Rightarrow> int \<Rightarrow> json \<Rightarrow> json result" where
  "with_receipt retrieved_at block_height block_data =
     (case block_data of
        JDict kvs \<Rightarrow> Inr (JDict (AList.update ''blockHeight'' (JInt block_height)
                               (AList.update ''retrievedAt'' (JInt retrieved_at) kvs)))
      | _ \<Rightarrow> Inl AttributeError)"

definition send_update :: "network \<Rightarrow> sidecar_config \<Rightarrow> json \<Rightarrow> int \<Rightarrow> (history, json) eff" where
  "send_update net cfg block_data block_height =
     ebind (eget (\<lambda>h. \<lfloor>clock net h * 1000\<rfloor>)) (\<lambda>now.
     ebind (elift (with_receipt now block_height block_data)) (\<lambda>updated.
     ebind (open_url net \<lparr>url = upload_url cfg, req_data = updated\<rparr>) (\<lambda>(code, body).
     if code = 200 then eret updated else eraise AssertionError)))"

section \<open>The loops\<close>

text \<open>
  One turn of \<open>check_mina_node_sync_state_and_fetch_head\<close>: the head when the node is
  synchronised, \<open>None\<close> after the sleep otherwise.
\<close>

definition sync_turn :: "network \<Rightarrow> sidecar_config \<Rightarrow> history \<Rightarrow> json option \<times> history" where
  "sync_turn net cfg h =
     (case fetch_mina_status net cfg h of
        (Inr (sync, head), t) \<Rightarrow>
          if sync = JStr ''SYNCED'' then (Some head, t) else (None, t @ [Slept 5])
      | (Inl e, t) \<Rightarrow> (None, t @ [Slept 5]))"

fun check_mina_node_sync_state_and_fetch_head ::
    "nat \<Rightarrow> network \<Rightarrow> sidecar_config \<Rightarrow> history \<Rightarrow> (json \<times> history) option" where
  "check_mina_node_sync_state_and_fetch_head 0 net cfg h = None"
| "check_mina_node_sync_state_and_fetch_head (Suc fuel) net cfg h =
     (case sync_turn net cfg h of
        (Some head, t) \<Rightarrow> Some (head, t)
      | (None, t) \<Rightarrow> check_mina_node_sync_state_and_fetch_head fuel net cfg t)"

text \<open>
  The head twelve blocks back; a head that is not a number raises \<open>TypeError\<close>, which nothing
  catches here.
\<close>

definition refetch_tip ::
    "nat \<Rightarrow> network \<Rightarrow> sidecar_config \<Rightarrow> history \<Rightarrow> (int result \<times> history) option" where
  "refetch_tip fuel net cfg h =
     (case check_mina_node_sync_state_and_fetch_head fuel net cfg h of
        None \<Rightarrow> None
      | Some (head, t) \<Rightarrow> Some (json_minus head FINALIZATION_THRESHOLD, t))"

text \<open>The body of the \<open>try\<close>, with the next tip as its value\<close>

definition ship_block :: "network \<Rightarrow> sidecar_config \<Rightarrow> int \<Rightarrow> (history, int) eff" where
  "ship_block net cfg current_finalized_tip =
     ebind (fetch_block net cfg current_finalized_tip) (\<lambda>block_data.
     ebind (send_update net cfg block_data current_finalized_tip) (\<lambda>updated.
     ebind (elift (rbind (json_path updated [''daemonStatus'', ''blockchainLength''])
                     (\<lambda>len. json_minus len FINALIZATION_THRESHOLD))) (\<lambda>tip.
     eseq (sleep FETCH_INTERVAL) (eret tip))))"

definition main_turn ::
    "nat \<Rightarrow> network \<Rightarrow> sidecar_config \<Rightarrow> int \<Rightarrow> history \<Rightarrow> (int result \<times> history) option" where
  "main_turn fuel net cfg tip h =
     (case ship_block net cfg tip h of
        (Inr tip', t) \<Rightarrow> Some (Inr tip', t)
      | (Inl e, t) \<Rightarrow> refetch_tip fuel net cfg (t @ [Slept ERROR_SLEEP_INTERVAL]))"

text \<open>The states at the head of the main loop\<close>

inductive sidecar_step :: "network \<Rightarrow> sidecar_config \<Rightarrow> int \<times> history \<Rightarrow> int \<times> history \<Rightarrow> bool"
  for net cfg where
  turn: "main_turn fuel net cfg tip h = Some (Inr tip', h') \<Longrightarrow> sidecar_step net cfg (tip, h) (tip', h')"

definition sidecar_started :: "network \<Rightarrow> sidecar_config \<Rightarrow> int \<times> history \<Rightarrow> bool" where
  "sidecar_started net cfg st \<longleftrightarrow> (\<exists>fuel. refetch_tip fuel net cfg [] = Some (Inr (fst st), snd st))"

section \<open>What is requested\<close>

text \<open>The tips an answer in the history reports, twelve below its chain length.\<close>

definition reported_tips :: "network \<Rightarrow> history \<Rightarrow> int set" where
  "reported_tips net h =
     {m. \<exists>req code body v. Asked req (Inr (code, body)) \<in> set h \<and>
           rbind (loads net body) (\<lambda>p. json_path p [''data'', ''daemonStatus'', ''blockchainLength'']) = Inr v \<and>
           json_minus v FINALIZATION_THRESHOLD = Inr m}"

text \<open>Every block requested so far had been reported before it was requested.\<close>

definition fetches_reported :: "network \<Rightarrow> sidecar_config \<Rightarrow> history \<Rightarrow> bool" where
  "fetches_reported net cfg h \<longleftrightarrow>
     (\<forall>pre b r post. h = pre @ Asked (block_request cfg b) r # post \<longrightarrow> b \<in> reported_tips net pre)"

definition is_fetch :: "sidecar_config \<Rightarrow> sidecar_event \<Rightarrow> bool" where
  "is_fetch cfg e \<longleftrightarrow> (\<exists>b r. e = Asked (block_request cfg b) r)"

definition tip_reported :: "network \<Rightarrow> sidecar_config \<Rightarrow> int \<times> history \<Rightarrow> bool" where
  "tip_reported net cfg st \<longleftrightarrow> fst st \<in> reported_tips net (snd st) \<and> fetches_reported net cfg (snd st)"

text \<open>
  A node that is synchronised from the point on at which the sidecar has slept \<open>m\<close> times, and says so with
  a numeric chain length.
\<close>

definition sleeps :: "history \<Rightarrow> nat" where
  "sleeps h = length (filter (\<lambda>e. case e of Slept _ \<Rightarrow> True | Asked _ _ \<Rightarrow> False) h)"

definition synced_after :: "network \<Rightarrow> sidecar_config \<Rightarrow> nat \<Rightarrow> bool" where
  "synced_after net cfg m \<longleftrightarrow>
     (\<forall>h. m \<le> sleeps h \<longrightarrow>
        (\<exists>code body head. urlopen net h (status_request cfg) = Inr (code, body) \<and>
                          read_status net body = Inr (JStr ''SYNCED'', JInt head)))"

definition synced_has_length :: "network \<Rightarrow> sidecar_config \<Rightarrow> bool" where
  "synced_has_length net cfg \<longleftrightarrow>
     (\<forall>h code body v. urlopen net h (status_request cfg) = Inr (code, body) \<longrightarrow>
        read_status net body = Inr (JStr ''SYNCED'', v) \<longrightarrow> (\<exists>head. v = JInt head))"

text \<open>
  A node at chain length 100 that rejects requests while the sidecar has slept less than once,
  and answers anything afterwards.
\<close>

definition demo_answer :: json where
  "demo_answer = JDict [(''data'', JDict [(''daemonStatus'',
     JDict [(''syncStatus'', JStr ''SYNCED''), (''blockchainLength'', JInt 100)])])]"

definition demo_network :: network where
  "demo_network =
     \<lparr>urlopen = \<lambda>h req. if sleeps h = 0 then Inl (PyException ''refused'') else Inr (200, ''ok''),
      clock = \<lambda>h. 0, loads = \<lambda>body. Inr demo_answer\<rparr>"

definition demo_config :: sidecar_config where
  "demo_config = \<lparr>upload_url = ''https://stats'', node_url = ''http://localhost:3085''\<rparr>"

lemma reported_tips_mono: "set h \<subseteq> set h' \<Longrightarrow> reported_tips net h \<subseteq> reported_tips net h'"
  by (auto simp: reported_tips_def)

lemma fetches_reported_snoc:
  "fetches_reported net cfg (h @ [e]) \<longleftrightarrow>
     fetches_reported net cfg h \<and> (\<forall>b r. e = Asked (block_request cfg b) r \<longrightarrow> b \<in> reported_tips net h)"
  (is "?l \<longleftrightarrow> ?r")
proof
  assume l: ?l
  show ?r
  proof
    show "fetches_reported net cfg h"
      using l unfolding fetches_reported_def by (metis append_Cons append_assoc)
    show "\<forall>b r. e = Asked (block_request cfg b) r \<longrightarrow> b \<in> reported_tips net h"
      using l unfolding fetches_reported_def by blast
  qed
next
  assume r: ?r
  show ?l
    unfolding fetches_reported_def
  proof (intro allI impI)
    fix pre b res post
    assume eq: "h @ [e] = pre @ Asked (block_request cfg b) res # post"
    show "b \<in> reported_tips net pre"
    proof (cases post rule: rev_cases)
      case Nil
      with eq r show ?thesis by auto
    next
      case (snoc post' e')
      with eq have "h = pre @ Asked (block_request cfg b) res # post'" by auto
      with r show ?thesis unfolding fetches_reported_def by blast
    qed
  qed
qed

lemma status_is_no_fetch: "status_request cfg \<noteq> block_request cfg b"
  by (simp add: status_request_def block_request_def graphql_request_def)

lemma update_is_no_fetch:
  assumes "with_receipt now k data = Inr updated"
  shows "\<lparr>url = u, req_data = updated\<rparr> \<noteq> block_request cfg b"
proof -
  obtain kvs where u: "updated = JDict (AList.update ''blockHeight'' (JInt k) (AList.update ''retrievedAt'' (JInt now) kvs))"
    using assms by (auto simp: with_receipt_def split: json.splits)
  have "json_item updated ''blockHeight'' = Inr (JInt k)" by (simp add: u update_conv')
  moreover have "json_item (req_data (block_request cfg b)) ''blockHeight'' = Inl (KeyError ''blockHeight'')"
    by (simp add: block_request_def graphql_request_def)
  ultimately show ?thesis by (metis Inl_Inr_False request.select_convs(2))
qed

lemma receipt_keeps_status:
  assumes "with_receipt now k data = Inr updated"
  shows "json_item updated ''daemonStatus'' = json_item data ''daemonStatus''"
  using assms by (auto simp: with_receipt_def update_conv' split: json.splits)

section \<open>Each statement extends the history\<close>

interpretation grows: effect_frame "prefix :: history \<Rightarrow> history \<Rightarrow> bool"
  by unfold_locales (auto intro: prefix_order.trans)

lemma open_url_run: "open_url net req h = (urlopen net h req, h @ [Asked req (urlopen net h req)])"
  by (simp add: open_url_def Let_def)

lemma grows_open_url: "framed prefix (open_url net req)"
  by (simp add: framed_def open_url_run)

lemma grows_sleep: "framed prefix (sleep n)"
  unfolding sleep_def by (rule grows.framed_modify) simp

lemma grows_send_update: "framed prefix (send_update net cfg d k)"
  unfolding send_update_def
  by (intro grows.framed_bind grows.framed_prim grows_open_url)
    (auto simp: split_beta intro: grows.framed_prim)

lemma fetch_block_run:
  "fetch_block net cfg b h =
     (case urlopen net h (block_request cfg b) of
        Inl e \<Rightarrow> (Inl e, h @ [Asked (block_request cfg b) (Inl e)])
      | Inr (code, body) \<Rightarrow> (read_block net body, h @ [Asked (block_request cfg b) (Inr (code, body))]))"
  by (simp add: fetch_block_def ebind_def open_url_run split: sum.split prod.split)

lemma sync_turn_cases:
  assumes "sync_turn net cfg h = (r, t)"
  obtains (waits) res where "r = None" "t = h @ [Asked (status_request cfg) res, Slept 5]"
  | (synced) head code body where "r = Some head" "read_status net body = Inr (JStr ''SYNCED'', head)"
      "urlopen net h (status_request cfg) = Inr (code, body)"
      "t = h @ [Asked (status_request cfg) (Inr (code, body))]"
proof -
  let ?req = "status_request cfg"
  show thesis
  proof (cases "urlopen net h ?req")
    case (Inl e)
    with assms have "r = None" "t = h @ [Asked ?req (Inl e), Slept 5]"
      by (auto simp: sync_turn_def fetch_mina_status_def ebind_def open_url_run)
    then show thesis by (rule waits)
  next
    case (Inr a)
    then obtain code body where a: "urlopen net h ?req = Inr (code, body)" by (cases a) auto
    then have f: "fetch_mina_status net cfg h = (read_status net body, h @ [Asked ?req (Inr (code, body))])"
      by (simp add: fetch_mina_status_def ebind_def open_url_run)
    show thesis
    proof (cases "\<exists>head. read_status net body = Inr (JStr ''SYNCED'', head)")
      case True
      then obtain head where "read_status net body = Inr (JStr ''SYNCED'', head)" ..
      with assms f a show thesis by (intro synced [of head body code]) (auto simp: sync_turn_def)
    next
      case False
      with assms f have "r = None" "t = h @ [Asked ?req (Inr (code, body)), Slept 5]"
        by (auto simp: sync_turn_def split: sum.splits prod.splits if_splits)
      then show thesis by (rule waits)
    qed
  qed
qed

lemma waiting_extends:
  assumes "check_mina_node_sync_state_and_fetch_head fuel net cfg h = Some (head, t)"
    and "fetches_reported net cfg h"
  shows "prefix h t \<and> fetches_reported net cfg t \<and>
    (\<forall>m. json_minus head FINALIZATION_THRESHOLD = Inr m \<longrightarrow> m \<in> reported_tips net t)"
  using assms
proof (induction fuel arbitrary: h)
  case 0
  then show ?case by simp
next
  case (Suc fuel)
  obtain r u where turn: "sync_turn net cfg h = (r, u)" by (cases "sync_turn net cfg h")
  from turn show ?case
  proof (cases rule: sync_turn_cases)
    case (waits res)
    have "fetches_reported net cfg ((h @ [Asked (status_request cfg) res]) @ [Slept 5])"
      using Suc.prems(2) status_is_no_fetch by (simp only: fetches_reported_snoc) auto
    with waits have "fetches_reported net cfg u" by simp
    moreover have "check_mina_node_sync_state_and_fetch_head fuel net cfg u = Some (head, t)"
      using Suc.prems(1) turn waits(1) by simp
    ultimately show ?thesis using Suc.IH [of u] waits(2) by (auto elim: prefix_order.trans [rotated])
  next
    case (synced hd code body)
    then have t: "head = hd" "t = h @ [Asked (status_request cfg) (Inr (code, body))]"
      using Suc.prems(1) turn by simp_all
    have "fetches_reported net cfg t"
      using Suc.prems(2) status_is_no_fetch by (simp add: t fetches_reported_snoc)
    moreover have "rbind (loads net body) (\<lambda>p. json_path p [''data'', ''daemonStatus'', ''blockchainLength'']) = Inr hd"
      using synced(2) by (auto simp: read_status_def json_path_Cons rbind_eq_Inr)
    ultimately show ?thesis by (auto simp: t reported_tips_def)
  qed
qed

lemma refetch_extends:
  assumes "refetch_tip fuel net cfg h = Some (Inr tip, t)" and "fetches_reported net cfg h"
  shows "prefix h t \<and> fetches_reported net cfg t \<and> tip \<in> reported_tips net t"
proof -
  from assms(1) obtain head where
    "check_mina_node_sync_state_and_fetch_head fuel net cfg h = Some (head, t)"
    "json_minus head FINALIZATION_THRESHOLD = Inr tip"
    by (auto simp: refetch_tip_def split: option.splits)
  with waiting_extends [OF this(1) assms(2)] show ?thesis by blast
qed

lemma send_update_no_fetch:
  assumes "send_update net cfg d k h = (r, t)" and "fetches_reported net cfg h"
  shows "fetches_reported net cfg t"
proof (cases "with_receipt \<lfloor>clock net h * 1000\<rfloor> k d")
  case (Inl e)
  with assms show ?thesis by (auto simp: send_update_def ebind_def)
next
  case (Inr updated)
  let ?req = "\<lparr>url = upload_url cfg, req_data = updated\<rparr>"
  have "t = h @ [Asked ?req (urlopen net h ?req)]"
    using assms(1) Inr by (auto simp: send_update_def ebind_def open_url_run split: sum.splits if_splits)
  with assms(2) update_is_no_fetch [OF Inr] show ?thesis by (simp add: fetches_reported_snoc)
qed

lemma send_update_value:
  assumes "send_update net cfg d k h = (Inr updated, t)"
  shows "json_item updated ''daemonStatus'' = json_item d ''daemonStatus''"
proof -
  have "with_receipt \<lfloor>clock net h * 1000\<rfloor> k d = Inr updated"
    using assms by (auto simp: send_update_def ebind_def open_url_run split: sum.splits if_splits)
  then show ?thesis by (rule receipt_keeps_status)
qed

lemma ship_block_extends:
  assumes run: "ship_block net cfg tip h = (r, t)"
    and "tip \<in> reported_tips net h" and "fetches_reported net cfg h"
  shows "prefix (h @ [Asked (block_request cfg tip) (urlopen net h (block_request cfg tip))]) t \<and>
    fetches_reported net cfg t \<and> (\<forall>tip'. r = Inr tip' \<longrightarrow> tip' \<in> reported_tips net t)"
proof -
  let ?ans = "urlopen net h (block_request cfg tip)"
  let ?h = "h @ [Asked (block_request cfg tip) ?ans]"
  have h: "fetches_reported net cfg ?h"
    using assms(2,3) by (auto simp: fetches_reported_snoc block_request_def graphql_request_def)
  show ?thesis
  proof (cases "fst (fetch_block net cfg tip h)")
    case (Inl e)
    then have "ship_block net cfg tip h = (Inl e, ?h)"
      by (auto simp: ship_block_def ebind_def fetch_block_run split: sum.splits prod.splits)
    with run h show ?thesis by auto
  next
    case (Inr d)
    then obtain code body where a: "?ans = Inr (code, body)" and d: "read_block net body = Inr d"
      by (auto simp: fetch_block_run split: sum.splits prod.splits)
    obtain q u where up: "send_update net cfg d tip ?h = (q, u)" by (cases "send_update net cfg d tip ?h")
    have u: "prefix ?h u" using grows_send_update up by (rule framedD)
    have fu: "fetches_reported net cfg u" using up h by (rule send_update_no_fetch)
    show ?thesis
    proof (cases q)
      case (Inl e)
      with run a d up have "r = Inl e" "t = u" by (auto simp: ship_block_def ebind_def fetch_block_run)
      with u fu show ?thesis by simp
    next
      case (Inr updated)
      let ?tip = "rbind (json_path updated [''daemonStatus'', ''blockchainLength''])
                     (\<lambda>len. json_minus len FINALIZATION_THRESHOLD)"
      have r: "(r, t) = (case ?tip of Inl e \<Rightarrow> (Inl e, u) | Inr x \<Rightarrow> (Inr x, u @ [Slept FETCH_INTERVAL]))"
        using run a d up Inr
        by (auto simp: ship_block_def ebind_def fetch_block_run eseq_def sleep_def split: sum.splits)
      have p: "prefix ?h t" and ft: "fetches_reported net cfg t"
        using r u fu by (auto simp: fetches_reported_snoc split: sum.splits)
      have "tip' \<in> reported_tips net t" if "r = Inr tip'" for tip'
      proof -
        from r that have "?tip = Inr tip'" by (auto split: sum.splits)
        then obtain v where v: "json_path updated [''daemonStatus'', ''blockchainLength''] = Inr v"
          and m: "json_minus v FINALIZATION_THRESHOLD = Inr tip'" by (auto simp: rbind_eq_Inr)
        have "rbind (loads net body) (\<lambda>p. json_path p [''data'', ''daemonStatus'', ''blockchainLength'']) = Inr v"
          using d v send_update_value [OF up [unfolded Inr]]
          by (auto simp: read_block_def json_path_Cons rbind_eq_Inr split: if_splits)
        moreover have "Asked (block_request cfg tip) (Inr (code, body)) \<in> set t"
          using p a by (auto simp: prefix_def)
        ultimately show ?thesis using m unfolding reported_tips_def by blast
      qed
      with p ft show ?thesis by blast
    qed
  qed
qed

lemma main_turn_extends:
  assumes "main_turn fuel net cfg tip h = Some (Inr tip', t)" and "tip_reported net cfg (tip, h)"
  shows "tip_reported net cfg (tip', t) \<and>
    prefix (h @ [Asked (block_request cfg tip) (urlopen net h (block_request cfg tip))]) t"
proof -
  obtain r u where run: "ship_block net cfg tip h = (r, u)" by (cases "ship_block net cfg tip h")
  note e = ship_block_extends [OF run, of]
  have ok: "tip \<in> reported_tips net h" "fetches_reported net cfg h"
    using assms(2) by (simp_all add: tip_reported_def)
  from e [OF ok] have p: "prefix (h @ [Asked (block_request cfg tip) (urlopen net h (block_request cfg tip))]) u"
    and f: "fetches_reported net cfg u" by simp_all
  show ?thesis
  proof (cases r)
    case (Inl x)
    have "fetches_reported net cfg (u @ [Slept ERROR_SLEEP_INTERVAL])"
      using f by (simp add: fetches_reported_snoc)
    moreover have "refetch_tip fuel net cfg (u @ [Slept ERROR_SLEEP_INTERVAL]) = Some (Inr tip', t)"
      using assms(1) run Inl by (simp add: main_turn_def)
    ultimately show ?thesis
      using refetch_extends p by (metis fst_conv prefixI prefix_order.trans snd_conv tip_reported_def)
  next
    case (Inr x)
    with assms(1) run have "x = tip'" "u = t" by (simp_all add: main_turn_def)
    with e [OF ok] Inr show ?thesis by (simp add: tip_reported_def)
  qed
qed

interpretation sidecar: guarded_machine "sidecar_step net cfg" "sidecar_started net cfg" "tip_reported net cfg"
  for net cfg
proof
  fix s t
  show "tip_reported net cfg s" if "sidecar_started net cfg s"
    using that refetch_extends [of _ net cfg "[]" "fst s" "snd s"]
    by (auto simp: sidecar_started_def tip_reported_def fetches_reported_def)
  show "tip_reported net cfg t" if "sidecar_step net cfg s t" "tip_reported net cfg s"
    using that main_turn_extends by (auto elim!: sidecar_step.cases)
qed

text \<open>
  C33. Every block the sidecar asks for is twelve below a chain length that an answer
  before the request reported.
\<close>

theorem sidecar_fetches_reported_tips:
  assumes "sidecar_started net cfg start" and "(sidecar_step net cfg)\<^sup>*\<^sup>* start (tip, h)"
    and "h = before @ Asked (block_request cfg b) answer # after"
  shows "b \<in> reported_tips net before"
  using sidecar.inv_reachable [OF assms(1,2)] assms(3) unfolding tip_reported_def fetches_reported_def
  by auto

section \<open>Progress\<close>

lemma sleeps_append [simp]: "sleeps (h @ h') = sleeps h + sleeps h'"
  by (simp add: sleeps_def)

lemma sleeps_events [simp]:
  "sleeps [] = 0" "sleeps (Asked req r # h) = sleeps h" "sleeps (Slept n # h) = Suc (sleeps h)"
  by (simp_all add: sleeps_def)

lemma sync_turn_synced:
  assumes "synced_after net cfg m" and "m \<le> sleeps h"
  shows "\<exists>head t. sync_turn net cfg h = (Some (JInt head), t)"
proof -
  from assms obtain code body head where
    "urlopen net h (status_request cfg) = Inr (code, body)"
    "read_status net body = Inr (JStr ''SYNCED'', JInt head)"
    unfolding synced_after_def by blast
  then show ?thesis by (simp add: sync_turn_def fetch_mina_status_def ebind_def open_url_run)
qed

lemma waiting_returns:
  assumes "synced_after net cfg m" and "synced_has_length net cfg" and "m \<le> fuel + sleeps h"
  shows "\<exists>head t. check_mina_node_sync_state_and_fetch_head (Suc fuel) net cfg h = Some (JInt head, t)"
  using assms(3)
proof (induction fuel arbitrary: h)
  case 0
  then obtain head t where "sync_turn net cfg h = (Some (JInt head), t)"
    using sync_turn_synced [OF assms(1)] by fastforce
  then show ?case by simp
next
  case (Suc fuel)
  obtain r u where turn: "sync_turn net cfg h = (r, u)" by (cases "sync_turn net cfg h")
  from turn show ?case
  proof (cases rule: sync_turn_cases)
    case (waits res)
    with Suc.prems have "m \<le> fuel + sleeps u" by simp
    from Suc.IH [OF this] turn waits(1) show ?thesis by simp
  next
    case (synced head code body)
    with assms(2) obtain n where "head = JInt n" unfolding synced_has_length_def by blast
    with turn synced(1) show ?thesis by simp
  qed
qed

lemma main_turn_returns:
  assumes "synced_after net cfg m" and "synced_has_length net cfg"
  shows "\<exists>tip' t. main_turn (Suc m) net cfg tip h = Some (Inr tip', t)"
proof -
  have "\<exists>tip' t. refetch_tip (Suc m) net cfg u = Some (Inr tip', t)" for u
    using waiting_returns [OF assms, of m u] by (auto simp: refetch_tip_def)
  then show ?thesis by (auto simp: main_turn_def split: sum.split prod.split)
qed

lemma fetches_grow:
  assumes "prefix (h @ [Asked (block_request cfg b) r]) t"
  shows "Suc (length (filter (is_fetch cfg) h)) \<le> length (filter (is_fetch cfg) t)"
  using assms by (auto simp: prefix_def is_fetch_def)

lemma sidecar_runs:
  assumes "synced_after net cfg m" and "synced_has_length net cfg" and "tip_reported net cfg start"
  shows "\<exists>tip h. (sidecar_step net cfg ^^ n) start (tip, h) \<and> n \<le> length (filter (is_fetch cfg) h) \<and>
           tip_reported net cfg (tip, h)"
proof (induction n)
  case 0
  show ?case using assms(3) by (cases start) auto
next
  case (Suc n)
  then obtain tip h where run: "(sidecar_step net cfg ^^ n) start (tip, h)"
    and n: "n \<le> length (filter (is_fetch cfg) h)" and ok: "tip_reported net cfg (tip, h)" by blast
  obtain tip' t where turn: "main_turn (Suc m) net cfg tip h = Some (Inr tip', t)"
    using main_turn_returns [OF assms(1,2)] by blast
  then have "sidecar_step net cfg (tip, h) (tip', t)" by (rule sidecar_step.turn)
  with run have "(sidecar_step net cfg ^^ Suc n) start (tip', t)" by auto
  moreover from main_turn_extends [OF turn ok] n have "Suc n \<le> length (filter (is_fetch cfg) t)"
    and "tip_reported net cfg (tip', t)"
    using fetches_grow by (meson Suc_le_mono order_trans)+
  ultimately show ?case by blast
qed

text \<open>
  C32. If the node reports being synchronised, with a numeric chain length, once the
  sidecar has slept m times, then the sidecar starts and completes every turn of its
  main loop whatever the other answers are: for every n it reaches a state with at least
  n blocks requested.
\<close>

theorem sidecar_keeps_fetching:
  assumes "synced_after net cfg m" and "synced_has_length net cfg"
  shows "\<exists>start. sidecar_started net cfg start \<and>
    (\<forall>n. \<exists>tip h. (sidecar_step net cfg ^^ n) start (tip, h) \<and> n \<le> length (filter (is_fetch cfg) h))"
proof -
  obtain head t where "check_mina_node_sync_state_and_fetch_head (Suc m) net cfg [] = Some (JInt head, t)"
    using waiting_returns [OF assms, of m "[]"] by auto
  then have "refetch_tip (Suc m) net cfg [] = Some (Inr (head - FINALIZATION_THRESHOLD), t)"
    by (simp add: refetch_tip_def)
  then have s: "sidecar_started net cfg (head - FINALIZATION_THRESHOLD, t)"
    unfolding sidecar_started_def by auto
  from sidecar_runs [OF assms sidecar.inv_init [OF s]] s show ?thesis by blast
qed

section \<open>A node that starts late\<close>

lemma demo_synced_status: "read_status demo_network body = Inr (JStr ''SYNCED'', JInt 100)"
  by (simp add: read_status_def demo_network_def demo_answer_def json_path_Cons)

lemma demo_synced: "synced_after demo_network demo_config 1" "synced_has_length demo_network demo_config"
  by (auto simp: synced_after_def synced_has_length_def demo_synced_status) (simp add: demo_network_def)

theorem sidecar_keeps_fetching_witness:
  "\<exists>start. sidecar_started demo_network demo_config start \<and>
    (\<forall>n. \<exists>tip h. (sidecar_step demo_network demo_config ^^ n) start (tip, h) \<and>
           n \<le> length (filter (is_fetch demo_config) h))"
  using sidecar_keeps_fetching [OF demo_synced] .

lemma demo_urlopen:
  "urlopen demo_network h req = (if sleeps h = 0 then Inl (PyException ''refused'') else Inr (200, ''ok''))"
  by (simp add: demo_network_def)

lemma demo_start:
  "refetch_tip (Suc (Suc 0)) demo_network demo_config [] =
     Some (Inr 88, [Asked (status_request demo_config) (Inl (PyException ''refused'')), Slept 5,
                    Asked (status_request demo_config) (Inr (200, ''ok''))])"
  by (simp add: refetch_tip_def sync_turn_def fetch_mina_status_def ebind_def open_url_run demo_synced_status
      FINALIZATION_THRESHOLD_def demo_urlopen)

lemma demo_ship:
  assumes "sleeps h \<noteq> 0"
  shows "\<exists>d. ship_block demo_network demo_config 88 h =
    (Inr 88, h @ [Asked (block_request demo_config 88) (Inr (200, ''ok'')),
                  Asked \<lparr>url = upload_url demo_config, req_data = d\<rparr> (Inr (200, ''ok'')), Slept FETCH_INTERVAL])"
proof -
  have "read_block demo_network ''ok'' = Inr (JDict [(''daemonStatus'',
     JDict [(''syncStatus'', JStr ''SYNCED''), (''blockchainLength'', JInt 100)])])"
    by (simp add: read_block_def demo_network_def demo_answer_def)
  with assms show ?thesis
    by (simp add: ship_block_def ebind_def fetch_block_run demo_urlopen send_update_def open_url_run
        with_receipt_def eseq_def sleep_def json_path_Cons FINALIZATION_THRESHOLD_def)
qed

theorem sidecar_fetches_reported_tips_witness:
  "88 \<in> reported_tips demo_network
     [Asked (status_request demo_config) (Inl (PyException ''refused'')), Slept 5,
      Asked (status_request demo_config) (Inr (200, ''ok''))]"
proof -
  let ?h = "[Asked (status_request demo_config) (Inl (PyException ''refused'')), Slept 5,
      Asked (status_request demo_config) (Inr (200, ''ok''))]"
  obtain d where "ship_block demo_network demo_config 88 ?h =
    (Inr 88, ?h @ [Asked (block_request demo_config 88) (Inr (200, ''ok'')),
                  Asked \<lparr>url = upload_url demo_config, req_data = d\<rparr> (Inr (200, ''ok'')), Slept FETCH_INTERVAL])"
    using demo_ship [of ?h] by auto
  then have "sidecar_step demo_network demo_config (88, ?h)
    (88, ?h @ Asked (block_request demo_config 88) (Inr (200, ''ok'')) #
              [Asked \<lparr>url = upload_url demo_config, req_data = d\<rparr> (Inr (200, ''ok'')), Slept FETCH_INTERVAL])"
    by (intro sidecar_step.turn [of 1]) (simp add: main_turn_def)
  moreover have "sidecar_started demo_network demo_config (88, ?h)"
    unfolding sidecar_started_def using demo_start by auto
  ultimately show ?thesis
    by (rule sidecar_fetches_reported_tips [rotated, OF r_into_rtranclp refl])
qed

end
