(* ===== verification/PpxLint.thy ===== *)
theory PpxLint
  imports Py_Effects
begin

text \<open>
  \<open>scripts/require-ppxs.py\<close>, the lint of the \<open>library\<close> and \<open>executable\<close> stanzas of the dune files.
  Its header requires preprocessing by \<open>ppx_version\<close>; what the script accepts is weaker
  (\<open>preprocess_accepted\<close>): a preprocess clause in any form but \<open>no_preprocessing\<close> and \<open>pps\<close> passes, and so does an
  instrumentation clause in any form but \<open>backend\<close>.

  The package \<open>sexpdata\<close> is a parameter, the record \<open>sexplib\<close>; \<open>sexp_laws\<close> states what the script
  relies on: single words load as symbols, \<open>car\<close> and \<open>cdr\<close> are the head and the tail of a list.
  The values it makes are symbols, strings, numbers and Python lists. The content of a
  file is given by the argument \<open>read\<close>. The state has the global \<open>exit_code\<close> and the lines printed.
\<close>

section \<open>Data\<close>

datatype sexp =
    Symbol string
  | SString string
  | SNumber int
  | SList "sexp list"

record sexplib =
  sx_loads :: "string \<Rightarrow> sexp result"
  sx_car :: "sexp \<Rightarrow> sexp result"
  sx_cdr :: "sexp \<Rightarrow> sexp result"
  sx_dumps :: "sexp \<Rightarrow> string"

record lint =
  exit_code :: int
  lint_lines :: "string list"

record ppx_symbols =
  sy_library :: sexp
  sy_executable :: sexp
  sy_preprocess :: sexp
  sy_pps :: sexp
  sy_backend :: sexp
  sy_no_preprocessing :: sexp
  sy_instrumentation :: sexp
  ppx_lint :: sexp
  ppx_coverage :: sexp
  version_lint_as_warning_flag :: sexp

definition load_symbols :: "sexplib \<Rightarrow> ppx_symbols result" where
  "load_symbols lib =
     rbind (sx_loads lib ''library'') (\<lambda>a.
     rbind (sx_loads lib ''executable'') (\<lambda>b.
     rbind (sx_loads lib ''preprocess'') (\<lambda>c.
     rbind (sx_loads lib ''pps'') (\<lambda>d.
     rbind (sx_loads lib ''backend'') (\<lambda>e.
     rbind (sx_loads lib ''no_preprocessing'') (\<lambda>f.
     rbind (sx_loads lib ''instrumentation'') (\<lambda>g.
     rbind (sx_loads lib ''ppx_version'') (\<lambda>h.
     rbind (sx_loads lib ''bisect_ppx'') (\<lambda>i.
     rbind (sx_loads lib ''-lint-version-syntax-warnings'') (\<lambda>j.
     Inr \<lparr>sy_library = a, sy_executable = b, sy_preprocess = c, sy_pps = d, sy_backend = e,
          sy_no_preprocessing = f, sy_instrumentation = g, ppx_lint = h, ppx_coverage = i,
          version_lint_as_warning_flag = j\<rparr>))))))))))"

section \<open>The files looked at\<close>

definition dune_paths_ok :: "string \<Rightarrow> bool" where
  "dune_paths_ok dune =
     (let path = split_on (CHR ''/'') dune;
          path_prefix2 = py_slice path 1 2;
          path_prefix3 = py_slice path 1 3 in
      \<not> (path_prefix2 = [''_build''] \<or> path_prefix2 = [''external'']
         \<or> path_prefix3 = [''lib'', ''marlin'']
         \<or> path_prefix3 = [''lib'', ''snarky'']
         \<or> path_prefix3 = [''lib'', ''ppx_version'']
         \<or> path_prefix3 = [''app'', ''reformat'']
         \<or> path_prefix3 = [''lib'', ''ppx_coda'']))"

definition dune_paths :: "string \<Rightarrow> string list" where
  "dune_paths dune_string =
     filter (\<lambda>s. 0 < length s \<and> dune_paths_ok s) (split_on (CHR ''\<newline>'') dune_string)"

section \<open>The error functions\<close>

definition lint_error :: "string \<Rightarrow> (lint, unit) eff" where
  "lint_error text = emodify (\<lambda>s. s\<lparr>lint_lines := lint_lines s @ [text], exit_code := 1\<rparr>)"

definition missing_ppx_error :: "sexplib \<Rightarrow> string \<Rightarrow> sexp \<Rightarrow> (lint, unit) eff" where
  "missing_ppx_error lib dune ppx =
     lint_error (''In dune file '' @ dune @
       '', the preprocessing clause is missing; there should be one containing '' @ sx_dumps lib ppx)"

definition missing_backend_error :: "sexplib \<Rightarrow> string \<Rightarrow> sexp \<Rightarrow> (lint, unit) eff" where
  "missing_backend_error lib dune ppx =
     lint_error (''In dune file '' @ dune @
       '', the instrumentation clause is missing; there should be one containing a backend for '' @
       sx_dumps lib ppx)"

definition no_ppx_error :: "sexplib \<Rightarrow> string \<Rightarrow> sexp \<Rightarrow> (lint, unit) eff" where
  "no_ppx_error lib dune ppxs =
     lint_error (''In dune file '' @ dune @
       '', the preprocessing clause indicates no preprocessing, but it should include '' @ sx_dumps lib ppxs)"

text \<open>\<open>xs.index(x)\<close>\<close>

fun sexp_index :: "sexp \<Rightarrow> sexp \<Rightarrow> sexp result" where
  "sexp_index (SList xs) x = (if x \<in> set xs then Inr x else Inl ValueError)"
| "sexp_index (SString s) x = Inl TypeError"
| "sexp_index _ x = Inl AttributeError"

definition get_ppx_ndx :: "sexplib \<Rightarrow> string \<Rightarrow> sexp \<Rightarrow> sexp \<Rightarrow> (lint, unit) eff" where
  "get_ppx_ndx lib dune ppxs ppx =
     ecatch (eseq (elift (sexp_index ppxs ppx)) (eret ()))
       (\<lambda>_. lint_error (''In dune file '' @ dune @
               '', the preprocessing clause does not contain '' @ sx_dumps lib ppx))"

definition check_for_proscribed_flag :: "sexplib \<Rightarrow> string \<Rightarrow> sexp \<Rightarrow> sexp \<Rightarrow> (lint, unit) eff" where
  "check_for_proscribed_flag lib dune ppxs flag =
     ecatch (eseq (elift (sexp_index ppxs flag))
               (lint_error (''In dune file '' @ dune @
                  '', the preprocessing clause contains proscribed flag '' @ sx_dumps lib flag)))
       (\<lambda>_. eret ())"

definition get_backends_ndx :: "sexplib \<Rightarrow> string \<Rightarrow> sexp \<Rightarrow> sexp \<Rightarrow> (lint, unit) eff" where
  "get_backends_ndx lib dune backends ppx =
     ecatch (eseq (elift (sexp_index backends ppx)) (eret ()))
       (\<lambda>_. lint_error (''In dune file '' @ dune @
               '', the instrumentation backends clause does not contain '' @ sx_dumps lib ppx))"

section \<open>The main loop\<close>

definition second :: "sexplib \<Rightarrow> sexp \<Rightarrow> sexp result" where
  "second lib clause = rbind (sx_cdr lib clause) (sx_car lib)"

definition check_preprocess :: "sexplib \<Rightarrow> ppx_symbols \<Rightarrow> string \<Rightarrow> sexp \<Rightarrow> (lint, unit) eff" where
  "check_preprocess lib sy dune clause =
     ebind (elift (second lib clause)) (\<lambda>subclause.
     if subclause = sy_no_preprocessing sy then no_ppx_error lib dune (ppx_lint sy)
     else ebind (elift (sx_car lib subclause)) (\<lambda>kind.
       if kind = sy_pps sy
       then ebind (elift (sx_cdr lib subclause)) (\<lambda>ppxs.
            eseq (check_for_proscribed_flag lib dune ppxs (version_lint_as_warning_flag sy))
                 (get_ppx_ndx lib dune ppxs (ppx_lint sy)))
       else eret ()))"

definition check_instrumentation :: "sexplib \<Rightarrow> ppx_symbols \<Rightarrow> string \<Rightarrow> sexp \<Rightarrow> (lint, unit) eff" where
  "check_instrumentation lib sy dune clause =
     ebind (elift (second lib clause)) (\<lambda>subclause.
     ebind (elift (sx_car lib subclause)) (\<lambda>kind.
     if kind = sy_backend sy
     then ebind (elift (sx_cdr lib subclause)) (\<lambda>backends.
          get_backends_ndx lib dune backends (ppx_coverage sy))
     else eret ()))"

text \<open>
  \<open>for clause in clauses\<close> with the two flags \<open>found_preprocess\<close> and \<open>found_instrumentation\<close>
\<close>

fun check_clauses ::
    "sexplib \<Rightarrow> ppx_symbols \<Rightarrow> string \<Rightarrow> sexp list \<Rightarrow> bool \<Rightarrow> bool \<Rightarrow> (lint, bool \<times> bool) eff" where
  "check_clauses lib sy dune [] found_pre found_ins = eret (found_pre, found_ins)"
| "check_clauses lib sy dune (clause # rest) found_pre found_ins =
     ebind (elift (sx_car lib clause)) (\<lambda>kind.
     eseq (if kind = sy_preprocess sy then check_preprocess lib sy dune clause else eret ())
    (eseq (if kind = sy_instrumentation sy then check_instrumentation lib sy dune clause else eret ())
          (check_clauses lib sy dune rest (found_pre \<or> kind = sy_preprocess sy)
             (found_ins \<or> kind = sy_instrumentation sy))))"

text \<open>\<open>for x in v\<close>\<close>

fun sexp_iter :: "sexp \<Rightarrow> sexp list result" where
  "sexp_iter (SList xs) = Inr xs"
| "sexp_iter (SString s) = Inr (map (\<lambda>c. SString [c]) s)"
| "sexp_iter _ = Inl TypeError"

definition check_body :: "sexplib \<Rightarrow> ppx_symbols \<Rightarrow> string \<Rightarrow> sexp \<Rightarrow> (lint, unit) eff" where
  "check_body lib sy dune sexp =
     ebind (elift (rbind (sx_cdr lib sexp) sexp_iter)) (\<lambda>clauses.
     ebind (check_clauses lib sy dune clauses False False) (\<lambda>(found_preprocess, found_instrumentation).
     eseq (if \<not> found_preprocess then missing_ppx_error lib dune (ppx_lint sy) else eret ())
          (if \<not> found_instrumentation then missing_backend_error lib dune (ppx_coverage sy) else eret ())))"

definition check_stanza :: "sexplib \<Rightarrow> ppx_symbols \<Rightarrow> string \<Rightarrow> sexp \<Rightarrow> (lint, unit) eff" where
  "check_stanza lib sy dune sexp =
     (case sexp of
        SList (x # xs) \<Rightarrow>
          ebind (elift (sx_car lib sexp)) (\<lambda>kind.
          if kind = sy_library sy \<or> kind = sy_executable sy
          then check_body lib sy dune sexp else eret ())
      | _ \<Rightarrow> eret ())"

definition check_file ::
    "sexplib \<Rightarrow> (string \<Rightarrow> string result) \<Rightarrow> ppx_symbols \<Rightarrow> string \<Rightarrow> (lint, unit) eff" where
  "check_file lib read sy dune =
     ebind (elift (rbind (read dune) (\<lambda>text. rbind (sx_loads lib (''('' @ text @ '')'')) sexp_iter)))
       (\<lambda>sexps. efor sexps (check_stanza lib sy dune))"

definition require_ppxs ::
    "sexplib \<Rightarrow> (string \<Rightarrow> string result) \<Rightarrow> string \<Rightarrow> unit result \<times> lint" where
  "require_ppxs lib read dune_string =
     ebind (elift (load_symbols lib)) (\<lambda>sy.
     efor (dune_paths dune_string) (check_file lib read sy)) \<lparr>exit_code = 0, lint_lines = []\<rparr>"

section \<open>What the lint accepts\<close>

text \<open>What the script relies on of \<open>sexpdata\<close>; \<open>cdr\<close> treats a list with a dot in second place as a pair.\<close>

definition words :: "string list" where
  "words = [''library'', ''executable'', ''preprocess'', ''pps'', ''backend'', ''no_preprocessing'',
            ''instrumentation'', ''ppx_version'', ''bisect_ppx'', ''-lint-version-syntax-warnings'']"

definition sexp_laws :: "sexplib \<Rightarrow> bool" where
  "sexp_laws lib \<longleftrightarrow>
     (\<forall>w\<in>set words. sx_loads lib w = Inr (Symbol w)) \<and>
     (\<forall>x xs. sx_car lib (SList (x # xs)) = Inr x) \<and>
     (\<forall>v x. sx_car lib v = Inr x \<longrightarrow> (\<exists>xs. v = SList (x # xs)) \<or> (\<exists>c s. v = SString (c # s) \<and> x = SString [c])) \<and>
     (\<forall>x xs. take 1 xs \<noteq> [Symbol ''.''] \<longrightarrow> sx_cdr lib (SList (x # xs)) = Inr (SList xs))"

fun undotted :: "sexp \<Rightarrow> bool" where
  "undotted (SList xs) = (take 1 (drop 1 xs) \<noteq> [Symbol ''.''] \<and> (\<forall>x\<in>set xs. undotted x))"
| "undotted _ = True"

text \<open>
  A preprocess clause is rejected when it says \<open>no_preprocessing\<close> and when it is a \<open>pps\<close> list
  without \<open>ppx_version\<close> or with the flag. Any other form is accepted unseen: an \<open>action\<close>, \<open>per_module\<close>,
  \<open>staged_pps\<close> or \<open>future_syntax\<close>.
\<close>

fun preprocess_accepted :: "sexp \<Rightarrow> bool" where
  "preprocess_accepted (SList (Symbol p # sub # rest)) =
     (p = ''preprocess'' \<longrightarrow>
        sub \<noteq> Symbol ''no_preprocessing'' \<and>
        (case sub of
           SList (kind # ppxs) \<Rightarrow> kind = Symbol ''pps'' \<longrightarrow>
             Symbol ''-lint-version-syntax-warnings'' \<notin> set ppxs \<and> Symbol ''ppx_version'' \<in> set ppxs
         | _ \<Rightarrow> True))"
| "preprocess_accepted _ = True"

fun instrumentation_accepted :: "sexp \<Rightarrow> bool" where
  "instrumentation_accepted (SList (Symbol i # sub # rest)) =
     (i = ''instrumentation'' \<longrightarrow>
        (case sub of
           SList (kind # backends) \<Rightarrow> kind = Symbol ''backend'' \<longrightarrow> Symbol ''bisect_ppx'' \<in> set backends
         | _ \<Rightarrow> True))"
| "instrumentation_accepted _ = True"

fun has_head :: "string \<Rightarrow> sexp \<Rightarrow> bool" where
  "has_head w (SList (x # xs)) = (x = Symbol w)"
| "has_head w _ = False"

text \<open>One stanza of a dune file\<close>

fun stanza_accepted :: "sexp \<Rightarrow> bool" where
  "stanza_accepted (SList (x # clauses)) =
     (x \<in> {Symbol ''library'', Symbol ''executable''} \<longrightarrow>
        list_ex (has_head ''preprocess'') clauses \<and> list_ex (has_head ''instrumentation'') clauses \<and>
        list_all preprocess_accepted clauses \<and> list_all instrumentation_accepted clauses)"
| "stanza_accepted _ = True"

definition file_accepted :: "sexplib \<Rightarrow> (string \<Rightarrow> string result) \<Rightarrow> string \<Rightarrow> bool" where
  "file_accepted lib read dune =
     (case rbind (read dune) (\<lambda>text. sx_loads lib (''('' @ text @ '')'')) of
        Inr (SList sexps) \<Rightarrow> list_all stanza_accepted sexps
      | _ \<Rightarrow> True)"

definition std_symbols :: ppx_symbols where
  "std_symbols =
     \<lparr>sy_library = Symbol ''library'', sy_executable = Symbol ''executable'',
      sy_preprocess = Symbol ''preprocess'', sy_pps = Symbol ''pps'', sy_backend = Symbol ''backend'',
      sy_no_preprocessing = Symbol ''no_preprocessing'', sy_instrumentation = Symbol ''instrumentation'',
      ppx_lint = Symbol ''ppx_version'', ppx_coverage = Symbol ''bisect_ppx'',
      version_lint_as_warning_flag = Symbol ''-lint-version-syntax-warnings''\<rparr>"

text \<open>A statement that sets the exit code, when it returns, exactly if \<open>b\<close> fails.\<close>

definition marks :: "(lint, 'a) eff \<Rightarrow> bool \<Rightarrow> bool" where
  "marks m b \<longleftrightarrow> (\<forall>s x t. m s = (Inr x, t) \<longrightarrow> exit_code t = (if b then exit_code s else 1))"

text \<open>A reader of lists written out in full words, enough to run the script on an example.\<close>

definition demo_sexplib :: "sexp list \<Rightarrow> sexplib" where
  "demo_sexplib stanzas =
     \<lparr>sx_loads = \<lambda>s. if take 1 s = ''('' then Inr (SList stanzas) else Inr (Symbol s),
      sx_car = \<lambda>v. (case v of SList (x # xs) \<Rightarrow> Inr x | SList [] \<Rightarrow> Inl IndexError | SString (c # s) \<Rightarrow> Inr (SString [c])
                       | SString [] \<Rightarrow> Inl IndexError | _ \<Rightarrow> Inl TypeError),
      sx_cdr = \<lambda>v. (case v of SList xs \<Rightarrow> (case drop 1 xs of Symbol d # y # ys \<Rightarrow> if d = ''.'' then Inr y else Inr (SList (drop 1 xs))
                                           | _ \<Rightarrow> Inr (SList (drop 1 xs)))
                       | SString s \<Rightarrow> Inr (SString (drop 1 s)) | _ \<Rightarrow> Inl TypeError),
      sx_dumps = \<lambda>v. (case v of Symbol s \<Rightarrow> s | _ \<Rightarrow> '''')\<rparr>"

definition demo_stanza :: sexp where
  "demo_stanza =
     SList [Symbol ''library'', SList [Symbol ''preprocess'', SList [Symbol ''pps'', Symbol ''ppx_jane'']],
            SList [Symbol ''instrumentation'', SList [Symbol ''backend'', Symbol ''bisect_ppx'']]]"

section \<open>Which statements set the exit code\<close>

lemma ebind_elift: "ebind (elift (Inr x)) f = f x"
  by (rule ext) (simp add: ebind_def)

lemma marksD: "marks m b \<Longrightarrow> m s = (Inr x, t) \<Longrightarrow> exit_code t = (if b then exit_code s else 1)"
  by (simp add: marks_def)

lemma marks_simps:
  "marks (eret x) True" "marks (eraise e) b" "marks (lint_error text) False"
  by (auto simp: marks_def lint_error_def)

lemma marks_seq: "marks m a \<Longrightarrow> marks n b \<Longrightarrow> marks (eseq m n) (a \<and> b)"
  unfolding marks_def eseq_def ebind_def by (auto split: prod.splits sum.splits)

lemma marks_lift: "(\<And>x. r = Inr x \<Longrightarrow> marks (f x) b) \<Longrightarrow> marks (ebind (elift r) f) b"
  by (cases r) (auto simp: marks_def ebind_def)

lemma marks_if: "(c \<Longrightarrow> marks m a) \<Longrightarrow> (\<not> c \<Longrightarrow> marks n b) \<Longrightarrow> marks (if c then m else n) (if c then a else b)"
  by simp

lemma marks_for: "(\<And>x. x \<in> set xs \<Longrightarrow> marks (f x) (p x)) \<Longrightarrow> marks (efor xs f) (list_all p xs)"
  by (induction xs) (auto simp: marks_simps marks_seq)

lemma marks_index:
  "marks (get_ppx_ndx lib dune (SList xs) ppx) (ppx \<in> set xs)"
  "marks (get_backends_ndx lib dune (SList xs) ppx) (ppx \<in> set xs)"
  "marks (check_for_proscribed_flag lib dune (SList xs) ppx) (ppx \<notin> set xs)"
  by (auto simp: marks_def get_ppx_ndx_def get_backends_ndx_def check_for_proscribed_flag_def ecatch_def
      eseq_def ebind_def lint_error_def)

lemma marks_errors:
  "marks (missing_ppx_error lib dune ppx) False" "marks (missing_backend_error lib dune ppx) False"
  "marks (no_ppx_error lib dune ppx) False"
  by (simp_all add: missing_ppx_error_def missing_backend_error_def no_ppx_error_def marks_simps)

section \<open>Stanzas\<close>

lemma car_Symbol:
  assumes "sexp_laws lib" and "sx_car lib v = Inr (Symbol w)"
  obtains xs where "v = SList (Symbol w # xs)"
  using assms unfolding sexp_laws_def by blast

lemma cdr_undotted: "sexp_laws lib \<Longrightarrow> undotted (SList (x # xs)) \<Longrightarrow> sx_cdr lib (SList (x # xs)) = Inr (SList xs)"
  by (simp add: sexp_laws_def)

lemma second_undotted:
  assumes "sexp_laws lib" and "undotted (SList (x # xs))" and "second lib (SList (x # xs)) = Inr y"
  obtains ys where "xs = y # ys"
proof -
  have "sx_car lib (SList xs) = Inr y"
    using assms(3) cdr_undotted [OF assms(1,2)] by (simp add: second_def)
  with assms(1) that show thesis unfolding sexp_laws_def by blast
qed

lemma car_cases:
  assumes "sexp_laws lib" and "sx_car lib v = Inr y"
  obtains xs where "v = SList (y # xs)" | c s where "v = SString (c # s)" "y = SString [c]"
  using assms unfolding sexp_laws_def by blast

lemma marks_preprocess:
  assumes laws: "sexp_laws lib" and u: "undotted (SList (Symbol ''preprocess'' # xs))"
  shows "marks (check_preprocess lib std_symbols dune (SList (Symbol ''preprocess'' # xs)))
           (preprocess_accepted (SList (Symbol ''preprocess'' # xs)))"
  unfolding check_preprocess_def
proof (rule marks_lift)
  fix sub
  assume "second lib (SList (Symbol ''preprocess'' # xs)) = Inr sub"
  then obtain ys where xs: "xs = sub # ys" by (rule second_undotted [OF laws u])
  show "marks (if sub = sy_no_preprocessing std_symbols then no_ppx_error lib dune (ppx_lint std_symbols)
     else ebind (elift (sx_car lib sub)) (\<lambda>kind.
       if kind = sy_pps std_symbols
       then ebind (elift (sx_cdr lib sub)) (\<lambda>ppxs.
            eseq (check_for_proscribed_flag lib dune ppxs (version_lint_as_warning_flag std_symbols))
                 (get_ppx_ndx lib dune ppxs (ppx_lint std_symbols)))
       else eret ())) (preprocess_accepted (SList (Symbol ''preprocess'' # xs)))" (is "marks (if ?no then _ else ?rest) _")
  proof (cases ?no)
    case True
    then show ?thesis by (simp add: xs std_symbols_def marks_errors)
  next
    case False
    have "marks ?rest (preprocess_accepted (SList (Symbol ''preprocess'' # xs)))"
    proof (rule marks_lift)
      fix kind
      assume car: "sx_car lib sub = Inr kind"
      show "marks (if kind = sy_pps std_symbols
       then ebind (elift (sx_cdr lib sub)) (\<lambda>ppxs.
            eseq (check_for_proscribed_flag lib dune ppxs (version_lint_as_warning_flag std_symbols))
                 (get_ppx_ndx lib dune ppxs (ppx_lint std_symbols)))
       else eret ()) (preprocess_accepted (SList (Symbol ''preprocess'' # xs)))"
        using laws car
      proof (cases rule: car_cases)
        case (1 ppxs)
        with u xs have "sx_cdr lib sub = Inr (SList ppxs)" by (simp add: cdr_undotted [OF laws])
        then show ?thesis
          using False 1
          by (auto simp: xs std_symbols_def ebind_elift marks_simps intro!: marks_seq marks_index)
      next
        case (2 c s)
        with False show ?thesis by (simp add: xs std_symbols_def marks_simps)
      qed
    qed
    with False show ?thesis by simp
  qed
qed

lemma marks_instrumentation:
  assumes laws: "sexp_laws lib" and u: "undotted (SList (Symbol ''instrumentation'' # xs))"
  shows "marks (check_instrumentation lib std_symbols dune (SList (Symbol ''instrumentation'' # xs)))
           (instrumentation_accepted (SList (Symbol ''instrumentation'' # xs)))"
  unfolding check_instrumentation_def
proof (intro marks_lift)
  fix sub kind
  assume "second lib (SList (Symbol ''instrumentation'' # xs)) = Inr sub"
  then obtain ys where xs: "xs = sub # ys" by (rule second_undotted [OF laws u])
  assume car: "sx_car lib sub = Inr kind"
  show "marks (if kind = sy_backend std_symbols
     then ebind (elift (sx_cdr lib sub)) (\<lambda>backends.
          get_backends_ndx lib dune backends (ppx_coverage std_symbols))
     else eret ()) (instrumentation_accepted (SList (Symbol ''instrumentation'' # xs)))"
    using laws car
  proof (cases rule: car_cases)
    case (1 backends)
    with u xs have "sx_cdr lib sub = Inr (SList backends)" by (simp add: cdr_undotted [OF laws])
    then show ?thesis
      using 1 by (auto simp: xs std_symbols_def ebind_elift marks_simps intro!: marks_index)
  next
    case (2 c s)
    then show ?thesis by (simp add: xs std_symbols_def marks_simps)
  qed
qed

lemma head_of_car:
  assumes "sexp_laws lib" and "sx_car lib v = Inr kind"
  shows "has_head w v \<longleftrightarrow> kind = Symbol w"
  using assms by (cases rule: car_cases) auto

lemma preprocess_accepted_other: "\<not> has_head ''preprocess'' v \<Longrightarrow> preprocess_accepted v"
  by (induction v rule: preprocess_accepted.induct) auto

lemma instrumentation_accepted_other: "\<not> has_head ''instrumentation'' v \<Longrightarrow> instrumentation_accepted v"
  by (induction v rule: instrumentation_accepted.induct) auto

lemma marks_clause:
  assumes laws: "sexp_laws lib" and u: "undotted clause" and car: "sx_car lib clause = Inr kind"
  shows "marks (if kind = Symbol ''preprocess'' then check_preprocess lib std_symbols dune clause else eret ())
           (preprocess_accepted clause)"
    and "marks (if kind = Symbol ''instrumentation'' then check_instrumentation lib std_symbols dune clause else eret ())
           (instrumentation_accepted clause)"
proof -
  show "marks (if kind = Symbol ''preprocess'' then check_preprocess lib std_symbols dune clause else eret ())
           (preprocess_accepted clause)"
  proof (cases "kind = Symbol ''preprocess''")
    case True
    with laws car obtain xs where "clause = SList (Symbol ''preprocess'' # xs)" by (auto elim: car_Symbol)
    with True u marks_preprocess [OF laws] show ?thesis by simp
  next
    case False
    with head_of_car [OF laws car] have "preprocess_accepted clause" by (intro preprocess_accepted_other) simp
    with False show ?thesis by (simp add: marks_simps)
  qed
  show "marks (if kind = Symbol ''instrumentation'' then check_instrumentation lib std_symbols dune clause else eret ())
           (instrumentation_accepted clause)"
  proof (cases "kind = Symbol ''instrumentation''")
    case True
    with laws car obtain xs where "clause = SList (Symbol ''instrumentation'' # xs)" by (auto elim: car_Symbol)
    with True u marks_instrumentation [OF laws] show ?thesis by simp
  next
    case False
    with head_of_car [OF laws car] have "instrumentation_accepted clause" by (intro instrumentation_accepted_other) simp
    with False show ?thesis by (simp add: marks_simps)
  qed
qed

lemma check_clauses_marks:
  assumes laws: "sexp_laws lib" and "\<forall>c\<in>set clauses. undotted c"
    and "check_clauses lib std_symbols dune clauses fp fi s = (Inr (fp', fi'), t)"
  shows "exit_code t = (if list_all preprocess_accepted clauses \<and> list_all instrumentation_accepted clauses
                        then exit_code s else 1) \<and>
    fp' = (fp \<or> list_ex (has_head ''preprocess'') clauses) \<and>
    fi' = (fi \<or> list_ex (has_head ''instrumentation'') clauses)"
  using assms(2,3)
proof (induction clauses arbitrary: fp fi s)
  case Nil
  then show ?case by simp
next
  case (Cons clause rest)
  from Cons.prems(2) obtain kind where car: "sx_car lib clause = Inr kind"
    by (cases "sx_car lib clause") (auto simp: ebind_def)
  let ?P = "if kind = Symbol ''preprocess'' then check_preprocess lib std_symbols dune clause else eret ()"
  let ?I = "if kind = Symbol ''instrumentation'' then check_instrumentation lib std_symbols dune clause else eret ()"
  have sy: "sy_preprocess std_symbols = Symbol ''preprocess''"
    "sy_instrumentation std_symbols = Symbol ''instrumentation''" by (simp_all add: std_symbols_def)
  obtain x u y v where p: "?P s = (Inr x, u)" and i: "?I u = (Inr y, v)"
    and rest: "check_clauses lib std_symbols dune rest (fp \<or> kind = Symbol ''preprocess'')
                 (fi \<or> kind = Symbol ''instrumentation'') v = (Inr (fp', fi'), t)"
    using Cons.prems(2) unfolding check_clauses.simps car ebind_elift sy eseq_def ebind_def
    by (auto split: prod.splits sum.splits)
  have uc: "undotted clause" using Cons.prems(1) by simp
  note mc = marksD [OF marks_clause(1) [OF laws uc car] p] marksD [OF marks_clause(2) [OF laws uc car] i]
  from Cons.IH [OF _ rest] Cons.prems(1) mc head_of_car [OF laws car] show ?case by auto
qed

lemma marks_body:
  assumes laws: "sexp_laws lib" and u: "undotted (SList (x # clauses))"
  shows "marks (check_body lib std_symbols dune (SList (x # clauses)))
    (list_ex (has_head ''preprocess'') clauses \<and> list_ex (has_head ''instrumentation'') clauses \<and>
     list_all preprocess_accepted clauses \<and> list_all instrumentation_accepted clauses)"
  unfolding marks_def
proof (intro allI impI)
  fix s y t
  let ?close = "\<lambda>fp fi. eseq (if \<not> fp then missing_ppx_error lib dune (ppx_lint std_symbols) else eret ())
          (if \<not> fi then missing_backend_error lib dune (ppx_coverage std_symbols) else eret ())"
  assume "check_body lib std_symbols dune (SList (x # clauses)) s = (Inr y, t)"
  then obtain fp fi v where run: "check_clauses lib std_symbols dune clauses False False s = (Inr (fp, fi), v)"
    and fin: "?close fp fi v = (Inr y, t)"
    unfolding check_body_def cdr_undotted [OF laws u] rbind_simps sexp_iter.simps ebind_elift
    by (auto simp: ebind_def split: prod.splits sum.splits)
  have "marks (?close fp fi) (fp \<and> fi)"
    by (rule marks_seq) (auto simp: marks_simps marks_errors)
  from marksD [OF this fin] check_clauses_marks [OF laws _ run] u
  show "exit_code t = (if list_ex (has_head ''preprocess'') clauses \<and> list_ex (has_head ''instrumentation'') clauses \<and>
     list_all preprocess_accepted clauses \<and> list_all instrumentation_accepted clauses then exit_code s else 1)"
    by auto
qed

lemma marks_stanza:
  assumes laws: "sexp_laws lib" and u: "undotted sexp"
  shows "marks (check_stanza lib std_symbols dune sexp) (stanza_accepted sexp)"
proof (cases "\<exists>x clauses. sexp = SList (x # clauses)")
  case True
  then obtain x clauses where s: "sexp = SList (x # clauses)" by blast
  have car: "sx_car lib (SList (x # clauses)) = Inr x" using laws by (simp add: sexp_laws_def)
  show ?thesis
    using marks_body [OF laws u [unfolded s]]
    by (auto simp: s check_stanza_def car ebind_elift marks_simps std_symbols_def [THEN arg_cong, of sy_library]
        std_symbols_def [THEN arg_cong, of sy_executable])
next
  case False
  then show ?thesis by (cases sexp rule: stanza_accepted.cases) (auto simp: check_stanza_def marks_simps)
qed

lemma marks_file:
  assumes laws: "sexp_laws lib"
    and u: "\<And>v. rbind (read dune) (\<lambda>text. sx_loads lib (''('' @ text @ '')'')) = Inr v \<Longrightarrow> undotted v \<and> (\<exists>xs. v = SList xs)"
  shows "marks (check_file lib read std_symbols dune) (file_accepted lib read dune)"
  unfolding check_file_def
proof (rule marks_lift)
  fix sexps
  assume "rbind (read dune) (\<lambda>text. rbind (sx_loads lib (''('' @ text @ '')'')) sexp_iter) = Inr sexps"
  then obtain body v where r: "read dune = Inr body" "sx_loads lib (''('' @ body @ '')'') = Inr v" "sexp_iter v = Inr sexps"
    by (auto simp: rbind_eq_Inr)
  with u have v: "v = SList sexps" "\<forall>x\<in>set sexps. undotted x" by fastforce+
  have "marks (efor sexps (check_stanza lib std_symbols dune)) (list_all stanza_accepted sexps)"
    using v(2) by (intro marks_for marks_stanza laws) auto
  with r v show "marks (efor sexps (check_stanza lib std_symbols dune)) (file_accepted lib read dune)"
    by (simp add: file_accepted_def)
qed

lemma load_symbols_std: "sexp_laws lib \<Longrightarrow> load_symbols lib = Inr std_symbols"
  by (simp add: sexp_laws_def words_def load_symbols_def std_symbols_def)

text \<open>
  C34. When the lint ends without an exception, on files without dotted pairs, its exit code is
  0 exactly if every library and executable stanza of every file looked at has a preprocess
  clause and an instrumentation clause, no preprocess clause is no_preprocessing, each of
  them that is a pps list has ppx_version and not the flag that turns its errors into
  warnings, and each instrumentation clause that is a backend list has bisect_ppx. A
  preprocess clause of any other form passes, whatever it runs, and so does an
  instrumentation clause of any other form.
\<close>

theorem require_ppxs_exit_code:
  assumes laws: "sexp_laws lib"
    and plain: "\<forall>dune\<in>set (dune_paths dune_string). \<forall>v.
      rbind (read dune) (\<lambda>text. sx_loads lib (''('' @ text @ '')'')) = Inr v \<longrightarrow> undotted v \<and> (\<exists>xs. v = SList xs)"
    and run: "require_ppxs lib read dune_string = (Inr (), t)"
  shows "exit_code t = (if list_all (file_accepted lib read) (dune_paths dune_string) then 0 else 1) \<and>
    (\<forall>form args. form \<noteq> ''pps'' \<longrightarrow>
       preprocess_accepted (SList [Symbol ''preprocess'', SList (Symbol form # args)])) \<and>
    (\<forall>form args. form \<noteq> ''backend'' \<longrightarrow>
       instrumentation_accepted (SList [Symbol ''instrumentation'', SList (Symbol form # args)]))"
proof -
  have "marks (efor (dune_paths dune_string) (check_file lib read std_symbols))
          (list_all (file_accepted lib read) (dune_paths dune_string))"
    using plain by (intro marks_for marks_file laws) blast
  from marksD [OF this, of "\<lparr>exit_code = 0, lint_lines = []\<rparr>" "()" t] run show ?thesis
    unfolding require_ppxs_def load_symbols_std [OF laws] ebind_elift by simp
qed

section \<open>A library without the version linter\<close>

lemma demo_laws: "sexp_laws (demo_sexplib stanzas)"
  unfolding sexp_laws_def
proof (intro conjI allI ballI impI)
  fix w show "w \<in> set words \<Longrightarrow> sx_loads (demo_sexplib stanzas) w = Inr (Symbol w)"
    by (auto simp: words_def demo_sexplib_def)
next
  fix x xs show "sx_car (demo_sexplib stanzas) (SList (x # xs)) = Inr x" by (simp add: demo_sexplib_def)
next
  fix v x
  assume "sx_car (demo_sexplib stanzas) v = Inr x"
  then show "(\<exists>xs. v = SList (x # xs)) \<or> (\<exists>c s. v = SString (c # s) \<and> x = SString [c])"
    by (auto simp: demo_sexplib_def split: sexp.splits list.splits)
next
  fix x :: sexp and xs
  assume "take 1 xs \<noteq> [Symbol ''.'']"
  then show "sx_cdr (demo_sexplib stanzas) (SList (x # xs)) = Inr (SList xs)"
    by (auto simp: demo_sexplib_def split: sexp.splits list.splits)
qed

lemma demo_lint:
  "require_ppxs (demo_sexplib [demo_stanza]) (\<lambda>_. Inr '''') ''src/lib/blake2/dune'' =
     (Inr (), \<lparr>exit_code = 1,
       lint_lines = [''In dune file src/lib/blake2/dune, the preprocessing clause does not contain ppx_version'']\<rparr>)"
  by code_simp

theorem require_ppxs_exit_code_witness:
  "dune_paths ''src/lib/blake2/dune'' = [''src/lib/blake2/dune''] \<and>
   \<not> file_accepted (demo_sexplib [demo_stanza]) (\<lambda>_. Inr '''') ''src/lib/blake2/dune''"
proof -
  have p: "dune_paths ''src/lib/blake2/dune'' = [''src/lib/blake2/dune'']" by code_simp
  have "undotted (SList [demo_stanza])" by code_simp
  then have "\<forall>dune\<in>set (dune_paths ''src/lib/blake2/dune''). \<forall>v.
      rbind (Inr '''') (\<lambda>text. sx_loads (demo_sexplib [demo_stanza]) (''('' @ text @ '')'')) = Inr v \<longrightarrow>
      undotted v \<and> (\<exists>xs. v = SList xs)"
    by (simp add: demo_sexplib_def)
  from require_ppxs_exit_code [OF demo_laws this demo_lint] p show ?thesis
    by (simp split: if_splits)
qed

text \<open>
  A library that is preprocessed by an action passes, although ppx_version is not run on it.
\<close>

definition action_stanza :: sexp where
  "action_stanza =
     SList [Symbol ''library'', SList [Symbol ''preprocess'', SList [Symbol ''action'', SList [Symbol ''run'', Symbol ''sed'']]],
            SList [Symbol ''instrumentation'', SList [Symbol ''backend'', Symbol ''bisect_ppx'']]]"

lemma action_passes_lint:
  "require_ppxs (demo_sexplib [action_stanza]) (\<lambda>_. Inr '''') ''src/lib/blake2/dune'' =
     (Inr (), \<lparr>exit_code = 0, lint_lines = []\<rparr>)"
  by code_simp

end
