(* ===== verification/Faucet.thy ===== *)
theory Faucet
  imports Py_Json
begin

text \<open>
  The Discord faucet, \<open>automation/services/faucet/tiny.py\<close> and \<open>faucet.py\<close>: a user asks for funds in
  the channel, a moderator approves by a reaction, and a payment is sent.

  The coroutines that serve the requests interleave at every \<open>await\<close>. The state has the globals
  of the module (\<open>ACTIVE_REQUESTS\<close>, \<open>SENT_TRANSACTION_THIS_BLOCK\<close>, the counters) and the coroutines
  that are suspended, each with the \<open>await\<close> it is at; \<open>fstep\<close> has one rule per way to go on,
  one for a new message, one for a new block and one for an exception at any \<open>await\<close>. The log of
  events keeps what was posted, every reaction that was seen, the questions asked and the payments
  handed to the daemon. Strings are UTF-8 bytes; log lines are left out, but what they evaluate is not: a user
  without roles (a \<open>discord.User\<close>, where Discord does not deliver a \<open>discord.Member\<close>) makes the
  line \<open>logger.debug(user.roles)\<close> of \<open>check_approval\<close> raise. \<open>client.wait_for\<close> documents that it returns
  what its future holds, and an exception of the check is set on that future: the task is done then as well. The
  exception \<open>asyncio.TimeoutError\<close> needs no rule of its own: \<open>asyncio.wait\<close> is called without a timeout.
\<close>

section \<open>Data\<close>

record message =
  author :: nat
  author_mention :: string
  author_roles :: "string list option"
  channel :: string
  content :: string
  guild_roles :: "(string \<times> string) list"

type_synonym payment = "string \<times> string \<times> string option \<times> string \<times> string"

record faucet_env =
  bot_user :: nat
  CODA_FAUCET_AMOUNT :: "string option"
  FAUCET_PUBLIC_KEY :: string
  FAUCET_FEE :: string
  faucet_status :: "json result"
  faucet_wallet :: "json result"
  unicode_word :: "string \<Rightarrow> bool"

datatype faucet_event =
    Posted string
  | Asked nat string
  | Reacted nat nat "string list option" string
  | Paid nat payment

text \<open>
  Where a coroutine waits: posting the question, for a reaction (with the message asked about,
  and whether the tasks \<open>cancel\<close> and \<open>approval\<close> are done), posting that the payment is approved,
  for the payment, posting its result, or posting one of the three refusals.
\<close>

datatype stage =
    Prompting string string
  | Waiting string nat bool bool
  | Announcing string nat
  | Paying string nat
  | Reporting string nat
  | Cancelling
  | Too_Many
  | Invalid

record handler =
  requester :: nat
  mention :: string
  stage :: stage

record faucet =
  ACTIVE_REQUESTS :: "(nat, string) dict"
  SENT_TRANSACTION_THIS_BLOCK :: bool
  TRANSACTION_COUNT :: nat
  TOTAL_CODA_SENT :: int
  PLEASE_WAIT_ERRORS :: nat
  BLOCK_NOTIFICATIONS_RECIEVED :: nat
  handlers :: "handler list"
  next_message :: nat
  events :: "faucet_event list"

definition init_faucet :: faucet where
  "init_faucet =
     \<lparr>ACTIVE_REQUESTS = [], SENT_TRANSACTION_THIS_BLOCK = False, TRANSACTION_COUNT = 0,
      TOTAL_CODA_SENT = 0, PLEASE_WAIT_ERRORS = 0, BLOCK_NOTIFICATIONS_RECIEVED = 0,
      handlers = [], next_message = 0, events = []\<rparr>"

definition LISTENING_CHANNELS :: "string list" where
  "LISTENING_CHANNELS = [''faucet'']"

definition FAUCET_APPROVE_ROLE :: string where
  "FAUCET_APPROVE_ROLE = ''faucet-approvers''"

definition MOD_ROLE :: string where
  "MOD_ROLE = ''mod''"

definition cross_mark :: string where
  "cross_mark = [CHR 0xE2, CHR 0x9D, CHR 0x8C]"

definition thumbs_up :: string where
  "thumbs_up = [CHR 0xF0, CHR 0x9F, CHR 0x91, CHR 0x8D]"

section \<open>Commands without a request\<close>

definition post :: "string \<Rightarrow> faucet \<Rightarrow> faucet" where
  "post text s = s\<lparr>events := events s @ [Posted text]\<rparr>"

definition new_block_callback :: "faucet \<Rightarrow> faucet" where
  "new_block_callback s =
     s\<lparr>SENT_TRANSACTION_THIS_BLOCK := False,
       BLOCK_NOTIFICATIONS_RECIEVED := BLOCK_NOTIFICATIONS_RECIEVED s + 1\<rparr>"

definition command :: "string \<Rightarrow> message \<Rightarrow> bool" where
  "command word msg \<longleftrightarrow> startswith (content msg) word \<and> channel msg \<in> set LISTENING_CHANNELS"

definition status_text :: "faucet_env \<Rightarrow> string result" where
  "status_text env =
     rbind (rbind (faucet_status env) (\<lambda>r. json_item r ''daemonStatus'')) (\<lambda>status.
     rbind (rbind (faucet_wallet env) (\<lambda>r. json_item r ''wallet'')) (\<lambda>wallet.
     rbind (json_item status ''blockchainLength'') (\<lambda>len.
     rbind (json_item status ''uptimeSecs'') (\<lambda>up.
     rbind (rbind (json_item status ''peers'') json_len) (\<lambda>npeers.
     rbind (json_item status ''consensusTimeBestTip'') (\<lambda>best.
     rbind (json_item status ''consensusTimeNow'') (\<lambda>now.
     rbind (json_path wallet [''balance'', ''total'']) (\<lambda>bal_total.
     rbind (json_path wallet [''balance'', ''unknown'']) (\<lambda>bal_unknown.
     rbind (json_item wallet ''nonce'') (\<lambda>nonce.
     Inr (''\<newline>**Daemon Status**\<newline>Blockchain Length: `'' @ json_str len @
          ''`\<newline>Uptime: `'' @ json_str up @ '' seconds`\<newline># Peers: `'' @ str_nat npeers @
          ''`\<newline>Best Consensus Time: `'' @ json_str best @ ''`\<newline>Consensus Time Now: `'' @ json_str now @
          ''`\<newline>**Faucet** \<newline>Balance (Total): `'' @ json_str bal_total @ ''` Coda\<newline>Balance (Unknown): `'' @
          json_str bal_unknown @ ''` Coda\<newline>Nonce: `'' @ json_str nonce @ ''`\<newline>            '')))))))))))"

definition help_text :: string where
  "help_text =
     ''```\<newline>Woof! I can help you get some coda on the testnet.\<newline>'' @
     ''Just send me a message in the #faucet channel with the following contents: \<newline>\<newline>`$request <public-key>`\<newline>\<newline>'' @
     ''Once a mod approves, `100 CODA` will be sent to the requested address!\<newline>        ```''"

section \<open>A request\<close>

text \<open>
  The characters of a text in UTF-8: a byte and the continuation bytes after it. \<open>\w\<close> takes
  the ASCII letters, digits and the underscore, and of the other characters those the Unicode
  tables of the interpreter call alphanumeric (\<open>unicode_word\<close>).
\<close>

definition continuation :: "char \<Rightarrow> bool" where
  "continuation c = (let n = of_char c :: nat in 128 \<le> n \<and> n < 192)"

function characters :: "string \<Rightarrow> string list" where
  "characters [] = []"
| "characters (c # cs) = (c # takeWhile continuation cs) # characters (dropWhile continuation cs)"
  by pat_completeness auto
termination
  by (relation "measure length") (simp_all add: le_imp_less_Suc length_dropWhile_le)

fun is_word :: "(string \<Rightarrow> bool) \<Rightarrow> string \<Rightarrow> bool" where
  "is_word table [c] =
     (let n = of_char c :: nat in 48 \<le> n \<and> n \<le> 57 \<or> 65 \<le> n \<and> n \<le> 90 \<or> 97 \<le> n \<and> n \<le> 122 \<or> n = 95)"
| "is_word table u = table u"

text \<open>\<open>re.search("\$request (\w+)", s)\<close>, with the group that is its recipient\<close>

definition word_prefix :: "(string \<Rightarrow> bool) \<Rightarrow> string \<Rightarrow> string" where
  "word_prefix table s = concat (takeWhile (is_word table) (characters s))"

fun search_request :: "(string \<Rightarrow> bool) \<Rightarrow> string \<Rightarrow> string option" where
  "search_request table [] = None"
| "search_request table (c # cs) =
     (if startswith (c # cs) ''$request '' \<and> word_prefix table (drop 9 (c # cs)) \<noteq> []
      then Some (word_prefix table (drop 9 (c # cs)))
      else search_request table cs)"

definition approval_text :: "string option \<Rightarrow> message \<Rightarrow> string \<Rightarrow> string" where
  "approval_text amount msg recipient =
     ''Hey '' @ (case map_of (guild_roles msg) FAUCET_APPROVE_ROLE of None \<Rightarrow> [] | Some mod_role \<Rightarrow> mod_role) @
     '', should I approve this transaction?: \<newline>Requester: '' @ author_mention msg @
     ''\<newline>Recipient: '' @ recipient @ ''\<newline>Amount: '' @ (case amount of None \<Rightarrow> ''None'' | Some a \<Rightarrow> a) @
     ''\<newline> *To cancel, react with '' @ cross_mark @ ''*''"

text \<open>The first branch of the \<open>try\<close>\<close>

definition first_stage :: "faucet_env \<Rightarrow> message \<Rightarrow> bool \<Rightarrow> stage" where
  "first_stage env msg sent =
     (case search_request (unicode_word env) (content msg) of
        Some recipient \<Rightarrow>
          if \<not> sent then Prompting recipient (approval_text (CODA_FAUCET_AMOUNT env) msg recipient) else Too_Many
      | None \<Rightarrow> if sent then Too_Many else Invalid)"

definition please_wait_text :: "message \<Rightarrow> string" where
  "please_wait_text msg =
     ''Hey '' @ author_mention msg @ '', please wait or cancel your previous request for faucet funds!''"

text \<open>
  \<open>next(\<dots>)\<close> raises when the guild has no such role, before anything is recorded.
\<close>

definition begin_request :: "faucet_env \<Rightarrow> message \<Rightarrow> (faucet, unit) eff" where
  "begin_request env msg =
     (if FAUCET_APPROVE_ROLE \<notin> set (dict_keys (guild_roles msg)) then eraise (PyException ''StopIteration'')
      else ebind (eget ACTIVE_REQUESTS) (\<lambda>active.
        if author msg \<notin> set (dict_keys active)
        then emodify (\<lambda>s. s\<lparr>ACTIVE_REQUESTS := AList.update (author msg) (channel msg) active,
               handlers := handlers s @
                 [\<lparr>requester = author msg, mention = author_mention msg,
                   stage = first_stage env msg (SENT_TRANSACTION_THIS_BLOCK s)\<rparr>]\<rparr>)
        else emodify (post (please_wait_text msg))))"

definition user_roles :: "string list option \<Rightarrow> string list result" where
  "user_roles roles = (case roles of None \<Rightarrow> Inl (PyException ''AttributeError'') | Some rs \<Rightarrow> Inr rs)"

definition on_message :: "faucet_env \<Rightarrow> message \<Rightarrow> (faucet, unit) eff" where
  "on_message env msg =
     (if author msg = bot_user env then eret ()
      else
        eseq (if command ''$tiny'' msg then emodify (post ''You summoned me?'') else eret ())
       (eseq (if command ''$status'' msg
              then ebind (elift (user_roles (author_roles msg))) (\<lambda>roles.
                if MOD_ROLE \<in> set roles
                then ebind (elift (status_text env)) (\<lambda>t. emodify (post t)) else eret ())
              else eret ())
       (eseq (if command ''$help'' msg then emodify (post help_text) else eret ())
             (if command ''$request'' msg then begin_request env msg else eret ()))))"

section \<open>Serving a request\<close>

text \<open>The roles are read before the message is compared, so the check raises for any message.\<close>

definition check_approval :: "nat \<Rightarrow> nat \<Rightarrow> string list option \<Rightarrow> string \<Rightarrow> bool result" where
  "check_approval message_id approval_message roles emoji =
     rbind (user_roles roles) (\<lambda>rs.
     Inr (message_id = approval_message \<and> FAUCET_APPROVE_ROLE \<in> set rs \<and> emoji = thumbs_up))"

definition check_cancel :: "nat \<Rightarrow> nat \<Rightarrow> nat \<Rightarrow> nat \<Rightarrow> string \<Rightarrow> bool" where
  "check_cancel message_id approval_message user asker emoji \<longleftrightarrow>
     message_id = approval_message \<and> user = asker \<and> emoji = cross_mark"

text \<open>
  What a reaction does to one suspended coroutine: it completes the tasks whose check it
  passes, and those whose check raises.
\<close>

definition completes :: "bool result \<Rightarrow> bool" where
  "completes outcome = (case outcome of Inl e \<Rightarrow> True | Inr b \<Rightarrow> b)"

fun react :: "nat \<Rightarrow> nat \<Rightarrow> string list option \<Rightarrow> string \<Rightarrow> handler \<Rightarrow> handler" where
  "react message_id user roles emoji h =
     (case stage h of
        Waiting recipient mid cancel approval \<Rightarrow>
          h\<lparr>stage := Waiting recipient mid
              (cancel \<or> check_cancel message_id mid user (requester h) emoji)
              (approval \<or> completes (check_approval message_id mid roles emoji))\<rparr>
      | _ \<Rightarrow> h)"

text \<open>The question is posted; the message has a new identifier.\<close>

definition ask :: "string \<Rightarrow> string \<Rightarrow> faucet \<Rightarrow> faucet" where
  "ask recipient prompt s =
     s\<lparr>next_message := next_message s + 1,
       events := events s @ [Posted prompt, Asked (next_message s) recipient]\<rparr>"

definition faucet_transaction :: "faucet_env \<Rightarrow> string \<Rightarrow> string option \<Rightarrow> payment" where
  "faucet_transaction env recipient amount =
     (recipient, FAUCET_PUBLIC_KEY env, amount, FAUCET_FEE env, '''')"

text \<open>The counters at the end; \<open>int(amount)\<close> may raise after the first of them has changed.\<close>

definition count_payment :: "faucet_env \<Rightarrow> faucet \<Rightarrow> faucet" where
  "count_payment env s =
     (let t = s\<lparr>TRANSACTION_COUNT := TRANSACTION_COUNT s + 1\<rparr> in
      case CODA_FAUCET_AMOUNT env of
        None \<Rightarrow> t
      | Some amount \<Rightarrow>
          (case py_int amount of
             Inl e \<Rightarrow> t
           | Inr n \<Rightarrow> t\<lparr>TOTAL_CODA_SENT := TOTAL_CODA_SENT s + n\<rparr>))"

text \<open>
  A coroutine moves to the next \<open>await\<close>, or ends: then the \<open>finally\<close> deletes its entry.
\<close>

definition move :: "handler list \<Rightarrow> handler \<Rightarrow> handler list \<Rightarrow> stage \<Rightarrow> faucet \<Rightarrow> faucet" where
  "move xs h ys st s = s\<lparr>handlers := xs @ h\<lparr>stage := st\<rparr> # ys\<rparr>"

definition finish :: "handler list \<Rightarrow> handler \<Rightarrow> handler list \<Rightarrow> faucet \<Rightarrow> faucet" where
  "finish xs h ys s =
     s\<lparr>handlers := xs @ ys, ACTIVE_REQUESTS := AList.delete (requester h) (ACTIVE_REQUESTS s)\<rparr>"

inductive fstep :: "faucet_env \<Rightarrow> faucet \<Rightarrow> faucet \<Rightarrow> bool" for env where
  message: "on_message env msg s = (r, t) \<Longrightarrow> fstep env s t"
| block: "fstep env s (new_block_callback s)"
| reaction:
    "fstep env s (s\<lparr>handlers := map (react message_id user roles emoji) (handlers s),
                    events := events s @ [Reacted message_id user roles emoji]\<rparr>)"
| prompted:
    "handlers s = xs @ h # ys \<Longrightarrow> stage h = Prompting recipient prompt \<Longrightarrow>
     fstep env s (ask recipient prompt (move xs h ys (Waiting recipient (next_message s) False False) s))"
| approved:
    "handlers s = xs @ h # ys \<Longrightarrow> stage h = Waiting recipient mid cancel True \<Longrightarrow>
     fstep env s (move xs h ys (Announcing recipient mid) s)"
| cancelled:
    "handlers s = xs @ h # ys \<Longrightarrow> stage h = Waiting recipient mid True False \<Longrightarrow>
     fstep env s (move xs h ys Cancelling s)"
| announced:
    "handlers s = xs @ h # ys \<Longrightarrow> stage h = Announcing recipient mid \<Longrightarrow>
     fstep env s (post ''Woof! -- Transaction Approved, fetching your funds...''
                    (move xs h ys (Paying recipient mid) s))"
| paid:
    "handlers s = xs @ h # ys \<Longrightarrow> stage h = Paying recipient mid \<Longrightarrow>
     fstep env s ((move xs h ys (Reporting recipient mid) s)
                    \<lparr>events := events s @ [Paid mid (faucet_transaction env recipient (CODA_FAUCET_AMOUNT env))]\<rparr>)"
| reported:
    "handlers s = xs @ h # ys \<Longrightarrow> stage h = Reporting recipient mid \<Longrightarrow>
     fstep env s (finish xs h ys (count_payment env 
       (post (mention h @ '' Transaction Sent! Output from Daemon: ```'' @ response @ ''```'') s)))"
| cancel_posted:
    "handlers s = xs @ h # ys \<Longrightarrow> stage h = Cancelling \<Longrightarrow>
     fstep env s (finish xs h ys (post ''Transaction Cancelled!'' s))"
| too_many_posted:
    "handlers s = xs @ h # ys \<Longrightarrow> stage h = Too_Many \<Longrightarrow>
     fstep env s (finish xs h ys
       ((post ''I've sent too many transactions this block, please try again in a bit!'' s)
          \<lparr>PLEASE_WAIT_ERRORS := PLEASE_WAIT_ERRORS s + 1\<rparr>))"
| invalid_posted:
    "handlers s = xs @ h # ys \<Longrightarrow> stage h = Invalid \<Longrightarrow>
     fstep env s (finish xs h ys (post ''Grrrrr... Invalid Parameters!!\<newline>                `$request <public-key>`\<newline>                '' s))"
| raised:
    "handlers s = xs @ h # ys \<Longrightarrow> fstep env s (finish xs h ys s)"

section \<open>What holds of every reachable state\<close>

definition requests_tracked :: "faucet \<Rightarrow> bool" where
  "requests_tracked s \<longleftrightarrow> distinct (map requester (handlers s)) \<and>
     set (map requester (handlers s)) = set (dict_keys (ACTIVE_REQUESTS s))"

definition never_blocked :: "faucet \<Rightarrow> bool" where
  "never_blocked s \<longleftrightarrow> \<not> SENT_TRANSACTION_THIS_BLOCK s \<and> PLEASE_WAIT_ERRORS s = 0 \<and>
     (\<forall>h\<in>set (handlers s). stage h \<noteq> Too_Many)"

text \<open>The events that let a request be paid\<close>

fun approves :: "nat \<Rightarrow> faucet_event \<Rightarrow> bool" where
  "approves m (Reacted i user (Some roles) emoji) \<longleftrightarrow> i = m \<and> FAUCET_APPROVE_ROLE \<in> set roles \<and> emoji = thumbs_up"
| "approves m _ \<longleftrightarrow> False"

fun breaks_check :: "faucet_event \<Rightarrow> bool" where
  "breaks_check (Reacted i user None emoji) \<longleftrightarrow> True"
| "breaks_check _ \<longleftrightarrow> False"

definition licensed :: "faucet_event list \<Rightarrow> nat \<Rightarrow> string \<Rightarrow> bool" where
  "licensed es m recipient \<longleftrightarrow>
     (\<exists>asked later. es = asked @ Asked m recipient # later \<and> (\<exists>e\<in>set later. approves m e \<or> breaks_check e))"

text \<open>The question of a request that may still be paid, and whether its approval is done.\<close>

fun subject :: "stage \<Rightarrow> (nat \<times> string) option" where
  "subject (Waiting r m c a) = Some (m, r)"
| "subject (Announcing r m) = Some (m, r)"
| "subject (Paying r m) = Some (m, r)"
| "subject _ = None"

fun granted :: "stage \<Rightarrow> bool" where
  "granted (Waiting r m c a) = a"
| "granted _ = True"

definition pending :: "stage \<Rightarrow> nat list" where
  "pending st = (case subject st of None \<Rightarrow> [] | Some (m, r) \<Rightarrow> [m])"

definition paid_ids :: "faucet \<Rightarrow> nat list" where
  "paid_ids s = concat (map (\<lambda>e. case e of Paid m p \<Rightarrow> [m] | _ \<Rightarrow> []) (events s))"

definition open_ids :: "handler list \<Rightarrow> nat list" where
  "open_ids hs = concat (map (\<lambda>h. pending (stage h)) hs)"

definition question_ok :: "faucet_event list \<Rightarrow> stage \<Rightarrow> bool" where
  "question_ok es st \<longleftrightarrow>
     (\<forall>m r. subject st = Some (m, r) \<longrightarrow> Asked m r \<in> set es \<and> (granted st \<longrightarrow> licensed es m r))"

definition payments_licensed :: "faucet_env \<Rightarrow> faucet_event list \<Rightarrow> bool" where
  "payments_licensed env es \<longleftrightarrow>
     (\<forall>before m p after. es = before @ Paid m p # after \<longrightarrow>
        (\<exists>r. licensed before m r \<and> p = faucet_transaction env r (CODA_FAUCET_AMOUNT env)))"

definition payments_approved :: "faucet_env \<Rightarrow> faucet \<Rightarrow> bool" where
  "payments_approved env s \<longleftrightarrow>
     distinct (paid_ids s @ open_ids (handlers s)) \<and>
     (\<forall>m\<in>set (paid_ids s @ open_ids (handlers s)). m < next_message s) \<and>
     (\<forall>h\<in>set (handlers s). question_ok (events s) (stage h)) \<and>
     payments_licensed env (events s)"

text \<open>Two users and a guild with the role, for the example of two payments in one block\<close>

definition demo_env :: faucet_env where
  "demo_env =
     \<lparr>bot_user = 0, CODA_FAUCET_AMOUNT = Some ''100'', FAUCET_PUBLIC_KEY = ''B62faucet'', FAUCET_FEE = ''8'',
      faucet_status = Inr JNull, faucet_wallet = Inr JNull, unicode_word = (\<lambda>_. False)\<rparr>"

definition demo_message :: "nat \<Rightarrow> message" where
  "demo_message user =
     \<lparr>author = user, author_mention = ''@user'', author_roles = Some [], channel = ''faucet'',
      content = ''$request B62key'', guild_roles = [(FAUCET_APPROVE_ROLE, ''@approvers'')]\<rparr>"

text \<open>No request is open.\<close>

definition idle :: "faucet \<Rightarrow> bool" where
  "idle s \<longleftrightarrow> handlers s = [] \<and> ACTIVE_REQUESTS s = [] \<and> \<not> SENT_TRANSACTION_THIS_BLOCK s"

text \<open>Posting texts is all a statement does.\<close>

definition posts :: "faucet \<Rightarrow> faucet \<Rightarrow> bool" where
  "posts s t \<longleftrightarrow> (\<exists>texts. t = s\<lparr>events := events s @ map Posted texts\<rparr>)"

lemmas faucet_ops = post_def ask_def move_def finish_def count_payment_def new_block_callback_def Let_def

interpretation posting: effect_frame posts
proof
  fix s t u
  show "posts s s" unfolding posts_def by (rule exI [of _ "[]"]) simp
  show "posts s u" if st: "posts s t" and tu: "posts t u"
  proof -
    from st obtain a where "t = s\<lparr>events := events s @ map Posted a\<rparr>" by (auto simp: posts_def)
    moreover from tu obtain b where "u = t\<lparr>events := events t @ map Posted b\<rparr>" by (auto simp: posts_def)
    ultimately show ?thesis unfolding posts_def by (intro exI [of _ "a @ b"]) simp
  qed
qed

lemma framed_post: "framed posts (emodify (post text))"
  by (rule posting.framed_modify) (auto simp: posts_def post_def intro: exI [of _ "[text]"])

lemma eseq_posting:
  assumes "framed posts m" and "eseq m n s = (r, t)" and "posts s0 s"
  shows "posts s0 t \<or> (\<exists>u. posts s0 u \<and> n u = (r, t))"
proof -
  obtain q u where m: "m s = (q, u)" by (cases "m s")
  from assms(1) m have "posts s u" by (rule framedD)
  with assms(3) have "posts s0 u" by (rule posting.frame_trans)
  with assms(2) m show ?thesis by (cases q) (auto simp: eseq_def ebind_def)
qed

text \<open>A message posts texts, and may start a request of a user that has none.\<close>

lemma on_message_cases:
  assumes "on_message env msg s = (r, t)"
  obtains (same) "posts s t"
  | (starts) u where "posts s u" "author msg \<notin> set (dict_keys (ACTIVE_REQUESTS u))"
      "t = u\<lparr>ACTIVE_REQUESTS := AList.update (author msg) (channel msg) (ACTIVE_REQUESTS u),
             handlers := handlers u @ [\<lparr>requester = author msg, mention = author_mention msg,
               stage = first_stage env msg (SENT_TRANSACTION_THIS_BLOCK u)\<rparr>]\<rparr>"
proof (cases "author msg = bot_user env")
  case True
  with assms that(1) show thesis by (auto simp: on_message_def posting.frame_refl)
next
  case False
  let ?n = "if command ''$request'' msg then begin_request env msg else eret ()"
  have f: "framed posts (if command w msg then emodify (post line) else eret ())" for w line
    by (intro posting.framed_if framed_post posting.framed_prim)
  have g: "framed posts (if c then ebind (elift r) (\<lambda>roles. if MOD_ROLE \<in> set roles
      then ebind (elift (status_text env)) (\<lambda>t. emodify (post t)) else eret ()) else eret ())" for c r
    by (intro posting.framed_if posting.framed_bind framed_post posting.framed_prim)
  have "posts s t \<or> (\<exists>u. posts s u \<and> ?n u = (r, t))"
    using assms False posting.frame_refl [of s] unfolding on_message_def if_not_P [OF False]
    by (blast dest: eseq_posting [OF f] eseq_posting [OF g])
  then show thesis
  proof (elim disjE exE conjE)
    fix u
    assume u: "posts s u" and run: "?n u = (r, t)"
    show thesis
    proof (cases "command ''$request'' msg \<and> FAUCET_APPROVE_ROLE \<in> set (dict_keys (guild_roles msg)) \<and>
        author msg \<notin> set (dict_keys (ACTIVE_REQUESTS u))")
      case True
      with run have "t = u\<lparr>ACTIVE_REQUESTS := AList.update (author msg) (channel msg) (ACTIVE_REQUESTS u),
             handlers := handlers u @ [\<lparr>requester = author msg, mention = author_mention msg,
               stage = first_stage env msg (SENT_TRANSACTION_THIS_BLOCK u)\<rparr>]\<rparr>"
        by (auto simp: begin_request_def simp del: set_map)
      with True u show thesis by (intro that(2) [of u]) blast+
    next
      case no: False
      have "framed posts (emodify (post (please_wait_text msg)))" by (rule framed_post)
      with no run have "posts u t"
        by (auto simp: begin_request_def framed_def posting.frame_refl simp del: set_map split: if_splits)
      with u that(1) show thesis by (blast intro: posting.frame_trans)
    qed
  qed (rule that(1))
qed

lemma licensed_append: "licensed es m r \<Longrightarrow> licensed (es @ fs) m r"
  unfolding licensed_def by fastforce

lemma question_ok_append: "question_ok es st \<Longrightarrow> question_ok (es @ fs) st"
  unfolding question_ok_def using licensed_append by auto

text \<open>A payment that is not among the last events was made before them.\<close>

lemma paid_in_append:
  assumes "es @ fs = before @ Paid m p # after" and "\<And>m p. Paid m p \<notin> set fs"
  shows "\<exists>after'. es = before @ Paid m p # after'"
proof -
  have "Paid m p \<notin> set fs" by (rule assms(2))
  with assms(1) show ?thesis by (auto simp: append_eq_append_conv2 append_eq_Cons_conv)
qed

lemma payments_licensed_append:
  assumes "payments_licensed env es" and "\<And>m p. Paid m p \<notin> set fs"
  shows "payments_licensed env (es @ fs)"
  unfolding payments_licensed_def
proof (intro allI impI)
  fix before m p after
  assume "es @ fs = before @ Paid m p # after"
  from paid_in_append [OF this assms(2)]
  show "\<exists>r. licensed before m r \<and> p = faucet_transaction env r (CODA_FAUCET_AMOUNT env)"
    using assms(1) unfolding payments_licensed_def by blast
qed

lemma payments_licensed_paid:
  assumes "payments_licensed env es" and "licensed es m r"
  shows "payments_licensed env (es @ [Paid m (faucet_transaction env r (CODA_FAUCET_AMOUNT env))])"
  unfolding payments_licensed_def
proof (intro allI impI)
  fix before i p after
  assume e: "es @ [Paid m (faucet_transaction env r (CODA_FAUCET_AMOUNT env))] = before @ Paid i p # after"
  show "\<exists>r. licensed before i r \<and> p = faucet_transaction env r (CODA_FAUCET_AMOUNT env)"
  proof (cases after rule: rev_cases)
    case Nil
    with e assms(2) show ?thesis by auto
  next
    case (snoc after' x)
    with e have "es = before @ Paid i p # after'" by simp
    with assms(1) show ?thesis unfolding payments_licensed_def by blast
  qed
qed

lemma posts_fields:
  assumes "posts s t"
  shows "handlers t = handlers s" "ACTIVE_REQUESTS t = ACTIVE_REQUESTS s" "next_message t = next_message s"
    "SENT_TRANSACTION_THIS_BLOCK t = SENT_TRANSACTION_THIS_BLOCK s" "PLEASE_WAIT_ERRORS t = PLEASE_WAIT_ERRORS s"
    "paid_ids t = paid_ids s" "\<exists>texts. events t = events s @ map Posted texts"
  using assms by (auto simp: posts_def paid_ids_def comp_def)

section \<open>The open requests\<close>

lemma react_requester: "requester (react m u roles e h) = requester h"
  by (simp split: stage.split)

lemma tracked_step:
  assumes "fstep env s t" and "requests_tracked s"
  shows "requests_tracked t"
  using assms(1)
proof cases
  case (message msg r)
  from message show ?thesis
  proof (cases rule: on_message_cases)
    case same
    with assms(2) show ?thesis by (simp add: requests_tracked_def posts_fields)
  next
    case (starts u)
    with assms(2) show ?thesis
      by (simp add: requests_tracked_def posts_fields dict_keys_update del: set_map)
  qed
next
  case (reaction message_id user roles emoji)
  have "map requester (map (react message_id user roles emoji) (handlers s)) = map requester (handlers s)"
    by (simp add: react_requester del: react.simps)
  with assms(2) reaction show ?thesis by (simp add: requests_tracked_def del: map_map set_map)
qed (use assms(2) in \<open>auto simp: requests_tracked_def faucet_ops delete_keys simp del: set_map split: option.splits sum.splits\<close>)

lemma first_stage_new [simp]:
  "subject (first_stage env msg sent) = None" "pending (first_stage env msg sent) = []"
  "first_stage env msg False \<noteq> Too_Many"
  by (simp_all add: first_stage_def pending_def split: option.split)

lemma react_not_too_many: "stage h \<noteq> Too_Many \<Longrightarrow> stage (react m u roles e h) \<noteq> Too_Many"
  by (simp split: stage.split)

lemma never_blocked_step:
  assumes "fstep env s t" and "never_blocked s"
  shows "never_blocked t"
  using assms(1)
proof cases
  case (message msg r)
  from message show ?thesis
  proof (cases rule: on_message_cases)
    case same
    with assms(2) show ?thesis by (simp add: never_blocked_def posts_fields)
  next
    case (starts u)
    with assms(2) show ?thesis by (auto simp: never_blocked_def posts_fields)
  qed
next
  case (reaction message_id user roles emoji)
  with assms(2) show ?thesis
    by (auto simp: never_blocked_def dest: react_not_too_many simp del: react.simps)
qed (use assms(2) in \<open>auto simp: never_blocked_def faucet_ops split: option.splits sum.splits\<close>)

section \<open>The payments\<close>

lemma open_ids_simps [simp]:
  "open_ids [] = []" "open_ids (h # hs) = pending (stage h) @ open_ids hs"
  "open_ids (hs @ hs') = open_ids hs @ open_ids hs'"
  by (simp_all add: open_ids_def)

lemma pending_subject [simp]:
  "subject st = None \<Longrightarrow> pending st = []" "subject st = Some (m, r) \<Longrightarrow> pending st = [m]"
  by (simp_all add: pending_def)

lemma react_subject: "subject (stage (react m u roles e h)) = subject (stage h)"
  by (cases "stage h") simp_all

lemma react_granted:
  assumes "granted (stage (react i u roles e h))" and "subject (stage h) = Some (m, r)"
  shows "granted (stage h) \<or> approves m (Reacted i u roles e) \<or> breaks_check (Reacted i u roles e)"
  using assms
  by (cases "stage h"; cases roles) (auto simp: check_approval_def user_roles_def completes_def)

lemma open_ids_react: "open_ids (map (react m u roles e) hs) = open_ids hs"
  by (induction hs) (simp_all add: pending_def react_subject del: react.simps)

lemma paid_ids_append:
  "paid_ids (s\<lparr>events := events s @ es\<rparr>) = paid_ids s @ concat (map (\<lambda>e. case e of Paid m p \<Rightarrow> [m] | _ \<Rightarrow> []) es)"
  by (simp add: paid_ids_def)

text \<open>
  A step that pays nothing: the open questions shrink, and an approval that is newly done is
  licensed by the events.
\<close>

lemma payments_quiet:
  assumes ok: "payments_approved env s"
    and ev: "events t = events s @ es" "\<And>m p. Paid m p \<notin> set es"
    and op: "distinct (open_ids (handlers t))" "set (open_ids (handlers t)) \<subseteq> set (open_ids (handlers s))"
    and nx: "next_message t = next_message s"
    and vo: "\<And>h m r. h \<in> set (handlers t) \<Longrightarrow> subject (stage h) = Some (m, r) \<Longrightarrow>
      (\<exists>h'\<in>set (handlers s). subject (stage h') = Some (m, r) \<and>
         (granted (stage h) \<longrightarrow> granted (stage h') \<or> licensed (events t) m r))"
  shows "payments_approved env t"
proof -
  have p: "paid_ids t = paid_ids s"
    using ev by (auto simp: paid_ids_def split: faucet_event.splits)
  have l: "payments_licensed env (events t)"
    using ok ev payments_licensed_append unfolding payments_approved_def by simp
  have q: "question_ok (events t) (stage h)" if h: "h \<in> set (handlers t)" for h
    unfolding question_ok_def
  proof (intro allI impI)
    fix m r
    assume "subject (stage h) = Some (m, r)"
    from vo [OF h this] obtain h' where h': "h' \<in> set (handlers s)" "subject (stage h') = Some (m, r)"
      "granted (stage h) \<longrightarrow> granted (stage h') \<or> licensed (events t) m r" by blast
    with ok have "question_ok (events t) (stage h')"
      unfolding payments_approved_def ev(1) using question_ok_append by blast
    with h' show "Asked m r \<in> set (events t) \<and> (granted (stage h) \<longrightarrow> licensed (events t) m r)"
      unfolding question_ok_def by blast
  qed
  show ?thesis
    using ok op nx p q l unfolding payments_approved_def by auto
qed

lemma payments_finish:
  assumes ok: "payments_approved env s" and hs: "handlers s = xs @ h # ys"
    and t: "handlers t = xs @ ys" "events t = events s @ es" "\<And>m p. Paid m p \<notin> set es"
      "next_message t = next_message s"
  shows "payments_approved env t"
proof (rule payments_quiet [OF ok t(2,3) _ _ t(4)])
  show "distinct (open_ids (handlers t))" "set (open_ids (handlers t)) \<subseteq> set (open_ids (handlers s))"
    using ok hs t(1) by (auto simp: payments_approved_def)
qed (use hs t(1) in auto)

lemma payments_move:
  assumes ok: "payments_approved env s" and hs: "handlers s = xs @ h # ys"
    and t: "handlers t = xs @ h\<lparr>stage := st\<rparr> # ys" "events t = events s @ es" "\<And>m p. Paid m p \<notin> set es"
      "next_message t = next_message s"
    and st: "subject st = None \<or> subject st = subject (stage h) \<and> granted (stage h)"
  shows "payments_approved env t"
proof (rule payments_quiet [OF ok t(2,3) _ _ t(4)])
  have "pending st = [] \<or> pending st = pending (stage h)" using st by (auto simp: pending_def)
  then show "distinct (open_ids (handlers t))" "set (open_ids (handlers t)) \<subseteq> set (open_ids (handlers s))"
    using ok hs t(1) by (auto simp: payments_approved_def)
qed (use hs t(1) st in auto)

lemma payments_react:
  assumes ok: "payments_approved env s"
  shows "payments_approved env (s\<lparr>handlers := map (react i u roles e) (handlers s),
                    events := events s @ [Reacted i u roles e]\<rparr>)" (is "payments_approved env ?t")
proof (rule payments_quiet [OF ok, where es = "[Reacted i u roles e]"])
  show "distinct (open_ids (handlers ?t))" "set (open_ids (handlers ?t)) \<subseteq> set (open_ids (handlers s))"
    using ok by (simp_all add: payments_approved_def open_ids_react del: react.simps)
  show "\<exists>h\<in>set (handlers s). subject (stage h) = Some (m, r) \<and>
      (granted (stage k) \<longrightarrow> granted (stage h) \<or> licensed (events ?t) m r)"
    if k: "k \<in> set (handlers ?t)" "subject (stage k) = Some (m, r)" for k m r
  proof -
    from k(1) obtain h where h: "h \<in> set (handlers s)" "k = react i u roles e h" by auto
    with k(2) have sub: "subject (stage h) = Some (m, r)" by (simp add: react_subject del: react.simps)
    with ok h(1) obtain xs ys where "events s = xs @ Asked m r # ys"
      unfolding payments_approved_def question_ok_def by (metis split_list)
    then have "licensed (events ?t) m r"
      if "approves m (Reacted i u roles e) \<or> breaks_check (Reacted i u roles e)"
      using that unfolding licensed_def by fastforce
    with react_granted [OF _ sub] h sub show ?thesis by blast
  qed
qed simp_all

lemma payments_prompted:
  assumes ok: "payments_approved env s" and hs: "handlers s = xs @ h # ys" and st: "stage h = Prompting rc txt"
  shows "payments_approved env (ask rc line (move xs h ys (Waiting rc (next_message s) False False) s))"
    (is "payments_approved env ?t")
proof -
  have fresh: "next_message s \<notin> set (paid_ids s @ open_ids (handlers s))"
    using ok unfolding payments_approved_def by blast
  have ev: "events ?t = events s @ [Posted line, Asked (next_message s) rc]" by (simp add: ask_def move_def)
  have l: "payments_licensed env (events ?t)"
    unfolding ev using ok payments_licensed_append unfolding payments_approved_def by simp
  have q: "question_ok (events ?t) (stage k)" if "k \<in> set (handlers ?t)" for k
  proof -
    from that hs have "k \<in> set (handlers s) \<or> stage k = Waiting rc (next_message s) False False"
      by (auto simp: ask_def move_def)
    then show ?thesis
    proof
      assume "k \<in> set (handlers s)"
      with ok show ?thesis unfolding ev payments_approved_def by (blast intro: question_ok_append)
    qed (simp add: question_ok_def ev)
  qed
  have p: "paid_ids ?t = paid_ids s" by (simp add: paid_ids_def ask_def move_def)
  have "distinct (paid_ids ?t @ open_ids (handlers ?t))"
    "\<forall>m\<in>set (paid_ids ?t @ open_ids (handlers ?t)). m < next_message ?t"
    using ok hs st fresh unfolding payments_approved_def p by (auto simp: ask_def move_def less_Suc_eq)
  with l q show ?thesis unfolding payments_approved_def by blast
qed

lemma payments_paid:
  assumes ok: "payments_approved env s" and hs: "handlers s = xs @ h # ys" and st: "stage h = Paying rc mid"
  shows "payments_approved env ((move xs h ys (Reporting rc mid) s)
      \<lparr>events := events s @ [Paid mid (faucet_transaction env rc (CODA_FAUCET_AMOUNT env))]\<rparr>)"
    (is "payments_approved env ?t")
proof -
  have v: "licensed (events s) mid rc"
    using ok hs st unfolding payments_approved_def question_ok_def by simp
  then have l: "payments_licensed env (events ?t)"
    using ok payments_licensed_paid unfolding payments_approved_def by simp
  have q: "question_ok (events ?t) (stage k)" if "k \<in> set (handlers ?t)" for k
  proof -
    from that hs have "k \<in> set (handlers s) \<or> subject (stage k) = None" by (auto simp: move_def)
    then show ?thesis
    proof
      assume "k \<in> set (handlers s)"
      with ok show ?thesis unfolding payments_approved_def by (simp add: question_ok_append)
    qed (simp add: question_ok_def)
  qed
  have "distinct (paid_ids ?t @ open_ids (handlers ?t))"
    "\<forall>m\<in>set (paid_ids ?t @ open_ids (handlers ?t)). m < next_message ?t"
    using ok hs st unfolding payments_approved_def by (auto simp: move_def paid_ids_def)
  with l q show ?thesis unfolding payments_approved_def by blast
qed

lemma payments_posts:
  assumes "payments_approved env s" and "posts s t"
  shows "payments_approved env t"
proof -
  from posts_fields(7) [OF assms(2)] obtain texts where "events t = events s @ map Posted texts" by blast
  from payments_quiet [OF assms(1) this] assms posts_fields [OF assms(2)] show ?thesis
    by (auto simp: payments_approved_def)
qed

lemma payments_step:
  assumes "fstep env s t" and ok: "payments_approved env s"
  shows "payments_approved env t"
  using assms(1)
proof cases
  case (message msg r)
  from message show ?thesis
  proof (cases rule: on_message_cases)
    case same
    with ok show ?thesis by (rule payments_posts)
  next
    case (starts u)
    from payments_posts [OF ok starts(1)] have "payments_approved env u" .
    then show ?thesis
      by (rule payments_quiet [where es = "[]"])
        (use \<open>payments_approved env u\<close> in \<open>auto simp: starts(3) payments_approved_def\<close>)
  qed
next
  case block
  show ?thesis
    unfolding block by (rule payments_quiet [OF ok, where es = "[]"])
      (use ok in \<open>auto simp: new_block_callback_def payments_approved_def\<close>)
next
  case (reaction message_id user roles emoji)
  with payments_react [OF ok] show ?thesis by simp
next
  case (prompted xs h ys recipient prompt)
  with payments_prompted [OF ok] show ?thesis by simp
next
  case (approved xs h ys recipient mid cancel)
  show ?thesis unfolding approved(1)
    by (rule payments_move [OF ok approved(2), where es = "[]" and st = "Announcing recipient mid"])
      (simp_all add: move_def approved(3))
next
  case (cancelled xs h ys recipient mid)
  show ?thesis unfolding cancelled(1)
    by (rule payments_move [OF ok cancelled(2), where es = "[]" and st = Cancelling])
      (simp_all add: move_def)
next
  case (announced xs h ys recipient mid)
  show ?thesis unfolding announced(1)
    by (rule payments_move [OF ok announced(2), where st = "Paying recipient mid"])
      (auto simp add: move_def post_def announced(3))
next
  case (paid xs h ys recipient mid)
  with payments_paid [OF ok] show ?thesis by simp
next
  case (reported xs h ys recipient mid out)
  show ?thesis unfolding reported(1)
    by (rule payments_finish [OF ok reported(2)])
      (auto simp: faucet_ops split: option.split sum.split)
next
  case (cancel_posted xs h ys)
  show ?thesis unfolding cancel_posted(1)
    by (rule payments_finish [OF ok cancel_posted(2)]) (auto simp: faucet_ops)
next
  case (too_many_posted xs h ys)
  show ?thesis unfolding too_many_posted(1)
    by (rule payments_finish [OF ok too_many_posted(2)]) (auto simp: faucet_ops)
next
  case (invalid_posted xs h ys)
  show ?thesis unfolding invalid_posted(1)
    by (rule payments_finish [OF ok invalid_posted(2)]) (auto simp: faucet_ops)
next
  case (raised xs h ys)
  show ?thesis unfolding raised(1)
    by (rule payments_finish [OF ok raised(2), where es = "[]"]) (auto simp: faucet_ops)
qed

section \<open>Reachable states\<close>

interpretation tracking: guarded_machine "fstep env" "\<lambda>s. s = init_faucet" requests_tracked for env
proof
  show "requests_tracked s" if "s = init_faucet" for s
    using that by (simp add: requests_tracked_def init_faucet_def)
qed (rule tracked_step)

interpretation unblocked: guarded_machine "fstep env" "\<lambda>s. s = init_faucet" never_blocked for env
proof
  show "never_blocked s" if "s = init_faucet" for s
    using that by (simp add: never_blocked_def init_faucet_def)
qed (rule never_blocked_step)

interpretation paying: guarded_machine "fstep env" "\<lambda>s. s = init_faucet" "payments_approved env" for env
proof
  show "payments_approved env s" if "s = init_faucet" for s
    using that by (simp add: payments_approved_def payments_licensed_def paid_ids_def init_faucet_def)
qed (rule payments_step)

text \<open>
  C29. In every state the faucet can reach, whatever the interleaving of requests,
  reactions, blocks and exceptions, no question is paid twice, and every payment is of the
  configured amount, to the recipient its question names, and follows, after the question,
  a thumbs-up on that question by a user with the approver role, or a reaction, to
  whatever message, of a user who has no roles: the check raises for such a user, which
  completes the task that waits for the approval.
\<close>

theorem faucet_pays_only_approved:
  assumes "(fstep env)\<^sup>*\<^sup>* init_faucet s"
  shows "distinct (paid_ids s) \<and>
    (\<forall>before m p after. events s = before @ Paid m p # after \<longrightarrow>
       (\<exists>asked recipient later. before = asked @ Asked m recipient # later \<and>
          p = faucet_transaction env recipient (CODA_FAUCET_AMOUNT env) \<and>
          (\<exists>e\<in>set later. approves m e \<or> breaks_check e)))"
proof -
  have "payments_approved env s" using paying.inv_reachable [OF refl assms] .
  then have "distinct (paid_ids s)" "payments_licensed env (events s)"
    by (simp_all add: payments_approved_def)
  then show ?thesis unfolding payments_licensed_def licensed_def by blast
qed

text \<open>
  C30. In every reachable state the users in ACTIVE_REQUESTS are exactly those whose
  request is being served, and no user has two requests open; an exception at any point
  removes the entry.
\<close>

theorem faucet_tracks_open_requests:
  assumes "(fstep env)\<^sup>*\<^sup>* init_faucet s"
  shows "distinct (map requester (handlers s)) \<and>
    set (map requester (handlers s)) = set (dict_keys (ACTIVE_REQUESTS s))"
  using tracking.inv_reachable [OF refl assms] unfolding requests_tracked_def .

section \<open>Any number of payments in one block\<close>

lemma demo_search: "search_request (\<lambda>_. False) ''$request B62key'' = Some ''B62key''"
  by code_simp

lemma demo_request:
  assumes "idle s"
  shows "fstep demo_env s (s\<lparr>ACTIVE_REQUESTS := [(1, ''faucet'')],
    handlers := [\<lparr>requester = 1, mention = ''@user'',
      stage = Prompting ''B62key'' (approval_text (Some ''100'') (demo_message 1) ''B62key'')\<rparr>]\<rparr>)"
proof -
  have c: "command ''$request'' (demo_message 1)" "\<not> command ''$tiny'' (demo_message 1)"
    "\<not> command ''$status'' (demo_message 1)" "\<not> command ''$help'' (demo_message 1)"
    by (simp_all add: command_def demo_message_def startswith_def LISTENING_CHANNELS_def)
  have f: "first_stage demo_env (demo_message 1) False =
      Prompting ''B62key'' (approval_text (Some ''100'') (demo_message 1) ''B62key'')"
    unfolding first_stage_def by (simp add: demo_message_def demo_env_def demo_search [simplified])
  show ?thesis
    using assms f c
    by (intro fstep.message [where msg = "demo_message 1" and r = "Inr ()"])
      (simp add: on_message_def eseq_def begin_request_def idle_def demo_env_def demo_message_def [THEN arg_cong, of author]
        demo_message_def [THEN arg_cong, of channel] demo_message_def [THEN arg_cong, of author_mention]
        demo_message_def [THEN arg_cong, of guild_roles])
qed

text \<open>The example request is served from beginning to end, after a reaction that completes its approval.\<close>

lemma demo_served:
  assumes "idle s" and e: "emoji \<noteq> cross_mark" and a: "completes (check_approval i (next_message s) roles emoji)"
  shows "\<exists>t. (fstep demo_env)\<^sup>*\<^sup>* s t \<and> idle t \<and> length (paid_ids t) = Suc (length (paid_ids s)) \<and>
    BLOCK_NOTIFICATIONS_RECIEVED t = BLOCK_NOTIFICATIONS_RECIEVED s \<and>
    (\<forall>x\<in>set (events t). x \<in> set (events s) \<or> x = Reacted i 2 roles emoji \<or> (\<forall>m. \<not> approves m x))"
proof -
  let ?pre = "\<lparr>requester = 1, mention = ''@user'',
      stage = Prompting ''B62key'' (approval_text (Some ''100'') (demo_message 1) ''B62key'')\<rparr>"
  let ?n = "next_message s"
  let ?s1 = "s\<lparr>ACTIVE_REQUESTS := [(1, ''faucet'')], handlers := [?pre]\<rparr>"
  let ?s2 = "ask ''B62key'' (approval_text (Some ''100'') (demo_message 1) ''B62key'')
     (move [] ?pre [] (Waiting ''B62key'' ?n False False) ?s1)"
  let ?s3 = "?s2\<lparr>handlers := map (react i 2 roles emoji) (handlers ?s2),
     events := events ?s2 @ [Reacted i 2 roles emoji]\<rparr>"
  let ?h = "\<lambda>st. \<lparr>requester = 1, mention = ''@user'', stage = st\<rparr>"
  have h3: "handlers ?s3 = [] @ ?h (Waiting ''B62key'' ?n False True) # []"
    using a e by (simp add: ask_def move_def check_cancel_def)
  let ?s4 = "move [] (?h (Waiting ''B62key'' ?n False True)) [] (Announcing ''B62key'' ?n) ?s3"
  let ?s5 = "post ''Woof! -- Transaction Approved, fetching your funds...''
     (move [] (?h (Announcing ''B62key'' ?n)) [] (Paying ''B62key'' ?n) ?s4)"
  let ?s6 = "(move [] (?h (Paying ''B62key'' ?n)) [] (Reporting ''B62key'' ?n) ?s5)
     \<lparr>events := events ?s5 @ [Paid ?n (faucet_transaction demo_env ''B62key'' (CODA_FAUCET_AMOUNT demo_env))]\<rparr>"
  let ?s7 = "finish [] (?h (Reporting ''B62key'' ?n)) [] (count_payment demo_env
     (post (''@user'' @ '' Transaction Sent! Output from Daemon: ```'' @ [] @ ''```'') ?s6))"
  have st1: "fstep demo_env s ?s1" using assms(1) by (rule demo_request)
  have st2: "fstep demo_env ?s1 ?s2"
    using fstep.prompted [where s = ?s1 and xs = "[]" and h = ?pre and ys = "[]"] by simp
  have st3: "fstep demo_env ?s2 ?s3" by (rule fstep.reaction)
  have st4: "fstep demo_env ?s3 ?s4"
    by (rule fstep.approved [OF h3, where cancel = False]) simp
  have st5: "fstep demo_env ?s4 ?s5"
    by (rule fstep.announced) (simp_all add: move_def)
  have st6: "fstep demo_env ?s5 ?s6"
    by (rule fstep.paid) (simp_all add: move_def post_def)
  have st7: "fstep demo_env ?s6 ?s7"
    using fstep.reported [where s = ?s6 and xs = "[]" and h = "?h (Reporting ''B62key'' ?n)" and ys = "[]"
        and recipient = "''B62key''" and response = "[]"]
    by (simp add: move_def)
  note into = converse_rtranclp_into_rtranclp [where r = "fstep demo_env"]
  have "(fstep demo_env)\<^sup>*\<^sup>* s ?s7"
    by (rule into [OF st1], rule into [OF st2], rule into [OF st3], rule into [OF st4], rule into [OF st5],
        rule into [OF st6], rule into [OF st7], rule rtranclp.rtrancl_refl)
  moreover have "idle ?s7" using assms(1)
    by (simp add: idle_def finish_def move_def post_def ask_def count_payment_def Let_def split: option.split sum.split)
  moreover have "length (paid_ids ?s7) = Suc (length (paid_ids s))"
    by (simp add: paid_ids_def finish_def move_def post_def count_payment_def ask_def Let_def
        split: option.split sum.split)
  moreover have "BLOCK_NOTIFICATIONS_RECIEVED ?s7 = BLOCK_NOTIFICATIONS_RECIEVED s"
    by (simp add: finish_def move_def post_def ask_def count_payment_def Let_def split: option.split sum.split)
  moreover have "\<forall>x\<in>set (events ?s7). x \<in> set (events s) \<or> x = Reacted i 2 roles emoji \<or> (\<forall>m. \<not> approves m x)"
    by (simp add: finish_def move_def post_def ask_def count_payment_def Let_def split: option.split sum.split)
  ultimately show ?thesis by blast
qed

lemma demo_payments:
  assumes e: "emoji \<noteq> cross_mark" and a: "\<And>n. completes (check_approval (place n) n roles emoji)"
  shows "\<exists>s. (fstep demo_env)\<^sup>*\<^sup>* init_faucet s \<and> idle s \<and> BLOCK_NOTIFICATIONS_RECIEVED s = 0 \<and> length (paid_ids s) = n \<and>
    (\<forall>x\<in>set (events s). (\<exists>i. x = Reacted i 2 roles emoji) \<or> (\<forall>m. \<not> approves m x))"
proof (induction n)
  case 0
  show ?case
    by (intro exI [of _ init_faucet]) (simp add: init_faucet_def idle_def paid_ids_def)
next
  case (Suc n)
  then obtain s where s: "(fstep demo_env)\<^sup>*\<^sup>* init_faucet s" "idle s" "BLOCK_NOTIFICATIONS_RECIEVED s = 0"
    "length (paid_ids s) = n" "\<forall>x\<in>set (events s). (\<exists>i. x = Reacted i 2 roles emoji) \<or> (\<forall>m. \<not> approves m x)" by blast
  from demo_served [OF s(2) e a] obtain t where t: "(fstep demo_env)\<^sup>*\<^sup>* s t" "idle t"
    "length (paid_ids t) = Suc n" "BLOCK_NOTIFICATIONS_RECIEVED t = 0"
    "\<forall>x\<in>set (events t). x \<in> set (events s) \<or> x = Reacted (place (next_message s)) 2 roles emoji \<or> (\<forall>m. \<not> approves m x)"
    using s(3,4) by auto
  from t(5) s(5) have "\<forall>x\<in>set (events t). (\<exists>i. x = Reacted i 2 roles emoji) \<or> (\<forall>m. \<not> approves m x)" by blast
  with rtranclp_trans [OF s(1) t(1)] t(2-4) show ?case by blast
qed

text \<open>Approved by a moderator, and by a user without roles who reacts to another message\<close>

lemma thumbs_not_cross: "thumbs_up \<noteq> cross_mark"
  by (simp add: thumbs_up_def cross_mark_def)

lemma approver_completes: "completes (check_approval n n (Some [FAUCET_APPROVE_ROLE]) thumbs_up)"
  by (simp add: completes_def check_approval_def user_roles_def)

lemma roleless_completes: "completes (check_approval i n None emoji)"
  by (simp add: completes_def check_approval_def user_roles_def)

theorem faucet_pays_only_approved_witness:
  "\<exists>s. (fstep demo_env)\<^sup>*\<^sup>* init_faucet s \<and> length (paid_ids s) = 2 \<and> distinct (paid_ids s) \<and>
    (\<forall>before m p after. events s = before @ Paid m p # after \<longrightarrow>
       (\<exists>asked recipient later. before = asked @ Asked m recipient # later \<and>
          p = faucet_transaction demo_env recipient (CODA_FAUCET_AMOUNT demo_env) \<and>
          (\<exists>e\<in>set later. approves m e \<or> breaks_check e)))"
proof -
  obtain s where s: "(fstep demo_env)\<^sup>*\<^sup>* init_faucet s" "length (paid_ids s) = 2"
    using demo_payments [OF thumbs_not_cross approver_completes, of 2] by blast
  from faucet_pays_only_approved [OF s(1)] s show ?thesis by blast
qed

theorem faucet_tracks_open_requests_witness:
  "\<exists>s. (fstep demo_env)\<^sup>*\<^sup>* init_faucet s \<and> length (handlers s) = 1 \<and>
    set (map requester (handlers s)) = set (dict_keys (ACTIVE_REQUESTS s))"
proof -
  have "idle init_faucet" by (simp add: idle_def init_faucet_def)
  from r_into_rtranclp [of "fstep demo_env", OF demo_request [OF this]]
    faucet_tracks_open_requests [OF r_into_rtranclp [of "fstep demo_env", OF demo_request [OF this]]]
  show ?thesis by (intro exI conjI) auto
qed

text \<open>
  The flag SENT_TRANSACTION_THIS_BLOCK is never set, so any number of payments can
  be made before the first block notification, and the error counter for it stays 0.
\<close>

theorem block_flag_limits_nothing:
  "\<exists>s. (fstep demo_env)\<^sup>*\<^sup>* init_faucet s \<and> BLOCK_NOTIFICATIONS_RECIEVED s = 0 \<and> length (paid_ids s) = n \<and>
       \<not> SENT_TRANSACTION_THIS_BLOCK s \<and> PLEASE_WAIT_ERRORS s = 0"
  using unblocked.inv_reachable [OF refl, of demo_env] demo_payments [OF thumbs_not_cross approver_completes, of n]
  unfolding never_blocked_def by blast

text \<open>
  C31. A reaction of a user without roles counts as an approval of every request that
  waits: any number of payments can be made although no user with the approver role ever
  reacted with a thumbs-up to anything.
\<close>

theorem roleless_reactions_pay:
  "\<exists>s. (fstep demo_env)\<^sup>*\<^sup>* init_faucet s \<and> length (paid_ids s) = n \<and>
       \<not> (\<exists>m e. e \<in> set (events s) \<and> approves m e)"
proof -
  have no: "\<not> approves m (Reacted i 2 None thumbs_up)" for m i by simp
  obtain s where s: "(fstep demo_env)\<^sup>*\<^sup>* init_faucet s" "length (paid_ids s) = n"
    "\<forall>x\<in>set (events s). (\<exists>i. x = Reacted i 2 None thumbs_up) \<or> (\<forall>m. \<not> approves m x)"
    using demo_payments [OF thumbs_not_cross roleless_completes [of 0], of n] by auto
  have "\<not> (\<exists>m e. e \<in> set (events s) \<and> approves m e)" using s(3) no by metis
  with s(1,2) show ?thesis by blast
qed

end
