(* ===== verification/BuildkiteExporter.thy ===== *)
theory BuildkiteExporter
  imports Py_Json
begin

text \<open>
  The Prometheus exporter of the Buildkite pipeline,
  \<open>automation/services/buildkite/prometheus-exporter/exporter.py\<close>.

  A metric family is the list of its samples, a list of labels with a value. The answers of the two
  services are JSON values: \<open>ql\<close> answers a GraphQL query with its variables, \<open>builds\<close> is the
  answer of the REST request for the builds, by its address and headers. \<open>strptime\<close> reads a time stamp as a number of
  microseconds since an epoch, \<open>now\<close> is the present time and \<open>isoformat\<close> its text; a difference of two times has
  the attribute \<open>seconds\<close>, which leaves out whole days. The settings come from
  the environment: a limit is a number by default and a string when it is set. The timing
  decorator is left out.
\<close>

section \<open>Metrics\<close>

type_synonym sample = "json list \<times> json"

record metrics =
  m_runtime :: "sample list"
  m_waittime :: "sample list"
  m_status :: "sample list"
  m_exit_status :: "sample list"
  m_artifact_size :: "sample list"
  m_total_count :: "sample list"

definition empty_metrics :: metrics where
  "empty_metrics =
     \<lparr>m_runtime = [], m_waittime = [], m_status = [], m_exit_status = [], m_artifact_size = [],
      m_total_count = []\<rparr>"

text \<open>The service: its settings and answers.\<close>

record buildkite =
  API_KEY :: "string option"
  org_slug :: string
  pipeline_slug :: string
  bk_branch :: string
  JOBS :: string
  MAX_JOB_COUNT :: json
  MAX_AGENT_COUNT :: json
  MAX_ARTIFACTS_COUNT :: json
  interval :: json
  ql :: "string \<Rightarrow> (string \<times> json) list \<Rightarrow> json result"
  builds :: "string \<Rightarrow> (string \<times> string) list \<Rightarrow> json result"
  strptime :: "string \<Rightarrow> int result"
  now :: int
  isoformat :: "int \<Rightarrow> string"

text \<open>\<open>(t - u).seconds\<close>: the seconds of a time difference without its days, microseconds cut off.\<close>

definition seconds :: "int \<Rightarrow> int" where
  "seconds delta = (delta div 1000000) mod 86400"

text \<open>\<open>datetime.strptime(v, \<dots>)\<close> of a JSON value\<close>

definition parse_time :: "buildkite \<Rightarrow> json \<Rightarrow> int result" where
  "parse_time bk v = rbind (json_str_item v) (strptime bk)"

definition add_metric :: "((sample list \<Rightarrow> sample list) \<Rightarrow> metrics \<Rightarrow> metrics) \<Rightarrow> json list \<Rightarrow> json \<Rightarrow> (metrics, unit) eff" where
  "add_metric upd labels v = emodify (upd (\<lambda>samples. samples @ [(labels, v)]))"

section \<open>The step keys\<close>

definition builds_url :: "buildkite \<Rightarrow> string" where
  "builds_url bk =
     ''https://api.buildkite.com/v2/organizations/'' @ org_slug bk @ ''/pipelines/'' @
     py_replace (org_slug bk @ ''/'') '''' (pipeline_slug bk) @ ''/builds''"

text \<open>\<open>"Bearer {}".format(API_KEY)\<close>, with the text \<open>None\<close> for a key that is not set\<close>

definition bearer :: "string option \<Rightarrow> string" where
  "bearer key = ''Bearer '' @ (case key of None \<Rightarrow> ''None'' | Some k \<Rightarrow> k)"

definition step_key :: "json \<Rightarrow> json result" where
  "step_key d = rbind (json_item d ''step_key'') (\<lambda>k. Inr (if json_true k then k else JStr ''pipeline''))"

text \<open>The keys in some order without repetition; the script does not depend on the order of the set.\<close>

definition list_pipeline_stepkeys :: "buildkite \<Rightarrow> json list result" where
  "list_pipeline_stepkeys bk =
     rbind (rbind (builds bk (builds_url bk) [(''Authorization'', bearer (API_KEY bk))]) json_iter) (\<lambda>data.
     rbind (mapM (\<lambda>build. rbind (rbind (json_item build ''jobs'') json_iter) (mapM step_key)) data) (\<lambda>keys.
     rbind (mapM hashable (concat keys)) (\<lambda>result. Inr (remdups result))))"

section \<open>Jobs\<close>

text \<open>The text of the query, the lines between the quotes\<close>

definition query_text :: "string list \<Rightarrow> string" where
  "query_text ls = concat (map (\<lambda>l. ''\<newline>'' @ l) ls) @ ''\<newline>        ''"

definition job_query :: string where
  "job_query = query_text [
      ''            query jobQuery($slug: ID!, $createdAtFrom: DateTime, $branch: [String!], $jobLimit: Int, $jobKey: [String!], $jobArtifactLimit: Int){'',
      ''                pipeline(slug:$slug) {'',
      ''                    builds(createdAtFrom:$createdAtFrom, branch:$branch) {'',
      ''                    edges {'',
      ''                        node {'',
      ''                        id'',
      ''                        branch'',
      ''                        commit'',
      ''                        state'',
      ''                        startedAt'',
      ''                        finishedAt'',
      ''                        message'',
      ''                        jobs(first:$jobLimit, , step: { key:$jobKey }) {'',
      ''                            edges {'',
      ''                                node {'',
      ''                                __typename'',
      ''                                ... on JobTypeCommand {'',
      ''                                    label'',
      ''                                    step {'',
      ''                                        key'',
      ''                                    }'',
      ''                                    agent {'',
      ''                                        hostname'',
      ''                                    }'',
      ''                                    agentQueryRules'',
      ''                                    command'',
      ''                                    exitStatus'',
      ''                                    startedAt'',
      ''                                    finishedAt'',
      ''                                    runnableAt'',
      ''                                    scheduledAt'',
      ''                                    softFailed'',
      ''                                    passed'',
      ''                                    state'',
      ''                                    artifacts(first:$jobArtifactLimit) {'',
      ''                                        edges {'',
      ''                                            node {'',
      ''                                                path'',
      ''                                                downloadURL'',
      ''                                                size'',
      ''                                                state'',
      ''                                                mimeType'',
      ''                                                sha1sum'',
      ''                                            }'',
      ''                                        }'',
      ''                                    }'',
      ''                                }'',
      ''                                }'',
      ''                            }'',
      ''                            }'',
      ''                        }'',
      ''                    }'',
      ''                    }'',
      ''                }'',
      ''            }'']"

text \<open>\<open>int(v)\<close>\<close>

fun json_int :: "json \<Rightarrow> int result" where
  "json_int (JInt i) = Inr i"
| "json_int (JBool b) = Inr (if b then 1 else 0)"
| "json_int (JStr s) = py_int s"
| "json_int _ = Inl TypeError"

definition job_variables :: "buildkite \<Rightarrow> (string \<times> json) list result" where
  "job_variables bk =
     rbind (json_int (interval bk)) (\<lambda>scan_interval.
     rbind (if JOBS bk \<noteq> [] then Inr (map JStr (split_on (CHR '','') (JOBS bk))) else list_pipeline_stepkeys bk) (\<lambda>keys.
     Inr [(''slug'', JStr (pipeline_slug bk)),
          (''createdAtFrom'', JStr (isoformat bk (now bk - 1000000 * scan_interval))),
          (''branch'', JStr (bk_branch bk)),
          (''jobLimit'', MAX_JOB_COUNT bk),
          (''jobKey'', JList keys),
          (''jobArtifactLimit'', MAX_ARTIFACTS_COUNT bk)]))"

text \<open>The labels several families share, read in the order of the code\<close>

definition finished_labels :: "json \<Rightarrow> json \<Rightarrow> json list result" where
  "finished_labels d j =
     rbind (json_path d [''node'', ''branch'']) (\<lambda>branch.
     rbind (json_path j [''node'', ''exitStatus'']) (\<lambda>exit_status.
     rbind (json_path j [''node'', ''state'']) (\<lambda>state.
     rbind (json_path j [''node'', ''passed'']) (\<lambda>passed.
     rbind (json_path j [''node'', ''step'', ''key'']) (\<lambda>step_key.
     rbind (json_path j [''node'', ''agent'', ''hostname'']) (\<lambda>host.
     rbind (rbind (json_path j [''node'', ''agentQueryRules'']) (json_join '','')) (\<lambda>rules.
     Inr [branch, exit_status, state, JStr (json_str passed), step_key, host, JStr rules])))))))"

definition exit_labels :: "json \<Rightarrow> json \<Rightarrow> json list result" where
  "exit_labels d j =
     rbind (json_path d [''node'', ''branch'']) (\<lambda>branch.
     rbind (json_path j [''node'', ''exitStatus'']) (\<lambda>exit_status.
     rbind (json_path j [''node'', ''softFailed'']) (\<lambda>soft.
     rbind (json_path j [''node'', ''state'']) (\<lambda>state.
     rbind (json_path j [''node'', ''passed'']) (\<lambda>passed.
     rbind (json_path j [''node'', ''step'', ''key'']) (\<lambda>step_key.
     rbind (json_path j [''node'', ''agent'', ''hostname'']) (\<lambda>host.
     rbind (rbind (json_path j [''node'', ''agentQueryRules'']) (json_join '','')) (\<lambda>rules.
     Inr [branch, exit_status, JStr (json_str soft), state, JStr (json_str passed), step_key, host, JStr rules]))))))))"

definition artifact_labels :: "json \<Rightarrow> json \<Rightarrow> json \<Rightarrow> json list result" where
  "artifact_labels d j a =
     rbind (json_path d [''node'', ''branch'']) (\<lambda>branch.
     rbind (json_path j [''node'', ''exitStatus'']) (\<lambda>exit_status.
     rbind (json_path a [''node'', ''state'']) (\<lambda>state.
     rbind (json_path a [''node'', ''path'']) (\<lambda>path.
     rbind (json_path a [''node'', ''downloadURL'']) (\<lambda>download.
     rbind (json_path a [''node'', ''mimeType'']) (\<lambda>mime.
     rbind (json_path j [''node'', ''step'', ''key'']) (\<lambda>step_key.
     rbind (json_path j [''node'', ''agent'', ''hostname'']) (\<lambda>host.
     rbind (rbind (json_path j [''node'', ''agentQueryRules'']) (json_join '','')) (\<lambda>rules.
     Inr [branch, exit_status, state, path, download, mime, step_key, host, JStr rules])))))))))"

definition add_artifact :: "json \<Rightarrow> json \<Rightarrow> json \<Rightarrow> (metrics, unit) eff" where
  "add_artifact d j a =
     ebind (elift (artifact_labels d j a)) (\<lambda>labels.
     ebind (elift (json_path a [''node'', ''size''])) (\<lambda>sz.
     add_metric m_artifact_size_update labels sz))"

definition finished_job :: "buildkite \<Rightarrow> json \<Rightarrow> json \<Rightarrow> int \<Rightarrow> (metrics, unit) eff" where
  "finished_job bk d j scheduled_time =
     ebind (elift (rbind (json_path j [''node'', ''startedAt'']) (parse_time bk))) (\<lambda>start_time.
     ebind (elift (rbind (json_path j [''node'', ''finishedAt'']) (parse_time bk))) (\<lambda>end_time.
     eseq (ebind (elift (finished_labels d j)) (\<lambda>labels.
             add_metric m_runtime_update labels (JInt (seconds (end_time - start_time)))))
    (eseq (ebind (elift (finished_labels d j)) (\<lambda>labels.
             add_metric m_waittime_update labels (JInt (seconds (start_time - scheduled_time)))))
    (eseq (ebind (elift (exit_labels d j)) (\<lambda>labels. add_metric m_exit_status_update labels (JInt 1)))
          (ebind (elift (rbind (json_path j [''node'', ''artifacts'', ''edges'']) json_iter)) (\<lambda>artifacts.
             efor artifacts (add_artifact d j)))))))"

text \<open>\<open>v or "undefined"\<close>\<close>

definition or_undefined :: "json \<Rightarrow> json" where
  "or_undefined v = (if json_true v then v else JStr ''undefined'')"

definition running_labels :: "json \<Rightarrow> json \<Rightarrow> json list result" where
  "running_labels d j =
     rbind (json_path d [''node'', ''branch'']) (\<lambda>branch.
     rbind (json_path j [''node'', ''exitStatus'']) (\<lambda>exit_status.
     rbind (json_path j [''node'', ''state'']) (\<lambda>state.
     rbind (json_path j [''node'', ''passed'']) (\<lambda>passed.
     rbind (json_path j [''node'', ''step'', ''key'']) (\<lambda>step_key.
     rbind (json_path j [''node'', ''agent'']) (\<lambda>agent.
     rbind (if json_true agent then json_item agent ''hostname'' else Inr (JStr ''unassigned'')) (\<lambda>host.
     rbind (rbind (json_path j [''node'', ''agentQueryRules'']) (json_join '','')) (\<lambda>rules.
     Inr [branch, or_undefined exit_status, state, JStr (json_str (or_undefined passed)), step_key, host, JStr rules]))))))))"

definition status_labels :: "json \<Rightarrow> json \<Rightarrow> json list result" where
  "status_labels d j =
     rbind (json_path d [''node'', ''branch'']) (\<lambda>branch.
     rbind (json_path j [''node'', ''state'']) (\<lambda>state.
     rbind (json_path j [''node'', ''step'', ''key'']) (\<lambda>step_key.
     Inr [branch, state, step_key])))"

definition unfinished_job :: "buildkite \<Rightarrow> json \<Rightarrow> json \<Rightarrow> int \<Rightarrow> (metrics, unit) eff" where
  "unfinished_job bk d j scheduled_time =
     eseq (ebind (elift (status_labels d j)) (\<lambda>labels. add_metric m_status_update labels (JInt 1)))
    (ebind (elift (rbind (json_path j [''node'', ''startedAt'']) (\<lambda>started.
              if json_true started then parse_time bk started else Inr (now bk)))) (\<lambda>t.
     ebind (elift (running_labels d j)) (\<lambda>labels.
     add_metric m_waittime_update labels (JInt (seconds (t - scheduled_time))))))"

definition collect_job :: "buildkite \<Rightarrow> json \<Rightarrow> json \<Rightarrow> (metrics, unit) eff" where
  "collect_job bk d j =
     ebind (elift (rbind (json_path j [''node'', ''scheduledAt'']) (parse_time bk))) (\<lambda>scheduled_time.
     ebind (elift (json_path j [''node'', ''state''])) (\<lambda>state.
     if state = JStr ''FINISHED'' then finished_job bk d j scheduled_time
     else unfinished_job bk d j scheduled_time))"

definition collect_build :: "buildkite \<Rightarrow> json \<Rightarrow> (metrics, unit) eff" where
  "collect_build bk d =
     ebind (elift (rbind (json_path d [''node'', ''jobs'', ''edges'']) json_iter)) (\<lambda>jobs.
     efor jobs (collect_job bk d))"

definition collect_job_data :: "buildkite \<Rightarrow> (metrics, unit) eff" where
  "collect_job_data bk =
     ebind (elift (rbind (job_variables bk) (ql bk job_query))) (\<lambda>data.
     ebind (elift (rbind (json_path data [''data'', ''pipeline'', ''builds'', ''edges'']) json_iter)) (\<lambda>edges.
     efor edges (collect_build bk)))"

section \<open>Agents\<close>

definition agent_query :: string where
  "agent_query = query_text [
      ''            query agentQuery($slug: ID!, $agentLimit: Int) {'',
      ''                organization(slug:$slug) {'',
      ''                    agents(first:$agentLimit) {'',
      ''                    edges {'',
      ''                        node {'',
      ''                        name'',
      ''                        hostname'',
      ''                        ipAddress'',
      ''                        operatingSystem {'',
      ''                        name'',
      ''                        }'',
      ''                        userAgent'',
      ''                        version'',
      ''                        versionHasKnownIssues'',
      ''                        createdAt'',
      ''                        connectedAt'',
      ''                        connectionState'',
      ''                        heartbeatAt'',
      ''                        isRunningJob'',
      ''                        pid'',
      ''                        public'',
      ''                        metaData'',
      ''                        userAgent'',
      ''                        }'',
      ''                    }'',
      ''                    }'',
      ''                }'',
      ''            }'']"

definition agent_variables :: "buildkite \<Rightarrow> (string \<times> json) list" where
  "agent_variables bk = [(''slug'', JStr (org_slug bk)), (''agentLimit'', MAX_ARTIFACTS_COUNT bk)]"

definition agent_labels :: "json \<Rightarrow> json list result" where
  "agent_labels d =
     rbind (json_path d [''node'', ''version'']) (\<lambda>version.
     rbind (json_path d [''node'', ''versionHasKnownIssues'']) (\<lambda>issues.
     rbind (json_path d [''node'', ''operatingSystem'', ''name'']) (\<lambda>os.
     rbind (json_path d [''node'', ''isRunningJob'']) (\<lambda>running.
     rbind (rbind (json_path d [''node'', ''metaData'']) (json_join '','')) (\<lambda>meta.
     rbind (json_path d [''node'', ''connectionState'']) (\<lambda>conn.
     Inr [version, JStr (json_str issues), os, JStr (json_str running), JStr meta, conn]))))))"

definition collect_agent :: "json \<Rightarrow> (metrics, unit) eff" where
  "collect_agent d =
     ebind (elift (agent_labels d)) (\<lambda>labels. add_metric m_total_count_update labels (JInt 1))"

definition collect_agent_data :: "buildkite \<Rightarrow> (metrics, unit) eff" where
  "collect_agent_data bk =
     ebind (elift (ql bk agent_query (agent_variables bk))) (\<lambda>data.
     ebind (elift (rbind (json_path data [''data'', ''organization'', ''agents'', ''edges'']) json_iter)) (\<lambda>edges.
     efor edges collect_agent))"

section \<open>A scrape\<close>

text \<open>
  The families are handed out after both collections; an exception before gives none at all.
\<close>

definition exporter_collect :: "buildkite \<Rightarrow> (string \<times> sample list) list result" where
  "exporter_collect bk =
     (case eseq (collect_job_data bk) (collect_agent_data bk) empty_metrics of
        (Inl e, m) \<Rightarrow> Inl e
      | (Inr u, m) \<Rightarrow>
          Inr [(''buildkite_job_runtime'', m_runtime m), (''buildkite_job_waittime'', m_waittime m),
               (''buildkite_job_status'', m_status m), (''buildkite_job_exit_status'', m_exit_status m),
               (''buildkite_job_artifact_size'', m_artifact_size m),
               (''buildkite_agent_total_count'', m_total_count m)])"

section \<open>The settings and the start\<close>

text \<open>\<open>os.getenv(name, default)\<close> for a text and for a number; \<open>Exporter(client)\<close> with its default arguments\<close>

definition text_setting :: "(string \<Rightarrow> string option) \<Rightarrow> string \<Rightarrow> string \<Rightarrow> string" where
  "text_setting environ name d = (case environ name of None \<Rightarrow> d | Some v \<Rightarrow> v)"

definition number_setting :: "(string \<Rightarrow> string option) \<Rightarrow> string \<Rightarrow> int \<Rightarrow> json" where
  "number_setting environ name d = (case environ name of None \<Rightarrow> JInt d | Some v \<Rightarrow> JStr v)"

definition new_exporter ::
    "(string \<Rightarrow> string option) \<Rightarrow> (string \<Rightarrow> (string \<times> json) list \<Rightarrow> json result) \<Rightarrow>
     (string \<Rightarrow> (string \<times> string) list \<Rightarrow> json result) \<Rightarrow> (string \<Rightarrow> int result) \<Rightarrow> int \<Rightarrow> (int \<Rightarrow> string) \<Rightarrow> buildkite" where
  "new_exporter environ client requests_get strp time isof =
     \<lparr>API_KEY = environ ''BUILDKITE_API_KEY'',
      org_slug = text_setting environ ''BUILDKITE_ORG_SLUG'' ''o-1-labs-2'',
      pipeline_slug = py_strip (text_setting environ ''BUILDKITE_PIPELINE_SLUG'' ''o-1-labs-2/mina''),
      bk_branch = text_setting environ ''BUILDKITE_BRANCH'' ''*'',
      JOBS = text_setting environ ''BUILDKITE_JOBS'' [],
      MAX_JOB_COUNT = number_setting environ ''BUILDKITE_MAX_JOB_COUNT'' 500,
      MAX_AGENT_COUNT = number_setting environ ''BUILDKITE_MAX_AGENT_COUNT'' 500,
      MAX_ARTIFACTS_COUNT = number_setting environ ''BUILDKITE_MAX_ARTIFACT_COUNT'' 500,
      interval = number_setting environ ''BUILDKITE_EXPORTER_SCAN_INTERVAL'' 3600,
      ql = client, builds = requests_get, strptime = strp, now = time, isoformat = isof\<rparr>"

datatype exporter_call =
    Graphql_Client string "(string \<times> string) list"
  | Register_Exporter
  | Start_Http_Server int
  | Print_Line string

text \<open>\<open>main\<close> up to its endless sleep\<close>

definition exporter_main :: "(string \<Rightarrow> string option) \<Rightarrow> (exporter_call list, unit) eff" where
  "exporter_main environ =
     (let note = (\<lambda>c. emodify (\<lambda>cs. cs @ [c])); METRICS_PORT = number_setting environ ''METRICS_PORT'' 8000 in
      eseq (note (Graphql_Client (text_setting environ ''BUILDKITE_API_URL'' ''https://graphql.buildkite.com/v1'')
              [(''Authorization'', bearer (environ ''BUILDKITE_API_KEY'')), (''Content-Type'', ''application/json'')]))
     (eseq (note Register_Exporter)
     (ebind (elift (json_int METRICS_PORT)) (\<lambda>port.
      eseq (note (Start_Http_Server port))
           (note (Print_Line (''Metrics on Port '' @ json_str METRICS_PORT)))))))"

text \<open>
  A port or an interval that is no number is only found when it is used: the server is not started,
  and no scrape asks either service.
\<close>

lemma bad_port:
  assumes "environ ''METRICS_PORT'' = Some v" and "py_int v = Inl e"
  shows "fst (exporter_main environ s) = Inl e" and "Start_Http_Server p \<in> set (snd (exporter_main environ s)) \<Longrightarrow> Start_Http_Server p \<in> set s"
  using assms by (simp_all add: exporter_main_def number_setting_def Let_def eseq_def ebind_def)

lemma bad_interval:
  assumes "environ ''BUILDKITE_EXPORTER_SCAN_INTERVAL'' = Some v" and "py_int v = Inl e"
  shows "exporter_collect (new_exporter environ client requests_get strp time isof) = Inl e"
  using assms by (simp add: exporter_collect_def collect_job_data_def job_variables_def new_exporter_def
      number_setting_def eseq_def ebind_def)

lemma builds_url_by_default:
  "builds_url (new_exporter (\<lambda>name. None) client requests_get strp time isof) =
     ''https://api.buildkite.com/v2/organizations/o-1-labs-2/pipelines/mina/builds''"
proof -
  have "py_strip ''o-1-labs-2/mina'' = ''o-1-labs-2/mina''" by code_simp
  moreover have "py_replace (''o-1-labs-2'' @ ''/'') [] ''o-1-labs-2/mina'' = ''mina''" by code_simp
  ultimately show ?thesis by (simp add: builds_url_def new_exporter_def text_setting_def)
qed

section \<open>How many samples a scrape has\<close>

datatype family = Runtime | Waittime | Status | Exit_Status | Artifact_Size | Total_Count

fun samples :: "metrics \<Rightarrow> family \<Rightarrow> sample list" where
  "samples m Runtime = m_runtime m"
| "samples m Waittime = m_waittime m"
| "samples m Status = m_status m"
| "samples m Exit_Status = m_exit_status m"
| "samples m Artifact_Size = m_artifact_size m"
| "samples m Total_Count = m_total_count m"

definition finished :: "json \<Rightarrow> bool" where
  "finished j \<longleftrightarrow> json_path j [''node'', ''state''] = Inr (JStr ''FINISHED'')"

definition elements :: "json \<Rightarrow> string list \<Rightarrow> json list" where
  "elements v p = (case rbind (json_path v p) json_iter of Inl e \<Rightarrow> [] | Inr xs \<Rightarrow> xs)"

text \<open>The samples a job is worth\<close>

fun job_samples :: "json \<Rightarrow> family \<Rightarrow> nat" where
  "job_samples j Runtime = of_bool (finished j)"
| "job_samples j Waittime = 1"
| "job_samples j Status = of_bool (\<not> finished j)"
| "job_samples j Exit_Status = of_bool (finished j)"
| "job_samples j Artifact_Size = (if finished j then length (elements j [''node'', ''artifacts'', ''edges'']) else 0)"
| "job_samples j Total_Count = 0"

definition all_jobs :: "json \<Rightarrow> json list" where
  "all_jobs data =
     concat (map (\<lambda>d. elements d [''node'', ''jobs'', ''edges''])
       (elements data [''data'', ''pipeline'', ''builds'', ''edges'']))"

definition all_agents :: "json \<Rightarrow> json list" where
  "all_agents data = elements data [''data'', ''organization'', ''agents'', ''edges'']"

definition adds :: "(metrics, 'a) eff \<Rightarrow> (family \<Rightarrow> nat) \<Rightarrow> bool" where
  "adds m f \<longleftrightarrow> (\<forall>s x t. m s = (Inr x, t) \<longrightarrow> (\<forall>k. length (samples t k) = length (samples s k) + f k))"

definition within_a_day :: "metrics \<Rightarrow> bool" where
  "within_a_day m \<longleftrightarrow>
     (\<forall>(labels, v) \<in> set (m_runtime m @ m_waittime m). \<exists>n. v = JInt n \<and> 0 \<le> n \<and> n < 86400)"

text \<open>A service with one job that ran for a day and an hour, and one agent\<close>

definition demo_job :: json where
  "demo_job = JDict [(''node'', JDict [
     (''state'', JStr ''FINISHED''), (''scheduledAt'', JStr ''0''), (''startedAt'', JStr ''0''),
     (''finishedAt'', JStr ''90000000000''), (''exitStatus'', JStr ''0''), (''passed'', JBool True),
     (''softFailed'', JBool False), (''step'', JDict [(''key'', JStr ''unit-tests'')]),
     (''agent'', JDict [(''hostname'', JStr ''agent-1'')]), (''agentQueryRules'', JList [JStr ''size=small'']),
     (''artifacts'', JDict [(''edges'', JList [])])])]"

definition demo_builds :: json where
  "demo_builds = JDict [(''data'', JDict [(''pipeline'', JDict [(''builds'', JDict [(''edges'', JList [
     JDict [(''node'', JDict [(''branch'', JStr ''develop''), (''jobs'', JDict [(''edges'', JList [demo_job])])])]])])])])]"

definition demo_agents :: json where
  "demo_agents = JDict [(''data'', JDict [(''organization'', JDict [(''agents'', JDict [(''edges'', JList [
     JDict [(''node'', JDict [(''version'', JStr ''3.1''), (''versionHasKnownIssues'', JBool False),
       (''operatingSystem'', JDict [(''name'', JStr ''linux'')]), (''isRunningJob'', JBool True),
       (''metaData'', JList [JStr ''size=small'']), (''connectionState'', JStr ''connected'')])]])])])])]"

definition demo_buildkite :: buildkite where
  "demo_buildkite =
     \<lparr>API_KEY = None, org_slug = ''o-1-labs-2'', pipeline_slug = ''o-1-labs-2/mina'', bk_branch = ''*'', JOBS = ''unit-tests'',
      MAX_JOB_COUNT = JInt 500, MAX_AGENT_COUNT = JInt 500, MAX_ARTIFACTS_COUNT = JInt 500, interval = JInt 3600,
      ql = \<lambda>query vars. if map_of vars ''agentLimit'' = None then Inr demo_builds else Inr demo_agents,
      builds = \<lambda>u headers. Inr (JList []), strptime = \<lambda>s. Inr (if s = ''0'' then 0 else 90000000000), now = 0, isoformat = \<lambda>t. ''now''\<rparr>"

lemma adds_ret: "adds (eret x) (\<lambda>k. 0)" by (simp add: adds_def)

lemma adds_lift: "(\<And>x. r = Inr x \<Longrightarrow> adds (f x) g) \<Longrightarrow> adds (ebind (elift r) f) g"
  by (cases r) (auto simp: adds_def ebind_def)

lemma adds_seq: "adds m f \<Longrightarrow> adds n g \<Longrightarrow> adds (eseq m n) (\<lambda>k. f k + g k)"
  unfolding adds_def eseq_def ebind_def by (fastforce split: prod.splits sum.splits)

lemma adds_for: "(\<And>x. x \<in> set xs \<Longrightarrow> adds (f x) (g x)) \<Longrightarrow> adds (efor xs f) (\<lambda>k. \<Sum>x\<leftarrow>xs. g x k)"
  by (induction xs) (simp_all add: adds_ret adds_seq)

lemma adds_eq: "adds m f \<Longrightarrow> (\<And>k. f k = g k) \<Longrightarrow> adds m g"
  by (simp add: adds_def)

text \<open>Each family's method adds one sample to it.\<close>

lemma adds_metric:
  "adds (add_metric m_runtime_update l v) (\<lambda>k. of_bool (k = Runtime))"
  "adds (add_metric m_waittime_update l v) (\<lambda>k. of_bool (k = Waittime))"
  "adds (add_metric m_status_update l v) (\<lambda>k. of_bool (k = Status))"
  "adds (add_metric m_exit_status_update l v) (\<lambda>k. of_bool (k = Exit_Status))"
  "adds (add_metric m_artifact_size_update l v) (\<lambda>k. of_bool (k = Artifact_Size))"
  "adds (add_metric m_total_count_update l v) (\<lambda>k. of_bool (k = Total_Count))"
  by (auto simp: adds_def add_metric_def elim: samples.elims; case_tac k; simp)+

lemma adds_artifact: "adds (add_artifact d j a) (\<lambda>k. of_bool (k = Artifact_Size))"
  unfolding add_artifact_def by (intro adds_lift adds_metric)

lemma adds_artifacts:
  "adds (ebind (elift (rbind (json_path j [''node'', ''artifacts'', ''edges'']) json_iter)) (\<lambda>artifacts.
           efor artifacts (add_artifact d j)))
     (\<lambda>k. if k = Artifact_Size then length (elements j [''node'', ''artifacts'', ''edges'']) else 0)"
  by (rule adds_lift, rule adds_eq [OF adds_for [OF adds_artifact]]) (simp add: elements_def sum_list_triv)

lemma adds_finished:
  assumes "finished j"
  shows "adds (finished_job bk d j scheduled) (job_samples j)"
proof -
  have "adds (finished_job bk d j scheduled)
    (\<lambda>k. of_bool (k = Runtime) + (of_bool (k = Waittime) + (of_bool (k = Exit_Status) +
     (if k = Artifact_Size then length (elements j [''node'', ''artifacts'', ''edges'']) else 0))))"
    unfolding finished_job_def
    by (rule adds_lift, rule adds_lift, rule adds_seq [OF adds_lift [OF adds_metric(1)]
          adds_seq [OF adds_lift [OF adds_metric(2)] adds_seq [OF adds_lift [OF adds_metric(4)] adds_artifacts]]])
  then show ?thesis by (rule adds_eq) (use assms in \<open>case_tac k; simp\<close>)
qed

lemma adds_unfinished:
  assumes "\<not> finished j"
  shows "adds (unfinished_job bk d j scheduled) (job_samples j)"
proof -
  have "adds (unfinished_job bk d j scheduled) (\<lambda>k. of_bool (k = Status) + of_bool (k = Waittime))"
    unfolding unfinished_job_def by (intro adds_seq adds_lift adds_metric)
  then show ?thesis by (rule adds_eq) (use assms in \<open>case_tac k; simp\<close>)
qed

lemma adds_job: "adds (collect_job bk d j) (job_samples j)"
  unfolding collect_job_def
  by (intro adds_lift) (auto simp: finished_def intro: adds_finished adds_unfinished)

lemma adds_build: "adds (collect_build bk d) (\<lambda>k. \<Sum>j\<leftarrow>elements d [''node'', ''jobs'', ''edges'']. job_samples j k)"
  unfolding collect_build_def
  by (rule adds_lift, rule adds_eq [OF adds_for [OF adds_job]]) (simp add: elements_def)

lemma sum_list_map_concat: "(\<Sum>x\<leftarrow>concat xss. f x) = (\<Sum>xs\<leftarrow>xss. \<Sum>x\<leftarrow>xs. (f x :: nat))"
  by (induction xss) simp_all

lemma adds_job_data:
  assumes "rbind (job_variables bk) (ql bk job_query) = Inr data"
  shows "adds (collect_job_data bk) (\<lambda>k. \<Sum>j\<leftarrow>all_jobs data. job_samples j k)"
  unfolding collect_job_data_def assms
  by (rule adds_lift, rule adds_lift, rule adds_eq [OF adds_for [OF adds_build]])
    (simp add: elements_def all_jobs_def sum_list_map_concat comp_def)

lemma adds_agent_data:
  assumes "ql bk agent_query (agent_variables bk) = Inr data"
  shows "adds (collect_agent_data bk) (\<lambda>k. if k = Total_Count then length (all_agents data) else 0)"
  unfolding collect_agent_data_def assms collect_agent_def
  by (rule adds_lift, rule adds_lift, rule adds_eq [OF adds_for [OF adds_lift [OF adds_metric(6)]]])
    (simp add: elements_def all_agents_def sum_list_triv)

section \<open>The times reported\<close>

lemma seconds_day: "0 \<le> seconds delta \<and> seconds delta < 86400"
  by (simp add: seconds_def)

interpretation day: effect_frame "\<lambda>s t. within_a_day s \<longrightarrow> within_a_day t"
  by unfold_locales auto

lemma day_metric:
  "framed (\<lambda>s t. within_a_day s \<longrightarrow> within_a_day t) (add_metric m_runtime_update l (JInt (seconds delta)))"
  "framed (\<lambda>s t. within_a_day s \<longrightarrow> within_a_day t) (add_metric m_waittime_update l (JInt (seconds delta)))"
  "framed (\<lambda>s t. within_a_day s \<longrightarrow> within_a_day t) (add_metric m_status_update l v)"
  "framed (\<lambda>s t. within_a_day s \<longrightarrow> within_a_day t) (add_metric m_exit_status_update l v)"
  "framed (\<lambda>s t. within_a_day s \<longrightarrow> within_a_day t) (add_metric m_artifact_size_update l v)"
  "framed (\<lambda>s t. within_a_day s \<longrightarrow> within_a_day t) (add_metric m_total_count_update l v)"
  using seconds_day [of delta] by (auto simp: framed_def add_metric_def within_a_day_def)

lemma day_collect: "framed (\<lambda>s t. within_a_day s \<longrightarrow> within_a_day t) (eseq (collect_job_data bk) (collect_agent_data bk))"
  unfolding collect_job_data_def collect_agent_data_def collect_agent_def collect_build_def collect_job_def
    finished_job_def unfinished_job_def add_artifact_def
  by (intro day.frame_rules day_metric)

lemma collect_run:
  assumes "exporter_collect bk = Inr fams"
  obtains m where "eseq (collect_job_data bk) (collect_agent_data bk) empty_metrics = (Inr (), m)"
    and "fams = [(''buildkite_job_runtime'', m_runtime m), (''buildkite_job_waittime'', m_waittime m),
               (''buildkite_job_status'', m_status m), (''buildkite_job_exit_status'', m_exit_status m),
               (''buildkite_job_artifact_size'', m_artifact_size m),
               (''buildkite_agent_total_count'', m_total_count m)]"
  using assms unfolding exporter_collect_def by (auto split: prod.splits sum.splits)

text \<open>
  C35. A successful scrape has one run time and one exit status for each finished job,
  one waiting time for every job, one status for every other job, one size for each
  artifact of a finished job and one sample for each agent; every time it reports is at
  least 0 and less than 86400 seconds.
\<close>

theorem scrape_samples:
  assumes jobs: "rbind (job_variables bk) (ql bk job_query) = Inr data"
    and agents: "ql bk agent_query (agent_variables bk) = Inr agent_data"
    and run: "exporter_collect bk = Inr fams"
  shows "map (\<lambda>(name, ss). length ss) fams =
      [length (filter finished (all_jobs data)), length (all_jobs data),
       length (filter (\<lambda>j. \<not> finished j) (all_jobs data)), length (filter finished (all_jobs data)),
       (\<Sum>j\<leftarrow>filter finished (all_jobs data). length (elements j [''node'', ''artifacts'', ''edges''])),
       length (all_agents agent_data)] \<and>
    (\<forall>(labels, v) \<in> set (snd (fams ! 0) @ snd (fams ! 1)). \<exists>n. v = JInt n \<and> 0 \<le> n \<and> n < 86400)"
proof -
  obtain m where m: "eseq (collect_job_data bk) (collect_agent_data bk) empty_metrics = (Inr (), m)"
    and fams: "fams = [(''buildkite_job_runtime'', m_runtime m), (''buildkite_job_waittime'', m_waittime m),
               (''buildkite_job_status'', m_status m), (''buildkite_job_exit_status'', m_exit_status m),
               (''buildkite_job_artifact_size'', m_artifact_size m),
               (''buildkite_agent_total_count'', m_total_count m)]"
    by (rule collect_run [OF run])
  note a = adds_seq [OF adds_job_data [OF jobs] adds_agent_data [OF agents]]
  have e: "length (samples empty_metrics k) = 0" for k by (cases k) (simp_all add: empty_metrics_def)
  have k: "length (samples m k) = (\<Sum>j\<leftarrow>all_jobs data. job_samples j k) + (if k = Total_Count then length (all_agents agent_data) else 0)" for k
    using a m e unfolding adds_def by auto
  have f: "(\<Sum>j\<leftarrow>js. of_bool (P j)) = length (filter P js)" for P and js :: "json list" by (induction js) auto
  have g: "(\<Sum>j\<leftarrow>js. if P j then h j else 0) = (\<Sum>j\<leftarrow>filter P js. h j)" for P and js :: "json list" and h :: "json \<Rightarrow> nat"
    by (induction js) auto
  have "map (\<lambda>(name, ss). length ss) fams =
      [length (filter finished (all_jobs data)), length (all_jobs data),
       length (filter (\<lambda>j. \<not> finished j) (all_jobs data)), length (filter finished (all_jobs data)),
       (\<Sum>j\<leftarrow>filter finished (all_jobs data). length (elements j [''node'', ''artifacts'', ''edges''])),
       length (all_agents agent_data)]"
    unfolding fams using k [of Runtime] k [of Waittime] k [of Status] k [of Exit_Status] k [of Artifact_Size] k [of Total_Count]
    by (simp add: f g sum_list_triv)
  moreover have "within_a_day m"
    using framedD [OF day_collect m] by (simp add: within_a_day_def empty_metrics_def)
  ultimately show ?thesis by (simp add: fams within_a_day_def)
qed

lemma demo_scrape_answers:
  "rbind (job_variables demo_buildkite) (ql demo_buildkite job_query) = Inr demo_builds"
  "ql demo_buildkite agent_query (agent_variables demo_buildkite) = Inr demo_agents"
  by code_simp+

lemma demo_labels:
  "[JStr ''develop'', JStr ''0'', JStr ''FINISHED'', JStr ''True'', JStr ''unit-tests'', JStr ''agent-1'', JStr ''size=small''] = l \<Longrightarrow>
   exporter_collect demo_buildkite =
     Inr [(''buildkite_job_runtime'', [(l, JInt 3600)]), (''buildkite_job_waittime'', [(l, JInt 0)]), (''buildkite_job_status'', []),
      (''buildkite_job_exit_status'', [([JStr ''develop'', JStr ''0'', JStr ''False'', JStr ''FINISHED'', JStr ''True'',
          JStr ''unit-tests'', JStr ''agent-1'', JStr ''size=small''], JInt 1)]),
      (''buildkite_job_artifact_size'', []),
      (''buildkite_agent_total_count'', [([JStr ''3.1'', JStr ''False'', JStr ''linux'', JStr ''True'',
          JStr ''size=small'', JStr ''connected''], JInt 1)])]"
  by (erule subst) code_simp

theorem scrape_samples_witness:
  "length (all_jobs demo_builds) = 1 \<and> length (filter finished (all_jobs demo_builds)) = 1 \<and>
   length (all_agents demo_agents) = 1"
  using scrape_samples [OF demo_scrape_answers(1) demo_scrape_answers(2) demo_labels [OF refl]] by simp

end
