(* ===== verification/Janitor.thy ===== *)
theory Janitor
  imports Py_Json
begin

text \<open>
  The clean-up commands of \<open>automation/services/watchdog/scripts/network-utilities.py\<close>: removing
  the port mappings no service uses, and deleting old namespaces.

  Every effect goes through \<open>execute_command\<close>, so the state is the list of the commands run, with
  the lines printed. What a command returns is the parameter \<open>shell\<close>, a function of the commands
  run before and the command; \<open>loads\<close> is the JSON parser, \<open>search\<close> the regular expression
  search. The line that prints the age of a namespace is left out. The process is started without a pipe for its errors, so \<open>error\<close> is always \<open>None\<close>.
\<close>

record janitor =
  executed :: "string list"
  shown :: "string list"

type_synonym shell = "string list \<Rightarrow> string \<Rightarrow> int \<times> string"

definition show_line :: "string \<Rightarrow> (janitor, unit) eff" where
  "show_line line = emodify (\<lambda>s. s\<lparr>shown := shown s @ [line]\<rparr>)"

text \<open>
  After a positive return code the output is printed, and then \<open>error.decode\<close> raises on the
  missing error stream; the exit with the return code is not reached.
\<close>

definition execute_command :: "shell \<Rightarrow> string \<Rightarrow> (janitor, string) eff" where
  "execute_command shell cmd =
     ebind (eget executed) (\<lambda>before.
     eseq (emodify (\<lambda>s. s\<lparr>executed := executed s @ [cmd]\<rparr>))
    (case shell before cmd of (returncode, out) \<Rightarrow>
       if 0 < returncode then eseq (show_line out) (eraise AttributeError) else eret out))"

section \<open>Port mappings\<close>

definition get_all_namespaces :: "shell \<Rightarrow> (string \<Rightarrow> json result) \<Rightarrow> (janitor, json list) eff" where
  "get_all_namespaces shell loads =
     ebind (execute_command shell ''kubectl get namespaces -ojson'') (\<lambda>out.
     elift (rbind (loads out) (\<lambda>v. rbind (rbind (json_item v ''items'') json_iter)
       (mapM (\<lambda>item. json_path item [''metadata'', ''name''])))))"

definition service_ports :: "json \<Rightarrow> json list result" where
  "service_ports service =
     rbind (json_path service [''spec'', ''type'']) (\<lambda>kind.
     if kind = JStr ''NodePort''
     then rbind (rbind (json_path service [''spec'', ''ports'']) json_iter)
            (mapM (\<lambda>port. rbind (json_item port ''nodePort'') hashable))
     else Inr [])"

definition services_command :: "json \<Rightarrow> string" where
  "services_command namespace = ''kubectl -n '' @ json_str namespace @ '' get services -ojson''"

definition get_active_node_ports :: "shell \<Rightarrow> (string \<Rightarrow> json result) \<Rightarrow> (janitor, json set) eff" where
  "get_active_node_ports shell loads =
     ebind (get_all_namespaces shell loads) (\<lambda>namespaces.
     ebind (emapM (\<lambda>namespace.
              ebind (execute_command shell (services_command namespace)) (\<lambda>out.
              elift (rbind (loads out) (\<lambda>v.
                rbind (rbind (json_item v ''items'') json_iter) (\<lambda>services.
                rbind (mapM service_ports services) (\<lambda>pss. Inr (concat pss))))))) namespaces) (\<lambda>psss.
     eret (set (concat psss))))"

text \<open>\<open>str.splitlines()\<close>\<close>

definition is_line_break :: "char \<Rightarrow> bool" where
  "is_line_break c = (of_char c \<in> {10 :: nat, 11, 12, 13, 28, 29, 30, 133})"

fun split_lines :: "string \<Rightarrow> string \<Rightarrow> string list" where
  "split_lines cur [] = (if cur = [] then [] else [cur])"
| "split_lines cur (c # cs) =
     (if is_line_break c
      then cur # split_lines [] (if c = CHR 13 \<and> take 1 cs = [CHR 10] then drop 1 cs else cs)
      else split_lines (cur @ [c]) cs)"

text \<open>\<open>re.sub(' +', ' ', s)\<close>\<close>

fun squeeze_spaces :: "string \<Rightarrow> string" where
  "squeeze_spaces (a # b # s) =
     (if a = CHR '' '' \<and> b = CHR '' '' then squeeze_spaces (b # s) else a # squeeze_spaces (b # s))"
| "squeeze_spaces s = s"

definition mapping_of_line :: "string \<Rightarrow> (string \<times> int) result" where
  "mapping_of_line line =
     (case split_on (CHR '' '') (squeeze_spaces line) of
        [name, port] \<Rightarrow> rbind (py_int port) (\<lambda>n. Inr (name, n))
      | _ \<Rightarrow> Inl ValueError)"

definition get_ports_command :: "string \<Rightarrow> string \<Rightarrow> string" where
  "get_ports_command instance_group zone =
     ''gcloud compute instance-groups get-named-ports '' @ instance_group @ '' --zone='' @ zone"

definition get_mapped_ports :: "shell \<Rightarrow> string \<Rightarrow> string \<Rightarrow> (janitor, (string, int) dict) eff" where
  "get_mapped_ports shell instance_group zone =
     ebind (execute_command shell (get_ports_command instance_group zone)) (\<lambda>out.
     ebind (elift (mapM mapping_of_line (drop 1 (split_lines [] out)))) (\<lambda>rows.
     eret (foldl (\<lambda>m (name, port). AList.update name port m) [] rows)))"

definition assignment :: "string \<times> int \<Rightarrow> string" where
  "assignment m = fst m @ '':'' @ str_int (snd m)"

definition set_ports_command :: "string \<Rightarrow> string \<Rightarrow> (string, int) dict \<Rightarrow> string" where
  "set_ports_command instance_group zone port_mappings =
     ''gcloud compute instance-groups set-named-ports '' @ instance_group @ '' --zone='' @ zone @
     '' --named-ports='' @ py_join '','' (map assignment port_mappings)"

definition set_port_mappings :: "shell \<Rightarrow> string \<Rightarrow> string \<Rightarrow> (string, int) dict \<Rightarrow> (janitor, unit) eff" where
  "set_port_mappings shell instance_group zone port_mappings =
     ebind (execute_command shell (set_ports_command instance_group zone port_mappings)) show_line"

definition prune_zone :: "shell \<Rightarrow> string \<Rightarrow> json set \<Rightarrow> string \<Rightarrow> (janitor, unit) eff" where
  "prune_zone shell instance_group active_ports z =
     eseq (show_line (''Pruning port mappings from '' @ z))
    (ebind (get_mapped_ports shell instance_group z) (\<lambda>existing_mappings.
     let active_mappings = filter (\<lambda>(name, port). JInt port \<in> active_ports) existing_mappings in
     eseq (set_port_mappings shell instance_group z active_mappings)
          (show_line (''Pruned '' @ str_nat (length existing_mappings - length active_mappings) @
                      '' port mappings from '' @ z))))"

definition use_context :: "string \<Rightarrow> string" where
  "use_context ctx = ''kubectl config use-context '' @ ctx"

definition cleanup_port_mappings ::
    "shell \<Rightarrow> (string \<Rightarrow> json result) \<Rightarrow> string \<Rightarrow> string list \<Rightarrow> string \<Rightarrow> (janitor, unit) eff" where
  "cleanup_port_mappings shell loads instance_group zones k8s_context =
     eseq (ebind (execute_command shell (use_context k8s_context)) show_line)
    (eseq (show_line ''Finding active node port services'')
    (ebind (get_active_node_ports shell loads) (\<lambda>active_ports.
     efor zones (prune_zone shell instance_group active_ports))))"

section \<open>Old namespaces\<close>

record namespace =
  ns_name :: string
  creation_timestamp :: int

definition DEFAULT_CLEANUP_THRESHOLD :: int where
  "DEFAULT_CLEANUP_THRESHOLD = 60 * 60 * 24 * 7"

definition delete_all_command :: "string \<Rightarrow> string" where
  "delete_all_command name = ''kubectl delete all -n '' @ name @ '' --all''"

definition delete_ns_command :: "string \<Rightarrow> string" where
  "delete_ns_command name = ''kubectl delete ns '' @ name"

text \<open>
  The condition of the clean-up, at the time \<open>now\<close>; times are in microseconds, the threshold is in
  seconds.
\<close>

definition to_clean :: "(string \<Rightarrow> string \<Rightarrow> bool) \<Rightarrow> int \<Rightarrow> int \<Rightarrow> string \<Rightarrow> namespace \<Rightarrow> bool" where
  "to_clean search now older_than pattern ns \<longleftrightarrow>
     ns_name ns \<noteq> [] \<and> search pattern (ns_name ns) \<and>
     creation_timestamp ns \<le> now - older_than * 1000000"

definition clean_namespace ::
    "shell \<Rightarrow> (string \<Rightarrow> string \<Rightarrow> bool) \<Rightarrow> int \<Rightarrow> int \<Rightarrow> string \<Rightarrow> namespace \<Rightarrow> (janitor, unit) eff" where
  "clean_namespace shell search now older_than pattern ns =
     (if to_clean search now older_than pattern ns
      then eseq (show_line (''Namespace ['' @ ns_name ns @ ''] exceeds age of '' @ str_int older_than @
                            '' seconds. Cleaning up resources...''))
          (eseq (execute_command shell (delete_all_command (ns_name ns)))
          (eseq (execute_command shell (delete_ns_command (ns_name ns))) (eret ())))
      else show_line (''Skipping Namespace '' @ ns_name ns @ ''.''))"

text \<open>
  \<open>list_namespace\<close> gives the namespaces of a context. The clock is read anew for every namespace:
  \<open>clock a b c\<close> is the time at namespace \<open>c\<close> for pattern \<open>b\<close> of context \<open>a\<close>, counted from 0.
\<close>

definition clean_context ::
    "shell \<Rightarrow> (string \<Rightarrow> string \<Rightarrow> bool) \<Rightarrow> (nat \<Rightarrow> nat \<Rightarrow> int) \<Rightarrow> int \<Rightarrow> string list \<Rightarrow> (string \<Rightarrow> namespace list) \<Rightarrow>
     string \<Rightarrow> (janitor, unit) eff" where
  "clean_context shell search clock older_than patterns list_namespace ctx =
     eseq (show_line (''Processing Kubernetes context '' @ ctx @ ''...''))
    (eseq (execute_command shell (use_context ctx))
          (efor (enumerate 0 patterns) (\<lambda>(b, pattern).
             eseq (show_line (''Checking cluster namespaces against pattern: '' @ pattern))
                  (efor (enumerate 0 (list_namespace ctx)) (\<lambda>(c, ns).
                     clean_namespace shell search (clock b c) older_than pattern ns)))))"

definition cleanup_namespace_resources ::
    "shell \<Rightarrow> (string \<Rightarrow> string \<Rightarrow> bool) \<Rightarrow> (nat \<Rightarrow> nat \<Rightarrow> nat \<Rightarrow> int) \<Rightarrow> string list \<Rightarrow> int \<Rightarrow> string list \<Rightarrow>
     (string \<Rightarrow> namespace list) \<Rightarrow> (janitor, unit) eff" where
  "cleanup_namespace_resources shell search clock patterns older_than contexts list_namespace =
     efor (enumerate 0 contexts) (\<lambda>(a, ctx).
       clean_context shell search (clock a) older_than patterns list_namespace ctx)"

section \<open>The commands as a plan\<close>

text \<open>
  What the clean-up of namespaces is to run, in order, with the commands and the condition written out:
  a namespace is due when it has a name in which the pattern is found and was created at least
  \<open>older_than\<close> seconds before the time at which it is looked at. A command counts with the code 1 when it
  ends the program, and with 0 otherwise.
\<close>

definition deletions_due ::
    "(string \<Rightarrow> string \<Rightarrow> bool) \<Rightarrow> int \<Rightarrow> int \<Rightarrow> string \<Rightarrow> namespace \<Rightarrow> string list" where
  "deletions_due search time_seen older_than pattern ns =
     (let name = ns_name ns; age = time_seen - creation_timestamp ns in
      if name = '''' \<or> \<not> search pattern name \<or> age < 1000000 * older_than then []
      else [''kubectl delete all -n '' @ name @ '' --all'', ''kubectl delete ns '' @ name])"

definition namespace_plan ::
    "(string \<Rightarrow> string \<Rightarrow> bool) \<Rightarrow> (nat \<Rightarrow> nat \<Rightarrow> int) \<Rightarrow> int \<Rightarrow> string list \<Rightarrow> namespace list \<Rightarrow> string \<Rightarrow> string list" where
  "namespace_plan search clock older_than patterns namespaces ctx =
     (''kubectl config use-context '' @ ctx) #
     concat (map (\<lambda>(b, pattern). concat (map (\<lambda>(c, ns). deletions_due search (clock b c) older_than pattern ns)
       (enumerate 0 namespaces))) (enumerate 0 patterns))"

text \<open>The commands run so far with their effect on the program\<close>

fun coded_from :: "shell \<Rightarrow> string list \<Rightarrow> string list \<Rightarrow> (string \<times> int) list" where
  "coded_from shell before [] = []"
| "coded_from shell before (c # cs) =
     (c, of_bool (0 < fst (shell before c))) # coded_from shell (before @ [c]) cs"

definition coded :: "shell \<Rightarrow> janitor \<Rightarrow> (string \<times> int) list" where
  "coded shell s = coded_from shell [] (executed s)"

lemma coded_from_append:
  "coded_from shell before (cs @ ds) = coded_from shell before cs @ coded_from shell (before @ cs) ds"
  by (induction shell before cs rule: coded_from.induct) simp_all

lemma coded_snoc:
  "coded shell (s\<lparr>executed := executed s @ [c]\<rparr>) = coded shell s @ [(c, of_bool (0 < fst (shell (executed s) c)))]"
  by (simp add: coded_def coded_from_append)

lemma coded_shown [simp]: "coded shell (s\<lparr>shown := x\<rparr>) = coded shell s"
  by (simp add: coded_def)

lemma follows_command: "follows_plan (coded shell) (execute_command shell cmd) [cmd]"
proof (rule follows_planI)
  fix s r t
  assume run: "execute_command shell cmd s = (r, t)"
  let ?s = "s\<lparr>executed := executed s @ [cmd]\<rparr>"
  obtain code out where sh: "shell (executed s) cmd = (code, out)" by (cases "shell (executed s) cmd")
  show "\<exists>evs. coded shell t = coded shell s @ evs \<and> stops_in [cmd] evs (returns r)"
  proof (cases "0 < code")
    case True
    with run sh have "r = Inl AttributeError" "coded shell t = coded shell ?s"
      by (auto simp: execute_command_def eseq_def show_line_def)
    with sh True show ?thesis by (auto simp: coded_snoc intro!: stops_in_failed)
  next
    case False
    with run sh have "r = Inr out" "t = ?s"
      by (auto simp: execute_command_def eseq_def)
    with sh False show ?thesis by (simp add: coded_snoc stops_in_def)
  qed
qed

lemma quiet_show: "coded shell (snd (show_line line s)) = coded shell s"
  by (simp add: show_line_def)

lemma follows_clean_namespace:
  "follows_plan (coded shell) (clean_namespace shell search now older_than pattern ns)
     (deletions_due search now older_than pattern ns)"
proof (cases "to_clean search now older_than pattern ns")
  case True
  have "follows_plan (coded shell) (eseq (execute_command shell (delete_all_command (ns_name ns)))
          (eseq (execute_command shell (delete_ns_command (ns_name ns))) (eret ())))
     ([delete_all_command (ns_name ns)] @ [delete_ns_command (ns_name ns)] @ [])"
    by (intro follows_seq follows_command follows_silent) simp
  moreover have "deletions_due search now older_than pattern ns =
      [delete_all_command (ns_name ns), delete_ns_command (ns_name ns)]"
    using True by (auto simp: deletions_due_def to_clean_def delete_all_command_def delete_ns_command_def Let_def)
  ultimately show ?thesis using True by (simp add: clean_namespace_def follows_silent_seq quiet_show)
next
  case False
  then have "deletions_due search now older_than pattern ns = []"
    by (auto simp: deletions_due_def to_clean_def Let_def)
  with False show ?thesis by (simp add: clean_namespace_def follows_silent quiet_show)
qed

lemma follows_clean_context:
  "follows_plan (coded shell) (clean_context shell search clock older_than patterns list_namespace ctx)
     (namespace_plan search clock older_than patterns (list_namespace ctx) ctx)"
proof -
  have p: "follows_plan (coded shell) (case bp of (b, pattern) \<Rightarrow> eseq (show_line (line pattern))
       (efor (enumerate 0 (list_namespace ctx)) (\<lambda>(c, ns).
          clean_namespace shell search (clock b c) older_than pattern ns)))
     (case bp of (b, pattern) \<Rightarrow> concat (map (\<lambda>(c, ns). deletions_due search (clock b c) older_than pattern ns)
       (enumerate 0 (list_namespace ctx))))" for line bp
    by (cases bp) (auto intro!: follows_silent_seq quiet_show follows_for follows_clean_namespace)
  have u: "''kubectl config use-context '' @ ctx = use_context ctx" by (simp add: use_context_def)
  show ?thesis
    unfolding clean_context_def namespace_plan_def u
    by (rule follows_silent_seq, rule quiet_show)
      (use follows_seq [OF follows_command follows_for [OF p]] in simp)
qed

text \<open>
  C36. Whatever the commands return, the clean-up of namespaces runs an initial part of
  the planned commands in order: for each context its selection, then for each pattern
  two deletions for every namespace with a name in which the pattern is found and whose
  age, at the time the clock shows when it is looked at, has reached the threshold, and
  nothing else. It runs all of them when none fails, and stops at the first that fails.
\<close>

theorem cleanup_namespaces_plan:
  "follows_plan (coded shell)
     (cleanup_namespace_resources shell search clock patterns older_than contexts list_namespace)
     (concat (map (\<lambda>(a, ctx). namespace_plan search (clock a) older_than patterns (list_namespace ctx) ctx)
       (enumerate 0 contexts)))"
  unfolding cleanup_namespace_resources_def by (auto intro!: follows_for follows_clean_context split: prod.split)

section \<open>Pruned mappings\<close>

lemma mapped_ports_wf:
  assumes "get_mapped_ports shell instance_group zone s = (Inr m, t)"
  shows "dict_wf m" and "executed t = executed s @ [get_ports_command instance_group zone]"
  using assms pydict.wfd_loop [of "[]"]
  by (auto simp: get_mapped_ports_def execute_command_def eseq_def ebind_def split: prod.splits sum.splits if_splits)

lemma prune_zone_run:
  assumes "prune_zone shell instance_group active z s = (Inr (), t)"
  shows "\<exists>m u v. get_mapped_ports shell instance_group z u = (Inr m, v) \<and> executed u = executed s \<and> dict_wf m \<and>
    executed t = executed s @ [get_ports_command instance_group z,
      set_ports_command instance_group z (filter (\<lambda>(name, port). JInt port \<in> active) m)]"
proof -
  let ?u = "s\<lparr>shown := shown s @ [''Pruning port mappings from '' @ z]\<rparr>"
  obtain m v where m: "get_mapped_ports shell instance_group z ?u = (Inr m, v)"
    using assms by (cases "get_mapped_ports shell instance_group z ?u")
      (auto simp: prune_zone_def eseq_def show_line_def ebind_def split: sum.splits)
  note w = mapped_ports_wf [OF m]
  have "executed t = executed v @ [set_ports_command instance_group z (filter (\<lambda>(name, port). JInt port \<in> active) m)]"
    using assms m
    by (auto simp: prune_zone_def eseq_def show_line_def set_port_mappings_def execute_command_def
        ebind_def Let_def split: prod.splits sum.splits if_splits)
  with w m show ?thesis by (intro exI [of _ m] exI [of _ ?u] exI [of _ v]) simp
qed

end
