(* ===== verification/UserAgent.thy ===== *)
theory UserAgent
  imports Py_Json
begin

text \<open>
  The agent that sends transactions on a test network,
  \<open>automation/services/coda-user-agent/agent.py\<close>.

  The Coda client is the record \<open>coda\<close> of its four calls over an abstract state of the daemon; amounts have an
  abstract type, since the class \<open>Currency\<close> belongs to the client package. The state is the
  daemon's with the attribute \<open>to_account\<close>, the two counters and the lines printed.
\<close>

section \<open>Settings\<close>

definition getenv_default_map :: "(string, string) dict \<Rightarrow> string \<Rightarrow> (string \<Rightarrow> 'a result) \<Rightarrow> 'a \<Rightarrow> 'a result" where
  "getenv_default_map environ env_var f dflt =
     (case map_of environ env_var of None \<Rightarrow> Inr dflt | Some v \<Rightarrow> f v)"

definition getenv_str :: "(string, string) dict \<Rightarrow> string \<Rightarrow> string \<Rightarrow> string" where
  "getenv_str environ env_var dflt = py_strip (dict_get environ env_var dflt)"

definition getenv_int :: "(string, string) dict \<Rightarrow> string \<Rightarrow> int \<Rightarrow> int result" where
  "getenv_int environ env_var dflt = getenv_default_map environ env_var py_int dflt"

text \<open>\<open>currency\<close> reads an amount; the random default is drawn in any case.\<close>

definition getenv_currency ::
    "(string, string) dict \<Rightarrow> (string \<Rightarrow> 'c result) \<Rightarrow> string \<Rightarrow> 'c \<Rightarrow> 'c result" where
  "getenv_currency environ currency env_var drawn = getenv_default_map environ env_var currency drawn"

section \<open>The agent\<close>

record ('d, 'c) coda =
  create_wallet :: "string \<Rightarrow> ('d, json) eff"
  unlock_wallet_call :: "string \<Rightarrow> string \<Rightarrow> ('d, json) eff"
  random_amount :: "'c \<Rightarrow> 'c \<Rightarrow> ('d, 'c) eff"
  send_payment :: "json \<Rightarrow> string \<Rightarrow> 'c \<Rightarrow> 'c \<Rightarrow> string \<Rightarrow> ('d, json) eff"

record 'c agent_args =
  public_key :: string
  privkey_pass :: string
  min_tx_amount :: 'c
  max_tx_amount :: 'c
  min_fee_amount :: 'c
  max_fee_amount :: 'c

record 'd agent =
  daemon_state :: 'd
  to_account :: json
  TRANSACTIONS_SENT :: nat
  TRANSACTION_ERRORS :: nat

definition start_agent :: "'d \<Rightarrow> 'd agent" where
  "start_agent d = \<lparr>daemon_state = d, to_account = JNull, TRANSACTIONS_SENT = 0, TRANSACTION_ERRORS = 0\<rparr>"

definition on_daemon :: "('d, 'a) eff \<Rightarrow> ('d agent, 'a) eff" where
  "on_daemon m s = (case m (daemon_state s) of (r, d) \<Rightarrow> (r, s\<lparr>daemon_state := d\<rparr>))"

definition get_to_account :: "('d, 'c) coda \<Rightarrow> 'c agent_args \<Rightarrow> ('d agent, json) eff" where
  "get_to_account cl args =
     ebind (eget to_account) (\<lambda>acc.
     if \<not> json_true acc
     then ebind (on_daemon (create_wallet cl (privkey_pass args))) (\<lambda>response.
          ebind (elift (json_path response [''createAccount'', ''publicKey''])) (\<lambda>key.
          eseq (emodify (\<lambda>s. s\<lparr>to_account := key\<rparr>)) (eret key)))
     else eret acc)"

definition unlock_wallet :: "('d, 'c) coda \<Rightarrow> 'c agent_args \<Rightarrow> ('d agent, json) eff" where
  "unlock_wallet cl args = on_daemon (unlock_wallet_call cl (public_key args) (privkey_pass args))"

definition count_agent_error :: "('d agent, unit) eff" where
  "count_agent_error = emodify (\<lambda>s. s\<lparr>TRANSACTION_ERRORS := TRANSACTION_ERRORS s + 1\<rparr>)"

definition ConnectionError :: py_error where
  "ConnectionError = PyException ''ConnectionError''"

text \<open>The first \<open>try\<close>: \<open>None\<close> when an exception was handled\<close>

definition prepare :: "('d, 'c) coda \<Rightarrow> 'c agent_args \<Rightarrow> ('d agent, json option) eff" where
  "prepare cl args =
     ecatch (ebind (get_to_account cl args) (\<lambda>acc. eseq (unlock_wallet cl args) (eret (Some acc))))
       (\<lambda>e. if e = ConnectionError then eseq count_agent_error (eret None) else eret None)"

text \<open>\<open>response.get("errors", None)\<close>\<close>

fun json_get_errors :: "json \<Rightarrow> json result" where
  "json_get_errors (JDict kvs) = Inr (dict_get kvs ''errors'' JNull)"
| "json_get_errors _ = Inl AttributeError"

definition settle :: "json \<Rightarrow> ('d agent, json option) eff" where
  "settle response =
     ebind (elift (json_get_errors response)) (\<lambda>errors.
     eseq (if \<not> json_true errors
           then emodify (\<lambda>s. s\<lparr>TRANSACTIONS_SENT := TRANSACTIONS_SENT s + 1\<rparr>)
           else count_agent_error)
          (eret (Some response)))"

definition send_transaction :: "('d, 'c) coda \<Rightarrow> 'c agent_args \<Rightarrow> ('d agent, json option) eff" where
  "send_transaction cl args =
     ebind (prepare cl args) (\<lambda>acc.
     case acc of
       None \<Rightarrow> eret None
     | Some to_acc \<Rightarrow>
         ebind (on_daemon (random_amount cl (min_tx_amount args) (max_tx_amount args))) (\<lambda>tx_amount.
         ebind (on_daemon (random_amount cl (min_fee_amount args) (max_fee_amount args))) (\<lambda>fee_amount.
         ebind (ecatch (ebind (on_daemon (send_payment cl to_acc (public_key args) tx_amount fee_amount ''BeepBoop''))
                          (\<lambda>response. eret (Some response)))
                 (\<lambda>e. eseq count_agent_error (eret None))) (\<lambda>sent.
         case sent of None \<Rightarrow> eret None | Some response \<Rightarrow> settle response))))"

definition send_transaction_batch :: "nat \<Rightarrow> ('d, 'c) coda \<Rightarrow> 'c agent_args \<Rightarrow> ('d agent, json option list) eff" where
  "send_transaction_batch batch_size cl args = emapM (\<lambda>i. send_transaction cl args) [0 ..< batch_size]"

section \<open>The program\<close>

text \<open>
  The settings of the module, read in the order of the source. \<open>currency\<close> and \<open>draw\<close> are the
  constructor and \<open>random\<close> of the class \<open>Currency\<close> (with the number of the draw), \<open>add_amount\<close> its addition;
  \<open>randint\<close> is the drawn number of minutes.
\<close>

record 'c agent_settings =
  agent_args_of :: "'c agent_args"
  AGENT_TX_BATCH_SIZE :: int
  AGENT_SEND_EVERY_MINS :: int
  AGENT_METRICS_PORT :: int
  CODA_CLIENT_ARGS :: "(string, string) dict"

definition drawn_setting ::
    "(string, string) dict \<Rightarrow> (string \<Rightarrow> 'c result) \<Rightarrow> ('c \<Rightarrow> 'c \<Rightarrow> 'c result) \<Rightarrow> string \<Rightarrow> 'c result \<Rightarrow> 'c result \<Rightarrow> 'c result" where
  "drawn_setting environ currency draw env_var lower upper =
     rbind lower (\<lambda>lo. rbind upper (\<lambda>hi. rbind (draw lo hi) (\<lambda>d. getenv_currency environ currency env_var d)))"

definition CODA_PUBLIC_KEY :: "(string, string) dict \<Rightarrow> string" where
  "CODA_PUBLIC_KEY environ = getenv_str environ ''CODA_PUBLIC_KEY''
     (''4vsRCVyVkSRs89neWnKPrnz4FRPmXXrWtbsAQ31hUTSi41EkbptYaLkzmxezQEGCgZnjqY2pQ6mdeCytu7LrYMGx9'' @
      ''NiUNNJh8XfJYbzprhhJmm1ZjVbW9ZLRvhWBXRqes6znuF7fWbECrCpQ'')"

definition read_agent_settings ::
    "(string, string) dict \<Rightarrow> (string \<Rightarrow> 'c result) \<Rightarrow> (nat \<Rightarrow> 'c \<Rightarrow> 'c \<Rightarrow> 'c result) \<Rightarrow> ('c \<Rightarrow> 'c \<Rightarrow> 'c) \<Rightarrow> int \<Rightarrow>
     'c agent_settings result" where
  "read_agent_settings environ currency draw add_amount randint =
     rbind (drawn_setting environ currency (draw 0) ''AGENT_MIN_FEE'' (currency ''0.06'') (currency ''0.1'')) (\<lambda>min_fee.
     rbind (drawn_setting environ currency (draw 1) ''AGENT_MAX_FEE'' (Inr min_fee)
              (rbind (currency ''0.2'') (\<lambda>c. Inr (add_amount min_fee c)))) (\<lambda>max_fee.
     rbind (drawn_setting environ currency (draw 2) ''AGENT_MIN_TX'' (currency ''0.0015'') (currency ''0.005'')) (\<lambda>min_tx.
     rbind (drawn_setting environ currency (draw 3) ''AGENT_MAX_TX'' (Inr min_tx)
              (rbind (currency ''0.01'') (\<lambda>c. Inr (add_amount min_tx c)))) (\<lambda>max_tx.
     rbind (getenv_int environ ''AGENT_TX_BATCH_SIZE'' 1) (\<lambda>batch.
     rbind (getenv_int environ ''AGENT_SEND_EVERY_MINS'' randint) (\<lambda>mins.
     rbind (getenv_int environ ''AGENT_METRICS_PORT'' 8000) (\<lambda>port.
     Inr \<lparr>agent_args_of = \<lparr>public_key = CODA_PUBLIC_KEY environ,
            privkey_pass = getenv_str environ ''MINA_PRIVKEY_PASS'' ''naughty blue worm'',
            min_tx_amount = min_tx, max_tx_amount = max_tx, min_fee_amount = min_fee, max_fee_amount = max_fee\<rparr>,
          AGENT_TX_BATCH_SIZE = batch, AGENT_SEND_EVERY_MINS = mins, AGENT_METRICS_PORT = port,
          CODA_CLIENT_ARGS = [(''graphql_host'', getenv_str environ ''CODA_HOST'' ''localhost''),
                              (''graphql_port'', getenv_str environ ''CODA_PORT'' ''3085'')]\<rparr>)))))))"

text \<open>
  The start of the program and the turns of \<open>main\<close>: \<open>due\<close> tells of each turn whether the scheduler runs
  the batch; the line and the pause of ten seconds after each turn are left out. An exception of a
  batch is not caught.
\<close>

datatype agent_call =
    Start_Metrics int
  | Say string
  | Sleep_Seconds int
  | Schedule_Every int

definition agent_startup :: "'c agent_settings \<Rightarrow> agent_call list" where
  "agent_startup settings =
     [Say ''Starting up...'', Start_Metrics (AGENT_METRICS_PORT settings),
      Say (''Metrics on Port '' @ str_int (AGENT_METRICS_PORT settings)),
      Say ''Sleeping for 20 minutes...'', Sleep_Seconds (60 * 20),
      Schedule_Every (AGENT_SEND_EVERY_MINS settings),
      Say (''Sending a transaction every '' @ str_int (AGENT_SEND_EVERY_MINS settings) @ '' minutes.'')]"

fun agent_turns :: "'c agent_settings \<Rightarrow> ('d, 'c) coda \<Rightarrow> bool list \<Rightarrow> ('d agent, unit) eff" where
  "agent_turns settings cl [] = eret ()"
| "agent_turns settings cl (d # ds) =
     eseq (if d then eseq (send_transaction_batch (nat (AGENT_TX_BATCH_SIZE settings)) cl (agent_args_of settings)) (eret ())
           else eret ())
       (agent_turns settings cl ds)"

text \<open>A setting that is no number ends the program before it serves any metrics.\<close>

lemma bad_agent_port:
  assumes "map_of environ ''AGENT_METRICS_PORT'' = Some v" and "py_int v = Inl e"
  shows "\<exists>e. read_agent_settings environ currency draw add_amount randint = Inl e"
proof -
  have "getenv_int environ ''AGENT_METRICS_PORT'' 8000 = Inl e"
    using assms by (simp add: getenv_int_def getenv_default_map_def)
  then have "read_agent_settings environ currency draw add_amount randint \<noteq> Inr s" for s
    by (auto simp: read_agent_settings_def rbind_eq_Inr)
  then show ?thesis by (cases "read_agent_settings environ currency draw add_amount randint") auto
qed

section \<open>The counters\<close>

definition succeeded :: "json option \<Rightarrow> bool" where
  "succeeded r = (case r of None \<Rightarrow> False | Some v \<Rightarrow> \<not> json_true (case json_get_errors v of Inr e \<Rightarrow> e | Inl _ \<Rightarrow> JBool True))"

definition rejected :: "json option \<Rightarrow> bool" where
  "rejected r \<longleftrightarrow> r \<noteq> None \<and> \<not> succeeded r"

text \<open>A daemon whose first payment is accepted and whose second call of \<open>unlock_wallet\<close> fails\<close>

definition demo_coda :: "(nat, nat) coda" where
  "demo_coda =
     \<lparr>create_wallet = \<lambda>pw. eret (JDict [(''createAccount'', JDict [(''publicKey'', JStr ''B62to'')])]),
      unlock_wallet_call = \<lambda>pk pw n. (if n = 0 then Inr JNull else Inl (PyException ''locked''), n + 1),
      random_amount = \<lambda>lo hi. eret lo,
      send_payment = \<lambda>acc pk a b memo. eret (JDict [(''sendPayment'', JNull)])\<rparr>"

definition demo_agent_args :: "nat agent_args" where
  "demo_agent_args = \<lparr>public_key = ''B62from'', privkey_pass = ''pw'', min_tx_amount = 1, max_tx_amount = 2,
     min_fee_amount = 1, max_fee_amount = 2\<rparr>"

interpretation uncounted: effect_frame
    "\<lambda>s t. TRANSACTIONS_SENT t = TRANSACTIONS_SENT s \<and> TRANSACTION_ERRORS t = TRANSACTION_ERRORS s"
  by unfold_locales auto

lemma quiet_daemon:
  "framed (\<lambda>s t. TRANSACTIONS_SENT t = TRANSACTIONS_SENT s \<and> TRANSACTION_ERRORS t = TRANSACTION_ERRORS s) (on_daemon m)"
  by (auto simp: framed_def on_daemon_def split: prod.splits)

lemma on_daemon_counters:
  "on_daemon m s = (r, t) \<Longrightarrow> TRANSACTIONS_SENT t = TRANSACTIONS_SENT s \<and> TRANSACTION_ERRORS t = TRANSACTION_ERRORS s"
  using framedD [OF quiet_daemon] by blast

lemma quiet_account:
  "framed (\<lambda>s t. TRANSACTIONS_SENT t = TRANSACTIONS_SENT s \<and> TRANSACTION_ERRORS t = TRANSACTION_ERRORS s)
     (ebind (get_to_account cl args) (\<lambda>acc. eseq (unlock_wallet cl args) (eret (Some acc))))"
proof -
  have "framed (\<lambda>s t. TRANSACTIONS_SENT t = TRANSACTIONS_SENT s \<and> TRANSACTION_ERRORS t = TRANSACTION_ERRORS s)
      (emodify (\<lambda>s. s\<lparr>to_account := key\<rparr>))" for key
    by (rule uncounted.framed_modify) simp
  then show ?thesis
    unfolding get_to_account_def unlock_wallet_def by (intro uncounted.frame_rules quiet_daemon)
qed

lemma prepare_counters:
  assumes "prepare cl args s = (r, t)"
  shows "\<exists>acc. r = Inr acc \<and> TRANSACTIONS_SENT t = TRANSACTIONS_SENT s \<and> TRANSACTION_ERRORS s \<le> TRANSACTION_ERRORS t \<and>
    TRANSACTION_ERRORS t \<le> TRANSACTION_ERRORS s + of_bool (acc = None)"
proof -
  let ?m = "ebind (get_to_account cl args) (\<lambda>acc. eseq (unlock_wallet cl args) (eret (Some acc)))"
  obtain q u where m: "?m s = (q, u)" by (cases "?m s")
  have u: "TRANSACTIONS_SENT u = TRANSACTIONS_SENT s \<and> TRANSACTION_ERRORS u = TRANSACTION_ERRORS s"
    by (rule framedD [OF quiet_account m])
  show ?thesis
  proof (cases q)
    case (Inl e)
    with assms m have "(r, t) = (if e = ConnectionError then eseq count_agent_error (eret None) else eret None) u"
      by (simp add: prepare_def ecatch_def)
    with u show ?thesis by (cases "e = ConnectionError") (auto simp: count_agent_error_def eseq_def)
  next
    case (Inr acc)
    with assms m have "r = Inr acc" "t = u" by (auto simp: prepare_def ecatch_def)
    with u show ?thesis by simp
  qed
qed

lemma settle_counters:
  assumes "settle v s = (Inr x, t)"
  shows "x = Some v \<and> TRANSACTIONS_SENT t = TRANSACTIONS_SENT s + of_bool (succeeded x) \<and>
    TRANSACTION_ERRORS t = TRANSACTION_ERRORS s + of_bool (\<not> succeeded x)"
  using assms by (cases "json_get_errors v")
    (auto simp: settle_def ebind_def eseq_def count_agent_error_def succeeded_def split: if_splits)

lemma send_transaction_counters:
  assumes "send_transaction cl args s = (Inr x, t)"
  shows "TRANSACTIONS_SENT t = TRANSACTIONS_SENT s + of_bool (succeeded x) \<and>
    TRANSACTION_ERRORS s + of_bool (rejected x) \<le> TRANSACTION_ERRORS t \<and>
    TRANSACTION_ERRORS t \<le> TRANSACTION_ERRORS s + of_bool (\<not> succeeded x)"
proof -
  obtain acc u where p: "prepare cl args s = (Inr acc, u)"
    using prepare_counters [of cl args s] by (cases "prepare cl args s") blast
  note pc = prepare_counters [OF p]
  show ?thesis
  proof (cases acc)
    case None
    with assms p have "x = None" "t = u" by (auto simp: send_transaction_def ebind_def)
    with pc None show ?thesis by (auto simp: succeeded_def rejected_def)
  next
    case (Some to_acc)
    obtain tx u1 where a1: "on_daemon (random_amount cl (min_tx_amount args) (max_tx_amount args)) u = (Inr tx, u1)"
      using assms p Some by (auto simp: send_transaction_def ebind_def split: prod.splits sum.splits)
    obtain fee u2 where a2: "on_daemon (random_amount cl (min_fee_amount args) (max_fee_amount args)) u1 = (Inr fee, u2)"
      using assms p Some a1 by (auto simp: send_transaction_def ebind_def split: prod.splits sum.splits)
    obtain q u3 where a3: "on_daemon (send_payment cl to_acc (public_key args) tx fee ''BeepBoop'') u2 = (q, u3)"
      by (cases "on_daemon (send_payment cl to_acc (public_key args) tx fee ''BeepBoop'') u2")
    have c: "TRANSACTIONS_SENT u3 = TRANSACTIONS_SENT s" "TRANSACTION_ERRORS u3 = TRANSACTION_ERRORS s"
      using on_daemon_counters [OF a1] on_daemon_counters [OF a2] on_daemon_counters [OF a3] pc Some by auto
    show ?thesis
    proof (cases q)
      case (Inl e)
      with assms p Some a1 a2 a3 have "x = None" "t = u3\<lparr>TRANSACTION_ERRORS := TRANSACTION_ERRORS u3 + 1\<rparr>"
        by (auto simp: send_transaction_def ebind_def ecatch_def eseq_def count_agent_error_def)
      with c show ?thesis by (simp add: succeeded_def rejected_def)
    next
      case (Inr v)
      with assms p Some a1 a2 a3 have "settle v u3 = (Inr x, t)"
        by (simp add: send_transaction_def ebind_def ecatch_def)
      from settle_counters [OF this] c show ?thesis by (auto simp: rejected_def)
    qed
  qed
qed

lemma batch_counters:
  assumes "emapM (\<lambda>i. send_transaction cl args) is s = (Inr rs, t)"
  shows "length rs = length is \<and>
    TRANSACTIONS_SENT t = TRANSACTIONS_SENT s + length (filter succeeded rs) \<and>
    TRANSACTION_ERRORS s + length (filter rejected rs) \<le> TRANSACTION_ERRORS t \<and>
    TRANSACTION_ERRORS t \<le> TRANSACTION_ERRORS s + length (filter (\<lambda>r. \<not> succeeded r) rs)"
  using assms
proof (induction "is" arbitrary: s rs)
  case Nil
  then show ?case by simp
next
  case (Cons i is')
  then obtain x u ys where x: "send_transaction cl args s = (Inr x, u)"
    and ys: "emapM (\<lambda>i. send_transaction cl args) is' u = (Inr ys, t)" and rs: "rs = x # ys"
    by (auto simp: ebind_def split: prod.splits sum.splits)
  from Cons.IH [OF ys] send_transaction_counters [OF x] rs show ?case
    by (cases "succeeded x"; cases "rejected x") auto
qed

text \<open>
  When a batch returns, it has one response per transaction; the counter of sent
  transactions has grown by the number of responses without errors, and the counter of
  errors by at least the number of rejected ones and at most the number of transactions
  that did not succeed.
\<close>

theorem agent_counters:
  assumes "send_transaction_batch batch_size cl args s = (Inr rs, t)"
  shows "length rs = batch_size \<and>
    TRANSACTIONS_SENT t = TRANSACTIONS_SENT s + length (filter succeeded rs) \<and>
    TRANSACTION_ERRORS s + length (filter rejected rs) \<le> TRANSACTION_ERRORS t \<and>
    TRANSACTION_ERRORS t \<le> TRANSACTION_ERRORS s + length (filter (\<lambda>r. \<not> succeeded r) rs)"
  using batch_counters [OF assms [unfolded send_transaction_batch_def]] by simp

lemma demo_batch:
  "send_transaction_batch 2 demo_coda demo_agent_args (start_agent 0) =
     (Inr [Some (JDict [(''sendPayment'', JNull)]), None],
      \<lparr>daemon_state = 2, to_account = JStr ''B62to'', TRANSACTIONS_SENT = 1, TRANSACTION_ERRORS = 0\<rparr>)"
  by code_simp

theorem agent_counters_witness:
  "length (filter succeeded [Some (JDict [(''sendPayment'', JNull)]), None]) = 1"
  using agent_counters [OF demo_batch] by (simp add: start_agent_def)

end
