(* ===== verification/GossipGraph.thy ===== *)
theory GossipGraph
  imports Py_Json
begin

text \<open>
  How \<open>automation/scripts/testnet-validation/rebroadcasted_blocks_vis.py\<close> makes a graph of the
  gossip network from log entries, with \<open>logs.py\<close>, which fetches them.

  The entries are JSON values. The first loop sorts them by the hash of the block into three tables; then, for each
  rebroadcast block, every receipt becomes an edge, weighted by the time since the sender's own
  log entry. The graph package is not modelled: a graph is the list of calls made on it,
  and the parameter \<open>in_graph\<close> says which nodes those calls have put into it. \<open>isoparse\<close> reads a time
  stamp as microseconds. Log lines, the cache file, the pauses and the layout are left out.
\<close>

section \<open>Fetching\<close>

text \<open>The loop of \<open>fetch_logs\<close> over the entries of the service, with their number so far\<close>

fun fetch_loop :: "int \<Rightarrow> int \<Rightarrow> json list \<Rightarrow> json list result" where
  "fetch_loop max_entries index [] = Inr []"
| "fetch_loop max_entries index (entry # rest) =
     (if max_entries = 0 then Inl ZeroDivisionError
      else if (index + 1) mod max_entries = 0 then Inr [entry]
      else rbind (fetch_loop max_entries (index + 1) rest) (\<lambda>logs. Inr (entry # logs)))"

definition fetch_logs :: "json list \<Rightarrow> int \<Rightarrow> json list result" where
  "fetch_logs log_iterator max_entries = fetch_loop max_entries 0 log_iterator"

text \<open>
  \<open>fetch_logs\<close> of \<open>logs.py\<close> with its query: \<open>earliest hours\<close> is the time that many hours ago as text, and \<open>service\<close>
  the entries the log service has for a query.
\<close>

definition logs_filter :: "string \<Rightarrow> string \<Rightarrow> string" where
  "logs_filter earliest_timestamp namespace =
     ''\<newline>  timestamp >= \"'' @ earliest_timestamp @ ''\"\<newline>  resource.type=\"k8s_container\"\<newline>  resource.labels.namespace_name=\"'' @
     namespace @ ''\"\<newline>  ''"

definition query_logs :: "(int \<Rightarrow> string) \<Rightarrow> (string \<Rightarrow> json list) \<Rightarrow> string \<Rightarrow> int \<Rightarrow> string \<Rightarrow> int \<Rightarrow> json list result" where
  "query_logs earliest service namespace hours_ago log_filter max_entries =
     fetch_logs (service (logs_filter (earliest hours_ago) namespace @ log_filter)) max_entries"

section \<open>Sorting the entries\<close>

type_synonym log_table = "(json, json list) dict"

record gossip_logs =
  broadcasting_block_logs :: log_table
  received_block_logs :: log_table
  rebroadcasting_block_logs :: log_table

definition no_gossip_logs :: gossip_logs where
  "no_gossip_logs =
     \<lparr>broadcasting_block_logs = [], received_block_logs = [], rebroadcasting_block_logs = []\<rparr>"

text \<open>\<open>{**a, **b}\<close>\<close>

fun json_merge :: "json \<Rightarrow> json \<Rightarrow> json result" where
  "json_merge (JDict a) (JDict b) = Inr (JDict (dict_update a b))"
| "json_merge _ _ = Inl TypeError"

definition add_log ::
    "((log_table \<Rightarrow> log_table) \<Rightarrow> gossip_logs \<Rightarrow> gossip_logs) \<Rightarrow> json \<Rightarrow> json \<Rightarrow> json \<Rightarrow> (gossip_logs, unit) eff" where
  "add_log upd state_hash json_payload labels =
     eseq (elift (hashable state_hash))
    (ebind (elift (json_merge json_payload labels)) (\<lambda>merged.
     emodify (upd (dict_modify state_hash [] (\<lambda>l. l @ [merged])))))"

definition sort_entry :: "json \<Rightarrow> (gossip_logs, unit) eff" where
  "sort_entry entry =
     ebind (elift (json_index entry (- 1))) (\<lambda>json_payload.
     ebind (elift (json_index entry 1)) (\<lambda>labels.
     ebind (elift (json_item json_payload ''message'')) (\<lambda>message.
     ebind (elift (json_item json_payload ''metadata'')) (\<lambda>metadata.
     case json_item metadata ''state_hash'' of
       Inl (KeyError k) \<Rightarrow> eret ()
     | Inl e \<Rightarrow> eraise e
     | Inr state_hash \<Rightarrow>
         if labels = JNull then eret ()
         else
           eseq (ebind (elift (json_contains ''Broadcasting new state'' message)) (\<lambda>b.
                   if b then add_log broadcasting_block_logs_update state_hash json_payload labels else eret ()))
          (ebind (elift (json_contains ''Received'' message)) (\<lambda>received.
           if received then add_log received_block_logs_update state_hash json_payload labels
           else ebind (elift (json_contains ''Rebroadcasting'' message)) (\<lambda>rebroadcast.
             if rebroadcast then add_log rebroadcasting_block_logs_update state_hash json_payload labels
             else eret ())))))))"

text \<open>The counter is compared with the limit before the entry is looked at.\<close>

fun sort_entries :: "int \<Rightarrow> int \<Rightarrow> json list \<Rightarrow> (gossip_logs, unit) eff" where
  "sort_entries max_entries nBlocks [] = eret ()"
| "sort_entries max_entries nBlocks (entry # rest) =
     (if nBlocks + 1 = max_entries then eret ()
      else eseq (sort_entry entry) (sort_entries max_entries (nBlocks + 1) rest))"

section \<open>The edges\<close>

datatype graph_call =
    Add_Node json "(string \<times> json) list"
  | Add_Edge json json rat

fun retrieve_log :: "json list \<Rightarrow> string \<Rightarrow> json \<Rightarrow> json option result" where
  "retrieve_log [] key v = Inr None"
| "retrieve_log (entry # logs) key v =
     rbind (json_path entry [''metadata'', key]) (\<lambda>w.
     if w = v then Inr (Some entry) else retrieve_log logs key v)"

text \<open>\<open>delta.microseconds / 1000\<close>: only the part of a time difference below a second\<close>

definition edge_weight :: "int \<Rightarrow> rat" where
  "edge_weight delta = of_int (delta mod 1000000) / 1000"

definition node_label :: "json \<Rightarrow> json result" where
  "node_label receive_log =
     rbind (rbind (json_item receive_log ''k8s-pod/app'') json_string_method) (\<lambda>app.
     Inr (JStr (py_replace ''-block-producer-'' ''-'' app)))"

text \<open>\<open>peer_id[0:12]\<close>\<close>

fun json_take :: "nat \<Rightarrow> json \<Rightarrow> json result" where
  "json_take n (JStr s) = Inr (JStr (take n s))"
| "json_take n (JList xs) = Inr (JList (take n xs))"
| "json_take n _ = Inl TypeError"

definition call :: "graph_call \<Rightarrow> (graph_call list, unit) eff" where
  "call c = emodify (\<lambda>cs. cs @ [c])"

definition measured_edge ::
    "(json \<Rightarrow> int result) \<Rightarrow> json \<Rightarrow> json \<Rightarrow> json \<Rightarrow> json \<Rightarrow> (graph_call list, unit) eff" where
  "measured_edge isoparse receive_log rebroadcast_log sender receiver =
     ebind (elift (rbind (json_item rebroadcast_log ''timestamp'') isoparse)) (\<lambda>send_time.
     ebind (elift (rbind (json_item receive_log ''timestamp'') isoparse)) (\<lambda>receive_time.
     ebind (elift (node_label receive_log)) (\<lambda>label.
     eseq (call (Add_Node receiver [(''label'', label)]))
          (call (Add_Edge sender receiver (edge_weight (receive_time - send_time)))))))"

definition unmeasured_edge ::
    "(graph_call list \<Rightarrow> json \<Rightarrow> bool) \<Rightarrow> json \<Rightarrow> json \<Rightarrow> json \<Rightarrow> (graph_call list, unit) eff" where
  "unmeasured_edge in_graph receive_log sender receiver =
     eseq (ebind (eget (\<lambda>cs. in_graph cs sender)) (\<lambda>known.
             if known then eret ()
             else ebind (elift (json_take 12 sender)) (\<lambda>label.
                  call (Add_Node sender [(''color'', JStr ''white''), (''label'', label)]))))
    (eseq (ebind (eget (\<lambda>cs. in_graph cs receiver)) (\<lambda>known.
             if known then eret ()
             else ebind (elift (node_label receive_log)) (\<lambda>label. call (Add_Node receiver [(''label'', label)]))))
          (call (Add_Edge sender receiver (- 1))))"

definition add_receipt ::
    "(graph_call list \<Rightarrow> json \<Rightarrow> bool) \<Rightarrow> (json \<Rightarrow> int result) \<Rightarrow> json list \<Rightarrow> json \<Rightarrow> (graph_call list, unit) eff" where
  "add_receipt in_graph isoparse rebroadcasts receive_log =
     ebind (elift (json_item receive_log ''metadata'')) (\<lambda>metadata.
     ebind (elift (json_path metadata [''sender'', ''Remote''])) (\<lambda>sender.
     eseq (elift (json_item metadata ''host''))
    (ebind (elift (json_item metadata ''peer_id'')) (\<lambda>receiver_id.
     ebind (elift (json_item sender ''peer_id'')) (\<lambda>sender_id.
     ebind (elift (retrieve_log rebroadcasts ''peer_id'' sender_id)) (\<lambda>found.
     case found of
       Some rebroadcast_log \<Rightarrow> measured_edge isoparse receive_log rebroadcast_log sender_id receiver_id
     | None \<Rightarrow> unmeasured_edge in_graph receive_log sender_id receiver_id))))))"

text \<open>The graph of one block\<close>

definition block_graph ::
    "(graph_call list \<Rightarrow> json \<Rightarrow> bool) \<Rightarrow> (json \<Rightarrow> int result) \<Rightarrow> gossip_logs \<Rightarrow> json \<Rightarrow> unit result \<times> graph_call list" where
  "block_graph in_graph isoparse logs key =
     efor (dict_get (received_block_logs logs) key [])
       (add_receipt in_graph isoparse (dict_get (rebroadcasting_block_logs logs) key [])) []"

definition gossip_graphs ::
    "(graph_call list \<Rightarrow> json \<Rightarrow> bool) \<Rightarrow> (json \<Rightarrow> int result) \<Rightarrow> unit result \<times> gossip_logs \<Rightarrow> (json \<times> graph_call list) list result" where
  "gossip_graphs in_graph isoparse outcome =
     (case outcome of
        (Inl e, logs) \<Rightarrow> Inl e
      | (Inr u, logs) \<Rightarrow>
          mapM (\<lambda>key. case block_graph in_graph isoparse logs key of
                         (Inl e, calls) \<Rightarrow> Inl e
                       | (Inr u, calls) \<Rightarrow> Inr (key, calls))
            (dict_keys (rebroadcasting_block_logs logs)))"

definition process_log_iterator ::
    "(graph_call list \<Rightarrow> json \<Rightarrow> bool) \<Rightarrow> (json \<Rightarrow> int result) \<Rightarrow> int \<Rightarrow> json list \<Rightarrow> (json \<times> graph_call list) list result" where
  "process_log_iterator in_graph isoparse max_entries entries =
     gossip_graphs in_graph isoparse (sort_entries max_entries 0 entries no_gossip_logs)"

text \<open>
  \<open>visualize_gossip_net\<close>: the entries come from the service, with the limit \<open>fetch_logs\<close> has by itself, or from the
  lines of a file, each read as JSON when the loop comes to it, before the counter is compared.
\<close>

definition BLOCK_LOG_FILTER :: string where
  "BLOCK_LOG_FILTER =
     '' \"Broadcasting new state over gossip net\" OR \"Rebroadcasting $state_hash\" OR \"Received a block $block from $sender\" '' @
     ''AND jsonPayload.metadata.state_hash:\"\" AND jsonPayload.metadata.state_hash:\"\"''"

fun sort_lines :: "(string \<Rightarrow> json result) \<Rightarrow> int \<Rightarrow> int \<Rightarrow> string list \<Rightarrow> (gossip_logs, unit) eff" where
  "sort_lines loads max_entries nBlocks [] = eret ()"
| "sort_lines loads max_entries nBlocks (line # rest) =
     ebind (elift (loads line)) (\<lambda>entry.
     if nBlocks + 1 = max_entries then eret ()
     else eseq (sort_entry entry) (sort_lines loads max_entries (nBlocks + 1) rest))"

definition visualize_gossip_net ::
    "(graph_call list \<Rightarrow> json \<Rightarrow> bool) \<Rightarrow> (json \<Rightarrow> int result) \<Rightarrow> (int \<Rightarrow> string) \<Rightarrow> (string \<Rightarrow> json list) \<Rightarrow>
     (string \<Rightarrow> json result) \<Rightarrow> string list option \<Rightarrow> string \<Rightarrow> int \<Rightarrow> int \<Rightarrow> (json \<times> graph_call list) list result" where
  "visualize_gossip_net in_graph isoparse earliest service loads in_file namespace hours_ago max_entries =
     (case in_file of
        None \<Rightarrow> rbind (query_logs earliest service namespace hours_ago BLOCK_LOG_FILTER 1000)
                  (process_log_iterator in_graph isoparse max_entries)
      | Some lines \<Rightarrow> gossip_graphs in_graph isoparse (sort_lines loads max_entries 0 lines no_gossip_logs))"

section \<open>The options and the figure\<close>

text \<open>The options of the command line with their default values\<close>

record gossip_options =
  op_namespace :: string
  op_hours_ago :: string
  op_cache_logs :: bool
  op_cache_file :: string
  op_in_file :: "string option"
  op_max_entries :: int

definition gossip_defaults :: gossip_options where
  "gossip_defaults =
     \<lparr>op_namespace = ''hangry-lobster'', op_hours_ago = ''1'', op_cache_logs = False,
      op_cache_file = ''./cached-logs.json'', op_in_file = None, op_max_entries = 1000\<rparr>"

text \<open>
  What is prepared for the figure of a block from the nodes and edges of its graph, and the title:
  the edges with a weight above 2, their weights and the colours of the nodes. Only the title is
  drawn.
\<close>

record figure_data =
  edgelist :: "(json \<times> json) list"
  edge_weights :: "rat list"
  color_map :: "json list"
  figure_title :: string

definition heavy_edges :: "(json \<times> json \<times> rat) list \<Rightarrow> (json \<times> json \<times> rat) list" where
  "heavy_edges edges = filter (\<lambda>(u, v, w). 2 < w) edges"

definition node_color :: "json \<times> (string \<times> json) list \<Rightarrow> json" where
  "node_color node = (case map_of (snd node) ''color'' of Some c \<Rightarrow> c | None \<Rightarrow> JStr ''blue'')"

definition figure_of ::
    "(json \<times> (string \<times> json) list) list \<Rightarrow> (json \<times> json \<times> rat) list \<Rightarrow> json \<Rightarrow> figure_data result" where
  "figure_of nodes edges key =
     rbind (json_take 8 key) (\<lambda>k.
     Inr \<lparr>edgelist = map (\<lambda>(u, v, w). (u, v)) (heavy_edges edges),
          edge_weights = map (\<lambda>(u, v, w). w) (heavy_edges edges),
          color_map = map node_color nodes,
          figure_title = ''Block: '' @ json_str k @ '' ''\<rparr>)"

lemma lifted: "ebind (elift (Inr v)) f = f v"
  by (rule ext) (simp add: ebind_def)

text \<open>Reading a file of good lines is processing its entries.\<close>

lemma sort_lines_good:
  "(\<And>line. line \<in> set lines \<Longrightarrow> loads line = Inr (f line)) \<Longrightarrow>
     sort_lines loads max_entries n lines = sort_entries max_entries n (map f lines)"
  by (induction lines arbitrary: n) (simp_all add: lifted del: eff_unfold)

section \<open>What the limits do\<close>

definition weights_ok :: "graph_call list \<Rightarrow> bool" where
  "weights_ok cs \<longleftrightarrow> (\<forall>u v w. Add_Edge u v w \<in> set cs \<longrightarrow> w = - 1 \<or> 0 \<le> w \<and> w < 1000)"

text \<open>Two entries about one block, received two and a half seconds after it was sent, and one more.\<close>

definition demo_entry :: "string \<Rightarrow> string \<Rightarrow> string \<Rightarrow> string \<Rightarrow> json" where
  "demo_entry message peer app time =
     JList [JNull, JDict [(''k8s-pod/app'', JStr app)],
       JDict [(''message'', JStr message), (''timestamp'', JStr time),
         (''metadata'', JDict [(''state_hash'', JStr ''3Nhash''), (''peer_id'', JStr peer), (''host'', JStr ''10.0.0.2''),
           (''sender'', JDict [(''Remote'', JDict [(''peer_id'', JStr ''A'')])])])]]"

definition demo_entries :: "json list" where
  "demo_entries =
     [demo_entry ''Rebroadcasting $state_hash'' ''A'' ''whale-block-producer-1'' ''early'',
      demo_entry ''Received a block $block from $sender'' ''B'' ''whale-block-producer-2'' ''late'',
      demo_entry ''Received a block $block from $sender'' ''C'' ''whale-block-producer-3'' ''late'']"

definition demo_isoparse :: "json \<Rightarrow> int result" where
  "demo_isoparse v = Inr (if v = JStr ''early'' then 0 else 2500000)"

definition demo_in_graph :: "graph_call list \<Rightarrow> json \<Rightarrow> bool" where
  "demo_in_graph calls n =
     list_ex (\<lambda>c. case c of Add_Node m a \<Rightarrow> m = n | Add_Edge u v w \<Rightarrow> u = n \<or> v = n) calls"

lemma fetch_loop_take:
  assumes "0 < max_entries" and "0 \<le> index" and "index < max_entries"
  shows "fetch_loop max_entries index logs = Inr (take (nat (max_entries - index)) logs)"
  using assms
proof (induction max_entries index logs rule: fetch_loop.induct)
  case (1 max_entries index)
  then show ?case by simp
next
  case (2 max_entries index entry rest)
  show ?case
  proof (cases "index + 1 = max_entries")
    case True
    then have "max_entries - index = 1" "(index + 1) mod max_entries = 0" by simp_all
    with 2 show ?thesis by simp
  next
    case False
    with 2 have "(index + 1) mod max_entries \<noteq> 0" by (simp add: mod_pos_pos_trivial)
    moreover have "nat (max_entries - index) = Suc (nat (max_entries - (index + 1)))" using 2 False by simp
    ultimately show ?thesis using 2 False by simp
  qed
qed

lemma sort_entries_take:
  assumes "nBlocks < max_entries"
  shows "sort_entries max_entries nBlocks entries = efor (take (nat (max_entries - nBlocks - 1)) entries) sort_entry"
  using assms
proof (induction max_entries nBlocks entries rule: sort_entries.induct)
  case (1 max_entries nBlocks)
  then show ?case by simp
next
  case (2 max_entries nBlocks entry rest)
  show ?case
  proof (cases "nBlocks + 1 = max_entries")
    case True
    then show ?thesis by simp
  next
    case False
    with 2 have "nat (max_entries - nBlocks - 1) = Suc (nat (max_entries - (nBlocks + 1) - 1))" by simp
    with 2 False show ?thesis by simp
  qed
qed

section \<open>The weights\<close>

interpretation weighing: effect_frame "\<lambda>s t. weights_ok s \<longrightarrow> weights_ok t"
  by unfold_locales auto

lemma edge_weight_below_second: "0 \<le> edge_weight delta" "edge_weight delta < 1000"
proof -
  show "0 \<le> edge_weight delta" by (simp add: edge_weight_def)
  have "(of_int (delta mod 1000000) :: rat) < of_int 1000000" by (simp only: of_int_less_iff)
  then show "edge_weight delta < 1000" by (simp add: edge_weight_def)
qed

lemma weighing_calls:
  "framed (\<lambda>s t. weights_ok s \<longrightarrow> weights_ok t) (call (Add_Node n attrs))"
  "framed (\<lambda>s t. weights_ok s \<longrightarrow> weights_ok t) (call (Add_Edge u v (- 1)))"
  "framed (\<lambda>s t. weights_ok s \<longrightarrow> weights_ok t) (call (Add_Edge u v (edge_weight delta)))"
  using edge_weight_below_second [of delta] by (auto simp: framed_def call_def weights_ok_def)

lemma weighing_receipt:
  "framed (\<lambda>s t. weights_ok s \<longrightarrow> weights_ok t) (add_receipt in_graph isoparse rebroadcasts receive_log)"
proof -
  have "framed (\<lambda>s t. weights_ok s \<longrightarrow> weights_ok t)
     (case found of
       Some rebroadcast_log \<Rightarrow> measured_edge isoparse receive_log rebroadcast_log sender receiver
     | None \<Rightarrow> unmeasured_edge in_graph receive_log sender receiver)" for found sender receiver
    unfolding measured_edge_def unmeasured_edge_def
    by (cases found) (simp_all only: option.case, (intro weighing.frame_rules weighing_calls)+)
  then show ?thesis
    unfolding add_receipt_def by (intro weighing.framed_bind weighing.framed_seq weighing.framed_prim)
qed

text \<open>
  With a positive limit only the first max_entries - 1 entries have any effect, and
  every edge of every graph has the weight -1 or a weight of at least 0 and less than
  1000, however long the message took.
\<close>

theorem gossip_graph_weights:
  assumes "0 < max_entries" and "process_log_iterator in_graph isoparse max_entries entries = Inr graphs"
  shows "process_log_iterator in_graph isoparse max_entries entries =
      process_log_iterator in_graph isoparse max_entries (take (nat max_entries - 1) entries) \<and>
    (\<forall>(key, calls) \<in> set graphs. \<forall>u v w. Add_Edge u v w \<in> set calls \<longrightarrow> w = - 1 \<or> 0 \<le> w \<and> w < 1000)"
proof
  have "sort_entries max_entries 0 (take (nat max_entries - 1) entries) = sort_entries max_entries 0 entries"
    using assms(1) by (simp add: sort_entries_take nat_diff_distrib min_def)
  then show "process_log_iterator in_graph isoparse max_entries entries =
      process_log_iterator in_graph isoparse max_entries (take (nat max_entries - 1) entries)"
    by (simp add: process_log_iterator_def)
  have w: "weights_ok (snd (block_graph in_graph isoparse logs key))" for logs key
  proof -
    have "framed (\<lambda>s t. weights_ok s \<longrightarrow> weights_ok t)
       (efor (dict_get (received_block_logs logs) key [])
         (add_receipt in_graph isoparse (dict_get (rebroadcasting_block_logs logs) key [])))"
      by (intro weighing.framed_for weighing_receipt)
    moreover have "weights_ok []" by (simp add: weights_ok_def)
    ultimately show ?thesis unfolding block_graph_def framed_def by blast
  qed
  have "weights_ok calls" if g: "(key, calls) \<in> set graphs" for key calls
  proof -
    obtain logs where "mapM (\<lambda>key. case block_graph in_graph isoparse logs key of
                         (Inl e, calls) \<Rightarrow> Inl e
                       | (Inr u, calls) \<Rightarrow> Inr (key, calls)) (dict_keys (rebroadcasting_block_logs logs)) = Inr graphs"
      using assms(2) by (auto simp: process_log_iterator_def gossip_graphs_def split: prod.splits sum.splits)
    from mapM_in [OF this g] obtain k where "(case block_graph in_graph isoparse logs k of
        (Inl e, calls) \<Rightarrow> Inl e | (Inr u, calls) \<Rightarrow> Inr (k, calls)) = Inr (key, calls)" by blast
    then have "snd (block_graph in_graph isoparse logs k) = calls"
      by (cases "block_graph in_graph isoparse logs k"; cases "fst (block_graph in_graph isoparse logs k)") auto
    with w [of logs k] show ?thesis by simp
  qed
  then show "\<forall>(key, calls) \<in> set graphs. \<forall>u v w. Add_Edge u v w \<in> set calls \<longrightarrow> w = - 1 \<or> 0 \<le> w \<and> w < 1000"
    unfolding weights_ok_def by blast
qed

lemma demo_gossip:
  "process_log_iterator demo_in_graph demo_isoparse 3 demo_entries =
     Inr [(JStr ''3Nhash'', [Add_Node (JStr ''B'') [(''label'', JStr ''whale-2'')], Add_Edge (JStr ''A'') (JStr ''B'') 500])]"
  by code_simp

theorem gossip_graph_weights_witness:
  "process_log_iterator demo_in_graph demo_isoparse 3 demo_entries =
     process_log_iterator demo_in_graph demo_isoparse 3 (take 2 demo_entries) \<and>
   length demo_entries = 3"
  using gossip_graph_weights [OF _ demo_gossip] by (simp add: demo_entries_def)

end
