(* ===== verification/LogCheck.thy ===== *)
theory LogCheck
  imports GossipGraph
begin

text \<open>
  The check of a test network's logs, \<open>automation/scripts/testnet-validation/check_logs.py\<close>.
  The log service is the parameter \<open>list_entries\<close>, which gives the entries a filter selects; \<open>since\<close> is
  the formatted time of the earliest entry. The counters are what the script prints.
\<close>

record check_options =
  skip_crashes :: bool
  without_proofs :: bool
  skip_snark_work :: bool

record log_counts =
  nCrashes :: nat
  nProofLogs :: nat
  available_proof_counter :: "(string, nat) dict"
  block_producer_counter :: "(json, nat) dict"
  nSNARKLogs :: nat
  snark_work_counter :: "(json, nat) dict"

definition no_counts :: log_counts where
  "no_counts =
     \<lparr>nCrashes = 0, nProofLogs = 0, available_proof_counter = [], block_producer_counter = [],
      nSNARKLogs = 0, snark_work_counter = []\<rparr>"

definition FILTER_COMMON :: "string \<Rightarrow> string \<Rightarrow> string" where
  "FILTER_COMMON since namespace =
     ''\<newline>    timestamp >= '' @ [CHR 34] @ since @ [CHR 34] @
     ''\<newline>    resource.type='' @ [CHR 34] @ ''k8s_container'' @ [CHR 34] @
     ''\<newline>    resource.labels.namespace_name='' @ [CHR 34] @ namespace @ [CHR 34] @ ''\<newline>    ''"

definition CRASH_FILTER :: string where
  "CRASH_FILTER = '' '' @ [CHR 34] @ ''Unhandled top-level exception:'' @ [CHR 34]"

definition PROOFS_FILTER :: string where
  "PROOFS_FILTER = '' '' @ [CHR 34] @ ''Number of proofs ready for purchase:'' @ [CHR 34]"

definition SNARK_WORK_FILTER :: string where
  "SNARK_WORK_FILTER = '' '' @ [CHR 34] @ ''Submitted completed SNARK work to $address'' @ [CHR 34]"

text \<open>\<open>counter.update([k])\<close>\<close>

definition count_key :: "'k \<Rightarrow> ('k, nat) dict \<Rightarrow> ('k, nat) dict" where
  "count_key k = dict_modify k 0 Suc"

definition crash_entry :: "json \<Rightarrow> (log_counts, unit) eff" where
  "crash_entry entry = emodify (\<lambda>s. s\<lparr>nCrashes := nCrashes s + 1\<rparr>)"

definition proof_entry :: "json \<Rightarrow> (log_counts, unit) eff" where
  "proof_entry entry =
     ebind (elift (json_index entry 1)) (\<lambda>labels.
     ebind (elift (json_index entry (- 1))) (\<lambda>lg.
     ebind (elift (json_path lg [''metadata'', ''proof_count''])) (\<lambda>proofs.
     ebind (elift (json_path lg [''metadata'', ''txn_count''])) (\<lambda>txns.
     eseq (emodify (\<lambda>s. s\<lparr>available_proof_counter :=
             count_key (''('' @ json_repr proofs @ '', '' @ json_repr txns @ '')'') (available_proof_counter s)\<rparr>))
    (ebind (elift (rbind (json_item labels ''k8s-pod/app'') hashable)) (\<lambda>app.
     eseq (emodify (\<lambda>s. s\<lparr>block_producer_counter := count_key app (block_producer_counter s)\<rparr>))
          (emodify (\<lambda>s. s\<lparr>nProofLogs := nProofLogs s + 1\<rparr>))))))))"

definition snark_entry :: "json \<Rightarrow> (log_counts, unit) eff" where
  "snark_entry entry =
     ebind (elift (json_index entry 1)) (\<lambda>lg.
     ebind (elift (rbind (json_item lg ''k8s-pod/app'') hashable)) (\<lambda>app.
     eseq (emodify (\<lambda>s. s\<lparr>snark_work_counter := count_key app (snark_work_counter s)\<rparr>))
          (emodify (\<lambda>s. s\<lparr>nSNARKLogs := nSNARKLogs s + 1\<rparr>))))"

definition check_logs ::
    "(string \<Rightarrow> json list) \<Rightarrow> check_options \<Rightarrow> string \<Rightarrow> string \<Rightarrow> (log_counts, unit) eff" where
  "check_logs list_entries opts since namespace =
     (let common = FILTER_COMMON since namespace in
      eseq (if skip_crashes opts then eret () else efor (list_entries (common @ CRASH_FILTER)) crash_entry)
     (eseq (if without_proofs opts then eret () else efor (list_entries (common @ PROOFS_FILTER)) proof_entry)
     (eseq (if skip_snark_work opts then eret () else efor (list_entries (common @ SNARK_WORK_FILTER)) snark_entry)
     (ebind (eget nCrashes) (\<lambda>n.
      if \<not> skip_crashes opts \<and> 0 < n then eraise (SystemExit 1) else eret ())))))"

section \<open>The counters\<close>

interpretation counter: tally_loop id "\<lambda>d k. count_key k d" "\<lambda>d k. dict_get d k 0"
  by unfold_locales (simp add: count_key_def dict_modify_get)

lemma crash_loop: "efor es crash_entry s = (Inr (), s\<lparr>nCrashes := nCrashes s + length es\<rparr>)"
  by (induction es arbitrary: s) (simp_all add: crash_entry_def eseq_def)

text \<open>The two loops that may raise leave the number of crashes alone.\<close>

interpretation crashes_kept: effect_frame "\<lambda>s t. nCrashes t = nCrashes s"
  by unfold_locales simp_all

lemma kept_entries:
  "framed (\<lambda>s t. nCrashes t = nCrashes s) (proof_entry entry)"
  "framed (\<lambda>s t. nCrashes t = nCrashes s) (snark_entry entry)"
proof -
  have m: "(\<And>s. nCrashes (f s) = nCrashes s) \<Longrightarrow> framed (\<lambda>s t. nCrashes t = nCrashes s) (emodify f)" for f
    by (rule crashes_kept.framed_modify)
  show "framed (\<lambda>s t. nCrashes t = nCrashes s) (proof_entry entry)"
    unfolding proof_entry_def by (intro crashes_kept.frame_rules m) simp_all
  show "framed (\<lambda>s t. nCrashes t = nCrashes s) (snark_entry entry)"
    unfolding snark_entry_def by (intro crashes_kept.frame_rules m) simp_all
qed

lemma snark_loop:
  assumes "efor es snark_entry s = (Inr (), t)"
  shows "\<exists>apps. list_all2 (\<lambda>e app. rbind (json_index e 1) (\<lambda>lg. rbind (json_item lg ''k8s-pod/app'') hashable) = Inr app) es apps \<and>
    nSNARKLogs t = nSNARKLogs s + length es \<and>
    snark_work_counter t = foldl (\<lambda>d k. count_key k d) (snark_work_counter s) apps"
  using assms
proof (induction es arbitrary: s)
  case Nil
  then show ?case by simp
next
  case (Cons e es)
  then obtain x u where run: "snark_entry e s = (Inr x, u)" and rest: "efor es snark_entry u = (Inr (), t)"
    by (auto simp: eseq_def ebind_def split: prod.splits sum.splits)
  from run obtain lg app where e: "json_index e 1 = Inr lg" "rbind (json_item lg ''k8s-pod/app'') hashable = Inr app"
    and u: "u = s\<lparr>snark_work_counter := count_key app (snark_work_counter s), nSNARKLogs := nSNARKLogs s + 1\<rparr>"
    by (auto simp: snark_entry_def eseq_def ebind_def split: sum.splits)
  from Cons.IH [OF rest] obtain apps where
    "list_all2 (\<lambda>e app. rbind (json_index e 1) (\<lambda>lg. rbind (json_item lg ''k8s-pod/app'') hashable) = Inr app) es apps"
    "nSNARKLogs t = nSNARKLogs u + length es"
    "snark_work_counter t = foldl (\<lambda>d k. count_key k d) (snark_work_counter u) apps" by blast
  with e u show ?case by (intro exI [of _ "app # apps"]) simp
qed

text \<open>
  The work counted for a pod is the number of its entries, whatever the order of the log.
\<close>

lemma snark_work_counted:
  assumes "efor es snark_entry no_counts = (Inr (), t)"
  shows "\<exists>apps. length apps = length es \<and> nSNARKLogs t = length es \<and>
    (\<forall>app. dict_get (snark_work_counter t) app 0 = length (filter (\<lambda>a. a = app) apps))"
proof -
  from snark_loop [OF assms] obtain apps where
    "list_all2 (\<lambda>e app. rbind (json_index e 1) (\<lambda>lg. rbind (json_item lg ''k8s-pod/app'') hashable) = Inr app) es apps"
    and n: "nSNARKLogs t = length es" and c: "snark_work_counter t = foldl (\<lambda>d k. count_key k d) [] apps"
    by (auto simp: no_counts_def)
  then have "length apps = length es" by (simp add: list_all2_lengthD)
  with n c counter.tally_foldl [of "[]" apps] show ?thesis by (intro exI [of _ apps]) simp
qed

text \<open>
  The script fails with status 1 exactly when the crash filter selects an entry and crashes are
  not skipped, unless an entry of the other two kinds cannot be read.
\<close>

lemma check_logs_exit:
  assumes "check_logs list_entries opts since namespace no_counts = (r, t)"
  shows "(r = Inl (SystemExit 1) \<and> \<not> skip_crashes opts \<and>
            list_entries (FILTER_COMMON since namespace @ CRASH_FILTER) \<noteq> []) \<or>
         (r = Inr () \<and> (skip_crashes opts \<or> list_entries (FILTER_COMMON since namespace @ CRASH_FILTER) = [])) \<or>
         (\<exists>e. r = Inl e \<and> \<not> (without_proofs opts \<and> skip_snark_work opts))"
proof -
  let ?es = "list_entries (FILTER_COMMON since namespace @ CRASH_FILTER)"
  let ?P = "if without_proofs opts then eret () else efor (list_entries (FILTER_COMMON since namespace @ PROOFS_FILTER)) proof_entry"
  let ?S = "if skip_snark_work opts then eret () else efor (list_entries (FILTER_COMMON since namespace @ SNARK_WORK_FILTER)) snark_entry"
  let ?u = "if skip_crashes opts then no_counts else no_counts\<lparr>nCrashes := length ?es\<rparr>"
  have run: "(r, t) = eseq ?P (eseq ?S (ebind (eget nCrashes) (\<lambda>n.
      if \<not> skip_crashes opts \<and> 0 < n then eraise (SystemExit 1) else eret ()))) ?u"
    using assms [symmetric] unfolding check_logs_def Let_def
    by (cases "skip_crashes opts") (simp_all add: eseq_run(1) [OF crash_loop] no_counts_def, simp add: eseq_def)
  have kp: "framed (\<lambda>s t. nCrashes t = nCrashes s) ?P" and ks: "framed (\<lambda>s t. nCrashes t = nCrashes s) ?S"
    by (intro crashes_kept.frame_rules kept_entries)+
  obtain p v where p: "?P ?u = (p, v)" by (cases "?P ?u")
  obtain q w where q: "?S v = (q, w)" by (cases "?S v")
  have n: "nCrashes w = nCrashes ?u" using framedD [OF kp p] framedD [OF ks q] by simp
  show ?thesis
  proof (cases p)
    case (Inl e)
    with run p show ?thesis by (auto simp: eseq_def ebind_def split: if_splits)
  next
    case p': (Inr x)
    show ?thesis
    proof (cases q)
      case (Inl e)
      with run p p' q show ?thesis by (auto simp: eseq_def ebind_def split: if_splits)
    next
      case (Inr y)
      with run p p' q have "(r, t) = (if \<not> skip_crashes opts \<and> 0 < nCrashes w then eraise (SystemExit 1) else eret ()) w"
        by (simp add: eseq_def ebind_def)
      with n show ?thesis by (auto simp: no_counts_def split: if_splits)
    qed
  qed
qed

end
