(* ===== verification/BlockchainVis.thy ===== *)
theory BlockchainVis
  imports BestTipTrie GossipGraph
begin

text \<open>
  How the trie of \<open>best_tip_trie.py\<close> is filled: from log entries by \<open>visualize_blockchain\<close> of
  \<open>automation/scripts/testnet-validation/rebroadcasted_blocks_vis.py\<close>, and from the best chains of
  the pods by \<open>process_pod\<close> of the same file and of \<open>compare_best_tip.py\<close>.

  The parameter \<open>query\<close> is the GraphQL answer of a pod over the forwarded port, after the retries;
  hashes are strings. Port forwarding, threads (the results are taken in the order of the
  pods), the random order of the pods and the rendering are left out.
\<close>

record vis_pod =
  vp_name :: string
  vp_namespace :: string

section \<open>Best chains of the pods\<close>

definition best_chain :: "json \<Rightarrow> string list option result" where
  "best_chain answer =
     rbind (json_path answer [''data'', ''bestChain'']) (\<lambda>v.
     if v = JNull then Inr None
     else rbind (json_iter v) (\<lambda>blks.
          rbind (mapM (\<lambda>a. rbind (json_item a ''stateHash'') json_str_item) blks) (\<lambda>chain. Inr (Some chain))))"

definition lost_connection :: py_error where
  "lost_connection = PyException ''requests.exceptions.ConnectionError''"

text \<open>
  \<open>process_pod\<close>, with the words one of which has to be in the name of the pod. An answer that
  timed out without losing the connection is not caught.
\<close>

definition process_pod ::
    "string list \<Rightarrow> (vis_pod \<Rightarrow> int \<Rightarrow> json result) \<Rightarrow> string \<Rightarrow> int \<Rightarrow> nat \<times> vis_pod \<Rightarrow>
     (string list \<times> string) option result" where
  "process_pod kinds query namespace remote_graphql_port ip =
     (case ip of (i, pod) \<Rightarrow>
       if vp_namespace pod = namespace \<and> list_ex (\<lambda>w. str_in w (vp_name pod)) kinds
       then (case query pod (remote_graphql_port + int i + 1) of
               Inl e \<Rightarrow> if e = lost_connection then Inr None else Inl e
             | Inr answer \<Rightarrow>
                 rbind (best_chain answer) (\<lambda>chain. Inr (map_option (\<lambda>c. (c, vp_name pod)) chain)))
       else Inr None)"

fun load_pods ::
    "(nat \<times> vis_pod \<Rightarrow> (string list \<times> string) option result) \<Rightarrow> trie \<Rightarrow> (nat \<times> vis_pod) list \<Rightarrow> trie result" where
  "load_pods process t [] = Inr t"
| "load_pods process t (ip # rest) =
     rbind (process ip) (\<lambda>res.
     case res of
       None \<Rightarrow> load_pods process t rest
     | Some (chain, pod) \<Rightarrow>
         rbind (insert_chain t chain (Some (py_slice pod 0 (- 16)))) (\<lambda>t'. load_pods process t' rest))"

text \<open>\<open>check\<close> of \<open>compare_best_tip.py\<close> up to the trie\<close>

definition compare_trie :: "(vis_pod \<Rightarrow> int \<Rightarrow> json result) \<Rightarrow> string \<Rightarrow> int \<Rightarrow> vis_pod list \<Rightarrow> trie result" where
  "compare_trie query namespace port items =
     load_pods (process_pod [''block-producer'', ''snark-coordinator''] query namespace port) empty_trie (enumerate 0 items)"

section \<open>Log entries\<close>

definition link_of_entry :: "json \<Rightarrow> (string \<times> string \<times> string) result" where
  "link_of_entry entry =
     rbind (rbind (json_index entry (- 1)) (\<lambda>p. json_item p ''metadata'')) (\<lambda>block.
     rbind (json_index entry 1) (\<lambda>labels.
     rbind (rbind (json_item block ''state_hash'') json_str_item) (\<lambda>state_hash.
     rbind (rbind (json_path block [''external_transition'', ''data'', ''protocol_state'', ''previous_state_hash''])
              json_str_item) (\<lambda>parent_hash.
     rbind (rbind (json_item labels ''k8s-pod/app'') json_str_item) (\<lambda>app.
     Inr (parent_hash, state_hash, app))))))"

fun load_entries :: "trie \<Rightarrow> json list \<Rightarrow> trie result" where
  "load_entries t [] = Inr t"
| "load_entries t (entry # rest) =
     rbind (link_of_entry entry) (\<lambda>(parent_hash, state_hash, app).
     rbind (insertLink t parent_hash state_hash (Some app)) (\<lambda>t'. load_entries t' rest))"

text \<open>
  \<open>visualize_blockchain\<close> up to the rendering: the entries come from the service, limited by
  \<open>fetch_logs\<close>, or from a file; at most fifty pods are asked for their best chain.
\<close>

definition visualize_blockchain ::
    "json list + json list \<Rightarrow> int \<Rightarrow> bool \<Rightarrow> (vis_pod \<Rightarrow> int \<Rightarrow> json result) \<Rightarrow> string \<Rightarrow> int \<Rightarrow> vis_pod list \<Rightarrow>
     trie result" where
  "visualize_blockchain source max_entries count_best_tips query namespace port items =
     rbind (case source of Inl service \<Rightarrow> fetch_logs service max_entries | Inr file \<Rightarrow> Inr file) (\<lambda>logs.
     rbind (load_entries empty_trie logs) (\<lambda>t.
     if count_best_tips
     then load_pods (process_pod [''block-producer''] query namespace port) t (enumerate 0 (take 50 items))
     else Inr t))"

text \<open>An entry as the log service gives it\<close>

definition link_entry :: "string \<Rightarrow> string \<Rightarrow> json" where
  "link_entry parent child =
     JList [JNull, JDict [(''k8s-pod/app'', JStr ''whale-1'')],
       JDict [(''metadata'', JDict [(''state_hash'', JStr child),
         (''external_transition'', JDict [(''data'', JDict [(''protocol_state'',
            JDict [(''previous_state_hash'', JStr parent)])])])])]]"

section \<open>Well-formedness\<close>

lemma load_pods_wf: "trie_wf t \<Longrightarrow> load_pods process t ips = Inr t' \<Longrightarrow> trie_wf t'"
proof (induction process t ips rule: load_pods.induct)
  case (1 process t)
  then show ?case by simp
next
  case (2 process t ip rest)
  from 2(4) obtain res where res: "process ip = Inr res" by (auto simp: rbind_eq_Inr)
  show ?case
  proof (cases res)
    case None
    with 2 res show ?thesis by simp
  next
    case (Some cp)
    obtain chain pod where cp: "cp = (chain, pod)" by (cases cp)
    with 2(4) res Some obtain u where u: "insert_chain t chain (Some (py_slice pod 0 (- 16))) = Inr u"
      and rest: "load_pods process u rest = Inr t'" by (auto simp: rbind_eq_Inr)
    have "trie_wf u" using insert_chain_wf [OF 2(3) u] by blast
    then show ?thesis using rest by (rule 2(2))
  qed
qed

lemma load_entries_wf: "trie_wf t \<Longrightarrow> load_entries t es = Inr t' \<Longrightarrow> trie_wf t'"
  by (induction t es rule: load_entries.induct) (auto simp: rbind_eq_Inr dest: insertLink_wf)

lemma visualize_blockchain_wf:
  assumes "visualize_blockchain source max_entries count_best_tips query namespace port items = Inr t"
  shows "trie_wf t"
proof -
  from assms obtain logs u where u: "load_entries empty_trie logs = Inr u"
    and t: "(if count_best_tips
       then load_pods (process_pod [''block-producer''] query namespace port) u (enumerate 0 (take 50 items))
       else Inr u) = Inr t"
    unfolding visualize_blockchain_def rbind_eq_Inr by blast
  have "trie_wf u" using empty_trie_wf u by (rule load_entries_wf)
  with t show ?thesis by (cases count_best_tips) (auto intro: load_pods_wf)
qed

lemma compare_trie_wf: "compare_trie query namespace port items = Inr t \<Longrightarrow> trie_wf t"
  unfolding compare_trie_def by (rule load_pods_wf [OF empty_trie_wf])

text \<open>Entries that can all be read load as their links do.\<close>

lemma load_entries_links:
  assumes "mapM link_of_entry es = Inr ls"
  shows "load_entries t es = load_links t ls"
  using assms
proof (induction es arbitrary: t ls)
  case Nil
  then show ?case by simp
next
  case (Cons e es)
  then obtain p c a rest where "link_of_entry e = Inr (p, c, a)" "mapM link_of_entry es = Inr rest" "ls = (p, c, a) # rest"
    by (auto simp: rbind_eq_Inr)
  with Cons.IH show ?case by simp
qed

lemma link_of_link_entry: "link_of_entry (link_entry p c) = Inr (p, c, ''whale-1'')"
  by (simp add: link_of_entry_def link_entry_def json_path_Cons py_get_def)

lemma two_block_log:
  "\<exists>t. visualize_blockchain (Inl [link_entry ''a'' ''b'', link_entry ''b'' ''c'']) 10 False
         (\<lambda>pod port. Inl lost_connection) ''testnet'' 3085 [] = Inr t"
proof -
  let ?es = "[link_entry ''a'' ''b'', link_entry ''b'' ''c'']"
  let ?ls = "[(''a'', ''b'', ''whale-1''), (''b'', ''c'', ''whale-1'')]"
  have f: "fetch_logs ?es 10 = Inr ?es" by (simp add: fetch_logs_def fetch_loop_take)
  have l: "load_entries empty_trie ?es = load_links empty_trie ?ls"
    by (rule load_entries_links) (simp add: link_of_link_entry)
  have "\<exists>t. load_links empty_trie ?ls = Inr t \<and> loaded ({} \<union> links_of ?ls) t"
    by (rule load_links_loaded [OF loaded_empty]) (auto simp: links_of_def)
  with f l show ?thesis by (auto simp: visualize_blockchain_def)
qed

end
