(* ===== verification/PodQuery.thy ===== *)
theory PodQuery
  imports BlockchainVis Py_Effects
begin

text \<open>
  How a pod is asked for its best chain: \<open>doit\<close>, \<open>get_best_chain\<close> and \<open>terminate_process\<close> of
  \<open>automation/scripts/testnet-validation/compare_best_tip.py\<close> and, with the same text, of
  \<open>rebroadcasted_blocks_vis.py\<close>.

  The state is the list of events on the network. The answer of the n-th request and whether the n-th
  forwarding process ends in time are arguments. The package backoff is outside: its decorator
  is the argument \<open>on_exception\<close>, and \<open>backoff_retries\<close> states what it documents, that a call is
  repeated after one of the given exceptions until it was tried as often as the limit says. The
  waiting times are left out. A connect timeout of requests is a \<open>ConnectionError\<close>, a read timeout is not.
\<close>

datatype net_event =
    Start_Forward string
  | Send_Query int
  | Terminate

type_synonym 'a net = "(net_event list, 'a) eff"

type_synonym decorator = "(py_error \<Rightarrow> bool) \<Rightarrow> nat \<Rightarrow> json net \<Rightarrow> json net"

definition happens :: "net_event \<Rightarrow> unit net" where
  "happens ev = emodify (\<lambda>evs. evs @ [ev])"

definition is_query :: "net_event \<Rightarrow> bool" where
  "is_query ev = (case ev of Send_Query port \<Rightarrow> True | _ \<Rightarrow> False)"

definition is_start :: "net_event \<Rightarrow> bool" where
  "is_start ev = (case ev of Start_Forward c \<Rightarrow> True | _ \<Rightarrow> False)"

definition is_end :: "net_event \<Rightarrow> bool" where
  "is_end ev = (ev = Terminate)"

definition event_count :: "(net_event \<Rightarrow> bool) \<Rightarrow> net_event list \<Rightarrow> nat" where
  "event_count kind evs = length (filter kind evs)"

text \<open>The exceptions after which a call is repeated\<close>

definition read_timeout :: py_error where
  "read_timeout = PyException ''requests.exceptions.ReadTimeout''"

definition transient :: "py_error \<Rightarrow> bool" where
  "transient e = (e = read_timeout \<or> e = lost_connection)"

section \<open>The requests\<close>

definition send_query :: "(nat \<Rightarrow> json result) \<Rightarrow> int \<Rightarrow> json net" where
  "send_query answer port = ebind (eget (event_count is_query)) (\<lambda>n. eseq (happens (Send_Query port)) (elift (answer n)))"

definition get_best_chain :: "decorator \<Rightarrow> (nat \<Rightarrow> json result) \<Rightarrow> int \<Rightarrow> json net" where
  "get_best_chain on_exception answer port = on_exception transient 3 (send_query answer port)"

text \<open>\<open>logger\<close> is a local variable of another function, so the handler of the timeout raises.\<close>

definition terminate_process :: "(nat \<Rightarrow> bool) \<Rightarrow> unit net" where
  "terminate_process in_time =
     ebind (eget (event_count is_end)) (\<lambda>n.
     eseq (happens Terminate) (if in_time n then eret () else eraise (NameError ''logger'')))"

text \<open>\<open>try: return m finally: f\<close>: an exception of \<open>f\<close> takes the place of the outcome of \<open>m\<close>.\<close>

definition efinally :: "('s, 'a) eff \<Rightarrow> ('s, unit) eff \<Rightarrow> ('s, 'a) eff" where
  "efinally m f s = (case m s of (r, t) \<Rightarrow> (case f t of (Inl e, u) \<Rightarrow> (Inl e, u) | (Inr _, u) \<Rightarrow> (r, u)))"

definition forward_command :: "vis_pod \<Rightarrow> int \<Rightarrow> int \<Rightarrow> string" where
  "forward_command pod local_port remote_graphql_port =
     ''kubectl port-forward --namespace '' @ vp_namespace pod @ '' '' @ vp_name pod @ '' '' @ str_int local_port @ '':'' @
     str_int remote_graphql_port"

text \<open>The body of \<open>doit\<close>, and \<open>doit\<close> with its decorator\<close>

definition forward_and_ask ::
    "decorator \<Rightarrow> (nat \<Rightarrow> json result) \<Rightarrow> (nat \<Rightarrow> bool) \<Rightarrow> int \<Rightarrow> vis_pod \<Rightarrow> int \<Rightarrow> json net" where
  "forward_and_ask on_exception answer in_time remote_graphql_port pod local_port =
     eseq (happens (Start_Forward (forward_command pod local_port remote_graphql_port)))
       (efinally (get_best_chain on_exception answer local_port) (terminate_process in_time))"

definition doit ::
    "decorator \<Rightarrow> (nat \<Rightarrow> json result) \<Rightarrow> (nat \<Rightarrow> bool) \<Rightarrow> int \<Rightarrow> vis_pod \<Rightarrow> int \<Rightarrow> json net" where
  "doit on_exception answer in_time remote_graphql_port pod local_port =
     on_exception transient 2 (forward_and_ask on_exception answer in_time remote_graphql_port pod local_port)"

text \<open>\<open>process_pod\<close> with these requests; the services of the pods do not depend on one another.\<close>

definition ask_pod ::
    "string list \<Rightarrow> decorator \<Rightarrow> (vis_pod \<Rightarrow> nat \<Rightarrow> json result) \<Rightarrow> (vis_pod \<Rightarrow> nat \<Rightarrow> bool) \<Rightarrow> string \<Rightarrow> int \<Rightarrow>
     nat \<times> vis_pod \<Rightarrow> (string list \<times> string) option result" where
  "ask_pod kinds on_exception answer in_time namespace remote_graphql_port =
     process_pod kinds
       (\<lambda>pod local_port. fst (doit on_exception (answer pod) (in_time pod) remote_graphql_port pod local_port []))
       namespace remote_graphql_port"

section \<open>What the decorator does\<close>

definition backoff_retries :: "decorator \<Rightarrow> bool" where
  "backoff_retries on_exception \<longleftrightarrow>
     (\<forall>errs n m s x t. m s = (Inr x, t) \<longrightarrow> on_exception errs (Suc n) m s = (Inr x, t)) \<and>
     (\<forall>errs n m s e t. m s = (Inl e, t) \<and> \<not> errs e \<longrightarrow> on_exception errs (Suc n) m s = (Inl e, t)) \<and>
     (\<forall>errs m s e t. m s = (Inl e, t) \<longrightarrow> on_exception errs (Suc 0) m s = (Inl e, t)) \<and>
     (\<forall>errs n m s e t. m s = (Inl e, t) \<and> errs e \<longrightarrow>
        on_exception errs (Suc (Suc n)) m s = on_exception errs (Suc n) m t)"

text \<open>One decorator that does so.\<close>

fun retry :: "(py_error \<Rightarrow> bool) \<Rightarrow> nat \<Rightarrow> ('s, 'a) eff \<Rightarrow> ('s, 'a) eff" where
  "retry errs 0 m s = m s"
| "retry errs (Suc n) m s =
     (case m s of
        (Inl e, t) \<Rightarrow> if errs e \<and> n \<noteq> 0 then retry errs n m t else (Inl e, t)
      | (Inr x, t) \<Rightarrow> (Inr x, t))"

lemma retry_retries: "backoff_retries retry"
  by (simp add: backoff_retries_def)

lemma retries_retry:
  assumes "backoff_retries on_exception"
  shows "on_exception errs (Suc n) m s = retry errs (Suc n) m s"
proof (induction n arbitrary: s)
  case 0
  obtain r t where m: "m s = (r, t)" by (cases "m s")
  with assms show ?case by (cases r) (auto simp: backoff_retries_def)
next
  case (Suc n)
  obtain r t where m: "m s = (r, t)" by (cases "m s")
  with assms Suc show ?case by (cases r) (auto simp: backoff_retries_def)
qed

text \<open>What each try adds to a count, all tries together add at most as often.\<close>

lemma retry_bound:
  assumes "\<And>s. c (snd (m s)) \<le> c s + (b :: nat)"
  shows "c (snd (retry errs (Suc n) m s)) \<le> c s + Suc n * b"
proof (induction n arbitrary: s)
  case 0
  show ?case using assms [of s] by (cases "m s"; cases "fst (m s)") auto
next
  case (Suc n)
  obtain r t where m: "m s = (r, t)" by (cases "m s")
  have t: "c t \<le> c s + b" using assms [of s] m by simp
  show ?case
  proof (cases "\<exists>e. r = Inl e \<and> errs e")
    case True
    then have "retry errs (Suc (Suc n)) m s = retry errs (Suc n) m t" using m by auto
    with Suc [of t] t show ?thesis by simp
  next
    case False
    then have "retry errs (Suc (Suc n)) m s = (r, t)" using m by (cases r) auto
    with t show ?thesis by simp
  qed
qed

lemma retry_keeps:
  assumes "\<And>s. R s \<Longrightarrow> R (snd (m s))" and "R s"
  shows "R (snd (retry errs (Suc n) m s))"
  using assms(2)
proof (induction n arbitrary: s)
  case 0
  then show ?case using assms(1) [of s] by (cases "m s"; cases "fst (m s)") auto
next
  case (Suc n)
  obtain r t where m: "m s = (r, t)" by (cases "m s")
  with assms(1) [OF Suc.prems] have "R t" by simp
  with Suc.IH [of t] m show ?case by (cases r) auto
qed

lemma events_snoc [simp]: "event_count kind (evs @ [ev]) = event_count kind evs + of_bool (kind ev)"
  by (simp add: event_count_def)

lemma events_Nil [simp]: "event_count kind [] = 0"
  by (simp add: event_count_def)

lemma kinds [simp]:
  "is_query (Send_Query p)" "\<not> is_query (Start_Forward c)" "\<not> is_query Terminate"
  "is_start (Start_Forward c)" "\<not> is_start (Send_Query p)" "\<not> is_start Terminate"
  "is_end Terminate" "\<not> is_end (Send_Query p)" "\<not> is_end (Start_Forward c)"
  by (simp_all add: is_query_def is_start_def is_end_def)

section \<open>How much a pod is asked\<close>

lemma send_query_events:
  "send_query answer port s = (answer (event_count is_query s), s @ [Send_Query port])"
  by (simp add: send_query_def happens_def eseq_def)

lemma chain_events:
  assumes "backoff_retries on_exception"
  shows "event_count is_query (snd (get_best_chain on_exception answer port s)) \<le> event_count is_query s + 3"
    and "event_count is_start (snd (get_best_chain on_exception answer port s)) = event_count is_start s"
    and "event_count is_end (snd (get_best_chain on_exception answer port s)) = event_count is_end s"
proof -
  have g: "get_best_chain on_exception answer port s = retry transient (Suc 2) (send_query answer port) s"
    using retries_retry [OF assms, of transient 2] by (simp add: get_best_chain_def numeral_3_eq_3 numeral_2_eq_2)
  show "event_count is_query (snd (get_best_chain on_exception answer port s)) \<le> event_count is_query s + 3"
    using retry_bound [of "event_count is_query" "send_query answer port" 1 transient 2 s]
    by (simp add: g send_query_events del: retry.simps)
  show "event_count is_start (snd (get_best_chain on_exception answer port s)) = event_count is_start s"
    using retry_keeps [of "\<lambda>t. event_count is_start t = event_count is_start s" "send_query answer port" s transient 2]
    by (simp add: g send_query_events del: retry.simps)
  show "event_count is_end (snd (get_best_chain on_exception answer port s)) = event_count is_end s"
    using retry_keeps [of "\<lambda>t. event_count is_end t = event_count is_end s" "send_query answer port" s transient 2]
    by (simp add: g send_query_events del: retry.simps)
qed

lemma terminate_events:
  "snd (terminate_process in_time s) = s @ [Terminate]"
  by (simp add: terminate_process_def happens_def eseq_def)

lemma finally_state: "snd (efinally m f s) = snd (f (snd (m s)))"
  by (simp add: efinally_def split: prod.splits sum.splits)

lemma forward_events:
  assumes "backoff_retries on_exception"
    and f_def: "f = forward_and_ask on_exception answer in_time remote pod port"
  shows "event_count is_query (snd (f s)) \<le> event_count is_query s + 3"
    and "event_count is_start (snd (f s)) = event_count is_start s + 1"
    and "event_count is_end (snd (f s)) = event_count is_end s + 1"
  using chain_events [OF assms(1), of answer port "s @ [Start_Forward (forward_command pod port remote)]"]
  by (simp_all add: f_def forward_and_ask_def happens_def eseq_def finally_state terminate_events)

text \<open>The outcome of \<open>doit\<close> is that of two tries at most.\<close>

lemma doit_retry:
  assumes "backoff_retries on_exception"
  shows "doit on_exception answer in_time remote pod port s =
    retry transient (Suc 1) (forward_and_ask on_exception answer in_time remote pod port) s"
  using retries_retry [OF assms, of transient 1] by (simp add: doit_def numeral_2_eq_2)

lemma chain_retry:
  assumes "backoff_retries on_exception"
  shows "get_best_chain on_exception answer port s = retry transient (Suc 2) (send_query answer port) s"
  using retries_retry [OF assms, of transient 2] by (simp add: get_best_chain_def numeral_3_eq_3 numeral_2_eq_2)

text \<open>
  C7. Whatever the pod answers and whatever fails, asking it for its best chain starts at
  most two forwarding processes and sends at most six requests, and when it is over every
  forwarding process that was started has been told to end. A pod whose connection is
  always lost is asked exactly six times over two forwardings, and counts as a pod
  without an answer.
\<close>

theorem pod_query_effort:
  assumes "backoff_retries on_exception"
    and "doit on_exception answer in_time remote pod port [] = (r, evs)"
  shows "event_count is_start evs = event_count is_end evs \<and> event_count is_start evs \<le> 2 \<and> event_count is_query evs \<le> 6 \<and>
    ((\<forall>n. answer n = Inl lost_connection) \<and> (\<forall>n. in_time n) \<longrightarrow>
       event_count is_query evs = 6 \<and> event_count is_start evs = 2 \<and> r = Inl lost_connection)"
proof (intro conjI impI)
  let ?f = "forward_and_ask on_exception answer in_time remote pod port"
  have evs: "evs = snd (retry transient (Suc 1) ?f [])"
    using assms(2) doit_retry [OF assms(1), of answer in_time remote pod port "[]"] by simp
  note f = forward_events [OF assms(1) refl, of answer in_time remote pod port]
  show "event_count is_start evs = event_count is_end evs"
    unfolding evs by (rule retry_keeps [of "\<lambda>s. event_count is_start s = event_count is_end s"]) (simp_all add: f)
  show "event_count is_start evs \<le> 2"
    using retry_bound [of "event_count is_start" ?f 1 transient 1 "[]"] f
    by (simp add: evs del: retry.simps)
  show "event_count is_query evs \<le> 6"
    using retry_bound [of "event_count is_query" ?f 3 transient 1 "[]"] f
    by (simp add: evs del: retry.simps)
  assume lost: "(\<forall>n. answer n = Inl lost_connection) \<and> (\<forall>n. in_time n)"
  have t: "transient lost_connection" by (simp add: transient_def)
  have g: "get_best_chain on_exception answer port s =
      (Inl lost_connection, s @ [Send_Query port, Send_Query port, Send_Query port])" for s
    using lost t by (simp add: chain_retry [OF assms(1)] numeral_2_eq_2 send_query_events)
  have k: "?f s = (Inl lost_connection, s @ [Start_Forward (forward_command pod port remote),
      Send_Query port, Send_Query port, Send_Query port, Terminate])" for s
    using lost by (simp add: forward_and_ask_def happens_def eseq_def efinally_def g terminate_process_def)
  have "(r, evs) = (Inl lost_connection,
      [Start_Forward (forward_command pod port remote), Send_Query port, Send_Query port, Send_Query port, Terminate,
       Start_Forward (forward_command pod port remote), Send_Query port, Send_Query port, Send_Query port, Terminate])"
    using assms(2) doit_retry [OF assms(1), of answer in_time remote pod port "[]"] t by (simp add: k)
  then show "event_count is_query evs = 6" "event_count is_start evs = 2" "r = Inl lost_connection"
    by (simp_all add: event_count_def)
qed

theorem pod_query_effort_witness:
  "\<exists>evs. doit retry (\<lambda>n. Inl lost_connection) (\<lambda>n. True) 3085 \<lparr>vp_name = ''whale-block-producer-1'', vp_namespace = ''net''\<rparr>
       3086 [] = (Inl lost_connection, evs) \<and> event_count is_query evs = 6 \<and> event_count is_end evs = 2"
proof -
  obtain r evs where d: "doit retry (\<lambda>n. Inl lost_connection) (\<lambda>n. True) 3085
      \<lparr>vp_name = ''whale-block-producer-1'', vp_namespace = ''net''\<rparr> 3086 [] = (r, evs)"
    by (meson surj_pair)
  from pod_query_effort [OF retry_retries d] d show ?thesis by auto
qed

text \<open>
  A forwarding process that does not end in time turns even a good answer into an exception
  that nothing catches.
\<close>

lemma slow_end_raises:
  assumes "backoff_retries on_exception" and "\<not> in_time pod 0"
    and "vp_namespace pod = namespace" and "list_ex (\<lambda>w. str_in w (vp_name pod)) kinds"
  shows "ask_pod kinds on_exception answer in_time namespace remote (i, pod) = Inl (NameError ''logger'')"
proof -
  let ?port = "remote + int i + 1"
  let ?f = "forward_and_ask on_exception (answer pod) (in_time pod) remote pod ?port"
  let ?s = "[Start_Forward (forward_command pod ?port remote)]"
  obtain r s where g: "get_best_chain on_exception (answer pod) ?port ?s = (r, s)" by (meson surj_pair)
  have "event_count is_end s = event_count is_end ?s"
    using chain_events(3) [OF assms(1), of "answer pod" ?port ?s] by (simp add: g)
  then have "event_count is_end s = 0" by (simp add: event_count_def)
  then have "fst (?f []) = Inl (NameError ''logger'')"
    using assms(2) by (simp add: forward_and_ask_def happens_def eseq_def efinally_def g terminate_process_def)
  then obtain u where "?f [] = (Inl (NameError ''logger''), u)" by (metis prod.collapse)
  then have "fst (doit on_exception (answer pod) (in_time pod) remote pod ?port []) = Inl (NameError ''logger'')"
    by (simp add: doit_retry [OF assms(1)] transient_def read_timeout_def lost_connection_def)
  then show ?thesis
    using assms(3,4) by (simp add: ask_pod_def process_pod_def lost_connection_def)
qed

end
