(* ===== verification/RenderFork.thy ===== *)
theory RenderFork
  imports BlockchainVis Py_Effects
begin

text \<open>
  The drawing of the trie: \<open>render_fork\<close> of \<open>automation/scripts/testnet-validation/compare_best_tip.py\<close>
  and of \<open>rebroadcasted_blocks_vis.py\<close>. The package graphviz is outside: a graph is the list of the
  calls of \<open>node\<close> and \<open>edge\<close>, and \<open>in_body\<close> (whether a line is in \<open>graph.body\<close>) is an argument, as
  are the two hundred colours of the package colour. Both functions set the hash of the root.

  The recursion has fuel, one unit for each level; without it the result is a recursion error.
\<close>

type_synonym attrs = "(string \<times> string) list"

datatype draw =
    DNode string string attrs
  | DEdge string string attrs

record canvas =
  cv_trie :: trie
  drawn :: "draw list"

definition draw_op :: "draw \<Rightarrow> (canvas, unit) eff" where
  "draw_op d = emodify (\<lambda>s. s\<lparr>drawn := drawn s @ [d]\<rparr>)"

text \<open>A string argument of graphviz; \<open>None\<close> is no string.\<close>

definition graph_string :: "string option \<Rightarrow> (canvas, string) eff" where
  "graph_string x = (case x of None \<Rightarrow> eraise TypeError | Some y \<Rightarrow> eret y)"

definition block_at :: "addr \<Rightarrow> (canvas, block) eff" where
  "block_at a = eget (\<lambda>s. heap (cv_trie s) ! a)"

definition set_hash :: "addr \<Rightarrow> string \<Rightarrow> (canvas, unit) eff" where
  "set_hash a h = emodify (\<lambda>s. s\<lparr>cv_trie := (cv_trie s)\<lparr>heap := (heap (cv_trie s))
     [a := (heap (cv_trie s) ! a)\<lparr>block_hash := Some h\<rparr>]\<rparr>\<rparr>)"

text \<open>\<open>hash[-8:]\<close>\<close>

definition last8 :: "string \<Rightarrow> string" where
  "last8 h = drop (length h - 8) h"

section \<open>The recursion\<close>

text \<open>\<open>for label in root.labels\<close>\<close>

definition draw_labels :: "block \<Rightarrow> (canvas, unit) eff" where
  "draw_labels blk = efor (labels blk) (\<lambda>l. ebind (graph_string l) (\<lambda>label.
     eseq (draw_op (DNode label label [(''color'', ''blue'')]))
       (ebind (graph_string (block_hash blk)) (\<lambda>h. draw_op (DEdge label h [(''color'', ''blue'')])))))"

text \<open>The two functions differ only in \<open>self\<close>, which draws the node of a block,\<close>

definition draw_self ::
  "(string \<Rightarrow> draw list \<Rightarrow> bool) \<Rightarrow> (bool \<Rightarrow> string \<Rightarrow> string list \<Rightarrow> (canvas, unit) eff) \<Rightarrow> addr \<Rightarrow> block \<Rightarrow>
   (canvas, unit) eff" where
  "draw_self in_body self a blk = (case block_hash blk of
       None \<Rightarrow> set_hash a ''root''
     | Some h \<Rightarrow> ebind (eget drawn) (\<lambda>body.
         if in_body h body then eret () else self (labels blk \<noteq> []) h (block_value blk)))"

text \<open>and in \<open>child\<close>, which draws the node of a child; then comes the edge and the recursion.\<close>

definition draw_child ::
  "(bool \<Rightarrow> string \<Rightarrow> string \<Rightarrow> string list \<Rightarrow> (canvas, unit) eff) \<Rightarrow> (addr \<Rightarrow> (canvas, unit) eff) \<Rightarrow>
   addr \<Rightarrow> bool \<Rightarrow> addr \<Rightarrow> (canvas, unit) eff" where
  "draw_child child render a labelled b =
     ebind (block_at b) (\<lambda>cblk. ebind (graph_string (block_hash cblk)) (\<lambda>ch.
     ebind (block_at a) (\<lambda>blk. ebind (graph_string (block_hash blk)) (\<lambda>h.
     eseq (child labelled h ch (block_value cblk)) (eseq (draw_op (DEdge h ch [])) (render b))))))"

fun render_with ::
  "(string \<Rightarrow> draw list \<Rightarrow> bool) \<Rightarrow> (bool \<Rightarrow> string \<Rightarrow> string list \<Rightarrow> (canvas, unit) eff) \<Rightarrow>
   (bool \<Rightarrow> string \<Rightarrow> string \<Rightarrow> string list \<Rightarrow> (canvas, unit) eff) \<Rightarrow> nat \<Rightarrow> addr \<Rightarrow> (canvas, unit) eff" where
  "render_with in_body self child 0 a = eraise (PyException ''RecursionError'')"
| "render_with in_body self child (Suc fuel) a = ebind (block_at a) (\<lambda>blk.
     eseq (draw_labels blk)
     (eseq (draw_self in_body self a blk)
     (efor (dict_values (children blk))
       (draw_child child (\<lambda>b. render_with in_body self child fuel b) a (labels blk \<noteq> [])))))"

section \<open>compare\_best\_tip.py\<close>

definition plain_self :: "bool \<Rightarrow> string \<Rightarrow> string list \<Rightarrow> (canvas, unit) eff" where
  "plain_self labelled h vs =
     draw_op (DNode h (last8 h) [(''color'', if labelled then ''blue'' else ''white'')])"

definition plain_child :: "bool \<Rightarrow> string \<Rightarrow> string \<Rightarrow> string list \<Rightarrow> (canvas, unit) eff" where
  "plain_child labelled h ch vs =
     draw_op (DNode ch (last8 ch) [(''color'', if labelled then ''blue'' else ''white'')])"

definition render_compare :: "(string \<Rightarrow> draw list \<Rightarrow> bool) \<Rightarrow> nat \<Rightarrow> addr \<Rightarrow> (canvas, unit) eff" where
  "render_compare in_body = render_with in_body plain_self plain_child"

text \<open>The end of \<open>check\<close>: the root node, the rendering and one more edge.\<close>

definition draw_comparison :: "(string \<Rightarrow> draw list \<Rightarrow> bool) \<Rightarrow> trie \<Rightarrow> unit result \<times> canvas" where
  "draw_comparison in_body t =
     eseq (draw_op (DNode ''root'' ''root'' [(''color'', ''black'')]))
     (eseq (render_compare in_body (length (heap t)) (root t))
     (ebind (block_at (root t)) (\<lambda>r. ebind (graph_string (block_hash r)) (\<lambda>h.
       draw_op (DEdge ''root'' h []))))) \<lparr>cv_trie = t, drawn = []\<rparr>"

section \<open>rebroadcasted\_blocks\_vis.py\<close>

definition filled :: "string \<Rightarrow> attrs" where
  "filled col = [(''color'', col), (''shape'', ''ellipse''), (''style'', ''filled'')]"

text \<open>\<open>colors[k]\<close>, or the handler of the \<open>IndexError\<close>\<close>

definition shaded :: "string list \<Rightarrow> int \<Rightarrow> string \<Rightarrow> string \<Rightarrow> (canvas, unit) eff" where
  "shaded colors k h fallback =
     ecatch (ebind (elift (py_get colors k)) (\<lambda>col. draw_op (DNode h (last8 h) (filled col))))
       (\<lambda>e. if e = IndexError
         then ebind (elift (py_get colors (- 1))) (\<lambda>col. draw_op (DNode fallback (last8 fallback) (filled col)))
         else eraise e)"

definition shaded_self :: "string list \<Rightarrow> bool \<Rightarrow> string \<Rightarrow> string list \<Rightarrow> (canvas, unit) eff" where
  "shaded_self colors labelled h vs = shaded colors (int (length vs)) h h"

definition shaded_child :: "string list \<Rightarrow> bool \<Rightarrow> string \<Rightarrow> string \<Rightarrow> string list \<Rightarrow> (canvas, unit) eff" where
  "shaded_child colors labelled h ch vs = shaded colors (int (length vs)) ch h"

definition render_blockchain ::
  "string list \<Rightarrow> (string \<Rightarrow> draw list \<Rightarrow> bool) \<Rightarrow> nat \<Rightarrow> addr \<Rightarrow> (canvas, unit) eff" where
  "render_blockchain colors in_body = render_with in_body (shaded_self colors) (shaded_child colors)"

definition draw_blockchain :: "string list \<Rightarrow> (string \<Rightarrow> draw list \<Rightarrow> bool) \<Rightarrow> trie \<Rightarrow> unit result \<times> canvas" where
  "draw_blockchain colors in_body t =
     eseq (draw_op (DNode ''root'' ''root'' [(''color'', ''black'')]))
       (render_blockchain colors in_body (length (heap t)) (root t)) \<lparr>cv_trie = t, drawn = []\<rparr>"

section \<open>What is drawn\<close>

text \<open>The name of a block in the drawing.\<close>

definition name_of :: "trie \<Rightarrow> addr \<Rightarrow> string" where
  "name_of t a = (case block_hash (heap t ! a) of None \<Rightarrow> ''root'' | Some h \<Rightarrow> h)"

text \<open>The edges between blocks, and the links from the blocks on a walk.\<close>

definition plain_edges :: "draw list \<Rightarrow> (string \<times> string) set" where
  "plain_edges ds = {(u, v). DEdge u v [] \<in> set ds}"

definition links_from :: "trie \<Rightarrow> addr set \<Rightarrow> (string \<times> string) set" where
  "links_from t A = {(name_of t a, k) | a k b.
     a \<in> A \<and> (k, b) \<in> set (kids t a)}"

definition labels_named :: "trie \<Rightarrow> bool" where
  "labels_named t \<longleftrightarrow> (\<forall>a<length (heap t). None \<notin> set (labels (heap t ! a))) \<and> labels (heap t ! 0) = []"

text \<open>The names of the nodes of a drawing, and the names in the labels of a block\<close>

definition node_names :: "draw list \<Rightarrow> string set" where
  "node_names ds = {n. \<exists>l x. DNode n l x \<in> set ds}"

definition label_names :: "block \<Rightarrow> string set" where
  "label_names blk = {l. Some l \<in> set (labels blk)}"

lemma plain_edges_simps [simp]:
  "plain_edges [] = {}" "plain_edges (ds @ es) = plain_edges ds \<union> plain_edges es"
  "plain_edges (DNode l n x # ds) = plain_edges ds"
  "plain_edges (DEdge u v x # ds) = (if x = [] then {(u, v)} else {}) \<union> plain_edges ds"
  by (auto simp: plain_edges_def)

lemma node_names_simps [simp]:
  "node_names [] = {}" "node_names (ds @ es) = node_names ds \<union> node_names es"
  "node_names (DNode n l x # ds) = insert n (node_names ds)"
  "node_names (DEdge u v x # ds) = node_names ds"
  by (auto simp: node_names_def)

text \<open>
  Statements that only add nodes to the drawing: at least those of \<open>N\<close> and at most those of
  \<open>M\<close>.
\<close>

definition adds_nodes :: "string set \<Rightarrow> string set \<Rightarrow> (canvas, unit) eff \<Rightarrow> bool" where
  "adds_nodes N M m \<longleftrightarrow> (\<forall>s. \<exists>ds. m s = (Inr (), s\<lparr>drawn := drawn s @ ds\<rparr>) \<and> plain_edges ds = {} \<and>
     N \<subseteq> node_names ds \<and> node_names ds \<subseteq> M)"

lemma adds_node: "N \<subseteq> {n} \<Longrightarrow> n \<in> M \<Longrightarrow> adds_nodes N M (draw_op (DNode n l x))"
  by (auto simp: adds_nodes_def draw_op_def intro!: exI [of _ "[DNode n l x]"])

lemma shaded_adds: "colors \<noteq> [] \<Longrightarrow> adds_nodes {} {h, fallback} (shaded colors k h fallback)"
  unfolding adds_nodes_def
proof
  fix s
  assume c: "colors \<noteq> []"
  have "py_get colors k = Inl IndexError \<or> (\<exists>col. py_get colors k = Inr col)"
    by (simp add: py_get_def)
  then show "\<exists>ds. shaded colors k h fallback s = (Inr (), s\<lparr>drawn := drawn s @ ds\<rparr>) \<and> plain_edges ds = {} \<and>
     {} \<subseteq> node_names ds \<and> node_names ds \<subseteq> {h, fallback}"
  proof
    assume "py_get colors k = Inl IndexError"
    then show ?thesis
      by (intro exI [of _ "[DNode fallback (last8 fallback) (filled (last colors))]"])
        (simp add: shaded_def ecatch_def ebind_def draw_op_def py_get_last [OF c])
  next
    assume "\<exists>col. py_get colors k = Inr col"
    then obtain col where "py_get colors k = Inr col" by blast
    then show ?thesis
      by (intro exI [of _ "[DNode h (last8 h) (filled col)]"])
        (simp add: shaded_def ecatch_def ebind_def draw_op_def)
  qed
qed

section \<open>Statements that draw on a fixed trie\<close>

definition draws ::
    "trie \<Rightarrow> (string \<times> string) set \<Rightarrow> string set \<Rightarrow> string set \<Rightarrow> (canvas, unit) eff \<Rightarrow> bool" where
  "draws T E N M m \<longleftrightarrow> (\<forall>s. cv_trie s = T \<longrightarrow>
     (\<exists>ds. m s = (Inr (), s\<lparr>drawn := drawn s @ ds\<rparr>) \<and> plain_edges ds = E \<and> N \<subseteq> node_names ds \<and> node_names ds \<subseteq> M))"

lemma drawsD:
  assumes "draws T E N M m" and "cv_trie s = T"
  obtains ds where "m s = (Inr (), s\<lparr>drawn := drawn s @ ds\<rparr>)" "plain_edges ds = E"
    "N \<subseteq> node_names ds" "node_names ds \<subseteq> M"
  using assms unfolding draws_def by blast

lemma draws_mono:
  assumes "draws T E N M m" and "N' \<subseteq> N" and "M \<subseteq> M'"
  shows "draws T E N' M' m"
  unfolding draws_def
proof (intro allI impI)
  fix s :: canvas
  assume "cv_trie s = T"
  then obtain ds where "m s = (Inr (), s\<lparr>drawn := drawn s @ ds\<rparr>)" "plain_edges ds = E"
    and "N \<subseteq> node_names ds" "node_names ds \<subseteq> M"
    using drawsD [OF assms(1)] by blast
  moreover from this have "N' \<subseteq> node_names ds" "node_names ds \<subseteq> M'" using assms(2,3) by auto
  ultimately show "\<exists>ds. m s = (Inr (), s\<lparr>drawn := drawn s @ ds\<rparr>) \<and> plain_edges ds = E \<and>
      N' \<subseteq> node_names ds \<and> node_names ds \<subseteq> M'" by blast
qed

lemma draws_nodes: "adds_nodes N M m \<Longrightarrow> draws T {} N M m"
  by (simp add: adds_nodes_def draws_def)

lemma draws_edge: "draws T (if x = [] then {(u, v)} else {}) {} {} (draw_op (DEdge u v x))"
  by (auto simp: draws_def draw_op_def intro!: exI [of _ "[DEdge u v x]"])

lemma draws_ret: "draws T {} {} M (eret ())"
  by (auto simp: draws_def intro!: exI [of _ "[]"])

lemma draws_seq:
  assumes "draws T E N M m" and "draws T F N' M' n"
  shows "draws T (E \<union> F) (N \<union> N') (M \<union> M') (eseq m n)"
  unfolding draws_def
proof (intro allI impI)
  fix s :: canvas
  assume s: "cv_trie s = T"
  obtain ds where ds: "m s = (Inr (), s\<lparr>drawn := drawn s @ ds\<rparr>)" "plain_edges ds = E"
    "N \<subseteq> node_names ds" "node_names ds \<subseteq> M"
    using drawsD [OF assms(1) s] .
  have "cv_trie (s\<lparr>drawn := drawn s @ ds\<rparr>) = T" using s by simp
  from drawsD [OF assms(2) this] obtain es where
    "n (s\<lparr>drawn := drawn s @ ds\<rparr>) = (Inr (), s\<lparr>drawn := drawn s @ ds @ es\<rparr>)" "plain_edges es = F"
    "N' \<subseteq> node_names es" "node_names es \<subseteq> M'" by auto
  with ds show "\<exists>ds. eseq m n s = (Inr (), s\<lparr>drawn := drawn s @ ds\<rparr>) \<and> plain_edges ds = E \<union> F \<and>
      N \<union> N' \<subseteq> node_names ds \<and> node_names ds \<subseteq> M \<union> M'"
    by (intro exI [of _ "ds @ es"]) (simp add: eseq_run, blast)
qed

lemma draws_for:
  "(\<And>x. x \<in> set xs \<Longrightarrow> draws T (E x) (N x) (M x) (f x)) \<Longrightarrow>
   draws T (\<Union>x\<in>set xs. E x) (\<Union>x\<in>set xs. N x) (\<Union>x\<in>set xs. M x) (efor xs f)"
proof (induction xs)
  case Nil
  then show ?case using draws_ret by (simp add: efor.simps(1) del: eff_unfold)
next
  case (Cons x xs)
  have "draws T (E x \<union> (\<Union>x\<in>set xs. E x)) (N x \<union> (\<Union>x\<in>set xs. N x)) (M x \<union> (\<Union>x\<in>set xs. M x)) (eseq (f x) (efor xs f))"
    using Cons by (intro draws_seq) simp_all
  then show ?case by simp
qed

lemma draws_block: "draws T E N M (f (heap T ! a)) \<Longrightarrow> draws T E N M (ebind (block_at a) f)"
  by (auto simp: draws_def block_at_def)

lemma draws_string: "draws T E N M (f y) \<Longrightarrow> draws T E N M (ebind (graph_string (Some y)) f)"
  by (simp add: graph_string_def draws_def)

lemma draws_drawn: "(\<And>d. draws T E N M (f d)) \<Longrightarrow> draws T E N M (ebind (eget drawn) f)"
  by (simp add: draws_def)

section \<open>The recursion on a trie whose root has a name\<close>

definition reached :: "trie \<Rightarrow> addr \<Rightarrow> addr set" where
  "reached t a = {b. (child_of t)\<^sup>*\<^sup>* a b}"

text \<open>The trie after the root got its hash.\<close>

definition named :: "trie \<Rightarrow> trie" where
  "named t = t\<lparr>heap := (heap t)[0 := (heap t ! 0)\<lparr>block_hash := Some ''root''\<rparr>]\<rparr>"

lemma kids_child_of: "store_wf t \<Longrightarrow> a < length (heap t) \<Longrightarrow> child_of t a b \<longleftrightarrow> b \<in> snd ` set (kids t a)"
  using store_wfD(4) [of t a] by (force simp: child_of_def edge_def dest: map_of_SomeD)

lemma reached_step:
  assumes "store_wf t" and "a < length (heap t)"
  shows "reached t a = insert a (\<Union>b\<in>snd ` set (kids t a). reached t b)"
proof -
  have "x \<in> reached t a \<longleftrightarrow> x = a \<or> (\<exists>b. child_of t a b \<and> x \<in> reached t b)" for x
    unfolding reached_def mem_Collect_eq
    by (metis converse_rtranclp_into_rtranclp rtranclp.rtrancl_refl converse_rtranclpE)
  then show ?thesis by (auto simp: kids_child_of [OF assms])
qed

lemma named_sel [simp]:
  "length (heap (named t)) = length (heap t)" "root (named t) = root t"
  "b \<noteq> 0 \<Longrightarrow> heap (named t) ! b = heap t ! b"
  "0 < length (heap t) \<Longrightarrow> heap (named t) ! 0 = (heap t ! 0)\<lparr>block_hash := Some ''root''\<rparr>"
  by (simp_all add: named_def)

lemma named_block [simp]:
  assumes "b < length (heap t)"
  shows "children (heap (named t) ! b) = kids t b" "labels (heap (named t) ! b) = labels (heap t ! b)"
  using assms by (cases "b = 0"; simp add: kids_def)+

lemma named_hash: "store_wf t \<Longrightarrow> a < length (heap t) \<Longrightarrow> block_hash (heap (named t) ! a) = Some (name_of t a)"
  using store_wfD(5) [of t a] by (cases "a = 0") (auto simp: name_of_def)

lemma kid_hash:
  assumes "store_wf t" and "a < length (heap t)" and "(k, b) \<in> set (kids t a)"
  shows "b \<noteq> 0" "b < length (heap t)" "block_hash (heap t ! b) = Some k"
proof -
  have "edge t a k b" using assms store_wfD(4) [OF assms(1,2)] by (simp add: edge_def)
  from store_wfD(6) [OF assms(1) this] show "b \<noteq> 0" "b < length (heap t)" "block_hash (heap t ! b) = Some k"
    by auto
qed

lemma links_from_step:
  assumes "store_wf t" and "a < length (heap t)"
  shows "(\<Union>p\<in>set (kids t a). insert (name_of t a, fst p) (links_from t (reached t (snd p)))) =
    links_from t (reached t a)"
proof -
  have ins: "links_from t (insert a A) = (\<lambda>p. (name_of t a, fst p)) ` set (kids t a) \<union> links_from t A" for A
    by (force simp: links_from_def)
  have un: "links_from t (\<Union>b\<in>B. F b) = (\<Union>b\<in>B. links_from t (F b))" for F and B :: "addr set"
    by (auto simp: links_from_def)
  show ?thesis unfolding reached_step [OF assms] ins un by auto
qed

lemma efor_map: "efor (map g xs) f = efor xs (\<lambda>x. f (g x))"
  by (induction xs) simp_all

text \<open>
  The nodes of the blocks below a block: at most their names and labels; at least their labels, and
  what \<open>low\<close> says of the name of every child.
\<close>

definition upper_names :: "trie \<Rightarrow> addr set \<Rightarrow> string set" where
  "upper_names t A = (\<Union>x\<in>A. insert (name_of t x) (label_names (heap t ! x)))"

definition lower_names :: "(string \<Rightarrow> string set) \<Rightarrow> trie \<Rightarrow> addr set \<Rightarrow> string set" where
  "lower_names low t A = (\<Union>x\<in>A. label_names (heap t ! x) \<union> (\<Union>p\<in>set (kids t x). low (fst p)))"

lemma lower_step:
  assumes "store_wf t" and "a < length (heap t)"
  shows "label_names (heap t ! a) \<union> (\<Union>p\<in>set (kids t a). low (fst p) \<union> lower_names low t (reached t (snd p))) =
    lower_names low t (reached t a)"
  unfolding reached_step [OF assms] by (auto simp: lower_names_def)

lemma upper_step:
  assumes "store_wf t" and "a < length (heap t)"
  shows "insert (name_of t a) (label_names (heap t ! a)) \<union>
      (\<Union>p\<in>set (kids t a). {fst p, name_of t a} \<union> upper_names t (reached t (snd p))) =
    upper_names t (reached t a)"
proof -
  have "k \<in> upper_names t (reached t b)" if "(k, b) \<in> set (kids t a)" for k b
  proof -
    have "name_of t b = k" using kid_hash(3) [OF assms that] by (simp add: name_of_def)
    moreover have "b \<in> reached t b" by (simp add: reached_def)
    ultimately show ?thesis by (auto simp: upper_names_def)
  qed
  then have "fst p \<in> upper_names t (reached t (snd p))" if "p \<in> set (kids t a)" for p using that by (cases p) simp
  moreover have "upper_names t (insert a (\<Union>b\<in>snd ` set (kids t a). reached t b)) =
      insert (name_of t a) (label_names (heap t ! a)) \<union> (\<Union>p\<in>set (kids t a). upper_names t (reached t (snd p)))"
    by (auto simp: upper_names_def)
  ultimately show ?thesis unfolding reached_step [OF assms] by blast
qed

text \<open>
  The two ways to draw a node. The child's own node is certain only where \<open>low\<close> says so: the picture of the
  logs falls back to the node of the parent when a block has too many values.
\<close>

locale node_drawing =
  fixes self :: "bool \<Rightarrow> string \<Rightarrow> string list \<Rightarrow> (canvas, unit) eff"
    and child :: "bool \<Rightarrow> string \<Rightarrow> string \<Rightarrow> string list \<Rightarrow> (canvas, unit) eff"
    and low :: "string \<Rightarrow> string set"
  assumes self_nodes: "adds_nodes {} {h} (self l h vs)"
    and child_nodes: "adds_nodes (low ch) {ch, h} (child l h ch vs)"
begin

lemma labels_drawn:
  assumes "None \<notin> set (labels blk)" and "block_hash blk = Some h"
  shows "draws T {} (label_names blk) (label_names blk) (draw_labels blk)"
proof -
  let ?n = "\<lambda>l. case l of None \<Rightarrow> {} | Some y \<Rightarrow> {y}"
  have "draws T (\<Union>l\<in>set (labels blk). {}) (\<Union>l\<in>set (labels blk). ?n l) (\<Union>l\<in>set (labels blk). ?n l) (draw_labels blk)"
    unfolding draw_labels_def assms(2)
  proof (rule draws_for)
    fix l assume "l \<in> set (labels blk)"
    with assms(1) obtain y where y: "l = Some y" by (cases l) auto
    have "draws T ({} \<union> {}) ({y} \<union> {}) ({y} \<union> {}) (eseq (draw_op (DNode y y [(''color'', ''blue'')]))
       (ebind (graph_string (Some h)) (\<lambda>h. draw_op (DEdge y h [(''color'', ''blue'')]))))"
      using draws_edge [of T "[(''color'', ''blue'')]" y h]
      by (intro draws_seq [OF draws_nodes [OF adds_node]] draws_string) simp_all
    then show "draws T {} (?n l) (?n l) (ebind (graph_string l) (\<lambda>label.
       eseq (draw_op (DNode label label [(''color'', ''blue'')]))
         (ebind (graph_string (Some h)) (\<lambda>h. draw_op (DEdge label h [(''color'', ''blue'')])))))"
      unfolding y by (simp del: eff_unfold) (intro draws_string, simp)
  qed
  moreover have "(\<Union>l\<in>set (labels blk). ?n l) = label_names blk"
    by (force simp: label_names_def split: option.splits)
  ultimately show ?thesis by simp
qed

lemma self_drawn: "block_hash blk = Some h \<Longrightarrow> draws T {} {} {h} (draw_self in_body self a blk)"
  unfolding draw_self_def
  by (simp del: eff_unfold) (rule draws_drawn, use draws_ret in \<open>auto intro: draws_nodes self_nodes simp del: eff_unfold\<close>)

lemma children_drawn:
  assumes wf: "store_wf t" "a < length (heap t)"
    and sub: "\<And>k b. (k, b) \<in> set (kids t a) \<Longrightarrow> draws (named t) (L b) (N b) (M b) (render b)"
  shows "draws (named t) (\<Union>p\<in>set (kids t a). insert (name_of t a, fst p) (L (snd p)))
    (\<Union>p\<in>set (kids t a). low (fst p) \<union> N (snd p)) (\<Union>p\<in>set (kids t a). {fst p, name_of t a} \<union> M (snd p))
    (efor (dict_values (kids t a)) (draw_child child render a lab))"
  unfolding efor_map
proof (rule draws_for)
  fix p assume "p \<in> set (kids t a)"
  moreover obtain k b where p: "p = (k, b)" by (cases p)
  ultimately have k: "(k, b) \<in> set (kids t a)" by simp
  note kh = kid_hash [OF wf k]
  let ?T = "named t"
  have "draws ?T ({} \<union> ({(name_of t a, k)} \<union> L b)) (low k \<union> ({} \<union> N b)) ({k, name_of t a} \<union> ({} \<union> M b))
      (eseq (child lab (name_of t a) k (block_value (heap ?T ! b)))
        (eseq (draw_op (DEdge (name_of t a) k [])) (render b)))"
    using draws_edge [of ?T "[]" "name_of t a" k]
    by (intro draws_seq draws_nodes child_nodes sub [OF k]) simp
  then have "draws ?T (insert (name_of t a, k) (L b)) (low k \<union> N b) ({k, name_of t a} \<union> M b) (draw_child child render a lab b)"
    unfolding draw_child_def
    by (intro draws_block) (simp add: kh(1,3) draws_string draws_block named_hash [OF wf])
  then show "draws ?T (insert (name_of t a, fst p) (L (snd p))) (low (fst p) \<union> N (snd p))
      ({fst p, name_of t a} \<union> M (snd p)) (draw_child child render a lab (snd p))"
    by (simp add: p)
qed

text \<open>From a block that has a hash, exactly the links of all blocks below it are drawn.\<close>

lemma render_draws:
  assumes wf: "store_wf t" and named: "labels_named t"
  shows "rwalk t (a # vs) \<Longrightarrow> length (heap t) \<le> fuel + length vs \<Longrightarrow> a \<noteq> 0 \<Longrightarrow>
    draws (named t) (links_from t (reached t a)) (lower_names low t (reached t a)) (upper_names t (reached t a))
      (render_with in_body self child fuel a)"
proof (induction fuel arbitrary: a vs)
  case 0
  then show ?case using rwalk_length [OF wf "0.prems"(1)] by simp
next
  case (Suc fuel)
  let ?T = "named t" and ?blk = "heap t ! a"
  have a: "a < length (heap t)" using rwalk_bound [OF wf Suc.prems(1)] by simp
  obtain h where h: "block_hash ?blk = Some h" using store_wfD(5) [OF wf a] Suc.prems(3) by auto
  then have name: "name_of t a = h" by (simp add: name_of_def)
  have n: "None \<notin> set (labels ?blk)" using named a by (simp add: labels_named_def)
  have sub: "draws ?T (links_from t (reached t b)) (lower_names low t (reached t b)) (upper_names t (reached t b))
      (render_with in_body self child fuel b)"
    if "(k, b) \<in> set (kids t a)" for k b
    using Suc.IH [OF rwalk_kid [OF wf Suc.prems(1) that]] Suc.prems(2) kid_hash(1) [OF wf a that] by simp
  have "draws ?T ({} \<union> ({} \<union> (\<Union>p\<in>set (kids t a). insert (name_of t a, fst p) (links_from t (reached t (snd p))))))
     (label_names ?blk \<union> ({} \<union> (\<Union>p\<in>set (kids t a). low (fst p) \<union> lower_names low t (reached t (snd p)))))
     (label_names ?blk \<union> ({h} \<union> (\<Union>p\<in>set (kids t a). {fst p, name_of t a} \<union> upper_names t (reached t (snd p)))))
     (eseq (draw_labels ?blk) (eseq (draw_self in_body self a ?blk)
       (efor (dict_values (kids t a)) (draw_child child (\<lambda>b. render_with in_body self child fuel b) a (labels ?blk \<noteq> [])))))"
    by (intro draws_seq labels_drawn [OF n h] self_drawn [OF h] children_drawn [OF wf a sub])
  moreover have "label_names ?blk \<union> ({h} \<union> X) = insert (name_of t a) (label_names ?blk) \<union> X" for X
    by (simp add: name)
  ultimately have "draws ?T (links_from t (reached t a)) (lower_names low t (reached t a)) (upper_names t (reached t a))
     (eseq (draw_labels ?blk) (eseq (draw_self in_body self a ?blk)
       (efor (dict_values (kids t a)) (draw_child child (\<lambda>b. render_with in_body self child fuel b) a (labels ?blk \<noteq> [])))))"
    by (simp only: Un_empty_left links_from_step [OF wf a] lower_step [OF wf a] upper_step [OF wf a])
  then show ?case
    unfolding render_with.simps by (intro draws_block) (simp add: Suc.prems(3) kids_def)
qed

text \<open>From the root, which gets its hash first.\<close>

lemma render_root:
  assumes wf: "store_wf t" and named: "labels_named t"
  shows "\<exists>ds. render_with in_body self child (length (heap t)) 0 \<lparr>cv_trie = t, drawn = ds0\<rparr> =
      (Inr (), \<lparr>cv_trie = named t, drawn = ds0 @ ds\<rparr>) \<and> plain_edges ds = links_from t (reached t 0) \<and>
    lower_names low t (reached t 0) \<subseteq> node_names ds \<and> node_names ds \<subseteq> upper_names t (reached t 0)"
proof -
  have len: "0 < length (heap t)" using store_wfD(2) [OF wf] by simp
  then obtain fuel where f: "length (heap t) = Suc fuel" by (cases "length (heap t)") auto
  let ?kids = "efor (dict_values (kids t 0)) (draw_child child (\<lambda>b. render_with in_body self child fuel b) 0 False)"
  have sub: "draws (named t) (links_from t (reached t b)) (lower_names low t (reached t b)) (upper_names t (reached t b))
      (render_with in_body self child fuel b)"
    if "(k, b) \<in> set (kids t 0)" for k b
  proof -
    have "rwalk t [b, 0]" using rwalk_kid [OF wf _ that, of "[]"] by simp
    from render_draws [OF wf named this] kid_hash(1) [OF wf len that] f show ?thesis by simp
  qed
  have root: "block_hash (heap t ! 0) = None" "labels (heap t ! 0) = []"
    using store_wfD(5) [OF wf len] named by (simp_all add: labels_named_def)
  then have run: "render_with in_body self child (length (heap t)) 0 \<lparr>cv_trie = t, drawn = ds0\<rparr> =
      ?kids \<lparr>cv_trie = named t, drawn = ds0\<rparr>"
    by (simp add: f block_at_def draw_labels_def draw_self_def set_hash_def named_def kids_def eseq_def)
  have all: "draws (named t) (\<Union>p\<in>set (kids t 0). insert (name_of t 0, fst p) (links_from t (reached t (snd p))))
     (\<Union>p\<in>set (kids t 0). low (fst p) \<union> lower_names low t (reached t (snd p)))
     (\<Union>p\<in>set (kids t 0). {fst p, name_of t 0} \<union> upper_names t (reached t (snd p))) ?kids"
    by (rule children_drawn [OF wf len]) (rule sub)
  have "label_names (heap t ! 0) = {}" using root(2) by (simp add: label_names_def)
  then have low: "lower_names low t (reached t 0) \<subseteq>
      (\<Union>p\<in>set (kids t 0). low (fst p) \<union> lower_names low t (reached t (snd p)))"
    using lower_step [OF wf len, of low] by simp
  have "(\<Union>p\<in>set (kids t 0). {fst p, name_of t 0} \<union> upper_names t (reached t (snd p))) \<subseteq> upper_names t (reached t 0)"
    using upper_step [OF wf len] by blast
  from draws_mono [OF all low this] have d: "draws (named t) (links_from t (reached t 0))
      (lower_names low t (reached t 0)) (upper_names t (reached t 0)) ?kids"
    unfolding links_from_step [OF wf len] .
  obtain ds where "?kids \<lparr>cv_trie = named t, drawn = ds0\<rparr> = (Inr (), \<lparr>cv_trie = named t, drawn = ds0\<rparr>\<lparr>drawn := ds0 @ ds\<rparr>)"
    "plain_edges ds = links_from t (reached t 0)" "lower_names low t (reached t 0) \<subseteq> node_names ds"
    "node_names ds \<subseteq> upper_names t (reached t 0)"
    using drawsD [OF d, of "\<lparr>cv_trie = named t, drawn = ds0\<rparr>"] by auto
  then show ?thesis unfolding run by auto
qed

end

interpretation compare: node_drawing plain_self plain_child "\<lambda>ch. {ch}"
  by unfold_locales (simp_all add: plain_self_def plain_child_def adds_node)

text \<open>Where every child has its node, a node is drawn for every block but the one begun with.\<close>

lemma names_complete:
  assumes wf: "store_wf t" and a: "a < length (heap t)"
  shows "insert (name_of t a) (lower_names (\<lambda>ch. {ch}) t (reached t a)) = upper_names t (reached t a)"
proof
  have bound: "x < length (heap t)" if "x \<in> reached t a" for x
  proof -
    from that have "(child_of t)\<^sup>*\<^sup>* a x" by (simp add: reached_def)
    then show ?thesis
    proof (induction rule: rtranclp_induct)
      case (step y z)
      then obtain k where "edge t y k z" by (auto simp: child_of_def)
      with store_wfD(6) [OF wf] show ?case by blast
    qed (rule a)
  qed
  have "name_of t x = name_of t a \<or> (\<exists>y\<in>reached t a. (name_of t x, x) \<in> set (kids t y))" if "x \<in> reached t a" for x
  proof -
    from that have "(child_of t)\<^sup>*\<^sup>* a x" by (simp add: reached_def)
    then show ?thesis
    proof (cases rule: rtranclp.cases)
      case (rtrancl_into_rtrancl y)
      then have y: "y \<in> reached t a" by (simp add: reached_def)
      from rtrancl_into_rtrancl(2) obtain k where k: "(k, x) \<in> set (kids t y)"
        using kids_child_of [OF wf bound [OF y]] by auto
      from kid_hash(3) [OF wf bound [OF y] k] have "name_of t x = k" by (simp add: name_of_def)
      with k y show ?thesis by blast
    qed simp
  qed
  then show "upper_names t (reached t a) \<subseteq> insert (name_of t a) (lower_names (\<lambda>ch. {ch}) t (reached t a))"
    unfolding upper_names_def lower_names_def by (intro subsetI) (elim UN_E insertE, fastforce, blast)
  have "k \<in> upper_names t (reached t a)" if "x \<in> reached t a" "(k, b) \<in> set (kids t x)" for x k b
  proof -
    from kid_hash(3) [OF wf bound [OF that(1)] that(2)] have "name_of t b = k" by (simp add: name_of_def)
    moreover have "child_of t x b" using that kids_child_of [OF wf bound [OF that(1)]] by force
    then have "b \<in> reached t a" using that(1) by (auto simp: reached_def)
    ultimately show ?thesis by (auto simp: upper_names_def)
  qed
  moreover have "a \<in> reached t a" by (simp add: reached_def)
  ultimately show "insert (name_of t a) (lower_names (\<lambda>ch. {ch}) t (reached t a)) \<subseteq> upper_names t (reached t a)"
    unfolding lower_names_def by (fastforce simp: upper_names_def)
qed

section \<open>Labels of loaded tries\<close>

lemma map_list_update_same: "a < length xs \<Longrightarrow> f x = f (xs ! a) \<Longrightarrow> map f (xs[a := x]) = map f xs"
  by (simp add: map_update list_update_same_conv)

lemma labels_ops [simp]:
  "map labels (heap (set_child t a k b)) = map labels (heap t)"
  "map labels (heap (del_child t a k)) = map labels (heap t)"
  "map labels (heap (alloc t k)) = map labels (heap t) @ [[]]"
  "map labels (heap (note_value t a v)) = map labels (heap t)"
  by (cases "a < length (heap t)"; auto simp: set_child_def del_child_def alloc_def new_block_def note_value_def
      append_value_def map_list_update_same list_update_beyond split: option.splits)+

lemma insertChild_labels:
  "insertChild t a k = (b, t') \<Longrightarrow> \<exists>j. map labels (heap t') = map labels (heap t) @ replicate j []"
proof (cases "map_of (kids t a) k")
  case None
  moreover assume "insertChild t a k = (b, t')"
  ultimately show ?thesis by (auto simp: insertChild_new intro!: exI [of _ 1])
next
  case (Some c)
  moreover assume "insertChild t a k = (b, t')"
  ultimately show ?thesis by (auto simp: insertChild_old intro!: exI [of _ 0])
qed

lemma insert_loop_labels:
  "insert_loop t a hs = (a', t') \<Longrightarrow> \<exists>j. map labels (heap t') = map labels (heap t) @ replicate j []"
proof (induction t a hs rule: insert_loop.induct)
  case (1 t node)
  then show ?case by (auto intro: exI [of _ 0])
next
  case (2 t node h hs)
  define n1 where "n1 = (case map_of (blocks t) h of Some b \<Rightarrow> b | None \<Rightarrow> node)"
  obtain n2 t2 where ic: "insertChild t n1 h = (n2, t2)" by fastforce
  obtain i where i: "map labels (heap t2) = map labels (heap t) @ replicate i []"
    using insertChild_labels [OF ic] by blast
  have "insert_loop (register t2 h n2) n2 hs = (a', t')" using 2(2) ic by (simp add: n1_def)
  with "2.IH" [OF n1_def refl] ic obtain j where "map labels (heap t') = map labels (heap t2) @ replicate j []"
    by (auto simp: n1_def)
  with i show ?case by (auto simp: replicate_add [symmetric] intro!: exI [of _ "i + j"])
qed

lemma insert_loop_pos:
  "trie_wf t \<Longrightarrow> a < length (heap t) \<Longrightarrow> insert_loop t a hs = (a', t') \<Longrightarrow> hs \<noteq> [] \<or> a \<noteq> 0 \<Longrightarrow> a' \<noteq> 0"
proof (induction t a hs rule: insert_loop.induct)
  case (2 t node h hs)
  define n1 where "n1 = (case map_of (blocks t) h of Some b \<Rightarrow> b | None \<Rightarrow> node)"
  obtain n2 t2 where ic: "insertChild t n1 h = (n2, t2)" by fastforce
  have n1: "n1 < length (heap t)"
    using "2.prems"(1,2) store_wfD(8) [of t h] by (auto simp: n1_def trie_wf_def split: option.splits)
  note st = child_step_wf [OF "2.prems"(1) ic n1]
  have "insert_loop (register t2 h n2) n2 hs = (a', t')" using "2.prems"(3) ic by (simp add: n1_def)
  with "2.IH" [OF n1_def refl] st ic show ?case by (auto simp: n1_def)
qed simp

text \<open>\<open>labels_named\<close> on the list of all labels.\<close>

lemma labels_named_map:
  "labels_named t \<longleftrightarrow> (\<forall>ls\<in>set (map labels (heap t)). None \<notin> set ls) \<and> labels (heap t ! 0) = []"
  by (simp add: labels_named_def all_set_conv_all_nth [of "heap t" "\<lambda>b. None \<notin> set (labels b)"])

lemma labels_named_grow:
  assumes "map labels (heap t') = map labels (heap t) @ replicate j []" and "0 < length (heap t)"
  shows "labels_named t \<longleftrightarrow> labels_named t'"
proof -
  have "0 < length (map labels (heap t'))" using assms(2) by (simp add: assms(1) del: length_map)
  then have "labels (heap t' ! 0) = map labels (heap t') ! 0" by simp
  also have "\<dots> = labels (heap t ! 0)" using assms(2) by (simp add: assms(1) nth_append)
  finally show ?thesis unfolding labels_named_map assms(1) by auto
qed

lemma labels_named_insert_chain:
  assumes wf: "trie_wf t" and named: "labels_named t" and ins: "insert_chain t chain (Some l) = Inr t'"
  shows "labels_named t'"
proof (cases chain)
  case Nil
  with ins show ?thesis by (simp add: insert_chain_def py_get_def)
next
  case (Cons h hs)
  from insert_chain_loop [OF wf ins [unfolded Cons]] obtain node a u where
    il: "insert_loop t node (h # hs) = (a, u)" and n: "node < length (heap t)" and t': "t' = append_label u a (Some l)"
    by metis
  have len: "0 < length (heap t)" using wf store_wfD(2) by (auto simp: trie_wf_def)
  obtain j where "map labels (heap u) = map labels (heap t) @ replicate j []" using insert_loop_labels [OF il] by blast
  from labels_named_grow [OF this len] named have u: "labels_named u" by simp
  have a: "a < length (heap u)" "a \<noteq> 0" using insert_loop_wf [OF wf n il] insert_loop_pos [OF wf n il] by auto
  have "labels (heap t' ! x) = (if x = a then labels (heap u ! a) @ [Some l] else labels (heap u ! x))"
    if "x < length (heap u)" for x
    using that a by (simp add: t' append_label_def nth_list_update)
  moreover have "0 < length (heap u)" using a(1) by linarith
  ultimately show ?thesis using u a by (simp add: labels_named_def t')
qed

lemma labels_named_insertLink:
  assumes wf: "trie_wf t" and named: "labels_named t" and ins: "insertLink t p c (Some v) = Inr t'"
  shows "labels_named t'"
proof -
  have len: "0 < length (heap t)" using wf store_wfD(2) by (auto simp: trie_wf_def)
  show ?thesis
  proof (cases "map_of (blocks t) p")
    case (Some a)
    obtain b t1 where ic: "insertChild t a c = (b, t1)" by fastforce
    then obtain j where "map labels (heap t1) = map labels (heap t) @ replicate j []"
      using insertChild_labels by blast
    moreover have "t' = note_value (register t1 c b) b (Some v)" using ins Some ic by (simp add: insertLink_def)
    ultimately have "map labels (heap t') = map labels (heap t) @ replicate j []" by simp
    from labels_named_grow [OF this len] named show ?thesis by simp
  next
    case None
    show ?thesis
    proof (cases "c \<in> set (dict_keys (blocks t))")
      case True
      then obtain b where b: "map_of (kids t (root t)) c = Some b"
        using ins None by (auto simp: insertLink_def split: option.splits)
      let ?t1 = "del_child t (root t) c"
      obtain pn t2 where ic: "insertChild ?t1 (root ?t1) p = (pn, t2)" by fastforce
      then obtain j where "map labels (heap t2) = map labels (heap t) @ replicate j []"
        using insertChild_labels by fastforce
      then have "map labels (heap t') = map labels (heap t) @ replicate j []"
        using ins None True b ic by (auto simp: insertLink_def Let_def split: option.splits)
      from labels_named_grow [OF this len] named show ?thesis by simp
    next
      case False
      with ins None have "insert_chain t [p, c] (Some v) = Inr t'" by (simp add: insertLink_def)
      then show ?thesis by (rule labels_named_insert_chain [OF wf named])
    qed
  qed
qed

definition drawable :: "trie \<Rightarrow> bool" where
  "drawable t \<longleftrightarrow> trie_wf t \<and> labels_named t"

lemma drawable_empty: "drawable empty_trie"
  using empty_trie_wf by (simp add: drawable_def labels_named_def empty_trie_def new_block_def)

lemma load_pods_drawable: "drawable t \<Longrightarrow> load_pods process t ips = Inr t' \<Longrightarrow> drawable t'"
proof (induction process t ips rule: load_pods.induct)
  case (2 process t ip rest)
  from 2(4) obtain res where res: "process ip = Inr res" by (auto simp: rbind_eq_Inr)
  show ?case
  proof (cases res)
    case None
    with 2 res show ?thesis by simp
  next
    case (Some cp)
    obtain chain pod where cp: "cp = (chain, pod)" by (cases cp)
    with 2(4) res Some obtain u where u: "insert_chain t chain (Some (py_slice pod 0 (- 16))) = Inr u"
      and rest: "load_pods process u rest = Inr t'" by (auto simp: rbind_eq_Inr)
    have "drawable u"
      using 2(3) insert_chain_wf [OF _ u] labels_named_insert_chain [OF _ _ u] by (simp add: drawable_def)
    then show ?thesis using rest by (rule 2(2))
  qed
qed simp

lemma load_entries_drawable: "drawable t \<Longrightarrow> load_entries t es = Inr t' \<Longrightarrow> drawable t'"
  by (induction t es rule: load_entries.induct)
    (auto simp: rbind_eq_Inr drawable_def dest: insertLink_wf labels_named_insertLink)

section \<open>The pictures\<close>

text \<open>
  C6. Drawing the trie of the best-tip comparison returns. The nodes drawn are exactly those of
  the blocks below the root under their hashes, of the root under the name root, and of the
  labels of these blocks; the edges between blocks that are drawn are exactly the parent links of
  the blocks below the root, and one edge from the root to itself: render_fork has already given the root that name
  when check connects the two. (The comment of the source asks for an edge to the fork root.)
\<close>

theorem comparison_picture:
  assumes "compare_trie query namespace port items = Inr t"
  shows "\<exists>t' ds. draw_comparison in_body t = (Inr (), \<lparr>cv_trie = t', drawn = ds\<rparr>) \<and>
    node_names ds = name_of t ` reached t (root t) \<union> (\<Union>b\<in>reached t (root t). {l. Some l \<in> set (labels (heap t ! b))}) \<and>
    plain_edges ds = links_from t (reached t (root t)) \<union> {(''root'', ''root'')}"
proof -
  have d: "store_wf t" "labels_named t"
    using load_pods_drawable [OF drawable_empty] assms by (auto simp: compare_trie_def drawable_def trie_wf_def)
  let ?n = "DNode ''root'' ''root'' [(''color'', ''black'')]"
  have r: "root t = 0" "0 < length (heap t)" using store_wfD(1,2) [OF d(1)] by auto
  have name: "name_of t 0 = ''root''" using store_wfD(5) [OF d(1) r(2)] by (simp add: name_of_def)
  obtain ds where ds:
    "render_with in_body plain_self plain_child (length (heap t)) 0 \<lparr>cv_trie = t, drawn = [] @ [?n]\<rparr> =
       (Inr (), \<lparr>cv_trie = named t, drawn = ([] @ [?n]) @ ds\<rparr>)" "plain_edges ds = links_from t (reached t 0)"
    "lower_names (\<lambda>ch. {ch}) t (reached t 0) \<subseteq> node_names ds" "node_names ds \<subseteq> upper_names t (reached t 0)"
    using compare.render_root [OF d] by blast
  then have run: "draw_comparison in_body t =
      (Inr (), \<lparr>cv_trie = named t, drawn = ?n # ds @ [DEdge ''root'' ''root'' []]\<rparr>)"
    using r by (simp add: draw_comparison_def render_compare_def draw_op_def block_at_def graph_string_def eseq_def ebind_def)
  have "insert ''root'' (node_names ds) = upper_names t (reached t 0)"
    using ds(3,4) names_complete [OF d(1) r(2)] unfolding name by auto
  also have "\<dots> = name_of t ` reached t 0 \<union> (\<Union>b\<in>reached t 0. {l. Some l \<in> set (labels (heap t ! b))})"
    by (auto simp: upper_names_def label_names_def)
  finally show ?thesis using run ds(2) r(1) by auto
qed

text \<open>
  Drawing the blockchain of the logs returns whenever the trie was loaded, however many
  values a block has, and draws exactly the parent links of the blocks below the root.
\<close>

theorem blockchain_picture:
  assumes "visualize_blockchain source max_entries count_best_tips query namespace port items = Inr t"
    and "colors \<noteq> []"
  shows "\<exists>t' ds. draw_blockchain colors in_body t = (Inr (), \<lparr>cv_trie = t', drawn = ds\<rparr>) \<and>
    plain_edges ds = links_from t (reached t (root t))"
proof -
  obtain logs u where "load_entries empty_trie logs = Inr u"
    "(if count_best_tips
       then load_pods (process_pod [''block-producer''] query namespace port) u (enumerate 0 (take 50 items))
       else Inr u) = Inr t"
    using assms(1) unfolding visualize_blockchain_def rbind_eq_Inr by blast
  then have "drawable t"
    using load_entries_drawable [OF drawable_empty, of logs u] load_pods_drawable [of u]
    by (cases count_best_tips) auto
  then have d: "store_wf t" "labels_named t" by (simp_all add: drawable_def trie_wf_def)
  have style: "node_drawing (shaded_self colors) (shaded_child colors) (\<lambda>_. {})"
    using shaded_adds [OF assms(2)] shaded_adds [OF assms(2), where fallback = h and h = h for h, simplified]
    by unfold_locales (auto simp: shaded_self_def shaded_child_def)
  let ?n = "DNode ''root'' ''root'' [(''color'', ''black'')]"
  have r: "root t = 0" using store_wfD(1) [OF d(1)] .
  obtain ds where ds:
    "render_with in_body (shaded_self colors) (shaded_child colors) (length (heap t)) 0
       \<lparr>cv_trie = t, drawn = [] @ [?n]\<rparr> = (Inr (), \<lparr>cv_trie = named t, drawn = ([] @ [?n]) @ ds\<rparr>)"
    "plain_edges ds = links_from t (reached t 0)"
    using node_drawing.render_root [OF style d] by blast
  then have "draw_blockchain colors in_body t = (Inr (), \<lparr>cv_trie = named t, drawn = ?n # ds\<rparr>)"
    using r by (simp add: draw_blockchain_def render_blockchain_def draw_op_def eseq_def ebind_def)
  with ds(2) r show ?thesis by auto
qed

lemma one_pod_chain:
  "\<exists>t. compare_trie (\<lambda>pod port. Inr (JDict [(''data'', JDict [(''bestChain'',
       JList [JDict [(''stateHash'', JStr ''a'')], JDict [(''stateHash'', JStr ''b'')]])])]))
     ''net'' 3085 [\<lparr>vp_name = ''whale-block-producer-0123456789abcdef'', vp_namespace = ''net''\<rparr>] = Inr t"
proof -
  have "insert_chain empty_trie [''a'', ''b''] l \<noteq> Inl e" for l e
    by (simp add: insert_chain_def py_get_last Let_def split: prod.splits)
  then obtain t where "insert_chain empty_trie [''a'', ''b'']
      (Some (py_slice ''whale-block-producer-0123456789abcdef'' 0 (- 16))) = Inr t"
    by (cases "insert_chain empty_trie [''a'', ''b'']
      (Some (py_slice ''whale-block-producer-0123456789abcdef'' 0 (- 16)))") auto
  moreover have "str_in ''block-producer'' ''whale-block-producer-0123456789abcdef''" by code_simp
  ultimately show ?thesis
    by (auto simp: compare_trie_def process_pod_def best_chain_def json_path_Cons)
qed

theorem comparison_picture_witness:
  "\<exists>t t' ds. compare_trie (\<lambda>pod port. Inr (JDict [(''data'', JDict [(''bestChain'',
       JList [JDict [(''stateHash'', JStr ''a'')], JDict [(''stateHash'', JStr ''b'')]])])]))
     ''net'' 3085 [\<lparr>vp_name = ''whale-block-producer-0123456789abcdef'', vp_namespace = ''net''\<rparr>] = Inr t \<and>
     draw_comparison (\<lambda>h body. False) t = (Inr (), \<lparr>cv_trie = t', drawn = ds\<rparr>) \<and>
     node_names ds = name_of t ` reached t (root t) \<union> (\<Union>b\<in>reached t (root t). {l. Some l \<in> set (labels (heap t ! b))}) \<and>
     plain_edges ds = links_from t (reached t (root t)) \<union> {(''root'', ''root'')}"
  using one_pod_chain comparison_picture by meson

theorem blockchain_picture_witness:
  "\<exists>t t' ds. visualize_blockchain (Inl [link_entry ''a'' ''b'', link_entry ''b'' ''c'']) 10 False
       (\<lambda>pod port. Inl lost_connection) ''testnet'' 3085 [] = Inr t \<and>
     draw_blockchain [''white'', ''blue''] (\<lambda>h body. False) t = (Inr (), \<lparr>cv_trie = t', drawn = ds\<rparr>) \<and>
     plain_edges ds = links_from t (reached t (root t))"
  using two_block_log blockchain_picture [where colors = "[''white'', ''blue'']"] by (metis list.distinct(1))

end
