(* ===== verification/NotebookGraph.thy ===== *)
theory NotebookGraph
  imports GossipGraph
begin

text \<open>
  The cells of \<open>automation/scripts/testnet-validation/Network-Visualization.ipynb\<close>: the graphs of the
  gossip of blocks, from three separate fetches. They follow
  \<open>_process_log_iterator\<close> of \<open>rebroadcasted_blocks_vis.py\<close>, but a graph starts with the nodes
  that made the block, an edge is timed from a broadcast before a rebroadcast, and a
  sender without a log entry is tied to the maker. The graph package and the time stamps are treated as
  in \<open>GossipGraph\<close>; the layout and the drawing are left out.
\<close>

section \<open>Parameters and entries\<close>

record notebook_params =
  nb_namespace :: string
  hours_ago :: int
  cache_logs :: bool
  cache_file :: string
  in_file :: "string option"
  nb_max_entries :: int

definition regeneration_params :: notebook_params where
  "regeneration_params = \<lparr>nb_namespace = ''regeneration'', hours_ago = 48, cache_logs = True,
     cache_file = ''../../cached-logs.json'', in_file = None, nb_max_entries = 1000\<rparr>"

definition bugspray_params :: notebook_params where
  "bugspray_params = \<lparr>nb_namespace = ''bugspray'', hours_ago = 1, cache_logs = False,
     cache_file = ''../../cached-logs.json'', in_file = Some ''../../cached-logs.json'', nb_max_entries = 150\<rparr>"

definition REBROADCAST_LOG_FILTER :: string where
  "REBROADCAST_LOG_FILTER = '' \"Rebroadcasting $state_hash\" AND jsonPayload.metadata.state_hash:\"\"''"

definition RECEIVED_BLOCK_LOG_FILTER :: string where
  "RECEIVED_BLOCK_LOG_FILTER = '' \"Received a block from $sender\" AND jsonPayload.metadata.state_hash:\"\"''"

definition BROADCAST_LOG_FILTER :: string where
  "BROADCAST_LOG_FILTER = '' \"Broadcasting new state over gossip net\" AND jsonPayload.metadata.state_hash:\"\"''"

definition fetch_entries :: "(int \<Rightarrow> string) \<Rightarrow> (string \<Rightarrow> json list) \<Rightarrow> notebook_params \<Rightarrow> string \<Rightarrow> json list result" where
  "fetch_entries earliest service ps log_filter =
     query_logs earliest service (nb_namespace ps) (hours_ago ps) log_filter (nb_max_entries ps)"

text \<open>A table and the number of entries that were reported as unusable\<close>

record collected =
  table :: log_table
  ejected :: nat

definition nothing_collected :: collected where
  "nothing_collected = \<lparr>table = [], ejected = 0\<rparr>"

definition keep_log :: "json \<Rightarrow> json \<Rightarrow> json \<Rightarrow> (collected, unit) eff" where
  "keep_log state_hash json_payload labels =
     eseq (elift (hashable state_hash))
    (ebind (elift (json_merge json_payload labels)) (\<lambda>merged.
     emodify (\<lambda>c. c\<lparr>table := dict_modify state_hash [] (\<lambda>l. l @ [merged]) (table c)\<rparr>)))"

text \<open>
  One entry of a loop: an entry without a hash or without labels is skipped by \<open>skip\<close>, the others are kept
  when their message has the text.
\<close>

definition collect_entry :: "(collected, unit) eff \<Rightarrow> string \<Rightarrow> json \<Rightarrow> (collected, unit) eff" where
  "collect_entry skip wanted entry =
     ebind (elift (json_index entry (- 1))) (\<lambda>json_payload.
     ebind (elift (json_index entry 1)) (\<lambda>labels.
     ebind (elift (json_item json_payload ''message'')) (\<lambda>message.
     ebind (elift (json_item json_payload ''metadata'')) (\<lambda>metadata.
     case json_item metadata ''state_hash'' of
       Inl (KeyError k) \<Rightarrow> skip
     | Inl e \<Rightarrow> eraise e
     | Inr state_hash \<Rightarrow>
         if labels = JNull then skip
         else ebind (elift (json_contains wanted message)) (\<lambda>b.
           if b then keep_log state_hash json_payload labels else eret ())))))"

text \<open>The cell of the rebroadcasts prints \<open>EJECTING\<close>; the others skip in silence.\<close>

definition eject :: "(collected, unit) eff" where
  "eject = emodify (\<lambda>c. c\<lparr>ejected := ejected c + 1\<rparr>)"

definition collect_rebroadcasts :: "json list \<Rightarrow> (collected, unit) eff" where
  "collect_rebroadcasts rebroadcast_logs = efor rebroadcast_logs (collect_entry eject ''Rebroadcasting'')"

fun collect_broadcasts_from :: "int \<Rightarrow> int \<Rightarrow> json list \<Rightarrow> (collected, unit) eff" where
  "collect_broadcasts_from max_entries nBlocks [] = eret ()"
| "collect_broadcasts_from max_entries nBlocks (entry # rest) =
     (if nBlocks + 1 = max_entries then eret ()
      else eseq (collect_entry (eret ()) ''Broadcasting new state'' entry) (collect_broadcasts_from max_entries (nBlocks + 1) rest))"

definition collect_broadcasts :: "notebook_params \<Rightarrow> json list \<Rightarrow> (collected, unit) eff" where
  "collect_broadcasts ps broadcast_logs = collect_broadcasts_from (nb_max_entries ps) 0 broadcast_logs"

definition collect_receipts :: "json list \<Rightarrow> (collected, unit) eff" where
  "collect_receipts received_logs = efor received_logs (collect_entry (eret ()) ''Received'')"

section \<open>The graph of a block\<close>

text \<open>A call on the graph: a node with its attributes, an edge with its weight and, for some, a colour\<close>

datatype figure_call =
    Figure_Node json string json
  | Figure_Edge json json rat "string option"

definition adds_call :: "figure_call \<Rightarrow> (figure_call list, unit) eff" where
  "adds_call c = emodify (\<lambda>cs. cs @ [c])"

text \<open>The makers of the block; the last one is the origin.\<close>

definition maker :: "json \<Rightarrow> (json \<times> json) result" where
  "maker entry =
     rbind (json_item entry ''message'') (\<lambda>message.
     rbind (json_item entry ''metadata'') (\<lambda>metadata.
     rbind (json_item metadata ''state_hash'') (\<lambda>state_hash.
     rbind (json_item metadata ''peer_id'') (\<lambda>peer_id.
     rbind (node_label entry) (\<lambda>label. Inr (peer_id, label))))))"

fun draw_makers :: "json \<Rightarrow> json list \<Rightarrow> (figure_call list, json) eff" where
  "draw_makers root_node [] = eret root_node"
| "draw_makers root_node (entry # entries) =
     ebind (elift (maker entry)) (\<lambda>(peer_id, label).
     eseq (adds_call (Figure_Node peer_id ''orange'' label)) (draw_makers peer_id entries))"

text \<open>\<open>peer_id[-8:]\<close>\<close>

fun json_last8 :: "json \<Rightarrow> json result" where
  "json_last8 (JStr s) = Inr (JStr (drop (length s - 8) s))"
| "json_last8 (JList xs) = Inr (JList (drop (length xs - 8) xs))"
| "json_last8 _ = Inl TypeError"

definition unlogged_edge ::
    "(figure_call list \<Rightarrow> json \<Rightarrow> bool) \<Rightarrow> json \<Rightarrow> json \<Rightarrow> json \<Rightarrow> json \<Rightarrow> (figure_call list, unit) eff" where
  "unlogged_edge in_graph root_node receive_log sender receiver =
     eseq (ebind (eget (\<lambda>cs. in_graph cs sender)) (\<lambda>known.
             if known then eret ()
             else ebind (elift (json_last8 sender)) (\<lambda>label.
                  eseq (adds_call (Figure_Node sender ''white'' label)) (adds_call (Figure_Edge root_node sender 1 (Some ''orange''))))))
    (eseq (ebind (eget (\<lambda>cs. in_graph cs receiver)) (\<lambda>known.
             if known then eret ()
             else ebind (elift (node_label receive_log)) (\<lambda>label. adds_call (Figure_Node receiver ''gray'' label))))
          (adds_call (Figure_Edge sender receiver 1 None)))"

definition timed_edge ::
    "(json \<Rightarrow> int result) \<Rightarrow> json \<Rightarrow> json \<Rightarrow> json \<Rightarrow> json \<Rightarrow> (figure_call list, unit) eff" where
  "timed_edge isoparse send_log receive_log sender receiver =
     ebind (elift (json_item send_log ''timestamp'')) (\<lambda>send_time.
     ebind (elift (isoparse send_time)) (\<lambda>send_datetime.
     ebind (elift (rbind (json_item receive_log ''timestamp'') isoparse)) (\<lambda>receive_datetime.
     ebind (elift (node_label receive_log)) (\<lambda>label.
     eseq (adds_call (Figure_Node receiver ''#D3D3D3'' label))
          (adds_call (Figure_Edge sender receiver (edge_weight (receive_datetime - send_datetime)) None))))))"

definition draw_receipt ::
    "(figure_call list \<Rightarrow> json \<Rightarrow> bool) \<Rightarrow> (json \<Rightarrow> int result) \<Rightarrow> json list \<Rightarrow> json list \<Rightarrow> json \<Rightarrow> json \<Rightarrow>
     (figure_call list, unit) eff" where
  "draw_receipt in_graph isoparse broadcasts rebroadcasts root_node receive_log =
     eseq (elift (json_item receive_log ''message''))
    (ebind (elift (json_item receive_log ''metadata'')) (\<lambda>metadata.
     eseq (elift (json_item metadata ''state_hash''))
    (ebind (elift (json_path metadata [''sender'', ''Remote''])) (\<lambda>sender.
     eseq (elift (json_item metadata ''host''))
    (ebind (elift (json_item metadata ''peer_id'')) (\<lambda>receiver_id.
     ebind (elift (json_item sender ''peer_id'')) (\<lambda>sender_id.
     ebind (elift (retrieve_log broadcasts ''peer_id'' sender_id)) (\<lambda>broadcast_log.
     ebind (elift (retrieve_log rebroadcasts ''peer_id'' sender_id)) (\<lambda>rebroadcast_log.
     case (broadcast_log, rebroadcast_log) of
       (Some l, _) \<Rightarrow> timed_edge isoparse l receive_log sender_id receiver_id
     | (None, Some l) \<Rightarrow> timed_edge isoparse l receive_log sender_id receiver_id
     | (None, None) \<Rightarrow> unlogged_edge in_graph root_node receive_log sender_id receiver_id))))))))) "

section \<open>The figures\<close>

record tables =
  broadcasts :: log_table
  rebroadcasts :: log_table
  receipts :: log_table

record figure =
  block_key :: json
  height :: json
  figure_calls :: "figure_call list"

text \<open>The blockchain length in the first broadcast of the block\<close>

definition figure_height :: "json list \<Rightarrow> json result" where
  "figure_height entries =
     rbind (py_get entries 0) (\<lambda>entry.
     rbind (json_path entry [''metadata'', ''message'']) (\<lambda>message.
     rbind (json_index message 1) (\<lambda>second.
     json_path second [''protocol_state'', ''body'', ''consensus_state'', ''blockchain_length''])))"

text \<open>One round of the loop; without a broadcast or a receipt it makes no figure.\<close>

definition block_figure ::
    "(figure_call list \<Rightarrow> json \<Rightarrow> bool) \<Rightarrow> (json \<Rightarrow> int result) \<Rightarrow> tables \<Rightarrow> json \<Rightarrow> figure option result" where
  "block_figure in_graph isoparse ts key =
     (case map_of (broadcasts ts) key of
        None \<Rightarrow> Inr None
      | Some makers \<Rightarrow>
          (case draw_makers JNull makers [] of
             (Inl e, cs) \<Rightarrow> Inl e
           | (Inr root_node, cs) \<Rightarrow>
               (case map_of (receipts ts) key of
                  None \<Rightarrow> Inr None
                | Some received \<Rightarrow>
                    (case efor received (draw_receipt in_graph isoparse makers (dict_get (rebroadcasts ts) key []) root_node) cs of
                       (Inl e, calls) \<Rightarrow> Inl e
                     | (Inr u, calls) \<Rightarrow> rbind (figure_height makers) (\<lambda>h.
                         rbind (json_take 8 key) (\<lambda>title.
                         Inr (Some \<lparr>block_key = key, height = h, figure_calls = calls\<rparr>)))))))"

fun figures_from ::
    "(figure_call list \<Rightarrow> json \<Rightarrow> bool) \<Rightarrow> (json \<Rightarrow> int result) \<Rightarrow> tables \<Rightarrow> nat \<Rightarrow> json list \<Rightarrow> figure list result" where
  "figures_from in_graph isoparse ts nFigs [] = Inr []"
| "figures_from in_graph isoparse ts nFigs (key # keys) =
     rbind (block_figure in_graph isoparse ts key) (\<lambda>made.
     case made of
       None \<Rightarrow> figures_from in_graph isoparse ts nFigs keys
     | Some fig \<Rightarrow>
         if nFigs + 1 = 30 then Inr [fig]
         else rbind (figures_from in_graph isoparse ts (nFigs + 1) keys) (\<lambda>figs. Inr (fig # figs)))"

definition network_figures ::
    "(figure_call list \<Rightarrow> json \<Rightarrow> bool) \<Rightarrow> (json \<Rightarrow> int result) \<Rightarrow> tables \<Rightarrow> figure list result" where
  "network_figures in_graph isoparse ts = figures_from in_graph isoparse ts 0 (dict_keys (rebroadcasts ts))"

text \<open>The cells from the fetches to the figures\<close>

definition notebook ::
    "(figure_call list \<Rightarrow> json \<Rightarrow> bool) \<Rightarrow> (json \<Rightarrow> int result) \<Rightarrow> (int \<Rightarrow> string) \<Rightarrow> (string \<Rightarrow> json list) \<Rightarrow> notebook_params \<Rightarrow>
     figure list result" where
  "notebook in_graph isoparse earliest service ps =
     rbind (fetch_entries earliest service ps REBROADCAST_LOG_FILTER) (\<lambda>rebroadcast_logs.
     rbind (fetch_entries earliest service ps RECEIVED_BLOCK_LOG_FILTER) (\<lambda>received_logs.
     rbind (fetch_entries earliest service ps BROADCAST_LOG_FILTER) (\<lambda>broadcast_logs.
     case collect_rebroadcasts rebroadcast_logs nothing_collected of
       (Inl e, c) \<Rightarrow> Inl e
     | (Inr u, re) \<Rightarrow>
         (case collect_broadcasts ps broadcast_logs nothing_collected of
            (Inl e, c) \<Rightarrow> Inl e
          | (Inr u, br) \<Rightarrow>
              (case collect_receipts received_logs nothing_collected of
                 (Inl e, c) \<Rightarrow> Inl e
               | (Inr u, rc) \<Rightarrow> network_figures in_graph isoparse \<lparr>broadcasts = table br, rebroadcasts = table re, receipts = table rc\<rparr>)))))"

section \<open>What the figures hold\<close>

text \<open>
  Who sent the block to whom in a receipt; the log the sender made of it, the broadcasts before the
  rebroadcasts; and the edges that are drawn for a receipt. With a log of the sender there is one edge, with the
  milliseconds between the two time stamps, without the whole seconds. Without one there is an edge of weight 1 from
  the sender to the receiver, and there may be an orange one from the origin to the sender.
\<close>

definition gossip :: "json \<Rightarrow> json \<Rightarrow> json \<Rightarrow> bool" where
  "gossip receipt sender receiver \<longleftrightarrow>
     json_path receipt [''metadata'', ''sender'', ''Remote'', ''peer_id''] = Inr sender \<and>
     json_path receipt [''metadata'', ''peer_id''] = Inr receiver"

definition send_log :: "json list \<Rightarrow> json \<Rightarrow> json option" where
  "send_log logs sender = find (\<lambda>l. json_path l [''metadata'', ''peer_id''] = Inr sender) logs"

definition edge_for ::
    "(json \<Rightarrow> int result) \<Rightarrow> json list \<Rightarrow> json \<Rightarrow> json \<Rightarrow> json \<Rightarrow> json \<Rightarrow> rat \<Rightarrow> string option \<Rightarrow> bool" where
  "edge_for isoparse logs origin receipt u v w c \<longleftrightarrow>
     (\<exists>sender receiver. gossip receipt sender receiver \<and>
        (case send_log logs sender of
           Some l \<Rightarrow> c = None \<and> u = sender \<and> v = receiver \<and>
             (\<exists>t0 t1. rbind (json_item l ''timestamp'') isoparse = Inr t0 \<and>
                rbind (json_item receipt ''timestamp'') isoparse = Inr t1 \<and>
                w = of_int ((t1 - t0) mod 1000000) / 1000)
         | None \<Rightarrow> w = 1 \<and> (c = None \<and> u = sender \<and> v = receiver \<or> c = Some ''orange'' \<and> u = origin \<and> v = sender)))"

lemma retrieve_find: "retrieve_log logs ''peer_id'' v = Inr found \<Longrightarrow> found = send_log logs v"
  by (induction logs) (auto simp: send_log_def rbind_eq_Inr split: if_splits)

lemma send_log_append:
  "send_log (xs @ ys) v = (case send_log xs v of Some l \<Rightarrow> Some l | None \<Rightarrow> send_log ys v)"
  by (induction xs) (auto simp: send_log_def)

text \<open>A receipt that is drawn: its edges, one of them from its sender to its receiver without colour\<close>

definition receipt_drawn ::
    "(json \<Rightarrow> int result) \<Rightarrow> json list \<Rightarrow> json \<Rightarrow> json \<Rightarrow> figure_call list \<Rightarrow> bool" where
  "receipt_drawn isoparse logs origin receipt calls \<longleftrightarrow>
     (\<forall>u v w c. Figure_Edge u v w c \<in> set calls \<longrightarrow> edge_for isoparse logs origin receipt u v w c) \<and>
     (\<exists>u v w. Figure_Edge u v w None \<in> set calls \<and> gossip receipt u v)"

lemma timed_edge_run:
  assumes "timed_edge isoparse l receipt sender receiver cs = (Inr (), cs')"
  shows "\<exists>label t0 t1. rbind (json_item l ''timestamp'') isoparse = Inr t0 \<and>
    rbind (json_item receipt ''timestamp'') isoparse = Inr t1 \<and>
    cs' = cs @ [Figure_Node receiver ''#D3D3D3'' label, Figure_Edge sender receiver (edge_weight (t1 - t0)) None]"
  using assms by (auto simp: timed_edge_def run_iffs adds_call_def rbind_eq_Inr)

lemma unlogged_edge_run:
  assumes "unlogged_edge in_graph origin receipt sender receiver cs = (Inr (), cs')"
  shows "\<exists>calls. cs' = cs @ calls \<and> Figure_Edge sender receiver 1 None \<in> set calls \<and>
    (\<forall>u v w c. Figure_Edge u v w c \<in> set calls \<longrightarrow>
       w = 1 \<and> (c = None \<and> u = sender \<and> v = receiver \<or> c = Some ''orange'' \<and> u = origin \<and> v = sender))"
  using assms by (auto simp: unlogged_edge_def run_iffs adds_call_def split: if_splits)

lemma draw_receipt_run:
  assumes "draw_receipt in_graph isoparse makers again origin receipt cs = (Inr (), cs')"
  shows "\<exists>calls. cs' = cs @ calls \<and> receipt_drawn isoparse (makers @ again) origin receipt calls"
proof -
  from assms obtain metadata remote sender receiver b r where
    m: "json_item receipt ''metadata'' = Inr metadata" "json_path metadata [''sender'', ''Remote''] = Inr remote"
      "json_item metadata ''peer_id'' = Inr receiver" "json_item remote ''peer_id'' = Inr sender"
    and logs: "retrieve_log makers ''peer_id'' sender = Inr b" "retrieve_log again ''peer_id'' sender = Inr r"
    and run: "(case (b, r) of
       (Some l, _) \<Rightarrow> timed_edge isoparse l receipt sender receiver
     | (None, Some l) \<Rightarrow> timed_edge isoparse l receipt sender receiver
     | (None, None) \<Rightarrow> unlogged_edge in_graph origin receipt sender receiver) cs = (Inr (), cs')"
    unfolding draw_receipt_def by (auto simp: run_iffs)
  have g: "gossip receipt sender receiver" using m by (simp add: gossip_def json_path_def)
  have s: "send_log (makers @ again) sender = (case b of Some l \<Rightarrow> Some l | None \<Rightarrow> r)"
    using retrieve_find [OF logs(1)] retrieve_find [OF logs(2)]
    by (auto simp: send_log_append split: option.split)
  show ?thesis
  proof (cases "send_log (makers @ again) sender")
    case None
    with run s have "unlogged_edge in_graph origin receipt sender receiver cs = (Inr (), cs')"
      by (simp split: option.splits)
    from unlogged_edge_run [OF this] obtain calls where c: "cs' = cs @ calls" "Figure_Edge sender receiver 1 None \<in> set calls"
      "\<forall>u v w c. Figure_Edge u v w c \<in> set calls \<longrightarrow>
         w = 1 \<and> (c = None \<and> u = sender \<and> v = receiver \<or> c = Some ''orange'' \<and> u = origin \<and> v = sender)" by blast
    have "edge_for isoparse (makers @ again) origin receipt u v w e" if "Figure_Edge u v w e \<in> set calls" for u v w e
      unfolding edge_for_def using g None c(3) that by (intro exI [of _ sender] exI [of _ receiver]) simp
    with c(1,2) g show ?thesis unfolding receipt_drawn_def by blast
  next
    case (Some l)
    with run s have "timed_edge isoparse l receipt sender receiver cs = (Inr (), cs')"
      by (simp split: option.splits)
    from timed_edge_run [OF this] obtain label t0 t1 where
      t: "rbind (json_item l ''timestamp'') isoparse = Inr t0" "rbind (json_item receipt ''timestamp'') isoparse = Inr t1"
      and c: "cs' = cs @ [Figure_Node receiver ''#D3D3D3'' label, Figure_Edge sender receiver (edge_weight (t1 - t0)) None]"
      by blast
    have "edge_for isoparse (makers @ again) origin receipt sender receiver (edge_weight (t1 - t0)) None"
      unfolding edge_for_def edge_weight_def using g Some t
      by (intro exI [of _ sender] exI [of _ receiver]) (simp del: rbind_eq_Inr)
    with g c show ?thesis unfolding receipt_drawn_def by auto
  qed
qed

lemma draw_receipts_run:
  assumes "efor received (draw_receipt in_graph isoparse makers again origin) cs = (Inr (), cs')"
  shows "\<exists>calls. cs' = cs @ calls \<and>
    (\<forall>u v w c. Figure_Edge u v w c \<in> set calls \<longrightarrow>
       (\<exists>r\<in>set received. edge_for isoparse (makers @ again) origin r u v w c)) \<and>
    (\<forall>r\<in>set received. \<exists>u v w. Figure_Edge u v w None \<in> set calls \<and> gossip r u v)"
  using assms
proof (induction received arbitrary: cs)
  case (Cons r received)
  from Cons.prems obtain ds where d: "draw_receipt in_graph isoparse makers again origin r cs = (Inr (), ds)"
    and e: "efor received (draw_receipt in_graph isoparse makers again origin) ds = (Inr (), cs')"
    by (auto simp: run_iffs)
  from draw_receipt_run [OF d] obtain a where a: "ds = cs @ a" "receipt_drawn isoparse (makers @ again) origin r a" by blast
  from Cons.IH [OF e] obtain b where "cs' = ds @ b"
    "\<forall>u v w c. Figure_Edge u v w c \<in> set b \<longrightarrow> (\<exists>r\<in>set received. edge_for isoparse (makers @ again) origin r u v w c)"
    "\<forall>r\<in>set received. \<exists>u v w. Figure_Edge u v w None \<in> set b \<and> gossip r u v" by blast
  with a show ?case unfolding receipt_drawn_def by (intro exI [of _ "a @ b"]) (simp, blast)
qed simp

lemma draw_makers_nodes:
  "draw_makers root0 es cs = (Inr origin, cs') \<Longrightarrow>
     (\<exists>nodes. cs' = cs @ map (\<lambda>(p, l). Figure_Node p ''orange'' l) nodes \<and> map Inr nodes = map maker es
        \<and> origin = (if es = [] then root0 else fst (last nodes)))"
proof (induction es arbitrary: root0 cs)
  case Nil
  then show ?case by simp
next
  case (Cons e es)
  then obtain p l where m: "maker e = Inr (p, l)" by (auto simp: ebind_def split: sum.splits)
  with Cons.prems have "draw_makers p es (cs @ [Figure_Node p ''orange'' l]) = (Inr origin, cs')"
    by (simp add: ebind_def eseq_def adds_call_def)
  from Cons.IH [OF this] obtain nodes where "cs' = (cs @ [Figure_Node p ''orange'' l]) @ map (\<lambda>(p, l). Figure_Node p ''orange'' l) nodes"
    "map Inr nodes = map maker es" "origin = (if es = [] then p else fst (last nodes))" by blast
  with m show ?case by (intro exI [of _ "(p, l) # nodes"]) auto
qed

text \<open>What one round of the loop gives.\<close>

definition figure_ok :: "(json \<Rightarrow> int result) \<Rightarrow> tables \<Rightarrow> figure \<Rightarrow> bool" where
  "figure_ok isoparse ts fig \<longleftrightarrow>
     (\<exists>makers received origin label.
        map_of (broadcasts ts) (block_key fig) = Some makers \<and> map_of (receipts ts) (block_key fig) = Some received
        \<and> maker (last makers) = Inr (origin, label) \<and> Figure_Node origin ''orange'' label \<in> set (figure_calls fig)
        \<and> (\<forall>r\<in>set received. \<exists>u v w. Figure_Edge u v w None \<in> set (figure_calls fig) \<and> gossip r u v)
        \<and> (\<forall>u v w c. Figure_Edge u v w c \<in> set (figure_calls fig) \<longrightarrow> 0 \<le> w \<and> w < 1000 \<and>
             (\<exists>r\<in>set received. edge_for isoparse (makers @ dict_get (rebroadcasts ts) (block_key fig) []) origin r u v w c)))"

lemma edge_for_weight: "edge_for isoparse logs origin receipt u v w c \<Longrightarrow> 0 \<le> w \<and> w < 1000"
  using edge_weight_below_second by (auto simp: edge_for_def edge_weight_def [symmetric] split: option.splits)

lemma block_figure_ok:
  assumes "block_figure in_graph isoparse ts key = Inr (Some fig)"
  shows "block_key fig = key \<and> figure_ok isoparse ts fig"
proof -
  from assms obtain makers origin cs received calls h where
    b: "map_of (broadcasts ts) key = Some makers" and m: "draw_makers JNull makers [] = (Inr origin, cs)"
    and r: "map_of (receipts ts) key = Some received"
    and e: "efor received (draw_receipt in_graph isoparse makers (dict_get (rebroadcasts ts) key []) origin) cs = (Inr (), calls)"
    and h: "figure_height makers = Inr h" and fig: "fig = \<lparr>block_key = key, height = h, figure_calls = calls\<rparr>"
    unfolding block_figure_def by (auto simp: rbind_eq_Inr split: option.splits prod.splits sum.splits)
  from h have ne: "makers \<noteq> []" by (auto simp: figure_height_def py_get_def)
  from draw_makers_nodes [OF m] obtain nodes where nodes: "cs = map (\<lambda>(p, l). Figure_Node p ''orange'' l) nodes"
    "map Inr nodes = map maker makers" "origin = fst (last nodes)" using ne by auto
  have nn: "nodes \<noteq> []" using nodes(2) ne by auto
  have "maker (last makers) = Inr (last nodes)"
    using nodes(2) ne nn by (metis last_map)
  then have last: "maker (last makers) = Inr (origin, snd (last nodes))" using nodes(3) by simp
  from draw_receipts_run [OF e] obtain more_calls where c: "calls = cs @ more_calls"
    "\<forall>u v w c. Figure_Edge u v w c \<in> set more_calls \<longrightarrow>
       (\<exists>r\<in>set received. edge_for isoparse (makers @ dict_get (rebroadcasts ts) key []) origin r u v w c)"
    "\<forall>r\<in>set received. \<exists>u v w. Figure_Edge u v w None \<in> set more_calls \<and> gossip r u v" by blast
  have n: "Figure_Edge u v w e \<notin> set cs" for u v w e unfolding nodes(1) by auto
  have "Figure_Node origin ''orange'' (snd (last nodes)) \<in> set cs"
    using nn unfolding nodes(1,3) by (force simp: last_in_set)
  moreover have "\<forall>u v w e. Figure_Edge u v w e \<in> set calls \<longrightarrow> 0 \<le> w \<and> w < 1000 \<and>
       (\<exists>r\<in>set received. edge_for isoparse (makers @ dict_get (rebroadcasts ts) key []) origin r u v w e)"
    using c(1,2) n edge_for_weight by fastforce
  moreover have "\<forall>r\<in>set received. \<exists>u v w. Figure_Edge u v w None \<in> set calls \<and> gossip r u v"
    unfolding c(1) using c(3) by (metis Un_iff set_append)
  ultimately show ?thesis using b r last c(1) unfolding figure_ok_def fig by simp
qed

lemma figures_from_ok:
  "figures_from in_graph isoparse ts n keys = Inr figs \<Longrightarrow>
     subseq (map block_key figs) keys \<and> (\<forall>fig\<in>set figs. figure_ok isoparse ts fig) \<and> (n < 30 \<longrightarrow> n + length figs \<le> 30)"
proof (induction keys arbitrary: n figs)
  case Nil
  then show ?case by simp
next
  case (Cons key keys)
  from Cons.prems obtain made where made: "block_figure in_graph isoparse ts key = Inr made"
    by (auto simp: rbind_eq_Inr)
  show ?case
  proof (cases made)
    case None
    with Cons made show ?thesis by (auto intro: list_emb_Cons)
  next
    case (Some fig)
    with made have fig: "block_key fig = key" "figure_ok isoparse ts fig" using block_figure_ok by auto
    show ?thesis
    proof (cases "n + 1 = 30")
      case True
      with Cons.prems made Some fig show ?thesis by auto
    next
      case False
      with Cons.prems made Some obtain rest where rest: "figures_from in_graph isoparse ts (n + 1) keys = Inr rest" "figs = fig # rest"
        by (auto simp: rbind_eq_Inr)
      from Cons.IH [OF rest(1)] rest(2) fig False show ?thesis by auto
    qed
  qed
qed

text \<open>
  C37. The notebook makes at most 30 figures, for blocks in the order of their first
  rebroadcast. Each is of a block that was broadcast and received, and has an orange
  node for the maker in the last broadcast of the block. Every receipt of the block has an uncoloured edge
  from its sender to its receiver. Every edge belongs to a receipt and is of one of
  three kinds: when the sender logged a broadcast or a rebroadcast, the edge from sender
  to receiver weighted with the milliseconds between the two time stamps without the whole seconds;
  when it logged neither, an uncoloured edge of weight 1 from sender to receiver or an
  orange one of weight 1 from the maker to the sender. All weights are at least 0 and less than 1000.
\<close>

theorem notebook_figures:
  assumes "network_figures in_graph isoparse ts = Inr figs"
  shows "length figs \<le> 30 \<and> subseq (map block_key figs) (dict_keys (rebroadcasts ts)) \<and>
    (\<forall>fig\<in>set figs. \<exists>makers received origin label.
        map_of (broadcasts ts) (block_key fig) = Some makers \<and> map_of (receipts ts) (block_key fig) = Some received
      \<and> maker (last makers) = Inr (origin, label) \<and> Figure_Node origin ''orange'' label \<in> set (figure_calls fig)
      \<and> (\<forall>r\<in>set received. \<exists>u v w. Figure_Edge u v w None \<in> set (figure_calls fig) \<and> gossip r u v)
      \<and> (\<forall>u v w c. Figure_Edge u v w c \<in> set (figure_calls fig) \<longrightarrow> 0 \<le> w \<and> w < 1000 \<and>
           (\<exists>r\<in>set received. edge_for isoparse (makers @ dict_get (rebroadcasts ts) (block_key fig) []) origin r u v w c)))"
proof -
  from figures_from_ok [of in_graph isoparse ts 0 "dict_keys (rebroadcasts ts)" figs] assms
  have "length figs \<le> 30 \<and> subseq (map block_key figs) (dict_keys (rebroadcasts ts)) \<and>
    (\<forall>fig\<in>set figs. figure_ok isoparse ts fig)"
    by (simp add: network_figures_def del: set_map)
  then show ?thesis unfolding figure_ok_def .
qed

text \<open>A block made by A, received by B from A and by C from Z, which logged nothing.\<close>

definition sample_receipt :: "string \<Rightarrow> string \<Rightarrow> string \<Rightarrow> json" where
  "sample_receipt peer sender time =
     JDict [(''message'', JStr ''m''), (''timestamp'', JStr time), (''k8s-pod/app'', JStr ''whale-block-producer-1''),
       (''metadata'', JDict [(''state_hash'', JStr ''3Nhash''), (''peer_id'', JStr peer), (''host'', JStr ''h''),
         (''sender'', JDict [(''Remote'', JDict [(''peer_id'', JStr sender)])]),
         (''message'', JList [JNull, JDict [(''protocol_state'', JDict [(''body'', JDict [(''consensus_state'',
            JDict [(''blockchain_length'', JStr ''12'')])])])]])])]"

definition sample_tables :: tables where
  "sample_tables = \<lparr>broadcasts = [(JStr ''3Nhash'', [sample_receipt ''A'' ''A'' ''early''])], rebroadcasts = [(JStr ''3Nhash'', [])],
     receipts = [(JStr ''3Nhash'', [sample_receipt ''B'' ''A'' ''late'', sample_receipt ''C'' ''Z'' ''late''])]\<rparr>"

definition sample_in_graph :: "figure_call list \<Rightarrow> json \<Rightarrow> bool" where
  "sample_in_graph calls n =
     list_ex (\<lambda>c. case c of Figure_Node m colour l \<Rightarrow> m = n | Figure_Edge u v w c \<Rightarrow> u = n \<or> v = n) calls"

lemma sample_figures:
  "network_figures sample_in_graph demo_isoparse sample_tables =
     Inr [\<lparr>block_key = JStr ''3Nhash'', height = JStr ''12'', figure_calls =
       [Figure_Node (JStr ''A'') ''orange'' (JStr ''whale-1''),
        Figure_Node (JStr ''B'') ''#D3D3D3'' (JStr ''whale-1''), Figure_Edge (JStr ''A'') (JStr ''B'') 500 None,
        Figure_Node (JStr ''Z'') ''white'' (JStr ''Z''), Figure_Edge (JStr ''A'') (JStr ''Z'') 1 (Some ''orange''),
        Figure_Node (JStr ''C'') ''gray'' (JStr ''whale-1''), Figure_Edge (JStr ''Z'') (JStr ''C'') 1 None]\<rparr>]"
  by code_simp

theorem notebook_figures_witness:
  "\<exists>figs. network_figures sample_in_graph demo_isoparse sample_tables = Inr figs \<and> length figs = 1 \<and> length figs \<le> 30"
  using notebook_figures [OF sample_figures] sample_figures by simp

end
