(* ===== verification/ReportOutput.thy ===== *)
theory ReportOutput
  imports NetworkReport Py_Json
begin

text \<open>
  What \<open>automation/services/watchdog/make_report.py\<close> makes of a report: the picture of the
  summarized block tree, the JSON report with its warnings, and the message with its attachments;
  and how the script chooses its namespace. graphviz is outside: a picture is the list of the calls on the
  graph. \<open>py_num\<close> is the text of a fraction, \<open>dumps\<close> is \<open>json.dumps(_, indent=2)\<close>.
\<close>

section \<open>The start of the script\<close>

text \<open>\<open>type=bool\<close>: every text but the empty one is true\<close>

definition bool_option :: "string option \<Rightarrow> bool" where
  "bool_option arg = (case arg of None \<Rightarrow> False | Some t \<Rightarrow> t \<noteq> [])"

text \<open>The namespace: the argument, or inside the cluster the content of a file.\<close>

definition report_namespace :: "bool \<Rightarrow> string option \<Rightarrow> string \<Rightarrow> string option result" where
  "report_namespace incluster ns_arg mounted =
     (if incluster then (if ns_arg = Some [] then Inr (Some mounted) else Inl AssertionError) else Inr ns_arg)"

text \<open>\<open>None\<close> has no \<open>startswith\<close>; the result says whether \<open>main\<close> goes on.\<close>

definition goes_on :: "string option \<Rightarrow> bool result" where
  "goes_on ns = (case ns of None \<Rightarrow> Inl AttributeError | Some n \<Rightarrow> Inr (\<not> startswith n ''integration-test-''))"

definition webhook_url :: "string option \<Rightarrow> string option" where
  "webhook_url arg = map_option py_strip arg"

definition multiaddr_of_peer :: "string \<Rightarrow> string \<Rightarrow> string \<Rightarrow> string" where
  "multiaddr_of_peer host libp2p_port peer_id = ''/ip4/'' @ host @ ''/tcp/'' @ libp2p_port @ ''/p2p/'' @ peer_id"

section \<open>The picture of the block tree\<close>

datatype tree_draw =
    TAttr "(string \<times> string) list"
  | TNode string string
  | TEdge string string

definition block_label :: "string \<Rightarrow> nat \<Rightarrow> string" where
  "block_label b n = ''block '' @ drop (length b - 6) b @ ''\<newline>'' @ str_nat n @ '' nodes''"

definition middle :: "string \<Rightarrow> string" where
  "middle b = b @ ''_intermediate''"

definition draw_branch :: "string \<times> summary_node \<Rightarrow> tree_draw list" where
  "draw_branch bn =
     (case bn of (b, n) \<Rightarrow>
       if sum_children n = [] then []
       else if 0 < intermediate_nodes n then
         [TNode (middle b) (str_nat (intermediate_nodes n) @ '' in common blocks''), TEdge b (middle b)] @
         map (TEdge (middle b)) (sum_children n)
       else map (TEdge b) (sum_children n))"

definition make_block_tree_graph :: "(string, summary_node) dict \<Rightarrow> tree_draw list" where
  "make_block_tree_graph tree =
     [TAttr [(''shape'', ''circle'')]] @ map (\<lambda>(b, n). TNode b (block_label b (sum_peers n))) tree @
     [TAttr [(''shape'', ''rectangle''), (''style'', ''filled''), (''color'', ''lightgrey'')]] @
     concat (map draw_branch tree)"

section \<open>The JSON report\<close>

datatype report_value = Count int | Share rat | Flag bool | Words string

definition lengths_report :: "report_state \<Rightarrow> (string, report_value) dict" where
  "lengths_report s =
     [(''node_status_handshake_errors'', Count (int (length (node_status_handshake_errors s)))),
      (''node_status_heartbeat_errors'', Count (int (length (node_status_heartbeat_errors s)))),
      (''node_status_transport_stopped_errors'', Count (int (length (node_status_transport_stopped_errors s)))),
      (''node_status_libp2p_errors'', Count (int (length (node_status_libp2p_errors s)))),
      (''node_status_other_errors'', Count (int (length (node_status_other_errors s)))),
      (''uptime_less_than_10_min'', Count (int (length (uptime_less_than_10_min s)))),
      (''uptime_less_than_30_min'', Count (int (length (uptime_less_than_30_min s)))),
      (''uptime_less_than_1_hour'', Count (int (length (uptime_less_than_1_hour s)))),
      (''uptime_less_than_6_hour'', Count (int (length (uptime_less_than_6_hour s)))),
      (''uptime_less_than_12_hour'', Count (int (length (uptime_less_than_12_hour s)))),
      (''uptime_less_than_24_hour'', Count (int (length (uptime_less_than_24_hour s)))),
      (''uptime_greater_than_24_hour'', Count (int (length (uptime_greater_than_24_hour s))))]"

text \<open>The entries of \<open>copy\<close>, in its order\<close>

definition copied :: "string \<Rightarrow> report \<Rightarrow> (string, report_value) dict" where
  "copied ns rep =
     [(''namespace'', Words ns), (''queried_nodes'', Count (int (rp_queried_nodes rep))),
      (''responding_nodes'', Count (int (rp_responding_nodes rep))), (''epoch'', Count (ss_epoch (rp_seed rep))),
      (''epoch_slot'', Count (ss_slot (rp_seed rep))), (''global_slot'', Count (ss_global_slot (rp_seed rep))),
      (''blocks'', Count (ss_blocks (rp_seed rep))), (''block_fill_rate'', Share (rp_block_fill_rate rep)),
      (''has_forks'', Flag (rp_has_forks rep)), (''has_participants'', Flag (rp_has_participants rep))] @
     lengths_report (rp_counts rep)"

definition format_responses_in_window :: "(nat, 'a set) dict \<Rightarrow> string" where
  "format_responses_in_window by_window =
     py_join '' | '' (map (\<lambda>(p, s). str_nat p @ '' hours: '' @ str_nat (card s)) by_window)"

definition percentiles_text :: "(rat \<Rightarrow> string) \<Rightarrow> (nat \<times> rat) list \<Rightarrow> string" where
  "percentiles_text py_num ps = py_join '' | '' (map (\<lambda>(p, v). str_nat p @ ''%: '' @ py_num v) ps)"

definition warned :: "string \<Rightarrow> report_value" where
  "warned t = Words (t @ '' :warning:'')"

definition json_report :: "(rat \<Rightarrow> string) \<Rightarrow> string \<Rightarrow> rat \<Rightarrow> report \<Rightarrow> (string, report_value) dict" where
  "json_report py_num ns now rep =
     (let base = copied ns rep @
        [(''participants_online'', Count (int (length (rp_participants_online rep)))),
         (''participants_offline'', Count (int (length (rp_participants_offline rep)))),
         (''number_of_peer_percentiles'', Words (percentiles_text py_num (rp_percentiles rep))),
         (''oldest_responses_report'', Words (py_num ((now - rp_oldest rep) / 3600) @ '' hours old'')),
         (''unique_responding_peers_in_window'', Words (format_responses_in_window (rp_peers_by_window rep))),
         (''unique_responding_ips_in_window'', Words (format_responses_in_window (rp_ips_by_window rep))),
         (''unique_responding_discords_in_window'', Words (format_responses_in_window (rp_discords_by_window rep)))];
       forked = (if rp_has_forks rep then AList.update ''has_forks'' (warned ''True'') base else base)
      in if rp_block_fill_rate rep < 65 / 100
         then AList.update ''block_fill_rate'' (warned (py_num (rp_block_fill_rate rep))) forked else forked)"

section \<open>The message\<close>

record discord_post =
  content :: string
  attachments :: "(string \<times> string) list"

definition strings_text :: "string list \<Rightarrow> string" where
  "strings_text xs = json_repr (JList (map JStr xs))"

definition report_post ::
    "((string, report_value) dict \<Rightarrow> string) \<Rightarrow> (rat \<Rightarrow> string) \<Rightarrow> string \<Rightarrow> rat \<Rightarrow> string option \<Rightarrow> string \<Rightarrow> string \<Rightarrow> report \<Rightarrow> discord_post list" where
  "report_post dumps py_num ns now url picture peer_table_str rep =
     (if webhook_set url then
        [\<lparr>content = discord_message (dumps (json_report py_num ns now rep)),
          attachments =
            [(''block_tree.gv.png'', picture),
             (''particpants_online.txt'', strings_text (rp_participants_online rep)),
             (''participants_offline.txt'', strings_text (rp_participants_offline rep)),
             (''online_discord_counts.txt'', json_repr (JDict (map (\<lambda>(d, n). (d, JInt (int n))) (rp_online_counts rep)))),
             (''peer_table.txt'', peer_table_str)]\<rparr>]
      else [])"

section \<open>What the picture shows\<close>

definition node_names :: "tree_draw list \<Rightarrow> string set" where
  "node_names ds = {n. \<exists>l. TNode n l \<in> set ds}"

text \<open>Every child in the summary has an entry.\<close>

definition closed_summary :: "(string, summary_node) dict \<Rightarrow> bool" where
  "closed_summary tree \<longleftrightarrow> dict_wf tree \<and> (\<forall>(b, n)\<in>set tree. set (sum_children n) \<subseteq> set (dict_keys tree))"

definition branch_edge :: "string \<Rightarrow> summary_node \<Rightarrow> string \<Rightarrow> string \<Rightarrow> bool" where
  "branch_edge b n u v \<longleftrightarrow> sum_children n \<noteq> [] \<and>
     (if 0 < intermediate_nodes n then (u = b \<and> v = middle b) \<or> (u = middle b \<and> v \<in> set (sum_children n))
      else u = b \<and> v \<in> set (sum_children n))"

lemma drawn_edges: "TEdge u v \<in> set (make_block_tree_graph tree) \<longleftrightarrow> (\<exists>b n. (b, n) \<in> set tree \<and> branch_edge b n u v)"
proof -
  have step: "TEdge u v \<in> set (draw_branch (b, n)) \<longleftrightarrow> branch_edge b n u v" for b n
    by (auto simp: draw_branch_def branch_edge_def)
  have "TEdge u v \<in> set (make_block_tree_graph tree) \<longleftrightarrow> (\<exists>bn\<in>set tree. TEdge u v \<in> set (draw_branch bn))"
    by (auto simp: make_block_tree_graph_def)
  then show ?thesis by (metis step surj_pair)
qed

lemma drawn_nodes:
  "node_names (make_block_tree_graph tree) =
     set (dict_keys tree) \<union> {middle b | b n. (b, n) \<in> set tree \<and> sum_children n \<noteq> [] \<and> 0 < intermediate_nodes n}"
proof -
  have step: "TNode m l \<in> set (draw_branch bn) \<longleftrightarrow> sum_children (snd bn) \<noteq> [] \<and> 0 < intermediate_nodes (snd bn)
      \<and> m = middle (fst bn) \<and> l = str_nat (intermediate_nodes (snd bn)) @ '' in common blocks''" for bn m l
    by (cases bn) (auto simp: draw_branch_def)
  have "TNode m l \<in> set (make_block_tree_graph tree) \<longleftrightarrow>
      (\<exists>bn\<in>set tree. m = fst bn \<and> l = block_label (fst bn) (sum_peers (snd bn))) \<or> (\<exists>bn\<in>set tree. TNode m l \<in> set (draw_branch bn))" for m l
    by (force simp: make_block_tree_graph_def)
  then have "m \<in> node_names (make_block_tree_graph tree) \<longleftrightarrow>
      (\<exists>bn\<in>set tree. m = fst bn) \<or> (\<exists>bn\<in>set tree. sum_children (snd bn) \<noteq> [] \<and> 0 < intermediate_nodes (snd bn) \<and> m = middle (fst bn))" for m
    unfolding node_names_def step by blast
  then show ?thesis by (intro set_eqI) force
qed

text \<open>
  C25. The picture of a block tree whose children all have entries shows the tree: its nodes are
  the blocks and, for each block with children and common blocks below it, one box; its edges
  go between nodes that are drawn; and a child is reached from its block, directly or through
  the box, exactly when it is a child in the summary, provided the names of the boxes are not
  hashes of blocks.
\<close>

theorem block_tree_drawn:
  assumes "closed_summary tree" and "\<forall>b\<in>set (dict_keys tree). middle b \<notin> set (dict_keys tree)"
  shows "(\<forall>u v. TEdge u v \<in> set (make_block_tree_graph tree) \<longrightarrow>
        u \<in> node_names (make_block_tree_graph tree) \<and> v \<in> node_names (make_block_tree_graph tree))
    \<and> (\<forall>(b, n)\<in>set tree. \<forall>c. c \<in> set (dict_keys tree) \<longrightarrow>
        ((TEdge b c \<in> set (make_block_tree_graph tree)
          \<or> TEdge b (middle b) \<in> set (make_block_tree_graph tree) \<and> TEdge (middle b) c \<in> set (make_block_tree_graph tree))
         \<longleftrightarrow> c \<in> set (sum_children n)))"
proof (intro conjI)
  show "\<forall>u v. TEdge u v \<in> set (make_block_tree_graph tree) \<longrightarrow>
        u \<in> node_names (make_block_tree_graph tree) \<and> v \<in> node_names (make_block_tree_graph tree)"
  proof (intro allI impI)
    fix u v
    assume "TEdge u v \<in> set (make_block_tree_graph tree)"
    then obtain b n where bn: "(b, n) \<in> set tree" "sum_children n \<noteq> []"
      and uv: "if 0 < intermediate_nodes n then (u = b \<and> v = middle b) \<or> (u = middle b \<and> v \<in> set (sum_children n))
         else u = b \<and> v \<in> set (sum_children n)"
      unfolding drawn_edges branch_edge_def by blast
    have keys: "b \<in> set (dict_keys tree)" "set (sum_children n) \<subseteq> set (dict_keys tree)"
      using assms(1) bn(1) by (force simp: closed_summary_def)+
    have "0 < intermediate_nodes n \<Longrightarrow> middle b \<in> {middle b | b n. (b, n) \<in> set tree \<and> sum_children n \<noteq> [] \<and> 0 < intermediate_nodes n}"
      using bn by blast
    with uv keys show "u \<in> node_names (make_block_tree_graph tree) \<and> v \<in> node_names (make_block_tree_graph tree)"
      unfolding drawn_nodes by (auto simp del: set_map split: if_splits)
  qed
next
  have same: "n = m" if "(b, n) \<in> set tree" "(b, m) \<in> set tree" for b n m
    using assms(1) that by (metis closed_summary_def map_of_is_SomeI option.inject)
  have inj: "b = c" if "middle b = middle c" for b c using that by (simp add: middle_def)
  have key: "b \<in> set (dict_keys tree)" if "(b, n) \<in> set tree" for b n using that by force
  show "\<forall>(b, n)\<in>set tree. \<forall>c. c \<in> set (dict_keys tree) \<longrightarrow>
        ((TEdge b c \<in> set (make_block_tree_graph tree)
          \<or> TEdge b (middle b) \<in> set (make_block_tree_graph tree) \<and> TEdge (middle b) c \<in> set (make_block_tree_graph tree))
         \<longleftrightarrow> c \<in> set (sum_children n))"
  proof (clarify del: iffI)
    fix b n c
    assume b: "(b, n) \<in> set tree" and c: "c \<in> set (dict_keys tree)"
    have direct: "TEdge b d \<in> set (make_block_tree_graph tree) \<longleftrightarrow>
        sum_children n \<noteq> [] \<and> (if 0 < intermediate_nodes n then d = middle b else d \<in> set (sum_children n))" for d
    proof -
      have ne: "b \<noteq> middle a" if "(a, m) \<in> set tree" for a m using assms(2) key [OF that] key [OF b] by blast
      have "TEdge b d \<in> set (make_block_tree_graph tree) \<longleftrightarrow> branch_edge b n b d"
        unfolding drawn_edges using b same ne by (metis branch_edge_def)
      then show ?thesis using ne [OF b] by (auto simp: branch_edge_def)
    qed
    have boxed: "TEdge (middle b) d \<in> set (make_block_tree_graph tree) \<longleftrightarrow>
        0 < intermediate_nodes n \<and> d \<in> set (sum_children n)" for d
    proof -
      have ne: "middle b \<noteq> a" if "(a, m) \<in> set tree" for a m using assms(2) key [OF that] key [OF b] by blast
      have "TEdge (middle b) d \<in> set (make_block_tree_graph tree) \<longleftrightarrow> branch_edge b n (middle b) d"
        unfolding drawn_edges using b same ne inj by (metis branch_edge_def)
      then show ?thesis using ne [OF b] by (auto simp: branch_edge_def)
    qed
    have "c \<noteq> middle b" using assms(2) key [OF b] c by blast
    moreover have "middle b \<notin> set (sum_children n)"
      using assms b key [OF b] by (fastforce simp: closed_summary_def)
    ultimately show "(TEdge b c \<in> set (make_block_tree_graph tree)
          \<or> TEdge b (middle b) \<in> set (make_block_tree_graph tree) \<and> TEdge (middle b) c \<in> set (make_block_tree_graph tree))
         \<longleftrightarrow> c \<in> set (sum_children n)"
      unfolding direct boxed by auto
  qed
qed

definition sample_summary :: "(string, summary_node) dict" where
  "sample_summary =
     [(''3Nroot'', \<lparr>sum_children = [''3Nleft'', ''3Nright''], sum_peers = 3, intermediate_nodes = 2\<rparr>),
      (''3Nleft'', \<lparr>sum_children = [], sum_peers = 2, intermediate_nodes = 0\<rparr>),
      (''3Nright'', \<lparr>sum_children = [], sum_peers = 1, intermediate_nodes = 0\<rparr>)]"

theorem block_tree_drawn_witness:
  "TEdge ''3Nroot'' (middle ''3Nroot'') \<in> set (make_block_tree_graph sample_summary)
   \<and> TEdge (middle ''3Nroot'') ''3Nleft'' \<in> set (make_block_tree_graph sample_summary)
   \<and> TEdge ''3Nroot'' ''3Nleft'' \<notin> set (make_block_tree_graph sample_summary)"
proof -
  have c: "closed_summary sample_summary" by (simp add: closed_summary_def sample_summary_def)
  have m: "\<forall>b\<in>set (dict_keys sample_summary). middle b \<notin> set (dict_keys sample_summary)"
    by (simp add: middle_def sample_summary_def)
  have no: "TEdge ''3Nroot'' ''3Nleft'' \<notin> set (make_block_tree_graph sample_summary)" by code_simp
  have mem: "(''3Nroot'', \<lparr>sum_children = [''3Nleft'', ''3Nright''], sum_peers = 3, intermediate_nodes = 2\<rparr>) \<in> set sample_summary"
    and key: "''3Nleft'' \<in> set (dict_keys sample_summary)" by (simp_all add: sample_summary_def)
  from block_tree_drawn [OF c m, THEN conjunct2, THEN bspec, OF mem, unfolded prod.case, rule_format, OF key] no
  show ?thesis by simp
qed

end
