(* ===== verification/Py_Regex.thy ===== *)
theory Py_Regex
  imports Py_Strings
begin

text \<open>
  Regular expressions of the module \<open>re\<close>, as far as the scripts use them: a backtracking matcher
  that gives all matches at a position in the order in which \<open>re\<close> tries them, and \<open>re.search\<close>
  for a pattern with one group at its end. Also \<open>str.split()\<close> without a separator.
\<close>

section \<open>Patterns\<close>

text \<open>A character of a class, a class repeated greedily, a sequence, a word boundary, a text.\<close>

datatype regex =
    Chr "char \<Rightarrow> bool"
  | Rep "char \<Rightarrow> bool" nat "nat option"
  | Seq regex regex
  | Bnd
  | Txt string

definition is_word_char :: "char \<Rightarrow> bool" where
  "is_word_char c = (let n = (of_char c :: nat) in
     is_digit c \<or> 65 \<le> n \<and> n \<le> 90 \<or> 97 \<le> n \<and> n \<le> 122 \<or> n = 95)"

text \<open>The character before the rest, after \<open>u\<close> was matched.\<close>

definition prev_char :: "char option \<Rightarrow> string \<Rightarrow> char option" where
  "prev_char prev u = (if u = [] then prev else Some (last u))"

definition word_at :: "char option \<Rightarrow> bool" where
  "word_at x = (case x of None \<Rightarrow> False | Some c \<Rightarrow> is_word_char c)"

fun rx :: "regex \<Rightarrow> char option \<Rightarrow> string \<Rightarrow> (string \<times> string) list" where
  "rx (Chr P) prev s = (case s of [] \<Rightarrow> [] | c # cs \<Rightarrow> if P c then [([c], cs)] else [])"
| "rx (Rep P lo hi) prev s =
     (let m = length (takeWhile P s); n = (case hi of None \<Rightarrow> m | Some h \<Rightarrow> min m h)
      in map (\<lambda>k. (take k s, drop k s)) (rev [lo..<Suc n]))"
| "rx (Seq a b) prev s =
     concat (map (\<lambda>(u, r). map (\<lambda>(v, r'). (u @ v, r')) (rx b (prev_char prev u) r)) (rx a prev s))"
| "rx Bnd prev s =
     (if word_at prev \<noteq> word_at (case s of [] \<Rightarrow> None | c # _ \<Rightarrow> Some c) then [([], s)] else [])"
| "rx (Txt t) prev s = (if prefix t s then [(t, drop (length t) s)] else [])"

text \<open>The text of the group of \<open>re.search(pre(group), s)\<close>: the first match at the first position.\<close>

definition groups_here :: "regex \<Rightarrow> regex \<Rightarrow> char option \<Rightarrow> string \<Rightarrow> string list" where
  "groups_here pre g prev s = concat (map (\<lambda>(u, r). map fst (rx g (prev_char prev u) r)) (rx pre prev s))"

fun search_from :: "regex \<Rightarrow> regex \<Rightarrow> char option \<Rightarrow> string \<Rightarrow> string option" where
  "search_from pre g prev s =
     (case groups_here pre g prev s of
        v # _ \<Rightarrow> Some v
      | [] \<Rightarrow> (case s of [] \<Rightarrow> None | c # cs \<Rightarrow> search_from pre g (Some c) cs))"

definition re_search :: "regex \<Rightarrow> regex \<Rightarrow> string \<Rightarrow> string option" where
  "re_search pre g s = search_from pre g None s"

section \<open>Words\<close>

fun split_words :: "(char \<Rightarrow> bool) \<Rightarrow> string \<Rightarrow> string \<Rightarrow> string list" where
  "split_words blank cur [] = (if cur = [] then [] else [cur])"
| "split_words blank cur (c # cs) =
     (if blank c then (if cur = [] then split_words blank [] cs else cur # split_words blank [] cs)
      else split_words blank (cur @ [c]) cs)"

text \<open>\<open>s.split()\<close>, and the same on the byte strings of Python 2, where only the ASCII blanks count\<close>

definition py_split :: "string \<Rightarrow> string list" where
  "py_split s = split_words is_space [] s"

definition is_ascii_space :: "char \<Rightarrow> bool" where
  "is_ascii_space c = (let n = (of_char c :: nat) in 9 \<le> n \<and> n \<le> 13 \<or> n = 32)"

definition py2_split :: "string \<Rightarrow> string list" where
  "py2_split s = split_words is_ascii_space [] s"

section \<open>What a match is\<close>

text \<open>The language of a pattern, without the boundaries.\<close>

fun rx_lang :: "regex \<Rightarrow> string \<Rightarrow> bool" where
  "rx_lang (Chr P) v \<longleftrightarrow> (\<exists>c. v = [c] \<and> P c)"
| "rx_lang (Rep P lo hi) v \<longleftrightarrow> (\<forall>c\<in>set v. P c) \<and> lo \<le> length v \<and> (case hi of None \<Rightarrow> True | Some h \<Rightarrow> length v \<le> h)"
| "rx_lang (Seq a b) v \<longleftrightarrow> (\<exists>u w. v = u @ w \<and> rx_lang a u \<and> rx_lang b w)"
| "rx_lang Bnd v \<longleftrightarrow> v = []"
| "rx_lang (Txt t) v \<longleftrightarrow> v = t"

lemma take_takeWhile_all: "k \<le> length (takeWhile P s) \<Longrightarrow> c \<in> set (take k s) \<Longrightarrow> P c"
  by (induction s arbitrary: k) (auto simp: take_Cons split: nat.splits if_splits)

lemma rx_sound: "(v, r) \<in> set (rx e prev s) \<Longrightarrow> s = v @ r \<and> rx_lang e v"
proof (induction e arbitrary: prev s v r)
  case (Rep P lo hi)
  define n where "n = (case hi of None \<Rightarrow> length (takeWhile P s) | Some h \<Rightarrow> min (length (takeWhile P s)) h)"
  from Rep obtain k where k: "lo \<le> k" "k \<le> n" "v = take k s" "r = drop k s"
    by (auto simp: Let_def n_def)
  moreover have "k \<le> length (takeWhile P s)" using k(2) by (auto simp: n_def split: option.splits)
  moreover have "length (takeWhile P s) \<le> length s" by (rule length_takeWhile_le)
  ultimately show ?case
    using take_takeWhile_all [of k P s] by (auto simp: n_def split: option.splits)
next
  case (Seq a b)
  then obtain u q w where "(u, q) \<in> set (rx a prev s)" "(w, r) \<in> set (rx b (prev_char prev u) q)" "v = u @ w"
    by auto
  with Seq.IH show ?case by (metis append_assoc rx_lang.simps(3))
qed (auto split: list.splits if_splits simp: prefix_def)

lemma re_search_sound:
  assumes "re_search pre g s = Some v"
  shows "rx_lang g v \<and> (\<exists>before u rest. s = before @ u @ v @ rest \<and> rx_lang pre u)"
proof -
  have "search_from pre g prev s = Some v \<Longrightarrow>
    rx_lang g v \<and> (\<exists>before u rest. s = before @ u @ v @ rest \<and> rx_lang pre u)" for prev
  proof (induction pre g prev s rule: search_from.induct)
    case (1 pre g prev s)
    show ?case
    proof (cases "groups_here pre g prev s")
      case Nil
      with "1.prems" obtain c cs where s: "s = c # cs" "search_from pre g (Some c) cs = Some v"
        by (subst (asm) search_from.simps) (auto split: list.splits)
      from "1.IH" [OF Nil s] show ?thesis using s(1) by (metis append_Cons)
    next
      case (Cons w ws)
      then have "v \<in> set (groups_here pre g prev s)" using "1.prems" by (subst (asm) search_from.simps) simp
      then obtain u r r' where "(u, r) \<in> set (rx pre prev s)" "(v, r') \<in> set (rx g (prev_char prev u) r)"
        by (auto simp: groups_here_def)
      then have "s = u @ v @ r'" "rx_lang pre u" "rx_lang g v" using rx_sound by blast+
      then show ?thesis by (metis append_Nil)
    qed
  qed
  with assms show ?thesis by (simp only: re_search_def)
qed

end
