(* ===== verification/TestnetHelpers.thy ===== *)
theory TestnetHelpers
  imports Py_Regex Py_Json Py_Effects
begin

text \<open>
  The helpers that connect to a running testnet: \<open>automation/scripts/testnet-validation/local_daemon.py\<close>
  (a daemon in a container) and \<open>helm_deploy.py\<close> (an archive node by helm).

  Outside are the cluster (pods and config maps), the programs run (\<open>popen\<close>: a command, split at
  blanks, to its output and its error text), yaml, docker and the random choice of pods. The
  processes are started without a pipe for their errors, so the error text is documented to be
  \<open>None\<close>; the branches that read it are modelled all the same. The state is the list of the
  commands run, the files written, and the containers started.
\<close>

record launch =
  image :: string
  launch_command :: string
  launch_port :: string
  volume :: string

record helper =
  ran :: "string list list"
  files :: "(string \<times> string) list"
  containers :: "launch list"
  said :: "string list"

type_synonym popen = "string list \<Rightarrow> string \<times> string option"

definition tell :: "string \<Rightarrow> (helper, unit) eff" where
  "tell line = emodify (\<lambda>s. s\<lparr>said := said s @ [line]\<rparr>)"

text \<open>\<open>subprocess.Popen(command.split(), stdout=PIPE)\<close> and \<open>communicate()\<close>\<close>

definition run_process :: "popen \<Rightarrow> string \<Rightarrow> (helper, string \<times> string option) eff" where
  "run_process popen command = eseq (emodify (\<lambda>s. s\<lparr>ran := ran s @ [py_split command]\<rparr>)) (eret (popen (py_split command)))"

text \<open>\<open>if error: print(error); sys.exit(1)\<close>\<close>

definition exit_on :: "string option \<Rightarrow> (helper, unit) eff" where
  "exit_on err = (case err of None \<Rightarrow> eret () | Some e \<Rightarrow> if e = [] then eret () else eseq (tell e) (eraise (SystemExit 1)))"

section \<open>The address of a peer\<close>

definition octet :: regex where
  "octet = Rep is_digit 1 (Some 3)"

definition dotted :: regex where
  "dotted = Seq octet (Txt ''.'')"

definition ip_group :: regex where
  "ip_group = Seq Bnd (Seq dotted (Seq dotted (Seq dotted (Seq octet Bnd))))"

definition after_label :: "string \<Rightarrow> regex" where
  "after_label label = Seq (Txt label) (Rep is_space 1 None)"

definition port_group :: regex where
  "port_group = Seq Bnd (Seq (Rep is_digit 1 None) Bnd)"

definition id_group :: regex where
  "id_group = Seq Bnd (Seq (Rep is_word_char 1 None) Bnd)"

text \<open>\<open>matches.groups()[0]\<close>; no match is \<open>None\<close>, which has no attribute \<open>groups\<close>.\<close>

definition group0 :: "string option \<Rightarrow> string result" where
  "group0 m = (case m of None \<Rightarrow> Inl AttributeError | Some v \<Rightarrow> Inr v)"

text \<open>The \<open>try\<close> block; only \<open>IndexError\<close> has a handler.\<close>

definition peer_address :: "string \<Rightarrow> (helper, string) eff" where
  "peer_address status =
     ecatch (elift
       (rbind (group0 (re_search (after_label ''External IP:'') ip_group status)) (\<lambda>ip_address.
        rbind (group0 (re_search (after_label ''Libp2p port:'') port_group status)) (\<lambda>gossip_port.
        rbind (group0 (re_search (after_label ''Libp2p PeerID:'') id_group status)) (\<lambda>peerid.
        Inr (''/ip4/'' @ ip_address @ ''/tcp/'' @ gossip_port @ ''/ipfs/'' @ peerid))))))
     (\<lambda>e. if e = IndexError
       then eseq (tell ''The 'mina client status' output can't be parsed... \<newline>\<newline>Something is Funky.'') (eraise (SystemExit 1))
       else eraise e)"

definition status_command :: "string \<Rightarrow> string \<Rightarrow> string" where
  "status_command namespace pod =
     ''kubectl exec --namespace='' @ namespace @ '' -c coda '' @ pod @ '' mina client status''"

section \<open>local\_daemon.py\<close>

text \<open>
  The loop over the pods. \<open>status_output\<close> is a local of the function: a pod without output leaves
  the text of the pod before, and the first pod leaves it unbound.
\<close>

fun local_peers :: "popen \<Rightarrow> string \<Rightarrow> string option \<Rightarrow> string list \<Rightarrow> (helper, string list) eff" where
  "local_peers popen namespace status_output [] = eret []"
| "local_peers popen namespace status_output (pod # pods) =
     ebind (run_process popen (status_command namespace pod)) (\<lambda>(out, err).
     eseq (exit_on err)
     (let status_output' = (if out \<noteq> [] then Some out else status_output) in
      case status_output' of
        None \<Rightarrow> eraise (NameError ''status_output'')
      | Some status \<Rightarrow> ebind (peer_address status) (\<lambda>addr.
          ebind (local_peers popen namespace status_output' pods) (\<lambda>addrs. eret (addr # addrs)))))"

text \<open>\<open>pods\<close> are the names of the pods after \<open>random.shuffle\<close>.\<close>

definition local_fetch_peers :: "popen \<Rightarrow> string \<Rightarrow> string list \<Rightarrow> (helper, string list) eff" where
  "local_fetch_peers popen namespace pods = local_peers popen namespace None (take 3 pods)"

type_synonym config_map = "string \<times> (string, string) dict"

definition put_file :: "string \<Rightarrow> string \<Rightarrow> (helper, unit) eff" where
  "put_file path content = emodify (\<lambda>s. s\<lparr>files := files s @ [(path, content)]\<rparr>)"

text \<open>
  \<open>fetch_daemon_json\<close>, the same in both files (\<open>absolute\<close> is \<open>Path.absolute\<close>). The file is opened, and
  so made, before the data are looked up.
\<close>

definition fetch_daemon_json :: "(string \<Rightarrow> string) \<Rightarrow> config_map list \<Rightarrow> string \<Rightarrow> (helper, unit) eff" where
  "fetch_daemon_json absolute configs working_directory =
     efor configs (\<lambda>(name, data).
       if name = ''seed-node-daemon-config''
       then let outpath = absolute (path_join working_directory ''daemon.json'') in
         eseq (put_file outpath [])
         (ebind (elift (case map_of data ''daemon.json'' of None \<Rightarrow> Inl (KeyError ''daemon.json'') | Some v \<Rightarrow> Inr v)) (\<lambda>v.
           eseq (put_file outpath v) (tell (''Wrote daemon.json to '' @ outpath))))
       else eret ())"

definition daemon_command :: "int \<Rightarrow> string \<Rightarrow> string \<Rightarrow> string \<Rightarrow> string" where
  "daemon_command gossip_port peer0 peer2 peer1 =
     ''\<newline>daemon   -external-port '' @ str_int gossip_port @
     ''   -generate-genesis-proof true   -config-dir /root/.mina-config   -config-file /tmp/daemon.json   -peer '' @ peer0 @
     ''   -peer '' @ peer2 @ ''   -peer '' @ peer1 @ ''\<newline>  ''"

definition run_docker :: "(string \<Rightarrow> string) \<Rightarrow> string \<Rightarrow> int \<Rightarrow> string \<Rightarrow> string list \<Rightarrow> (helper, unit) eff" where
  "run_docker absolute daemon_image gossip_port working_directory peers =
     ebind (elift (py_get peers 0)) (\<lambda>peer0. ebind (elift (py_get peers 2)) (\<lambda>peer2. ebind (elift (py_get peers 1)) (\<lambda>peer1.
     let command = daemon_command gossip_port peer0 peer2 peer1 in
     eseq (tell command)
     (emodify (\<lambda>s. s\<lparr>containers := containers s @ [\<lparr>image = daemon_image, launch_command = command,
        launch_port = str_int gossip_port @ ''/tcp'', volume = absolute working_directory\<rparr>]\<rparr>)))))"

definition chosen_directory :: "string \<Rightarrow> string \<Rightarrow> string" where
  "chosen_directory script_dir working_directory = (if working_directory = ''.'' then script_dir else working_directory)"

definition run_local ::
  "(string \<Rightarrow> string) \<Rightarrow> popen \<Rightarrow> string \<Rightarrow> string list \<Rightarrow> config_map list \<Rightarrow> string \<Rightarrow> int \<Rightarrow> string \<Rightarrow> string \<Rightarrow>
   (helper, unit) eff" where
  "run_local absolute popen script_dir pods configs namespace gossip_port docker_image working_directory =
     (let dir = chosen_directory script_dir working_directory in
      ebind (local_fetch_peers popen namespace pods) (\<lambda>addresses.
      eseq (fetch_daemon_json absolute configs dir) (run_docker absolute docker_image gossip_port dir addresses)))"

section \<open>helm\_deploy.py\<close>

definition helm_peer :: "popen \<Rightarrow> string \<Rightarrow> string \<Rightarrow> (helper, string) eff" where
  "helm_peer popen namespace pod =
     ebind (run_process popen (status_command namespace pod)) (\<lambda>(out, err).
     eseq (exit_on err)
     (if out \<noteq> [] then peer_address out else eraise (PyException ''No Status Output...'')))"

text \<open>\<open>sample\<close> is \<open>random.sample\<close>, which refuses a population that is too small.\<close>

definition helm_fetch_peers :: "popen \<Rightarrow> (string list \<Rightarrow> string list) \<Rightarrow> string \<Rightarrow> string list \<Rightarrow> (helper, string list) eff" where
  "helm_fetch_peers popen sample namespace pods =
     (let producers = filter (\<lambda>pod. str_in ''block-producer'' pod) pods in
      if length producers < 3 then eraise ValueError else emapM (helm_peer popen namespace) (sample producers))"

definition fetch_helm_values :: "popen \<Rightarrow> (string \<Rightarrow> json result) \<Rightarrow> string \<Rightarrow> string \<Rightarrow> (helper, json) eff" where
  "fetch_helm_values popen safe_load namespace release_name =
     (if release_name = [] then eraise (PyException ''Please pass a release name.'')
      else ebind (run_process popen (''helm get values --namespace '' @ namespace @ '' '' @ release_name)) (\<lambda>(out, err).
        eseq (exit_on err)
        (if out \<noteq> [] then elift (safe_load out)
         else eraise (PyException ''No values retrieved, something is wrong!''))))"

definition helm_install :: "popen \<Rightarrow> string \<Rightarrow> string \<Rightarrow> string \<Rightarrow> (helper, string) eff" where
  "helm_install popen overrides_file chart_path release_name =
     ebind (run_process popen (''helm install --values '' @ overrides_file @ '' '' @ release_name @ '' '' @ chart_path)) (\<lambda>(out, err).
     eseq (exit_on err)
     (if out \<noteq> [] then eret out else eraise (PyException ''No Command Output... Something is wrong.'')))"

text \<open>\<open>None\<close> as the release name is the empty string here; both are refused.\<close>

definition run_helm ::
  "(string \<Rightarrow> string) \<Rightarrow> popen \<Rightarrow> (string list \<Rightarrow> string list) \<Rightarrow> (string \<Rightarrow> json result) \<Rightarrow> (json \<Rightarrow> string) \<Rightarrow> string \<Rightarrow>
   string list \<Rightarrow> string \<Rightarrow> string \<Rightarrow> string \<Rightarrow> (helper, unit) eff" where
  "run_helm absolute popen sample safe_load dump script_dir pods namespace release_name working_directory =
     (let dir = chosen_directory script_dir working_directory in
      if release_name = [] then eraise (PyException ''Please enter a release name when invoking this script.'')
      else ebind (helm_fetch_peers popen sample namespace pods) (\<lambda>addresses.
       ebind (fetch_helm_values popen safe_load namespace release_name) (\<lambda>values.
       ebind (elift (json_path values [''coda'', ''runtimeConfig''])) (\<lambda>cfg.
       let overrides = JDict [(''coda'', JDict [(''runtimeConfig'', cfg), (''seedPeers'', JList (map JStr addresses))])];
           overrides_file = path_join dir ''overrides.yaml'' in
       eseq (put_file overrides_file (dump overrides))
       (ebind (helm_install popen (absolute overrides_file)
          ''/Users/connerswann/code/coda-automation/helm/archive-node'' ''test-archive'') (\<lambda>out. eret ()))))))"

section \<open>The outcome of the local helper\<close>

text \<open>The address in a status text, when all three parts are there.\<close>

definition address_of :: "string \<Rightarrow> string option" where
  "address_of status =
     (case (re_search (after_label ''External IP:'') ip_group status,
            re_search (after_label ''Libp2p port:'') port_group status,
            re_search (after_label ''Libp2p PeerID:'') id_group status) of
        (Some ip, Some port, Some peer) \<Rightarrow> Some (''/ip4/'' @ ip @ ''/tcp/'' @ port @ ''/ipfs/'' @ peer)
      | _ \<Rightarrow> None)"

lemma peer_address_outcome:
  "peer_address status s = (case address_of status of Some a \<Rightarrow> Inr a | None \<Rightarrow> Inl AttributeError, s)"
  by (auto simp: peer_address_def address_of_def ecatch_def group0_def split: option.splits)

text \<open>The text read at each pod: what the pod printed, and otherwise the text of the pod before.\<close>

fun texts_from :: "string \<Rightarrow> string list \<Rightarrow> string list" where
  "texts_from prev [] = []"
| "texts_from prev (out # outs) = (let cur = (if out = [] then prev else out) in cur # texts_from cur outs)"

lemma length_texts_from [simp]: "length (texts_from prev outs) = length outs"
  by (induction outs arbitrary: prev) (simp_all add: Let_def)

definition printed :: "popen \<Rightarrow> string \<Rightarrow> string \<Rightarrow> string" where
  "printed popen namespace pod = fst (popen (py_split (status_command namespace pod)))"

definition addresses_in :: "string list \<Rightarrow> string list result" where
  "addresses_in texts = (if None \<in> set (map address_of texts) then Inl AttributeError else Inr (map (the \<circ> address_of) texts))"

lemma addresses_in_Cons:
  "addresses_in (t # ts) =
     (case address_of t of None \<Rightarrow> Inl AttributeError | Some a \<Rightarrow> rbind (addresses_in ts) (\<lambda>xs. Inr (a # xs)))"
  by (auto simp: addresses_in_def split: option.splits)

lemma local_peers_step:
  assumes "\<forall>args. snd (popen args) = None"
  shows "local_peers popen ns prev (pod # pods) s =
     (let cur = (if printed popen ns pod \<noteq> [] then Some (printed popen ns pod) else prev);
          s' = s\<lparr>ran := ran s @ [py_split (status_command ns pod)]\<rparr> in
      case cur of None \<Rightarrow> (Inl (NameError ''status_output''), s')
      | Some status \<Rightarrow> (case address_of status of
          None \<Rightarrow> (Inl AttributeError, s')
        | Some a \<Rightarrow> ebind (local_peers popen ns cur pods) (\<lambda>xs. eret (a # xs)) s'))"
proof -
  obtain out where o: "popen (py_split (status_command ns pod)) = (out, None)"
    using assms by (metis prod.collapse)
  have r: "run_process popen (status_command ns pod) s = (Inr (out, None), s\<lparr>ran := ran s @ [py_split (status_command ns pod)]\<rparr>)"
    by (simp add: run_process_def eseq_def o)
  have p: "printed popen ns pod = out" by (simp add: printed_def o)
  show ?thesis
    by (simp add: ebind_run(1) [where m = "run_process popen (status_command ns pod)", OF r] p exit_on_def eseq_def Let_def
        ebind_def [of "peer_address _"] peer_address_outcome split: option.splits)
qed

lemma local_peers_outcome_from:
  assumes quiet: "\<forall>args. snd (popen args) = None"
  shows "fst (local_peers popen ns (Some prev) pods s) = addresses_in (texts_from prev (map (printed popen ns) pods))
       \<and> said (snd (local_peers popen ns (Some prev) pods s)) = said s"
proof (induction pods arbitrary: prev s)
  case Nil
  show ?case by (simp add: addresses_in_def)
next
  case (Cons pod pods)
  define cur where "cur = (if printed popen ns pod \<noteq> [] then printed popen ns pod else prev)"
  define s' where "s' = s\<lparr>ran := ran s @ [py_split (status_command ns pod)]\<rparr>"
  have step: "local_peers popen ns (Some prev) (pod # pods) s =
     (case address_of cur of None \<Rightarrow> (Inl AttributeError, s')
        | Some a \<Rightarrow> ebind (local_peers popen ns (Some cur) pods) (\<lambda>xs. eret (a # xs)) s')"
    unfolding local_peers_step [OF quiet] cur_def s'_def Let_def by simp
  have t: "texts_from prev (map (printed popen ns) (pod # pods)) = cur # texts_from cur (map (printed popen ns) pods)"
    by (simp add: cur_def Let_def)
  have said: "said s' = said s" by (simp add: s'_def)
  show ?case
  proof (cases "address_of cur")
    case None
    then show ?thesis unfolding step t by (simp add: addresses_in_Cons said)
  next
    case (Some a)
    obtain r u where run: "local_peers popen ns (Some cur) pods s' = (r, u)" by (cases "local_peers popen ns (Some cur) pods s'")
    with Cons.IH [of cur s'] have "r = addresses_in (texts_from cur (map (printed popen ns) pods))" "said u = said s'"
      by simp_all
    with Some run said show ?thesis unfolding step t
      by (auto simp: addresses_in_Cons ebind_def split: sum.splits)
  qed
qed

text \<open>
  C38. The local helper asks at most three pods, in the order of the shuffled list. When the processes
  print no error text (it is documented to be None), its outcome is exactly this: with no pods it is
  the empty list; when the first pod prints nothing, the name status_output is unbound; otherwise
  each pod stands for the text it printed, or for the text of the pod before it when it
  printed nothing (so an address is given twice), and either every text has an address, or the
  run ends with an AttributeError. The message for output that cannot be parsed is never
  printed and the exit code 1 of its handler never given.
\<close>

theorem local_peers_outcome:
  assumes "\<forall>args. snd (popen args) = None"
  shows "fst (local_fetch_peers popen ns pods s) =
      (case map (printed popen ns) (take 3 pods) of
         [] \<Rightarrow> Inr []
       | out # outs \<Rightarrow> if out = [] then Inl (NameError ''status_output'') else addresses_in (texts_from [] (out # outs)))
    \<and> said (snd (local_fetch_peers popen ns pods s)) = said s"
proof (cases "take 3 pods")
  case Nil
  then show ?thesis by (simp add: local_fetch_peers_def)
next
  case (Cons pod rest)
  define s' where "s' = s\<lparr>ran := ran s @ [py_split (status_command ns pod)]\<rparr>"
  define out where "out = printed popen ns pod"
  have said: "said s' = said s" by (simp add: s'_def)
  have step: "local_fetch_peers popen ns pods s =
     (if out = [] then (Inl (NameError ''status_output''), s')
      else (case address_of out of None \<Rightarrow> (Inl AttributeError, s')
        | Some a \<Rightarrow> ebind (local_peers popen ns (Some out) rest) (\<lambda>xs. eret (a # xs)) s'))"
    unfolding local_fetch_peers_def Cons local_peers_step [OF assms] out_def s'_def Let_def by simp
  obtain r u where run: "local_peers popen ns (Some out) rest s' = (r, u)" by (cases "local_peers popen ns (Some out) rest s'")
  with local_peers_outcome_from [where ns = ns and prev = out and pods = rest and s = s', OF assms] said
  have "r = addresses_in (texts_from out (map (printed popen ns) rest))" "said u = said s" by simp_all
  then show ?thesis unfolding step Cons using run said
    by (auto simp: out_def [symmetric] addresses_in_Cons ebind_def Let_def split: option.splits sum.splits)
qed

text \<open>A status text as the daemon prints it, and a cluster of which the second pod prints nothing.\<close>

definition sample_status :: string where
  "sample_status = ''External IP: 10.1.2.3 Libp2p port: 8302 Libp2p PeerID: Qm1''"

definition sample_popen :: popen where
  "sample_popen args = (if args ! 5 = ''p2'' then [] else sample_status, None)"

lemma sample_address: "address_of sample_status = Some ''/ip4/10.1.2.3/tcp/8302/ipfs/Qm1''"
  by code_simp

theorem local_peers_outcome_witness:
  "fst (local_fetch_peers sample_popen ''net'' [''p1'', ''p2''] \<lparr>ran = [], files = [], containers = [], said = []\<rparr>) =
     Inr [''/ip4/10.1.2.3/tcp/8302/ipfs/Qm1'', ''/ip4/10.1.2.3/tcp/8302/ipfs/Qm1'']"
proof -
  have "\<forall>args. snd (sample_popen args) = None" by (simp add: sample_popen_def)
  note outcome = local_peers_outcome [where popen = sample_popen and ns = "''net''" and pods = "[''p1'', ''p2'']"
      and s = "\<lparr>ran = [], files = [], containers = [], said = []\<rparr>", OF this]
  have p: "map (printed sample_popen ''net'') (take 3 [''p1'', ''p2'']) = [sample_status, []]" by code_simp
  have "sample_status \<noteq> []" by (simp add: sample_status_def)
  with outcome [unfolded p] show ?thesis by (simp add: Let_def addresses_in_def sample_address)
qed

section \<open>The run of the helm helper\<close>

lemma ebind_Inr:
  "ebind m f s = (Inr y, t) \<longleftrightarrow> (\<exists>x u. m s = (Inr x, u) \<and> f x u = (Inr y, t))"
  by (auto simp: ebind_def split: prod.splits sum.splits)

lemma eseq_Inr:
  "eseq m n s = (Inr y, t) \<longleftrightarrow> (\<exists>x u. m s = (Inr x, u) \<and> n u = (Inr y, t))"
  by (simp add: eseq_def ebind_Inr)

lemma run_process_quiet:
  assumes "\<forall>args. snd (popen args) = None"
  shows "run_process popen command s = (Inr r, t) \<longleftrightarrow>
     r = (fst (popen (py_split command)), None) \<and> t = s\<lparr>ran := ran s @ [py_split command]\<rparr>"
  using assms by (auto simp: run_process_def eseq_def prod_eq_iff)

lemma helm_peer_returns:
  assumes "\<forall>args. snd (popen args) = None" and "helm_peer popen ns pod s = (Inr a, t)"
  shows "t = s\<lparr>ran := ran s @ [py_split (status_command ns pod)]\<rparr> \<and> address_of (printed popen ns pod) = Some a"
  using assms(2) unfolding helm_peer_def
  by (auto simp: ebind_Inr eseq_Inr run_process_quiet [OF assms(1)] exit_on_def printed_def peer_address_outcome
      split: if_splits option.splits)

lemma helm_peers_return:
  assumes "\<forall>args. snd (popen args) = None"
  shows "emapM (helm_peer popen ns) pods s = (Inr addrs, t) \<Longrightarrow>
     t = s\<lparr>ran := ran s @ map (\<lambda>pod. py_split (status_command ns pod)) pods\<rparr> \<and>
     map (\<lambda>pod. address_of (printed popen ns pod)) pods = map Some addrs"
proof (induction pods arbitrary: s addrs t)
  case (Cons pod pods)
  then obtain a u as where "helm_peer popen ns pod s = (Inr a, u)" "emapM (helm_peer popen ns) pods u = (Inr as, t)" "addrs = a # as"
    by (auto simp: ebind_Inr)
  with helm_peer_returns [OF assms this(1)] Cons.IH [OF this(2)] show ?case by simp
qed simp

lemma helm_install_returns:
  assumes "\<forall>args. snd (popen args) = None" and "helm_install popen file chart name s = (Inr out, t)"
  shows "t = s\<lparr>ran := ran s @ [py_split (''helm install --values '' @ file @ '' '' @ name @ '' '' @ chart)]\<rparr> \<and>
     fst (popen (py_split (''helm install --values '' @ file @ '' '' @ name @ '' '' @ chart))) = out \<and> out \<noteq> []"
proof -
  define command where "command = ''helm install --values '' @ file @ '' '' @ name @ '' '' @ chart"
  from assms(2) show ?thesis unfolding helm_install_def command_def [symmetric]
    by (auto simp: ebind_Inr eseq_Inr run_process_quiet [OF assms(1)] exit_on_def split: if_splits)
qed

lemma write_then_run:
  assumes "eseq (put_file p c) (ebind m (\<lambda>x. eret ())) s = (Inr (), t)"
  shows "\<exists>x. m (s\<lparr>files := files s @ [(p, c)]\<rparr>) = (Inr x, t)"
  using assms by (auto simp: put_file_def eseq_Inr ebind_Inr)

text \<open>
  What a run of the helm helper that returns has done, when the processes print no error text: the
  pods sampled are among the block producers, of which there were at least three; the commands run
  are their status commands in the order of the sample, then \<open>helm get values\<close>, then \<open>helm
  install\<close> with the overrides; the one file written is the overrides, which hold the runtime
  configuration of the release as it is and the addresses of the sampled pods in order; and the
  install printed something. No container is started.
\<close>

theorem helm_deploys:
  assumes quiet: "\<forall>args. snd (popen args) = None"
    and run: "run_helm absolute popen sample safe_load dump script_dir pods ns release dir s = (Inr (), t)"
  shows "\<exists>producers addrs values cfg.
      producers = filter (\<lambda>pod. str_in ''block-producer'' pod) pods \<and> 3 \<le> length producers \<and>
      map (\<lambda>pod. address_of (printed popen ns pod)) (sample producers) = map Some addrs \<and>
      safe_load (fst (popen (py_split (''helm get values --namespace '' @ ns @ '' '' @ release)))) = Inr values \<and>
      json_path values [''coda'', ''runtimeConfig''] = Inr cfg \<and>
      (let file = path_join (chosen_directory script_dir dir) ''overrides.yaml'';
           install = py_split (''helm install --values '' @ absolute file @ '' test-archive /Users/connerswann/code/coda-automation/helm/archive-node'') in
       files t = files s @ [(file, dump (JDict [(''coda'', JDict [(''runtimeConfig'', cfg), (''seedPeers'', JList (map JStr addrs))])]))] \<and>
       ran t = ran s @ map (\<lambda>pod. py_split (status_command ns pod)) (sample producers) @
         [py_split (''helm get values --namespace '' @ ns @ '' '' @ release), install] \<and>
       fst (popen install) \<noteq> [] \<and> containers t = containers s)"
proof -
  define producers where "producers = filter (\<lambda>pod. str_in ''block-producer'' pod) pods"
  from run obtain addrs u vs w cfg where rel: "release \<noteq> []"
    and peers: "helm_fetch_peers popen sample ns pods s = (Inr addrs, u)"
    and vals: "fetch_helm_values popen safe_load ns release u = (Inr vs, w)"
    and cfg: "json_path vs [''coda'', ''runtimeConfig''] = Inr cfg"
    and rest: "eseq (put_file (path_join (chosen_directory script_dir dir) ''overrides.yaml'')
        (dump (JDict [(''coda'', JDict [(''runtimeConfig'', cfg), (''seedPeers'', JList (map JStr addrs))])])))
       (ebind (helm_install popen (absolute (path_join (chosen_directory script_dir dir) ''overrides.yaml''))
          ''/Users/connerswann/code/coda-automation/helm/archive-node'' ''test-archive'') (\<lambda>out. eret ())) w = (Inr (), t)"
    unfolding run_helm_def Let_def by (auto simp: ebind_Inr split: if_splits)
  from peers have n: "3 \<le> length producers" and m: "emapM (helm_peer popen ns) (sample producers) s = (Inr addrs, u)"
    by (auto simp: helm_fetch_peers_def producers_def Let_def split: if_splits)
  note u = helm_peers_return [OF quiet m]
  define get where "get = ''helm get values --namespace '' @ ns @ '' '' @ release"
  from vals rel have w: "w = u\<lparr>ran := ran u @ [py_split get]\<rparr>" "safe_load (fst (popen (py_split get))) = Inr vs"
    unfolding fetch_helm_values_def get_def [symmetric]
    by (auto simp: ebind_Inr eseq_Inr run_process_quiet [OF quiet] exit_on_def split: if_splits)
  from write_then_run [OF rest] obtain out where inst:
    "helm_install popen (absolute (path_join (chosen_directory script_dir dir) ''overrides.yaml''))
          ''/Users/connerswann/code/coda-automation/helm/archive-node'' ''test-archive''
       (w\<lparr>files := files w @ [(path_join (chosen_directory script_dir dir) ''overrides.yaml'',
          dump (JDict [(''coda'', JDict [(''runtimeConfig'', cfg), (''seedPeers'', JList (map JStr addrs))])]))]\<rparr>) = (Inr out, t)" ..
  have spaces: "'' test-archive /Users/connerswann/code/coda-automation/helm/archive-node'' =
      '' '' @ ''test-archive'' @ '' '' @ ''/Users/connerswann/code/coda-automation/helm/archive-node''" by simp
  define path where "path = path_join (chosen_directory script_dir dir) ''overrides.yaml''"
  define content where "content = dump (JDict [(''coda'', JDict [(''runtimeConfig'', cfg), (''seedPeers'', JList (map JStr addrs))])])"
  define install where "install = py_split (''helm install --values '' @ absolute path @ '' '' @ ''test-archive'' @ '' '' @
      ''/Users/connerswann/code/coda-automation/helm/archive-node'')"
  note t = helm_install_returns [OF quiet inst, folded path_def, folded content_def, folded install_def]
  show ?thesis
    unfolding Let_def spaces get_def [symmetric] path_def [symmetric]
    by (intro exI [of _ producers] exI [of _ addrs] exI [of _ vs] exI [of _ cfg], fold content_def install_def)
      (simp add: n u w cfg t, simp add: producers_def)
qed

text \<open>A release with three block producers.\<close>

definition helm_popen :: popen where
  "helm_popen args = (if hd args = ''kubectl'' then sample_status else if args ! 1 = ''get'' then ''values'' else ''installed'', None)"

definition helm_load :: "string \<Rightarrow> json result" where
  "helm_load raw = Inr (JDict [(''coda'', JDict [(''runtimeConfig'', JStr ''cfg'')])])"

lemma helm_returns:
  "fst (run_helm (\<lambda>p. p) helm_popen (take 3) helm_load json_str ''/s''
     [''block-producer-1'', ''snark-1'', ''block-producer-2'', ''block-producer-3''] ''net'' ''rel'' ''.''
     \<lparr>ran = [], files = [], containers = [], said = []\<rparr>) = Inr ()"
  by code_simp

theorem helm_deploys_witness:
  "\<exists>t. run_helm (\<lambda>p. p) helm_popen (take 3) helm_load json_str ''/s''
       [''block-producer-1'', ''snark-1'', ''block-producer-2'', ''block-producer-3''] ''net'' ''rel'' ''.''
       \<lparr>ran = [], files = [], containers = [], said = []\<rparr> = (Inr (), t) \<and> containers t = []"
proof -
  have quiet: "\<forall>args. snd (helm_popen args) = None" by (simp add: helm_popen_def)
  obtain t where "run_helm (\<lambda>p. p) helm_popen (take 3) helm_load json_str ''/s''
       [''block-producer-1'', ''snark-1'', ''block-producer-2'', ''block-producer-3''] ''net'' ''rel'' ''.''
       \<lparr>ran = [], files = [], containers = [], said = []\<rparr> = (Inr (), t)"
    using helm_returns by (metis prod.collapse)
  with helm_deploys [OF quiet this] show ?thesis unfolding Let_def by (metis helper.simps(3))
qed

end
