(* ===== verification/BuildWarns.thy ===== *)
theory BuildWarns
  imports Py_Regex Py_Effects "HOL-Library.Product_Lexorder" "HOL-Library.List_Lexorder" "HOL-Library.Char_ord"
begin

text \<open>
  \<open>scripts/buildwarns.py\<close>: the report on the warnings of a build log. The script is Python 2, so
  \<open>print a, b\<close> writes \<open>a\<close> before \<open>b\<close> is evaluated, and a blank is owed after each item (the
  \<open>softspace\<close> of the file). The order in which Python 2 walks over a \<open>Counter\<close> is a
  parameter; the sorted walks do not depend on it.
\<close>

section \<open>Reading the log\<close>

definition errorcodes :: "(string, string) dict" where
  "errorcodes =
    [(''6'', ''label key was omitted in the application of this function.''),
     (''9'', ''the following labels are not bound in this record pattern''),
     (''27'', ''unused variable''),
     (''32'', ''unused value''),
     (''33'', ''unused open''),
     (''34'', ''unused type''),
     (''35'', ''unused for-loop index''),
     (''37'', ''unused constructor''),
     (''39'', ''unused rec flag.''),
     (''58'', ''no cmx file was found in path for module''),
     (''total'', ''total'')]"

text \<open>
  \<open>cut_totals\<close> has the files whose first warning had the code \<open>total\<close>: there the key of the total in the
  dictionary is the string cut from the log and not the literal of the script, which the
  comparison \<open>k is not 'total'\<close> of the report tells apart.
\<close>

record warn_data =
  perfile :: tally
  percode :: tally
  fulldata :: "(string, tally) dict"
  lastline :: string
  cut_totals :: "string set"

definition no_warnings :: warn_data where
  "no_warnings = \<lparr>perfile = [], percode = [], fulldata = [], lastline = [], cut_totals = {}\<rparr>"

text \<open>The file a line names: the text between its first two quotes.\<close>

definition names_file :: "string \<Rightarrow> bool" where
  "names_file line = str_in ''\"'' line"

definition named_file :: "string \<Rightarrow> string result" where
  "named_file line = py_get (split_on (CHR 0x22) line) 1"

definition warning_code :: "string \<Rightarrow> string result" where
  "warning_code line = rbind (py_get (py2_split line) 1) (\<lambda>w. Inr (py_replace '':'' [] w))"

definition see_warning :: "string \<Rightarrow> warn_data \<Rightarrow> warn_data result" where
  "see_warning line d =
     rbind (warning_code line) (\<lambda>code.
     let d1 = d\<lparr>percode := bump ''total'' (bump code (percode d))\<rparr> in
     if names_file (lastline d) then
       rbind (named_file (lastline d)) (\<lambda>myfile.
         Inr (d1\<lparr>perfile := bump myfile (perfile d),
                 fulldata := dict_modify myfile [] (\<lambda>t. bump ''total'' (bump code t)) (fulldata d),
                 cut_totals := (if myfile \<notin> set (dict_keys (fulldata d)) \<and> code = ''total''
                                then insert myfile (cut_totals d) else cut_totals d)\<rparr>))
     else Inr d1)"

definition see_line :: "string \<Rightarrow> warn_data \<Rightarrow> warn_data result" where
  "see_line line d =
     rbind (if str_in ''Warning'' line then see_warning line d else Inr d) (\<lambda>d'. Inr (d'\<lparr>lastline := line\<rparr>))"

fun parse_log :: "string list \<Rightarrow> warn_data \<Rightarrow> warn_data result" where
  "parse_log [] d = Inr d"
| "parse_log (line # lines) d = rbind (see_line line d) (parse_log lines)"

section \<open>The report\<close>

text \<open>Python 2's output: what is written, and whether a blank is owed.\<close>

record printer =
  written :: string
  softspace :: bool

definition print_item :: "string \<Rightarrow> (printer, unit) eff" where
  "print_item s = emodify (\<lambda>p. \<lparr>written = written p @ (if softspace p then '' '' else []) @ s,
     softspace = (s = [] \<or> \<not> is_ascii_space (last s) \<or> last s = CHR '' '')\<rparr>)"

definition print_nl :: "(printer, unit) eff" where
  "print_nl = emodify (\<lambda>p. \<lparr>written = written p @ ''\<newline>'', softspace = False\<rparr>)"

definition print_line :: "string \<Rightarrow> (printer, unit) eff" where
  "print_line s = eseq (print_item s) print_nl"

text \<open>\<open>sorted(d.iteritems(), reverse=True, key=lambda (k,v): (v,k))\<close>\<close>

definition by_count :: "tally \<Rightarrow> tally" where
  "by_count d = rev (sort_key (\<lambda>(k, v). (v, k)) d)"

definition lookup :: "(string, 'v) dict \<Rightarrow> string \<Rightarrow> 'v result" where
  "lookup d k = (case map_of d k of None \<Rightarrow> Inl (KeyError k) | Some v \<Rightarrow> Inr v)"

definition is_key_error :: "py_error \<Rightarrow> bool" where
  "is_key_error e = (case e of KeyError _ \<Rightarrow> True | _ \<Rightarrow> False)"

definition code_line :: "tally \<Rightarrow> string \<Rightarrow> (printer, unit) eff" where
  "code_line d key =
     ecatch (eseq (print_item (str_nat (dict_get d key 0)))
        (ebind (elift (lookup errorcodes key)) print_line))
       (\<lambda>e. if is_key_error e then eret () else eraise e)"

definition report_codes :: "warn_data \<Rightarrow> (printer, unit) eff" where
  "report_codes d =
     eseq (print_line (replicate 80 CHR ''='')) (eseq (print_line ''Warnings by type/code'')
       (efor (by_count (percode d)) (\<lambda>(key, v). code_line (percode d) key)))"

definition report_files :: "warn_data \<Rightarrow> (printer, unit) eff" where
  "report_files d =
     eseq (print_line (replicate 80 CHR ''='')) (eseq (print_line ''Warnings by file'')
       (efor (by_count (perfile d)) (\<lambda>(key, v). eseq (print_item (str_nat v)) (print_line key))))"

definition detail_line :: "bool \<Rightarrow> tally \<Rightarrow> string \<Rightarrow> (printer, unit) eff" where
  "detail_line fresh t k =
     (if k \<noteq> ''total'' \<or> fresh then
        eseq (print_item [CHR 0x09]) (eseq (print_item (str_nat (dict_get t k 0)))
          (ebind (elift (lookup errorcodes k)) print_line))
      else eret ())"

definition file_detail :: "(string list \<Rightarrow> string list) \<Rightarrow> warn_data \<Rightarrow> string \<Rightarrow> (printer, unit) eff" where
  "file_detail order d key =
     eseq (print_line (replicate 80 CHR ''-'')) (eseq (print_line key)
     (ebind (elift (lookup (fulldata d) key)) (\<lambda>t.
       eseq (efor (order (dict_keys t)) (detail_line (key \<in> cut_totals d) t))
         (eseq (print_item [CHR 0x09]) (eseq (print_item (str_nat (dict_get t ''total'' 0))) (print_line ''total''))))))"

definition report_details :: "(string list \<Rightarrow> string list) \<Rightarrow> warn_data \<Rightarrow> (printer, unit) eff" where
  "report_details order d =
     eseq (print_line (replicate 80 CHR ''='')) (eseq (print_line ''Warnings detail per file'')
       (efor (by_count (perfile d)) (\<lambda>(key, v). file_detail order d key)))"

definition warning_report :: "(string list \<Rightarrow> string list) \<Rightarrow> string list \<Rightarrow> (printer, unit) eff" where
  "warning_report order lines =
     ebind (elift (parse_log lines no_warnings)) (\<lambda>d.
       eseq (report_codes d) (eseq (report_files d) (report_details order d)))"

section \<open>What is counted\<close>

text \<open>The warnings of a log: the file named by the line before, if any, and the code.\<close>

definition code_of :: "string \<Rightarrow> string" where
  "code_of line = (case warning_code line of Inl e \<Rightarrow> [] | Inr c \<Rightarrow> c)"

definition file_before :: "string \<Rightarrow> string option" where
  "file_before prev = (if names_file prev then Some (split_on (CHR 0x22) prev ! 1) else None)"

fun found :: "string \<Rightarrow> string list \<Rightarrow> (string option \<times> string) list" where
  "found prev [] = []"
| "found prev (line # lines) =
     (if str_in ''Warning'' line then [(file_before prev, code_of line)] else []) @ found line lines"

definition codes_counted :: "(string option \<times> string) list \<Rightarrow> string \<Rightarrow> nat" where
  "codes_counted ws k = length (filter (\<lambda>w. snd w = k) ws) + (if k = ''total'' then length ws else 0)"

definition of_file :: "string \<Rightarrow> (string option \<times> string) list \<Rightarrow> (string option \<times> string) list" where
  "of_file f ws = filter (\<lambda>w. fst w = Some f) ws"

definition tallied :: "(string option \<times> string) list \<Rightarrow> warn_data \<Rightarrow> bool" where
  "tallied ws d \<longleftrightarrow>
     (\<forall>k. dict_get (percode d) k 0 = codes_counted ws k) \<and>
     (\<forall>f. dict_get (perfile d) f 0 = length (of_file f ws)) \<and>
     (\<forall>f k. dict_get (dict_get (fulldata d) f []) k 0 = codes_counted (of_file f ws) k) \<and>
     (\<forall>f. f \<in> set (dict_keys (perfile d)) \<longleftrightarrow> of_file f ws \<noteq> []) \<and>
     (\<forall>f. f \<in> set (dict_keys (fulldata d)) \<longleftrightarrow> of_file f ws \<noteq> []) \<and>
     (\<forall>f. set (dict_keys (dict_get (fulldata d) f [])) =
        (if of_file f ws = [] then {} else insert ''total'' (snd ` set (of_file f ws))))"

lemma of_file_snoc: "of_file f (ws @ [w]) = of_file f ws @ (if fst w = Some f then [w] else [])"
  by (simp add: of_file_def)

lemma codes_counted_snoc:
  "codes_counted (ws @ [w]) k = codes_counted ws k + (if k = snd w then 1 else 0) + (if k = ''total'' then 1 else 0)"
  by (auto simp: codes_counted_def)

lemma tallied_none: "tallied [] no_warnings"
  by (simp add: tallied_def no_warnings_def codes_counted_def of_file_def dict_get_def)

lemma named_file_at: "names_file line \<Longrightarrow> named_file line = Inr (split_on (CHR 0x22) line ! 1)"
proof -
  assume "names_file line"
  then have "CHR 0x22 \<in> set line" by (auto simp: names_file_def str_in_def sublist_def)
  then obtain a b where "line = a @ CHR 0x22 # b" "CHR 0x22 \<notin> set a" by (meson split_list_first)
  then have "split_on (CHR 0x22) line = a # split_on (CHR 0x22) b" by (simp add: split_on_append_sep)
  moreover have "0 < length (split_on (CHR 0x22) b)" by simp
  ultimately show ?thesis by (simp add: named_file_def py_get_def)
qed

lemma see_line_tallied:
  assumes "tallied ws d" and "see_line line d = Inr d'"
  shows "tallied (ws @ found (lastline d) [line]) d' \<and> lastline d' = line"
proof (cases "str_in ''Warning'' line")
  case False
  with assms(2) have d': "d' = d\<lparr>lastline := line\<rparr>" by (simp add: see_line_def)
  from assms(1) False show ?thesis unfolding tallied_def by (simp add: d')
next
  case True
  with assms(2) obtain code where code: "warning_code line = Inr code"
    by (auto simp: see_line_def see_warning_def rbind_eq_Inr)
  then have c: "code_of line = code" by (simp add: code_of_def)
  show ?thesis
  proof (cases "names_file (lastline d)")
    case named: True
    define f where "f = split_on (CHR 0x22) (lastline d) ! 1"
    from named have d': "d' = d\<lparr>percode := bump ''total'' (bump code (percode d)),
        perfile := bump f (perfile d),
        fulldata := dict_modify f [] (\<lambda>t. bump ''total'' (bump code t)) (fulldata d),
        cut_totals := (if f \<notin> set (dict_keys (fulldata d)) \<and> code = ''total''
                       then insert f (cut_totals d) else cut_totals d),
        lastline := line\<rparr>"
      unfolding f_def using assms(2) True code
      by (simp add: see_line_def see_warning_def named_file_at split del: if_split cong: if_cong)
    have w: "found (lastline d) [line] = [(Some f, code)]" by (simp add: True named c file_before_def f_def)
    note t = assms(1) [unfolded tallied_def]
    have "dict_get (percode d') k 0 = codes_counted (ws @ [(Some f, code)]) k" for k
      using t by (simp add: d' bump_get codes_counted_snoc)
    moreover have "dict_get (perfile d') g 0 = length (of_file g (ws @ [(Some f, code)]))" for g
      using t by (simp add: d' bump_get of_file_snoc)
    moreover have "dict_get (dict_get (fulldata d') g []) k 0 = codes_counted (of_file g (ws @ [(Some f, code)])) k" for g k
      using t by (simp add: d' bump_get of_file_snoc dict_modify_get codes_counted_snoc)
    moreover have "g \<in> set (dict_keys (perfile d')) \<longleftrightarrow> of_file g (ws @ [(Some f, code)]) \<noteq> []" for g
      using t by (simp add: d' bump_keys of_file_snoc del: set_map)
    moreover have "g \<in> set (dict_keys (fulldata d')) \<longleftrightarrow> of_file g (ws @ [(Some f, code)]) \<noteq> []" for g
      using t by (simp add: d' dict_modify_keys of_file_snoc del: set_map)
    moreover have "set (dict_keys (dict_get (fulldata d') g [])) =
        (if of_file g (ws @ [(Some f, code)]) = [] then {} else insert ''total'' (snd ` set (of_file g (ws @ [(Some f, code)]))))" for g
    proof -
      from t have keys: "set (dict_keys (dict_get (fulldata d) g [])) =
        (if of_file g ws = [] then {} else insert ''total'' (snd ` set (of_file g ws)))" by blast
      show ?thesis by (cases "g = f") (use keys in \<open>simp_all add: d' bump_keys dict_modify_get of_file_snoc insert_commute del: set_map\<close>)
    qed
    ultimately show ?thesis unfolding tallied_def w by (simp add: d')
  next
    case False
    then have d': "d' = d\<lparr>percode := bump ''total'' (bump code (percode d)), lastline := line\<rparr>"
      using assms(2) True code by (simp add: see_line_def see_warning_def)
    show ?thesis
      using assms(1) unfolding tallied_def
      by (simp add: d' True False c file_before_def bump_get codes_counted_snoc of_file_snoc)
  qed
qed

lemma found_Cons: "found prev (line # lines) = found prev [line] @ found line lines"
  by simp

lemma parse_log_tallied:
  "tallied ws d \<Longrightarrow> parse_log lines d = Inr d' \<Longrightarrow> tallied (ws @ found (lastline d) lines) d'"
proof (induction lines arbitrary: ws d)
  case (Cons line lines)
  from Cons.prems(2) obtain e where e: "see_line line d = Inr e" "parse_log lines e = Inr d'"
    by (auto simp: rbind_eq_Inr)
  from see_line_tallied [OF Cons.prems(1) e(1)] Cons.IH [OF _ e(2)]
  show ?case unfolding found_Cons [of "lastline d" line lines] by (metis append_assoc)
qed simp

text \<open>
  The counts of the build warning report: in a log whose warning lines all have a second word, the
  counter of a code is the number of warnings with that code, the counter of a file the number of
  warnings right after a line that names it, and the counters of the file hold its warnings by
  code and, under \<open>total\<close>, their number; a file has counters exactly when it has a warning.
\<close>

theorem warnings_counted:
  assumes "parse_log lines no_warnings = Inr d"
  shows "(\<forall>k. dict_get (percode d) k 0 = codes_counted (found [] lines) k)
    \<and> (\<forall>f. dict_get (perfile d) f 0 = length (of_file f (found [] lines)))
    \<and> (\<forall>f k. dict_get (dict_get (fulldata d) f []) k 0 = codes_counted (of_file f (found [] lines)) k)
    \<and> (\<forall>f. f \<in> set (dict_keys (perfile d)) \<longleftrightarrow> Some f \<in> fst ` set (found [] lines))"
proof -
  have "lastline no_warnings = []" by (simp add: no_warnings_def)
  with parse_log_tallied [OF tallied_none assms] have t: "tallied (found [] lines) d" by simp
  have "of_file f ws \<noteq> [] \<longleftrightarrow> Some f \<in> fst ` set ws" for f and ws :: "(string option \<times> string) list"
    by (force simp: of_file_def filter_empty_conv)
  with t show ?thesis by (simp add: tallied_def)
qed

definition sample_log :: "string list" where
  "sample_log = [''File \"a.ml\", line 3:'', ''Warning 27: unused variable x.'', ''Warning 99: odd'',
     ''File \"a.ml\", line 9:'', ''Warning 26: unused y.'']"

theorem warnings_counted_witness:
  "\<exists>d. parse_log sample_log no_warnings = Inr d \<and> dict_get (percode d) ''total'' 0 = 3 \<and> dict_get (perfile d) ''a.ml'' 0 = 2"
proof -
  have "(case parse_log sample_log no_warnings of Inl e \<Rightarrow> False | Inr d \<Rightarrow> True)" by code_simp
  then obtain d where d: "parse_log sample_log no_warnings = Inr d" by (auto split: sum.splits)
  have "codes_counted (found [] sample_log) ''total'' = 3" "length (of_file ''a.ml'' (found [] sample_log)) = 2"
    by code_simp+
  with warnings_counted [OF d] d show ?thesis by simp
qed

section \<open>When the report ends\<close>

text \<open>A statement that returns from every state, and one that ends in the error \<open>e\<close> or returns.\<close>

definition always_ok :: "('s, 'a) eff \<Rightarrow> bool" where
  "always_ok m \<longleftrightarrow> (\<forall>s. \<exists>x. fst (m s) = Inr x)"

lemma always_ok_prim [simp]: "always_ok (emodify h)" "always_ok (eret x)" "always_ok (print_item s)" "always_ok print_nl"
  by (simp_all add: always_ok_def print_item_def print_nl_def)

lemma always_ok_seq [simp]: "always_ok m \<Longrightarrow> always_ok n \<Longrightarrow> always_ok (eseq m n)"
proof -
  assume m: "always_ok m" and n: "always_ok n"
  have "\<exists>x. fst (eseq m n s) = Inr x" for s
  proof -
    obtain x where "fst (m s) = Inr x" using m by (auto simp: always_ok_def)
    then have "eseq m n s = n (snd (m s))" by (cases "m s") (simp add: eseq_def ebind_def)
    with n show ?thesis by (simp add: always_ok_def)
  qed
  then show ?thesis by (simp add: always_ok_def)
qed

lemma always_ok_print_line [simp]: "always_ok (print_line s)"
  by (simp add: print_line_def)

lemma always_ok_for: "(\<And>x. x \<in> set xs \<Longrightarrow> always_ok (f x)) \<Longrightarrow> always_ok (efor xs f)"
  by (induction xs) simp_all

lemma ok_then:
  assumes "always_ok m"
  shows "eseq m n s = n (snd (m s))"
proof -
  from assms obtain x where "fst (m s) = Inr x" by (auto simp: always_ok_def)
  then show ?thesis by (cases "m s") (simp add: eseq_def ebind_def)
qed

lemma report_codes_ok [simp]: "always_ok (report_codes d)"
proof -
  have "always_ok (code_line t k)" for t k
    unfolding always_ok_def
  proof
    fix s
    show "\<exists>x. fst (code_line t k s) = Inr x"
      by (cases "map_of errorcodes k")
        (auto simp: code_line_def ecatch_def ok_then lookup_def is_key_error_def ebind_def print_line_def print_item_def
          print_nl_def eseq_def)
  qed
  then show ?thesis by (auto simp: report_codes_def intro!: always_ok_for always_ok_seq)
qed

lemma report_files_ok [simp]: "always_ok (report_files d)"
  by (auto simp: report_files_def intro!: always_ok_for always_ok_seq)

text \<open>Which error a statement ends with, whatever the state it starts in.\<close>

definition ends_with :: "('s, unit) eff \<Rightarrow> py_error option \<Rightarrow> bool" where
  "ends_with m r \<longleftrightarrow> (\<forall>s. fst (m s) = (case r of None \<Rightarrow> Inr () | Some e \<Rightarrow> Inl e))"

lemma ends_with_ok: "always_ok (m :: ('s, unit) eff) \<longleftrightarrow> ends_with m None"
  by (simp add: always_ok_def ends_with_def)

lemma ends_with_after: "always_ok m \<Longrightarrow> ends_with n r \<Longrightarrow> ends_with (eseq m n) r"
  by (simp add: ends_with_def ok_then)

lemma ends_with_before: "ends_with m (Some e) \<Longrightarrow> ends_with (eseq m n) (Some e)"
  unfolding ends_with_def
proof
  fix s
  assume "\<forall>s. fst (m s) = (case Some e of None \<Rightarrow> Inr () | Some e \<Rightarrow> Inl e)"
  then have "m s = (Inl e, snd (m s))" by (simp add: prod_eq_iff)
  then show "fst (eseq m n s) = (case Some e of None \<Rightarrow> Inr () | Some e \<Rightarrow> Inl e)"
    by (metis eseq_run(2) fst_conv option.simps(5))
qed

lemma ends_with_for:
  assumes "\<And>x. x \<in> set xs \<Longrightarrow> ends_with (f x) (err x)"
  shows "ends_with (efor xs f) (case filter (\<lambda>x. err x \<noteq> None) xs of [] \<Rightarrow> None | x # _ \<Rightarrow> err x)"
  using assms
proof (induction xs)
  case Nil
  show ?case by (simp add: ends_with_def)
next
  case (Cons x xs)
  then have x: "ends_with (f x) (err x)" by simp
  show ?case
  proof (cases "err x")
    case None
    with x have "always_ok (f x)" by (simp add: ends_with_ok)
    with Cons None show ?thesis by (auto intro!: ends_with_after)
  next
    case (Some e)
    with x show ?thesis by (simp add: ends_with_before)
  qed
qed

definition known_code :: "string \<Rightarrow> bool" where
  "known_code k \<longleftrightarrow> k \<in> set (dict_keys errorcodes)"

lemma lookup_then:
  "map_of d k = Some v \<Longrightarrow> ebind (elift (lookup d k)) f = f v"
  "map_of d k = None \<Longrightarrow> ebind (elift (lookup d k)) f = eraise (KeyError k)"
  by (rule ext, simp add: ebind_def lookup_def)+

lemma known_code_None: "map_of errorcodes k = None \<longleftrightarrow> \<not> known_code k"
  by (simp add: known_code_def map_of_None_iff del: set_map)

lemma detail_line_ends: "ends_with (detail_line fresh t k) (if known_code k then None else Some (KeyError k))"
proof (cases "k \<noteq> ''total'' \<or> fresh")
  case False
  moreover have "known_code ''total''" by code_simp
  ultimately show ?thesis by (simp add: detail_line_def ends_with_def)
next
  case True
  have "ends_with (ebind (elift (lookup errorcodes k)) print_line) (if known_code k then None else Some (KeyError k))"
  proof (cases "map_of errorcodes k")
    case None
    then show ?thesis by (simp add: lookup_then known_code_None ends_with_def)
  next
    case (Some v)
    then have "known_code k" using known_code_None [of k] by simp
    with Some show ?thesis by (simp add: lookup_then ends_with_ok [symmetric])
  qed
  then show ?thesis unfolding detail_line_def if_P [OF True] by (intro ends_with_after always_ok_prim)
qed

text \<open>The first code without a text, in the order of the walk.\<close>

definition unknown_in :: "string list \<Rightarrow> py_error option" where
  "unknown_in ks = (case filter (\<lambda>k. \<not> known_code k) ks of [] \<Rightarrow> None | k # _ \<Rightarrow> Some (KeyError k))"

lemma file_detail_ends:
  assumes "map_of (fulldata d) key = Some t"
  shows "ends_with (file_detail order d key) (unknown_in (order (dict_keys t)))"
proof -
  let ?walk = "efor (order (dict_keys t)) (detail_line (key \<in> cut_totals d) t)"
  have "ends_with ?walk (case filter (\<lambda>k. (if known_code k then None else Some (KeyError k)) \<noteq> None) (order (dict_keys t)) of
      [] \<Rightarrow> None | k # _ \<Rightarrow> if known_code k then None else Some (KeyError k))"
    by (rule ends_with_for) (rule detail_line_ends)
  moreover have "filter (\<lambda>k. (if known_code k then None else Some (KeyError k)) \<noteq> None) = filter (\<lambda>k. \<not> known_code k)"
    by (rule ext, rule filter_cong) auto
  ultimately have walk: "ends_with ?walk (unknown_in (order (dict_keys t)))"
    unfolding unknown_in_def by (auto split: list.splits dest: filter_eq_ConsD)
  note lift = lookup_then(1) [OF assms]
  show ?thesis
  proof (cases "unknown_in (order (dict_keys t))")
    case None
    with walk have "always_ok ?walk" by (simp add: ends_with_ok)
    then show ?thesis unfolding file_detail_def lift None by (simp add: ends_with_ok [symmetric])
  next
    case (Some e)
    with walk show ?thesis unfolding file_detail_def lift Some
      by (simp add: ends_with_after ends_with_before)
  qed
qed

lemma unknown_in_None: "unknown_in ks = None \<longleftrightarrow> (\<forall>k\<in>set ks. known_code k)"
  by (auto simp: unknown_in_def filter_empty_conv split: list.splits dest: filter_eq_ConsD)

lemma unknown_in_Some: "unknown_in ks = Some e \<Longrightarrow> \<exists>k\<in>set ks. \<not> known_code k \<and> e = KeyError k"
  by (auto simp: unknown_in_def split: list.splits dest!: filter_eq_ConsD)

lemma set_by_count [simp]: "set (by_count d) = set d"
  by (simp add: by_count_def)

interpretation printed: effect_frame "\<lambda>p q. prefix (written p) (written q)"
  by unfold_locales auto

lemma prints_only: "framed (\<lambda>p q. prefix (written p) (written q)) (print_item s)"
    "framed (\<lambda>p q. prefix (written p) (written q)) (print_line s)"
  by (auto simp: print_line_def print_item_def print_nl_def intro!: printed.framed_seq printed.framed_modify)

lemma report_details_prints: "framed (\<lambda>p q. prefix (written p) (written q)) (report_details order d)"
proof -
  have "framed (\<lambda>p q. prefix (written p) (written q)) (detail_line fresh t k)" for fresh t k
    by (auto simp: detail_line_def intro!: printed.frame_rules prints_only)
  then have "framed (\<lambda>p q. prefix (written p) (written q)) (file_detail order d key)" for key
    unfolding file_detail_def by (intro printed.frame_rules prints_only)
  then show ?thesis unfolding report_details_def by (intro printed.frame_rules prints_only) auto
qed

lemma tallied_file:
  assumes "tallied ws d" and "(f, v) \<in> set (perfile d)"
  shows "map_of (fulldata d) f = Some (dict_get (fulldata d) f [])"
    and "set (dict_keys (dict_get (fulldata d) f [])) = insert ''total'' (snd ` set (of_file f ws))"
proof -
  have "f \<in> set (dict_keys (perfile d))" using assms(2) by force
  with assms(1) have ne: "of_file f ws \<noteq> []" and "f \<in> set (dict_keys (fulldata d))"
    by (simp_all add: tallied_def del: set_map)
  then show "map_of (fulldata d) f = Some (dict_get (fulldata d) f [])"
    by (metis dict_get_def map_of_None_iff not_None_eq option.simps(5))
  from assms(1) ne show "set (dict_keys (dict_get (fulldata d) f [])) = insert ''total'' (snd ` set (of_file f ws))"
    by (simp add: tallied_def del: set_map)
qed

lemma tallied_has_file: "tallied ws d \<Longrightarrow> (Some f, k) \<in> set ws \<Longrightarrow> \<exists>v. (f, v) \<in> set (perfile d)"
proof -
  assume t: "tallied ws d" and w: "(Some f, k) \<in> set ws"
  from w have "(Some f, k) \<in> set (of_file f ws)" by (simp add: of_file_def)
  then have "of_file f ws \<noteq> []" by auto
  with t have "f \<in> set (dict_keys (perfile d))" by (simp add: tallied_def del: set_map)
  then show ?thesis by auto
qed

definition detail_error :: "(string list \<Rightarrow> string list) \<Rightarrow> warn_data \<Rightarrow> string \<times> nat \<Rightarrow> py_error option" where
  "detail_error order d x = unknown_in (order (dict_keys (dict_get (fulldata d) (fst x) [])))"

lemma detail_error_known:
  assumes "tallied ws d" and "\<forall>ks. set (order ks) = set ks" and "(f, v) \<in> set (perfile d)"
  shows "(case detail_error order d (f, v) of None \<Rightarrow> \<forall>k. (Some f, k) \<in> set ws \<longrightarrow> known_code k
    | Some e \<Rightarrow> \<exists>k. (Some f, k) \<in> set ws \<and> \<not> known_code k \<and> e = KeyError k)"
proof -
  note keys = tallied_file(2) [OF assms(1,3)]
  have total: "known_code ''total''" by code_simp
  have mem: "k \<in> snd ` set (of_file f ws) \<longleftrightarrow> (Some f, k) \<in> set ws" for k by (force simp: of_file_def)
  show ?thesis
  proof (cases "detail_error order d (f, v)")
    case None
    then have "\<forall>k\<in>snd ` set (of_file f ws). known_code k"
      by (simp add: detail_error_def unknown_in_None assms(2) keys del: set_map)
    then have "\<forall>k. (Some f, k) \<in> set ws \<longrightarrow> known_code k" using mem by blast
    with None show ?thesis by simp
  next
    case (Some e)
    with unknown_in_Some [of "order (dict_keys (dict_get (fulldata d) f []))" e]
    obtain k where "k \<in> set (dict_keys (dict_get (fulldata d) f []))" "\<not> known_code k" "e = KeyError k"
      by (auto simp: detail_error_def assms(2) simp del: set_map)
    with keys mem total Some show ?thesis by (auto simp del: set_map)
  qed
qed

definition details_error :: "(string list \<Rightarrow> string list) \<Rightarrow> warn_data \<Rightarrow> py_error option" where
  "details_error order d =
     (case filter (\<lambda>x. detail_error order d x \<noteq> None) (by_count (perfile d)) of [] \<Rightarrow> None | x # _ \<Rightarrow> detail_error order d x)"

lemma report_details_ends:
  assumes "tallied ws d"
  shows "ends_with (report_details order d) (details_error order d)"
proof -
  have "ends_with (case x of (key, v) \<Rightarrow> file_detail order d key) (detail_error order d x)"
    if "x \<in> set (by_count (perfile d))" for x
  proof (cases x)
    case (Pair f v)
    with that have "(f, v) \<in> set (perfile d)" by simp
    from file_detail_ends [OF tallied_file(1) [OF assms this]] Pair show ?thesis by (simp add: detail_error_def)
  qed
  from ends_with_for [of "by_count (perfile d)", OF this] show ?thesis
    unfolding report_details_def details_error_def by (simp add: ends_with_after)
qed

text \<open>
  C17. The report on a log that was read ends with a KeyError, whatever the order in which a counter
  is walked, exactly when some warning that has a file has a code without a text in
  errorcodes; the error names such a code. The list by code, which is there to skip the unknown
  codes, and the list by file are complete by then.
\<close>

theorem unknown_code_ends_report:
  assumes "parse_log lines no_warnings = Inr d" and "\<forall>ks. set (order ks) = set ks"
  shows "(case fst (warning_report order lines p) of
        Inr _ \<Rightarrow> (\<forall>(f, k) \<in> set (found [] lines). f = None \<or> known_code k)
      | Inl e \<Rightarrow> (\<exists>f k. (Some f, k) \<in> set (found [] lines) \<and> \<not> known_code k \<and> e = KeyError k))
    \<and> prefix (written (snd (eseq (report_codes d) (report_files d) p))) (written (snd (warning_report order lines p)))"
proof -
  have "lastline no_warnings = []" by (simp add: no_warnings_def)
  with parse_log_tallied [OF tallied_none assms(1)] have t: "tallied (found [] lines) d" by simp
  define q where "q = snd (eseq (report_codes d) (report_files d) p)"
  have run: "warning_report order lines p = report_details order d q"
    by (simp add: warning_report_def assms(1) ok_then q_def ebind_def)
  have ends: "fst (report_details order d q) = (case details_error order d of None \<Rightarrow> Inr () | Some e \<Rightarrow> Inl e)"
    using report_details_ends [OF t, of order] by (simp add: ends_with_def)
  have "prefix (written q) (written (snd (report_details order d q)))"
    using report_details_prints by (simp add: framed_def)
  moreover have "case fst (report_details order d q) of
        Inr _ \<Rightarrow> (\<forall>(f, k) \<in> set (found [] lines). f = None \<or> known_code k)
      | Inl e \<Rightarrow> (\<exists>f k. (Some f, k) \<in> set (found [] lines) \<and> \<not> known_code k \<and> e = KeyError k)"
  proof (cases "filter (\<lambda>x. detail_error order d x \<noteq> None) (by_count (perfile d))")
    case Nil
    then have none: "detail_error order d x = None" if "x \<in> set (perfile d)" for x
      using that by (auto simp: filter_empty_conv)
    have "known_code k" if w: "(Some f, k) \<in> set (found [] lines)" for f k
    proof -
      from tallied_has_file [OF t w] obtain v where "(f, v) \<in> set (perfile d)" ..
      with detail_error_known [OF t assms(2) this] none [OF this] w show ?thesis by simp
    qed
    then have "\<forall>(f, k) \<in> set (found [] lines). f = None \<or> known_code k" by (metis (mono_tags, lifting) case_prodI2 not_None_eq)
    with Nil show ?thesis unfolding ends by (simp add: details_error_def)
  next
    case (Cons x xs)
    then have "x \<in> set (filter (\<lambda>x. detail_error order d x \<noteq> None) (by_count (perfile d)))" by (metis list.set_intros(1))
    then have "x \<in> set (perfile d)" "detail_error order d x \<noteq> None" by simp_all
    with detail_error_known [OF t assms(2), of "fst x" "snd x"] obtain e where
      e: "detail_error order d x = Some e" "\<exists>k. (Some (fst x), k) \<in> set (found [] lines) \<and> \<not> known_code k \<and> e = KeyError k"
      by auto
    have "details_error order d = Some e" unfolding details_error_def Cons by (simp add: e(1))
    with e(2) show ?thesis unfolding ends by auto
  qed
  ultimately show ?thesis unfolding run q_def by simp
qed

theorem unknown_code_ends_report_witness:
  "fst (warning_report rev sample_log \<lparr>written = [], softspace = False\<rparr>) = Inl (KeyError ''26'')"
proof -
  have "(case parse_log sample_log no_warnings of Inl e \<Rightarrow> False | Inr d \<Rightarrow> True)" by code_simp
  then obtain d where d: "parse_log sample_log no_warnings = Inr d" by (auto split: sum.splits)
  have "\<forall>ks. set (rev ks) = set ks" by simp
  note outcome = unknown_code_ends_report [OF d this, of "\<lparr>written = [], softspace = False\<rparr>"]
  have f: "found [] sample_log = [(Some ''a.ml'', ''27''), (None, ''99''), (Some ''a.ml'', ''26'')]" by code_simp
  have k: "known_code ''27''" "\<not> known_code ''26''" by code_simp+
  from outcome show ?thesis unfolding f by (auto simp: k split: sum.splits)
qed

end
