(* ===== verification/SnarkJobs.thy ===== *)
theory SnarkJobs
  imports Py_Json Py_Effects Py_Regex
begin

text \<open>
  \<open>automation/scripts/get-snark-job-list.py\<close>: the scan state's trees of jobs, printed level by
  level, with a count of the leaves. Outside are the file of the configuration, the programs run
  and \<open>json.loads\<close>. The level test \<open>math.log(slotid + 2, 2) % 1 == 0\<close> is read as
  "\<open>slotid + 2\<close> is a power of two", which the floating-point logarithm gives below $2^{29}$.
\<close>

section \<open>Pieces\<close>

text \<open>\<open>s.center(width)\<close>\<close>

definition py_center :: "string \<Rightarrow> nat \<Rightarrow> string" where
  "py_center s width =
     (if width \<le> length s then s
      else let pad = width - length s; left = pad div 2 + (if odd pad \<and> odd width then 1 else 0)
           in replicate left CHR '' '' @ s @ replicate (pad - left) CHR '' '')"

fun power_of_two :: "nat \<Rightarrow> bool" where
  "power_of_two n = (if n \<le> 1 then n = 1 else even n \<and> power_of_two (n div 2))"

declare power_of_two.simps [simp del]

text \<open>\<open>not math.log(slotid + 2, 2) % 1\<close>\<close>

fun ends_level :: "json \<Rightarrow> bool result" where
  "ends_level (JInt i) = (if i + 2 \<le> 0 then Inl ValueError else Inr (power_of_two (nat (i + 2))))"
| "ends_level (JBool b) = Inr (power_of_two (of_bool b + 2))"
| "ends_level _ = Inl TypeError"

text \<open>\<open>print(counter)\<close>: the counts from the largest down, equal ones in the order of insertion\<close>

definition counter_repr :: "tally \<Rightarrow> string" where
  "counter_repr d =
     (if d = [] then ''Counter()''
      else ''Counter({'' @ py_join '', '' (map (\<lambda>(k, n). repr_string k @ '': '' @ str_nat n) (sort_key (\<lambda>(k, n). - int n) d)) @ ''})'')"

record job_printer =
  treecount :: nat
  leavesbytree :: tally
  leavestotal :: tally
  output_line :: string
  stdout :: "string list"

definition start_printer :: job_printer where
  "start_printer = \<lparr>treecount = 0, leavesbytree = [], leavestotal = [], output_line = [], stdout = []\<rparr>"

definition out :: "string \<Rightarrow> (job_printer, unit) eff" where
  "out line = emodify (\<lambda>s. s\<lparr>stdout := stdout s @ [line]\<rparr>)"

definition add_cell :: "string \<Rightarrow> (job_printer, unit) eff" where
  "add_cell cell = emodify (\<lambda>s. s\<lparr>output_line := output_line s @ cell\<rparr>)"

definition count_leaf :: "string \<Rightarrow> (job_printer, unit) eff" where
  "count_leaf k = emodify (\<lambda>s. s\<lparr>leavesbytree := bump k (leavesbytree s), leavestotal := bump k (leavestotal s)\<rparr>)"

section \<open>A job\<close>

text \<open>The letter of a leaf that is occupied.\<close>

definition status_cell :: "json \<Rightarrow> string result" where
  "status_cell b =
     rbind (json_index b 2) (\<lambda>third.
     rbind (json_contains ''Status'' third) (\<lambda>has.
     if has then rbind (json_item third ''Status'') (\<lambda>status.
        Inr (if status = JStr ''Todo'' then ''b'' else if status = JStr ''Done'' then ''B'' else ''?''))
     else Inr []))"

definition show_merge :: "json \<Rightarrow> (job_printer, unit) eff" where
  "show_merge data =
     ebind (elift (rbind (json_item data ''M'') json_len)) (\<lambda>n. add_cell (if 0 < n then str_nat n else ''_''))"

definition show_leaf :: "json \<Rightarrow> (job_printer, unit) eff" where
  "show_leaf data =
     ebind (elift (json_item data ''B'')) (\<lambda>b. ebind (elift (json_len b)) (\<lambda>n.
     eseq (if 0 < n then eseq (count_leaf ''occupied'') (ebind (elift (status_cell b)) add_cell)
           else eseq (count_leaf ''empty'') (add_cell ''_''))
       (count_leaf ''total'')))"

definition show_data :: "json \<Rightarrow> (job_printer, unit) eff" where
  "show_data data =
     ebind (elift (json_contains ''M'' data)) (\<lambda>merge.
     if merge then show_merge data
     else ebind (elift (json_contains ''B'' data)) (\<lambda>base.
       if base then show_leaf data else out (''fouind no match: '' @ json_str data)))"

text \<open>\<open>(slotid, data) = job\<close>\<close>

definition unpack2 :: "json \<Rightarrow> (json \<times> json) result" where
  "unpack2 job = rbind (json_iter job) (\<lambda>xs. case xs of [a, b] \<Rightarrow> Inr (a, b) | _ \<Rightarrow> Inl ValueError)"

text \<open>The end of a level: the line is printed, centred in half the size of the tree.\<close>

definition end_level :: "nat \<Rightarrow> json \<Rightarrow> (job_printer, unit) eff" where
  "end_level tree_size slotid =
     ebind (elift (ends_level slotid)) (\<lambda>b.
     if b then ebind (eget output_line) (\<lambda>line.
       eseq (out (py_center line (tree_size div 2))) (emodify (\<lambda>s. s\<lparr>output_line := []\<rparr>)))
     else eret ())"

definition show_job :: "nat \<Rightarrow> json \<Rightarrow> (job_printer, unit) eff" where
  "show_job tree_size job =
     ebind (elift (unpack2 job)) (\<lambda>(slotid, data). eseq (show_data data) (end_level tree_size slotid))"

section \<open>The trees\<close>

text \<open>The bytes of the tree sign in front of the header\<close>

definition tree_sign :: string where
  "tree_sign = [CHR 0xF0, CHR 0x9F, CHR 0x8C, CHR 0xB2]"

definition show_tree :: "json \<Rightarrow> (job_printer, unit) eff" where
  "show_tree tree =
     eseq (out (replicate 70 CHR ''=''))
     (ebind (elift (json_len tree)) (\<lambda>n. ebind (eget treecount) (\<lambda>k.
     eseq (out (tree_sign @ '': '' @ str_nat k @ '' Size: '' @ str_nat n))
     (eseq (emodify (\<lambda>s. s\<lparr>treecount := treecount s + 1, leavesbytree := [], output_line := []\<rparr>))
     (ebind (elift (json_iter tree)) (\<lambda>jobs.
     eseq (efor jobs (show_job n)) (ebind (eget leavesbytree) (\<lambda>t. out (counter_repr t)))))))))"

definition show_trees :: "json \<Rightarrow> (job_printer, unit) eff" where
  "show_trees snark_job_list =
     ebind (elift (json_iter snark_job_list)) (\<lambda>trees.
     eseq (efor trees show_tree) (ebind (eget leavestotal) (\<lambda>t. out (''TOTALS: '' @ counter_repr t))))"

text \<open>\<open>cli(cmd)\<close>: the output of a program, stripped\<close>

definition run_cli :: "(string list \<Rightarrow> string) \<Rightarrow> string \<Rightarrow> string" where
  "run_cli run cmd = py_strip (run (py_split cmd))"

text \<open>
  The script. The configuration is a text, or the message of the \<open>IOError\<close>; its testnet is looked
  up and not used.
\<close>

definition job_script ::
  "string + json result \<Rightarrow> (string \<Rightarrow> json result) \<Rightarrow> (string list \<Rightarrow> string) \<Rightarrow> (job_printer, unit) eff" where
  "job_script config loads run =
     (case config of
        Inl error \<Rightarrow> eseq (out (''Error opening secrets config: '' @ error)) (eraise (SystemExit 1))
      | Inr parsed \<Rightarrow> ebind (elift (rbind parsed (\<lambda>c. json_item c ''testnet''))) (\<lambda>testnet.
          ebind (elift (rbind (loads (run_cli run ''mina client status -json'')) (\<lambda>st. json_item st ''blockchain_length''))) (\<lambda>block.
          eseq (out (''Block: '' @ json_str block))
          (ebind (elift (loads (run_cli run ''mina advanced snark-job-list''))) show_trees))))"

section \<open>The levels of a tree\<close>

lemma power_of_two_iff: "power_of_two n \<longleftrightarrow> (\<exists>k. n = 2 ^ k)"
proof (induction n rule: power_of_two.induct)
  case (1 n)
  show ?case
  proof (cases "n \<le> 1")
    case True
    then consider "n = 0" | "n = 1" by linarith
    then show ?thesis by cases ((subst power_of_two.simps, simp), (subst power_of_two.simps, auto intro: exI [of _ 0]))
  next
    case False
    have "even n \<and> (\<exists>k. n div 2 = 2 ^ k) \<longleftrightarrow> (\<exists>k. n = 2 ^ k)"
    proof
      assume "even n \<and> (\<exists>k. n div 2 = 2 ^ k)"
      then obtain k where "n = 2 * 2 ^ k" by fastforce
      then show "\<exists>k. n = 2 ^ k" by (metis power_Suc)
    next
      assume "\<exists>k. n = 2 ^ k"
      then obtain k where "n = 2 ^ k" ..
      with False obtain m where "n = 2 ^ Suc m" by (cases k) auto
      then show "even n \<and> (\<exists>k. n div 2 = 2 ^ k)" by auto
    qed
    with 1 False show ?thesis by (subst power_of_two.simps) simp
  qed
qed

lemma level_end:
  assumes "j < 2 ^ l"
  shows "power_of_two (2 ^ l + 1 + j) \<longleftrightarrow> j = 2 ^ l - 1"
proof
  assume "power_of_two (2 ^ l + 1 + j)"
  then obtain k where k: "2 ^ l + 1 + j = 2 ^ k" by (auto simp: power_of_two_iff)
  have "(2 :: nat) ^ l < 2 ^ k" using k by linarith
  moreover have "(2 :: nat) ^ k \<le> 2 ^ (l + 1)" using k assms by simp
  ultimately have "l < k" "k \<le> l + 1" by (simp_all only: power_strict_increasing_iff power_increasing_iff)
  then have "k = l + 1" by simp
  with k show "j = 2 ^ l - 1" by simp
next
  assume "j = 2 ^ l - 1"
  then have "2 ^ l + 1 + j = 2 ^ Suc l" by simp
  then show "power_of_two (2 ^ l + 1 + j)" by (simp only: power_of_two_iff) blast
qed

text \<open>What a job adds to its line, for the jobs that raise nothing and are a merge or a leaf.\<close>

definition cell_of :: "json \<Rightarrow> string result" where
  "cell_of data =
     rbind (json_contains ''M'' data) (\<lambda>merge.
     if merge then rbind (json_item data ''M'') (\<lambda>m. rbind (json_len m) (\<lambda>n. Inr (if 0 < n then str_nat n else ''_'')))
     else rbind (json_contains ''B'' data) (\<lambda>base.
     if base then rbind (json_item data ''B'') (\<lambda>b. rbind (json_len b) (\<lambda>n. if 0 < n then status_cell b else Inr ''_''))
     else Inl ValueError))"

definition leaf_of :: "json \<Rightarrow> string option" where
  "leaf_of data =
     (if json_contains ''M'' data = Inr False \<and> json_contains ''B'' data = Inr True
      then Some (if rbind (json_item data ''B'') json_len = Inr 0 then ''empty'' else ''occupied'') else None)"

definition add_leaf :: "string option \<Rightarrow> tally \<Rightarrow> tally" where
  "add_leaf k t = (case k of None \<Rightarrow> t | Some l \<Rightarrow> bump ''total'' (bump l t))"

definition shown :: "string \<Rightarrow> json \<Rightarrow> job_printer \<Rightarrow> job_printer" where
  "shown cell data s = s\<lparr>output_line := output_line s @ cell,
     leavesbytree := add_leaf (leaf_of data) (leavesbytree s), leavestotal := add_leaf (leaf_of data) (leavestotal s)\<rparr>"

lemma show_data_cell:
  assumes "cell_of data = Inr cell"
  shows "show_data data s = (Inr (), shown cell data s)"
proof (cases "json_contains ''M'' data")
  case (Inl e)
  with assms show ?thesis by (simp add: cell_of_def)
next
  case m: (Inr merge)
  show ?thesis
  proof (cases merge)
    case True
    with m assms show ?thesis
      by (auto simp: cell_of_def show_data_def show_merge_def add_cell_def shown_def leaf_of_def add_leaf_def ebind_def rbind_eq_Inr)
  next
    case False
    with m assms have b: "json_contains ''B'' data = Inr True"
      by (auto simp: cell_of_def rbind_eq_Inr split: if_splits)
    with m False assms obtain b n where "json_item data ''B'' = Inr b" "json_len b = Inr n"
        "(if 0 < n then status_cell b else Inr ''_'') = Inr cell"
      by (auto simp: cell_of_def rbind_eq_Inr)
    with m b False show ?thesis
      by (auto simp: show_data_def show_leaf_def count_leaf_def add_cell_def shown_def leaf_of_def add_leaf_def ebind_def
          eseq_def split: if_splits)
  qed
qed

definition job :: "nat \<Rightarrow> json \<Rightarrow> json" where
  "job slot data = JList [JInt (int slot), data]"

lemma show_job_cell:
  assumes "cell_of data = Inr cell"
  shows "show_job n (job slot data) s =
     (Inr (), let t = shown cell data s in
       if power_of_two (slot + 2) then t\<lparr>stdout := stdout t @ [py_center (output_line t) (n div 2)], output_line := []\<rparr> else t)"
proof -
  have "nat (int slot + 2) = slot + 2" by simp
  then show ?thesis
    by (simp add: show_job_def job_def unpack2_def eseq_def ebind_def show_data_cell [OF assms] end_level_def out_def Let_def)
qed

text \<open>The part of a level from the slot \<open>j\<close> of the level on.\<close>

lemma show_level_from:
  assumes "list_all2 (\<lambda>d c. cell_of d = Inr c) ds cs" and "ds \<noteq> []" and "j + length ds = 2 ^ l"
  shows "\<exists>t. efor (map2 job [2 ^ l - 1 + j..<2 ^ l - 1 + 2 ^ l] ds) (show_job n) s = (Inr (), t)
      \<and> stdout t = stdout s @ [py_center (output_line s @ concat cs) (n div 2)] \<and> output_line t = []
      \<and> leavesbytree t = fold add_leaf (map leaf_of ds) (leavesbytree s)
      \<and> leavestotal t = fold add_leaf (map leaf_of ds) (leavestotal s)"
  using assms
proof (induction ds arbitrary: cs j s)
  case (Cons d ds)
  then obtain c cs' where cs: "cs = c # cs'" and c: "cell_of d = Inr c"
    and cs': "list_all2 (\<lambda>d c. cell_of d = Inr c) ds cs'" by (cases cs) auto
  from Cons.prems(3) have j: "j < 2 ^ l" by simp
  have upt: "[2 ^ l - 1 + j..<2 ^ l - 1 + 2 ^ l] = (2 ^ l - 1 + j) # [2 ^ l - 1 + Suc j..<2 ^ l - 1 + 2 ^ l]"
    using j by (simp add: upt_conv_Cons)
  have slot: "2 ^ l - 1 + j + 2 = 2 ^ l + 1 + j" by simp
  define u where "u = shown c d s"
  have step: "show_job n (job (2 ^ l - 1 + j) d) s =
     (Inr (), if j = 2 ^ l - 1 then u\<lparr>stdout := stdout u @ [py_center (output_line u) (n div 2)], output_line := []\<rparr> else u)"
    unfolding show_job_cell [OF c] slot level_end [OF j] by (simp add: u_def Let_def)
  have u: "output_line u = output_line s @ c" "stdout u = stdout s"
      "leavesbytree u = add_leaf (leaf_of d) (leavesbytree s)" "leavestotal u = add_leaf (leaf_of d) (leavestotal s)"
    by (simp_all add: u_def shown_def)
  show ?case
  proof (cases "ds = []")
    case True
    with Cons.prems(3) have "j = 2 ^ l - 1" by simp
    with True cs cs' step u show ?thesis unfolding upt by (simp add: eseq_run(1))
  next
    case False
    with Cons.prems(3) have "j \<noteq> 2 ^ l - 1" by (cases ds) auto
    with step have "show_job n (job (2 ^ l - 1 + j) d) s = (Inr (), u)" by simp
    moreover have "Suc j + length ds = 2 ^ l" using Cons.prems(3) by simp
    ultimately show ?thesis using Cons.IH [OF cs' False, of "Suc j" u] u
      unfolding upt cs by (simp add: eseq_run(1))
  qed
qed simp

text \<open>The levels of a tree: the slots $2^l - 1$ to $2^{l+1} - 2$.\<close>

definition level :: "nat \<Rightarrow> 'a list \<Rightarrow> 'a list" where
  "level l xs = take (2 ^ l) (drop (2 ^ l - 1) xs)"

lemma efor_append: "efor (xs @ ys) f = eseq (efor xs f) (efor ys f)"
  by (induction xs) (auto simp: eseq_def ebind_def fun_eq_iff split: prod.splits sum.splits)

lemma show_levels:
  assumes "list_all2 (\<lambda>d c. cell_of d = Inr c) ds cs" and "length ds = 2 ^ k - 1" and "output_line s = []"
  shows "\<exists>t. efor (map2 job [0..<2 ^ k - 1] ds) (show_job n) s = (Inr (), t)
      \<and> stdout t = stdout s @ map (\<lambda>l. py_center (concat (level l cs)) (n div 2)) [0..<k] \<and> output_line t = []
      \<and> leavesbytree t = fold add_leaf (map leaf_of ds) (leavesbytree s)
      \<and> leavestotal t = fold add_leaf (map leaf_of ds) (leavestotal s)"
  using assms(1,2)
proof (induction k arbitrary: ds cs)
  case 0
  then show ?case using assms(3) by simp
next
  case (Suc k)
  define m where "m = (2 :: nat) ^ k - 1"
  have m: "2 ^ Suc k - 1 = m + 2 ^ k" by (simp add: m_def)
  have len: "length cs = m + 2 ^ k" "length ds = m + 2 ^ k"
    using Suc.prems m by (auto dest: list_all2_lengthD)
  obtain t where t: "efor (map2 job [0..<m] (take m ds)) (show_job n) s = (Inr (), t)"
      "stdout t = stdout s @ map (\<lambda>l. py_center (concat (level l (take m cs))) (n div 2)) [0..<k]" "output_line t = []"
      "leavesbytree t = fold add_leaf (map leaf_of (take m ds)) (leavesbytree s)"
      "leavestotal t = fold add_leaf (map leaf_of (take m ds)) (leavestotal s)"
    using Suc.IH [of "take m ds" "take m cs", folded m_def] Suc.prems(1) len by (auto simp: list_all2_takeI)
  have ne: "drop m ds \<noteq> []" and part: "0 + length (drop m ds) = 2 ^ k" using len by simp_all
  note lev = show_level_from [OF list_all2_dropI [OF Suc.prems(1), of m] ne part, of n t, folded m_def,
      unfolded t(3) append_Nil add_0_right]
  then obtain u where u: "efor (map2 job [m..<m + 2 ^ k] (drop m ds)) (show_job n) t = (Inr (), u)"
      "stdout u = stdout t @ [py_center (concat (drop m cs)) (n div 2)]" "output_line u = []"
      "leavesbytree u = fold add_leaf (map leaf_of (drop m ds)) (leavesbytree t)"
      "leavestotal u = fold add_leaf (map leaf_of (drop m ds)) (leavestotal t)"
    by (elim exE conjE) (rule that)
  have split: "map2 job [0..<m + 2 ^ k] ds = map2 job [0..<m] (take m ds) @ map2 job [m..<m + 2 ^ k] (drop m ds)"
  proof -
    have "[0..<m + 2 ^ k] = [0..<m] @ [m..<m + 2 ^ k]" by (rule upt_add_eq_append) simp
    moreover have "zip ([0..<m] @ [m..<m + 2 ^ k]) (take m ds @ drop m ds) = zip [0..<m] (take m ds) @ zip [m..<m + 2 ^ k] (drop m ds)"
      using len by (intro zip_append) (simp add: length_upt)
    ultimately show ?thesis by (simp only: append_take_drop_id map_append)
  qed
  have low: "level l (take m cs) = level l cs" if "l < k" for l
  proof -
    have "(2 :: nat) ^ Suc l \<le> 2 ^ k" using that by (intro power_increasing) auto
    then have "2 ^ l - 1 + 2 ^ l \<le> m" unfolding m_def by simp
    then show ?thesis unfolding level_def drop_take by simp
  qed
  have top: "level k cs = drop m cs" using len by (simp add: level_def m_def)
  have folds: "fold add_leaf (map leaf_of (drop m ds)) (fold add_leaf (map leaf_of (take m ds)) x) = fold add_leaf (map leaf_of ds) x" for x
    by (metis append_take_drop_id fold_append comp_apply map_append)
  show ?case
    unfolding m split efor_append
    by (rule exI [of _ u]) (simp add: eseq_run(1) [where m = "efor (map2 job [0..<m] (take m ds)) (show_job n)", OF t(1)] u t(2,4,5) folds low top)
qed

text \<open>
  C39. A tree whose jobs are the slots 0 to $2^k - 2$ in order, each a merge or a leaf that raises
  nothing, is printed level by level: after the rule and the header come the levels from the root
  down, the level l on one line with the cells of its $2^l$ slots in order, centred in half the size
  of the tree; then the counts of the leaves of this tree; and no cell is left over
  for the next tree. (The end of a level is tested as by real logarithms; the floating-point ones of the
  source give the same for slots below $2^{29} - 2$.)
\<close>

theorem tree_levels:
  assumes "list_all2 (\<lambda>d c. cell_of d = Inr c) ds cs" and "length ds = 2 ^ k - 1"
  shows "\<exists>t. show_tree (JList (map2 job [0..<2 ^ k - 1] ds)) s = (Inr (), t)
      \<and> stdout t = stdout s @ [replicate 70 CHR ''='', tree_sign @ '': '' @ str_nat (treecount s) @ '' Size: '' @ str_nat (2 ^ k - 1)]
          @ map (\<lambda>l. py_center (concat (level l cs)) ((2 ^ k - 1) div 2)) [0..<k]
          @ [counter_repr (fold add_leaf (map leaf_of ds) [])]
      \<and> output_line t = []
      \<and> leavestotal t = fold add_leaf (map leaf_of ds) (leavestotal s)"
proof -
  define n where "n = (2 :: nat) ^ k - 1"
  define s' where "s' = s\<lparr>stdout := stdout s @ [replicate 70 CHR ''='', tree_sign @ '': '' @ str_nat (treecount s) @ '' Size: '' @ str_nat n],
     treecount := treecount s + 1, leavesbytree := [], output_line := []\<rparr>"
  have len: "length (map2 job [0..<n] ds) = n" using assms(2) by (simp add: n_def)
  from show_levels [OF assms, of s' n] obtain t where t: "efor (map2 job [0..<n] ds) (show_job n) s' = (Inr (), t)"
      "stdout t = stdout s' @ map (\<lambda>l. py_center (concat (level l cs)) (n div 2)) [0..<k]" "output_line t = []"
      "leavesbytree t = fold add_leaf (map leaf_of ds) []"
      "leavestotal t = fold add_leaf (map leaf_of ds) (leavestotal s')"
    by (auto simp: s'_def n_def)
  have "show_tree (JList (map2 job [0..<n] ds)) s = (Inr (), t\<lparr>stdout := stdout t @ [counter_repr (leavesbytree t)]\<rparr>)"
    using t(1) len unfolding show_tree_def
    by (simp add: eseq_def ebind_def out_def json_len_def s'_def del: length_map length_zip length_upt)
  with t show ?thesis unfolding n_def [symmetric] by (simp add: s'_def)
qed

definition sample_jobs :: "json list" where
  "sample_jobs =
     [JDict [(''M'', JList [])],
      JDict [(''B'', JList [JInt 1, JInt 2, JDict [(''Status'', JStr ''Todo'')]])],
      JDict [(''B'', JList [])]]"

theorem tree_levels_witness:
  "\<exists>t. show_tree (JList (map2 job [0..<3] sample_jobs)) start_printer = (Inr (), t)
      \<and> drop 2 (stdout t) = [''_'', ''b_'', ''Counter({'' @ [CHR 39] @ ''total'' @ [CHR 39] @ '': 2, '' @ [CHR 39] @ ''occupied'' @ [CHR 39]
           @ '': 1, '' @ [CHR 39] @ ''empty'' @ [CHR 39] @ '': 1})'']"
proof -
  have "list_all2 (\<lambda>d c. cell_of d = Inr c) sample_jobs [''_'', ''b'', ''_'']" by code_simp
  moreover have "length sample_jobs = 2 ^ 2 - 1" by (simp add: sample_jobs_def)
  ultimately obtain t where t: "show_tree (JList (map2 job [0..<2 ^ 2 - 1] sample_jobs)) start_printer = (Inr (), t)"
    "stdout t = stdout start_printer @ [replicate 70 CHR ''='', tree_sign @ '': '' @ str_nat (treecount start_printer) @ '' Size: '' @ str_nat (2 ^ 2 - 1)]
          @ map (\<lambda>l. py_center (concat (level l [''_'', ''b'', ''_''])) ((2 ^ 2 - 1) div 2)) [0..<2]
          @ [counter_repr (fold add_leaf (map leaf_of sample_jobs) [])]"
    using tree_levels [of sample_jobs "[''_'', ''b'', ''_'']" 2 start_printer] by blast
  have l: "map (\<lambda>l. py_center (concat (level l [''_'', ''b'', ''_''])) ((2 ^ 2 - 1) div 2)) [0..<2] = [''_'', ''b_'']" by code_simp
  have c: "counter_repr (fold add_leaf (map leaf_of sample_jobs) []) = ''Counter({'' @ [CHR 39] @ ''total'' @ [CHR 39] @ '': 2, '' @ [CHR 39] @ ''occupied'' @ [CHR 39]
           @ '': 1, '' @ [CHR 39] @ ''empty'' @ [CHR 39] @ '': 1})''" by code_simp
  have n: "(2 :: nat) ^ 2 - 1 = 3" by simp
  from t(2) [unfolded l c] have "drop 2 (stdout t) = [''_'', ''b_''] @ [''Counter({'' @ [CHR 39] @ ''total'' @ [CHR 39] @ '': 2, '' @ [CHR 39] @ ''occupied'' @ [CHR 39]
           @ '': 1, '' @ [CHR 39] @ ''empty'' @ [CHR 39] @ '': 1})'']" by (simp add: start_printer_def)
  with t(1) [unfolded n] show ?thesis by auto
qed

end
