(* ===== verification/RepoTools.thy ===== *)
theory RepoTools
  imports Py_Json Py_Effects
begin

text \<open>
  Small tools of the repository: \<open>scripts/introspection_query.py\<close> (the schema of a GraphQL server),
  \<open>scripts/update_branch_rule.py\<close> (the required checks of a branch),
  \<open>scripts/generate-genesis-ledger.py\<close> (the accounts for a template, in Python 2) and
  \<open>scripts/archive/change_constraint.py\<close>. Outside are the HTTP connections, jinja, the program
  \<open>coda\<close> and the parser of JSON; the writer of JSON is modelled.
\<close>

section \<open>JSON as text\<close>

text \<open>The escapes of \<open>json.dumps\<close>, which writes ASCII only\<close>

definition json_escape :: "char \<Rightarrow> string" where
  "json_escape c =
     (let n = (of_char c :: nat) in
      if c = CHR 0x22 \<or> c = CHR 0x5C then [CHR 0x5C, c]
      else if 32 \<le> n \<and> n \<le> 126 then [c]
      else if n = 10 then [CHR 0x5C, CHR ''n''] else if n = 13 then [CHR 0x5C, CHR ''r'']
      else if n = 9 then [CHR 0x5C, CHR ''t''] else if n = 12 then [CHR 0x5C, CHR ''f'']
      else if n = 8 then [CHR 0x5C, CHR ''b'']
      else [CHR 0x5C, CHR ''u'', CHR ''0'', CHR ''0'', hex_digit (n div 16), hex_digit (n mod 16)])"

definition json_string :: "string \<Rightarrow> string" where
  "json_string s = [CHR 0x22] @ concat (map json_escape s) @ [CHR 0x22]"

fun json_dumps :: "json \<Rightarrow> string" where
  "json_dumps JNull = ''null''"
| "json_dumps (JBool b) = (if b then ''true'' else ''false'')"
| "json_dumps (JInt n) = str_int n"
| "json_dumps (JStr s) = json_string s"
| "json_dumps (JList xs) = ''['' @ py_join '', '' (map json_dumps xs) @ '']''"
| "json_dumps (JDict kvs) = ''{'' @ py_join '', '' (map (\<lambda>(k, v). json_string k @ '': '' @ json_dumps v) kvs) @ ''}''"

text \<open>\<open>json.dumps(v, indent=2)\<close> at a depth\<close>

definition new_line :: "nat \<Rightarrow> string" where
  "new_line depth = ''\<newline>'' @ replicate (2 * depth) CHR '' ''"

fun json_dumps_indent :: "nat \<Rightarrow> json \<Rightarrow> string" where
  "json_dumps_indent d (JList xs) =
     (if xs = [] then ''[]''
      else ''['' @ new_line (d + 1) @ py_join ('','' @ new_line (d + 1)) (map (json_dumps_indent (d + 1)) xs) @ new_line d @ '']'')"
| "json_dumps_indent d (JDict kvs) =
     (if kvs = [] then ''{}''
      else ''{'' @ new_line (d + 1) @
        py_join ('','' @ new_line (d + 1)) (map (\<lambda>(k, v). json_string k @ '': '' @ json_dumps_indent (d + 1) v) kvs) @
        new_line d @ ''}'')"
| "json_dumps_indent d v = json_dumps v"

section \<open>introspection\_query.py\<close>

definition introspection_lines :: "string list" where
  "introspection_lines =
    ['''',
     ''query IntrospectionQuery {'',
     ''    __schema {'',
     ''      queryType { name }'',
     ''      mutationType { name }'',
     ''      subscriptionType { name }'',
     ''      types {'',
     ''        ...FullType'',
     ''      }'',
     ''      directives {'',
     ''        name'',
     ''        description'',
     ''        locations'',
     ''        args {'',
     ''          ...InputValue'',
     ''        }'',
     ''      }'',
     ''    }'',
     ''  }'',
     ''  fragment FullType on __Type {'',
     ''    kind'',
     ''    name'',
     ''    description'',
     ''    fields(includeDeprecated: true) {'',
     ''      name'',
     ''      description'',
     ''      args {'',
     ''        ...InputValue'',
     ''      }'',
     ''      type {'',
     ''        ...TypeRef'',
     ''      }'',
     ''      isDeprecated'',
     ''      deprecationReason'',
     ''    }'',
     ''    inputFields {'',
     ''      ...InputValue'',
     ''    }'',
     ''    interfaces {'',
     ''      ...TypeRef'',
     ''    }'',
     ''    enumValues(includeDeprecated: true) {'',
     ''      name'',
     ''      description'',
     ''      isDeprecated'',
     ''      deprecationReason'',
     ''    }'',
     ''    possibleTypes {'',
     ''      ...TypeRef'',
     ''    }'',
     ''  }'',
     ''  fragment InputValue on __InputValue {'',
     ''    name'',
     ''    description'',
     ''    type { ...TypeRef }'',
     ''    defaultValue'',
     ''  }'',
     ''  fragment TypeRef on __Type {'',
     ''    kind'',
     ''    name'',
     ''    ofType {'',
     ''      kind'',
     ''      name'',
     ''      ofType {'',
     ''        kind'',
     ''        name'',
     ''        ofType {'',
     ''          kind'',
     ''          name'',
     ''          ofType {'',
     ''            kind'',
     ''            name'',
     ''            ofType {'',
     ''              kind'',
     ''              name'',
     ''              ofType {'',
     ''                kind'',
     ''                name'',
     ''                ofType {'',
     ''                  kind'',
     ''                  name'',
     ''                }'',
     ''              }'',
     ''            }'',
     ''          }'',
     ''        }'',
     ''      }'',
     ''    }'',
     ''  }'']"

definition introspection_query :: string where
  "introspection_query = py_join ''\<newline>'' introspection_lines"

record web_request =
  port :: int
  uri :: string
  body :: string
  headers :: "(string, string) dict"

record tool =
  sent :: "web_request list"
  shown :: "string list"
  complaints :: "string list"

text \<open>\<open>d.update(pairs)\<close> with a list of lists: each must have two items\<close>

definition header_pair :: "string list \<Rightarrow> (string \<times> string) result" where
  "header_pair kv = (case kv of [k, v] \<Rightarrow> Inr (k, v) | _ \<Rightarrow> Inl ValueError)"

fun update_headers :: "(string, string) dict \<Rightarrow> string list list \<Rightarrow> (string, string) dict result" where
  "update_headers h [] = Inr h"
| "update_headers h (kv # kvs) = rbind (header_pair kv) (\<lambda>(k, v). update_headers (AList.update k v h) kvs)"

definition schema_request :: "int \<Rightarrow> string \<Rightarrow> string list list \<Rightarrow> web_request result" where
  "schema_request prt ur extra_headers =
     rbind (update_headers [(''Content-type'', ''application/json''), (''Accept'', ''text/plain'')] extra_headers) (\<lambda>h.
       Inr \<lparr>port = prt, uri = ur,
         body = json_dumps (JDict [(''query'', JStr introspection_query), (''variables'', JNull),
           (''operationName'', JStr ''IntrospectionQuery'')]),
         headers = h\<rparr>)"

definition print_out :: "string \<Rightarrow> (tool, unit) eff" where
  "print_out line = emodify (\<lambda>s. s\<lparr>shown := shown s @ [line]\<rparr>)"

definition print_schema ::
  "(web_request \<Rightarrow> string result) \<Rightarrow> (string \<Rightarrow> json result) \<Rightarrow> int \<Rightarrow> string \<Rightarrow> string list list \<Rightarrow> (tool, unit) eff" where
  "print_schema answer loads prt ur extra_headers =
     ebind (elift (schema_request prt ur extra_headers)) (\<lambda>r.
     eseq (emodify (\<lambda>s. s\<lparr>sent := sent s @ [r]\<rparr>))
     (ebind (elift (rbind (answer r) loads)) (\<lambda>parsed. print_out (json_dumps_indent 0 parsed))))"

text \<open>\<open>main\<close> after \<open>argparse\<close>\<close>

definition introspection_main ::
  "(web_request \<Rightarrow> string result) \<Rightarrow> (string \<Rightarrow> json result) \<Rightarrow> int \<Rightarrow> string \<Rightarrow> string list \<Rightarrow> (tool, unit) eff" where
  "introspection_main answer loads prt ur header_args =
     print_schema answer loads prt ur (map (split_on (CHR '':'')) header_args)"

section \<open>update\_branch\_rule.py\<close>

type_synonym patch = "string \<times> string list \<times> string"

definition status_url :: "string \<Rightarrow> string" where
  "status_url branch_name =
     ''https://api.github.com/repos/MinaProtocol/mina/branches/'' @ branch_name @ ''/protection/required_status_checks''"

text \<open>\<open>list(filter(bool, rf.read().split('\n')))\<close>\<close>

definition required_checks :: "string \<Rightarrow> string list" where
  "required_checks content = filter (\<lambda>w. w \<noteq> []) (split_on CHR ''\<newline>'' content)"

text \<open>\<open>main\<close>: the file, the token of the environment and the answer of the server are outside.\<close>

definition update_rule ::
  "(string \<Rightarrow> string result) \<Rightarrow> string option \<Rightarrow> (patch \<Rightarrow> unit result) \<Rightarrow> string \<Rightarrow> string \<Rightarrow> (patch list \<times> string list, unit) eff" where
  "update_rule read token patch_answer required_file branch_name =
     ebind (elift (read required_file)) (\<lambda>content.
     if required_checks content = [] then
       eseq (emodify (\<lambda>(ps, errs). (ps, errs @ [''required status was empty, this is probably in error and I refuse to turn off all status checks''])))
         (eraise (SystemExit 1))
     else (case token of
         None \<Rightarrow> eraise (KeyError ''GITHUB_API_TOKEN'')
       | Some t \<Rightarrow> (let p = (status_url branch_name, required_checks content, t) in
           eseq (emodify (\<lambda>(ps, errs). (ps @ [p], errs))) (elift (patch_answer p)))))"

text \<open>The command line: the name of the program, the file and the branch\<close>

definition update_rule_script ::
  "(string \<Rightarrow> string result) \<Rightarrow> string option \<Rightarrow> (patch \<Rightarrow> unit result) \<Rightarrow> string list \<Rightarrow> (patch list \<times> string list, unit) eff" where
  "update_rule_script read token patch_answer argv =
     (case argv of
        [prog, required_file, branch_name] \<Rightarrow> update_rule read token patch_answer required_file branch_name
      | _ \<Rightarrow> eseq (emodify (\<lambda>(ps, errs). (ps, errs @
               [''Usage: '' @ hd argv @ '' path_to_file_containing_required_status_checks branch_name''])))
             (eraise (SystemExit 1)))"

section \<open>generate-genesis-ledger.py\<close>

text \<open>\<open>os.path.splitext\<close>: the last dot of the last component, unless only dots are before it\<close>

definition split_ext :: "string \<Rightarrow> string \<times> string" where
  "split_ext p =
     (let base = basename p; ext = rev (takeWhile (\<lambda>c. c \<noteq> CHR ''.'') (rev base)) in
      if CHR ''.'' \<in> set base \<and> (\<exists>c\<in>set (take (length base - length ext - 1) base). c \<noteq> CHR ''.'')
      then (take (length p - length ext - 1) p, CHR ''.'' # ext) else (p, []))"

definition quote_account :: "string \<Rightarrow> string" where
  "quote_account acct = [CHR 0x22] @ py_replace [CHR 0x22] [CHR 0x5C, CHR 0x22] acct @ [CHR 0x22]"

definition ledger_accounts :: "string \<Rightarrow> string list" where
  "ledger_accounts output = map quote_account (split_on CHR ''\<newline>'' output)"

text \<open>\<open>render\<close> is jinja: the directory, the name of the template, the accounts and the time.\<close>

definition render_ledger ::
  "(string \<Rightarrow> string \<Rightarrow> string list \<Rightarrow> string \<Rightarrow> string result) \<Rightarrow> string result \<Rightarrow> string \<Rightarrow> string list \<Rightarrow> string result" where
  "render_ledger render dump_ledger now argv =
     rbind (py_get argv 1) (\<lambda>jinja_file.
     if snd (split_ext jinja_file) \<noteq> ''.jinja'' then Inl AssertionError
     else rbind dump_ledger (\<lambda>output.
       rbind (render (dirname jinja_file) (basename jinja_file) (ledger_accounts output) now) (\<lambda>rendered.
       Inr (rendered @ ''\<newline>''))))"

section \<open>change\_constraint.py\<close>

definition change_constraint :: "string \<Rightarrow> string" where
  "change_constraint stdin =
     py_replace ([CHR 0x22] @ ''constraint'' @ [CHR 0x22]) ([CHR 0x22] @ ''constraint_'' @ [CHR 0x22]) stdin @ ''\<newline>''"

section \<open>Reading a string literal back\<close>

definition hex_val :: "char \<Rightarrow> nat" where
  "hex_val c = (let n = (of_char c :: nat) in if n < 97 then n - 48 else n - 87)"

text \<open>The character an escape other than \<open>u\<close> stands for.\<close>

definition escaped :: "char \<Rightarrow> char" where
  "escaped e =
     (if e = CHR ''n'' then CHR 0x0A else if e = CHR ''r'' then CHR 0x0D else if e = CHR ''t'' then CHR 0x09
      else if e = CHR ''f'' then CHR 0x0C else if e = CHR ''b'' then CHR 0x08 else e)"

definition push_char :: "char \<Rightarrow> (string \<times> string) option \<Rightarrow> (string \<times> string) option" where
  "push_char c r = map_option (\<lambda>(s, rest). (c # s, rest)) r"

text \<open>The literal after its opening quote: its text and what is behind the closing quote.\<close>

fun read_literal :: "string \<Rightarrow> (string \<times> string) option" where
  "read_literal [] = None"
| "read_literal (c # cs) =
     (if c = CHR 0x22 then Some ([], cs)
      else if c = CHR 0x5C then
        (case cs of
           [] \<Rightarrow> None
         | e # es \<Rightarrow>
             if e = CHR ''u'' then
               (case es of
                  _ # _ # x # y # r \<Rightarrow> push_char (char_of (16 * hex_val x + hex_val y)) (read_literal r)
                | _ \<Rightarrow> None)
             else push_char (escaped e) (read_literal es))
      else push_char c (read_literal cs))"

lemma hex_val_digit: "d < 16 \<Longrightarrow> hex_val (hex_digit d) = d"
  by (auto simp: hex_val_def hex_digit_def of_char_of)

lemma char_of_control:
  "char_of (10 :: nat) = CHR 0x0A" "char_of (13 :: nat) = CHR 0x0D" "char_of (9 :: nat) = CHR 0x09"
  "char_of (12 :: nat) = CHR 0x0C" "char_of (8 :: nat) = CHR 0x08"
  by code_simp+

lemma read_escape: "read_literal (json_escape c @ r) = push_char c (read_literal r)"
proof -
  define n where "n = (of_char c :: nat)"
  have n: "n < 256" unfolding n_def by (rule nat_of_char_less_256)
  have c: "c = char_of n" by (simp add: n_def)
  consider "c = CHR 0x22 \<or> c = CHR 0x5C" | "c \<noteq> CHR 0x22" "c \<noteq> CHR 0x5C" "32 \<le> n \<and> n \<le> 126"
    | "c \<noteq> CHR 0x22" "c \<noteq> CHR 0x5C" "\<not> (32 \<le> n \<and> n \<le> 126)" "n \<in> {10, 13, 9, 12, 8}"
    | "c \<noteq> CHR 0x22" "c \<noteq> CHR 0x5C" "\<not> (32 \<le> n \<and> n \<le> 126)" "n \<notin> {10, 13, 9, 12, 8}" by blast
  then show ?thesis
  proof cases
    case 1
    then show ?thesis by (auto simp: json_escape_def escaped_def)
  next
    case 2
    then show ?thesis by (simp add: json_escape_def Let_def n_def [symmetric])
  next
    case 3
    then consider "n = 10" | "n = 13" | "n = 9" | "n = 12" | "n = 8" by blast
    then have "json_escape c = [CHR 0x5C, if n = 10 then CHR ''n'' else if n = 13 then CHR ''r'' else if n = 9 then CHR ''t''
        else if n = 12 then CHR ''f'' else CHR ''b'']"
      using 3(1,2) by cases (simp_all add: json_escape_def Let_def n_def [symmetric])
    moreover have "escaped (if n = 10 then CHR ''n'' else if n = 13 then CHR ''r'' else if n = 9 then CHR ''t''
        else if n = 12 then CHR ''f'' else CHR ''b'') = c"
      using \<open>n \<in> {10, 13, 9, 12, 8}\<close> unfolding c by (auto simp: escaped_def char_of_control)
    ultimately show ?thesis by simp
  next
    case 4
    have "16 * hex_val (hex_digit (n div 16)) + hex_val (hex_digit (n mod 16)) = n"
      using n by (simp add: hex_val_digit less_mult_imp_div_less)
    moreover have "json_escape c = [CHR 0x5C, CHR ''u'', CHR ''0'', CHR ''0'', hex_digit (n div 16), hex_digit (n mod 16)]"
      using 4 by (auto simp: json_escape_def Let_def n_def [symmetric])
    ultimately show ?thesis by (simp add: c [symmetric])
  qed
qed

lemma read_json_string: "read_literal (tl (json_string s) @ rest) = Some (s, rest)"
proof -
  have "read_literal (concat (map json_escape s) @ CHR 0x22 # rest) = Some (s, rest)"
    by (induction s) (simp_all add: read_escape push_char_def)
  then show ?thesis by (simp add: json_string_def)
qed

text \<open>The whole of \<open>update_headers\<close>: it fails on the first argument without exactly one colon.\<close>

lemma update_headers_outcome:
  "update_headers h kvs =
     (if \<forall>kv\<in>set kvs. length kv = 2 then Inr (dict_update h (map (\<lambda>kv. (kv ! 0, kv ! 1)) kvs)) else Inl ValueError)"
proof (induction kvs arbitrary: h)
  case Nil
  show ?case by (simp add: dict_update_def)
next
  case (Cons kv kvs)
  show ?case
  proof (cases "length kv = 2")
    case True
    then obtain k v where "kv = [k, v]" by (auto simp: numeral_2_eq_2 length_Suc_conv)
    with Cons show ?thesis by (simp add: header_pair_def dict_update_def)
  next
    case False
    then have "header_pair kv = Inl ValueError" by (auto simp: header_pair_def split: list.splits)
    with False show ?thesis by simp
  qed
qed

text \<open>
  What the schema download sends: when every header argument holds exactly one colon, it sends one
  request, to the port and path asked for, whose body begins with the query as a JSON string
  that reads back as the introspection query, and whose headers are the two of the script
  overridden by the arguments in order; otherwise it raises a \<open>ValueError\<close> and sends nothing.
\<close>

theorem schema_request_sent:
  "(if \<forall>arg\<in>set header_args. length (split_on (CHR '':'') arg) = 2
    then \<exists>r rest. sent (snd (introspection_main answer loads prt ur header_args s)) = sent s @ [r] \<and> port r = prt \<and> uri r = ur
      \<and> take 11 (body r) = ''{\"query\": \"''
      \<and> read_literal (drop 11 (body r)) = Some (introspection_query, rest)
      \<and> headers r = dict_update [(''Content-type'', ''application/json''), (''Accept'', ''text/plain'')]
          (map (\<lambda>arg. (split_on (CHR '':'') arg ! 0, split_on (CHR '':'') arg ! 1)) header_args)
    else introspection_main answer loads prt ur header_args s = (Inl ValueError, s))"
proof (cases "\<forall>arg\<in>set header_args. length (split_on (CHR '':'') arg) = 2")
  case False
  then show ?thesis
    by (auto simp: introspection_main_def print_schema_def schema_request_def update_headers_outcome ebind_def)
next
  case True
  define h where "h = dict_update [(''Content-type'', ''application/json''), (''Accept'', ''text/plain'')]
          (map (\<lambda>arg. (split_on (CHR '':'') arg ! 0, split_on (CHR '':'') arg ! 1)) header_args)"
  define q where "q = introspection_query"
  define r where "r = \<lparr>port = prt, uri = ur,
         body = json_dumps (JDict [(''query'', JStr q), (''variables'', JNull),
           (''operationName'', JStr ''IntrospectionQuery'')]), headers = h\<rparr>"
  have "schema_request prt ur (map (split_on (CHR '':'')) header_args) = Inr r"
    using True by (simp add: schema_request_def update_headers_outcome r_def q_def h_def comp_def)
  then have "sent (snd (introspection_main answer loads prt ur header_args s)) = sent s @ [r]"
    by (auto simp: introspection_main_def print_schema_def ebind_def eseq_def print_out_def split: sum.splits)
  moreover
  define rest where "rest = '', \"variables\": null, \"operationName\": \"IntrospectionQuery\"}''"
  have "body r = ''{\"query\": \"'' @ tl (json_string q) @ rest"
    by (simp add: r_def json_string_def json_escape_def rest_def)
  then have "take 11 (body r) = ''{\"query\": \"''" "read_literal (drop 11 (body r)) = Some (q, rest)"
    by (simp_all add: read_json_string)
  ultimately show ?thesis using True unfolding h_def [symmetric] q_def [symmetric]
    by (auto simp: r_def)
qed

theorem schema_request_sent_witness:
  "length (sent (snd (introspection_main (\<lambda>r. Inr ''{}'') (\<lambda>t. Inr JNull) 8080 ''/graphql'' [''Key:abc'']
     \<lparr>sent = [], shown = [], complaints = []\<rparr>))) = 1
   \<and> fst (introspection_main (\<lambda>r. Inr ''{}'') (\<lambda>t. Inr JNull) 8080 ''/graphql'' [''Host:a:80'']
     \<lparr>sent = [], shown = [], complaints = []\<rparr>) = Inl ValueError"
proof -
  have one: "length (split_on (CHR '':'') ''Key:abc'') = 2" and three: "length (split_on (CHR '':'') ''Host:a:80'') = 3"
    by code_simp+
  show ?thesis
    using schema_request_sent [of "[''Key:abc'']" "\<lambda>r. Inr ''{}''" "\<lambda>t. Inr JNull" 8080 "''/graphql''"
        "\<lparr>sent = [], shown = [], complaints = []\<rparr>"]
      schema_request_sent [of "[''Host:a:80'']" "\<lambda>r. Inr ''{}''" "\<lambda>t. Inr JNull" 8080 "''/graphql''"
        "\<lparr>sent = [], shown = [], complaints = []\<rparr>"]
    by (auto simp only: list.set ball_simps one three if_True if_False) auto
qed

text \<open>
  The required checks of a branch are never switched off: a run sends at most one request, with the
  non-empty lines of the file in order, of which there is at least one; without such a line it
  sends nothing and exits with code 1.
\<close>

theorem checks_never_empty:
  "fst (snd (update_rule read token patch_answer file branch (ps, errs))) =
     (case (read file, token) of
        (Inr content, Some t) \<Rightarrow> ps @ (if required_checks content = [] then [] else [(status_url branch, required_checks content, t)])
      | _ \<Rightarrow> ps)
   \<and> (case read file of Inr content \<Rightarrow> (required_checks content = [] \<longleftrightarrow> set (split_on (CHR 0x0A) content) = {[]})
        \<and> (if required_checks content = [] then fst (update_rule read token patch_answer file branch (ps, errs)) = Inl (SystemExit 1) else True)
      | Inl e \<Rightarrow> fst (update_rule read token patch_answer file branch (ps, errs)) = Inl e)"
proof (cases "read file")
  case (Inl e)
  then show ?thesis by (simp add: update_rule_def ebind_def)
next
  case (Inr content)
  have "required_checks content = [] \<longleftrightarrow> set (split_on (CHR 0x0A) content) = {[]}"
    using split_on_not_Nil [of "CHR 0x0A" content] unfolding required_checks_def filter_empty_conv
    by (cases "split_on (CHR 0x0A) content") auto
  with Inr show ?thesis
    by (auto simp: update_rule_def ebind_def eseq_def Let_def split: option.splits)
qed

text \<open>
  An account of the ledger without a backslash is quoted so that the literal in the template reads back as
  the account; one with a quote that is escaped already is not.
\<close>

lemma py_replace_char: "py_replace [q] new s = concat (map (\<lambda>c. if c = q then new else [c]) s)"
  by (induction s) auto

lemma account_literal:
  assumes "CHR 0x5C \<notin> set acct"
  shows "read_literal (tl (quote_account acct)) = Some (acct, [])"
proof -
  have "read_literal (concat (map (\<lambda>c. if c = CHR 0x22 then [CHR 0x5C, CHR 0x22] else [c]) acct) @ [CHR 0x22]) = Some (acct, [])"
    using assms by (induction acct) (auto simp: push_char_def escaped_def)
  then show ?thesis by (simp add: quote_account_def py_replace_char)
qed

lemma account_literal_broken:
  "read_literal (tl (quote_account [CHR 0x5C, CHR 0x22])) = Some ([CHR 0x5C], [CHR 0x22])"
  by code_simp

end
