(* ===== verification/Crs.thy ===== *)
theory Crs
  imports Py_Effects "HOL-Library.Word"
begin

text \<open>
  The source of bits of \<open>docs/specs/signatures/crs.py\<close>: digests of a counter, read bit by bit
  from a state that holds the current digest, the number of the next one and the position.
  \<open>hashlib.blake2s(...).digest()\<close> is an argument of the model, a function on byte strings. The lemma
  \<open>next_bit_step\<close> shows that the state machine reads the infinite stream \<open>crs_bit\<close> in order.
\<close>

unbundle bit_operations_syntax

type_synonym bytes = "8 word list"

type_synonym digest_fun = "bytes \<Rightarrow> bytes"

definition ascii_bytes :: "string \<Rightarrow> bytes" where
  "ascii_bytes s = map of_char s"

definition seed :: bytes where
  "seed = ascii_bytes ''CodaPedersenParams''"

definition digest_length :: int where
  "digest_length = 256"

record crs_state =
  st_digest :: bytes
  st_i :: int
  st_j :: int

definition ith_digest :: "digest_fun \<Rightarrow> int \<Rightarrow> bytes" where
  "ith_digest H i = H (seed @ ascii_bytes (str_int i))"

definition ith_bit :: "bytes \<Rightarrow> int \<Rightarrow> bool result" where
  "ith_bit s i = rbind (py_get s (i div 8)) (\<lambda>b. Inr (drop_bit (nat (i mod 8)) b AND 1 = 1))"

definition crs_init :: "digest_fun \<Rightarrow> crs_state" where
  "crs_init H = \<lparr>st_digest = ith_digest H 0, st_i = 1, st_j = 0\<rparr>"

definition next_bit :: "digest_fun \<Rightarrow> (crs_state, bool) eff" where
  "next_bit H s =
     (if st_j s = digest_length then
        let digest = ith_digest H (st_i s) in
          (ith_bit digest 0, s\<lparr>st_digest := digest, st_i := st_i s + 1, st_j := 1\<rparr>)
      else let j = st_j s; s' = s\<lparr>st_j := j + 1\<rparr> in (ith_bit (st_digest s') j, s'))"

section \<open>The stream of bits\<close>

text \<open>Bit \<open>k\<close> of the concatenation of all digests.\<close>

definition crs_bit :: "digest_fun \<Rightarrow> nat \<Rightarrow> bool" where
  "crs_bit H k = bit (ith_digest H (int (k div 256)) ! (k mod 256 div 8)) (k mod 8)"

text \<open>The documented size of a BLAKE2s digest.\<close>

definition digest_size :: "digest_fun \<Rightarrow> bool" where
  "digest_size H \<longleftrightarrow> (\<forall>x. length (H x) = 32)"

text \<open>The state after \<open>k\<close> bits.\<close>

definition crs_at :: "digest_fun \<Rightarrow> nat \<Rightarrow> crs_state \<Rightarrow> bool" where
  "crs_at H k s \<longleftrightarrow> st_digest s = ith_digest H (st_i s - 1) \<and> 1 \<le> st_i s \<and>
     0 \<le> st_j s \<and> st_j s \<le> 256 \<and> int k = (st_i s - 1) * 256 + st_j s"

lemma and_1_bit: "(drop_bit n b AND 1 = (1 :: 8 word)) \<longleftrightarrow> bit b n"
  by (simp only: bit_iff_odd_drop_bit odd_iff_mod_2_eq_one and_one_eq)

lemma ith_bit_eq:
  assumes "length d = 32" and "j < 256"
  shows "ith_bit d (int j) = Inr (bit (d ! (j div 8)) (j mod 8))"
proof -
  have "int j div 8 = int (j div 8)" "int j mod 8 = int (j mod 8)"
    by (simp_all only: zdiv_int zmod_int of_nat_numeral)
  moreover have "j div 8 < 32" using assms(2) by simp
  ultimately show ?thesis
    using assms(1) by (simp add: ith_bit_def py_get_def and_1_bit)
qed

lemma next_bit_step:
  assumes H: "digest_size H" and at: "crs_at H k s"
  shows "\<exists>t. next_bit H s = (Inr (crs_bit H k), t) \<and> crs_at H (Suc k) t"
proof (cases "st_j s = 256")
  case True
  have k: "k = nat (st_i s) * 256" using at True by (auto simp: crs_at_def)
  have "0 \<le> st_i s" using at by (simp add: crs_at_def)
  then have "ith_bit (ith_digest H (st_i s)) 0 = Inr (crs_bit H k)"
    using ith_bit_eq [of "ith_digest H (st_i s)" 0] H
    by (simp add: k crs_bit_def digest_size_def ith_digest_def)
  with True at show ?thesis
    by (auto simp: next_bit_def digest_length_def crs_at_def Let_def)
next
  case False
  define j where "j = nat (st_j s)"
  have j: "st_j s = int j" "j < 256" using at False by (auto simp: crs_at_def j_def)
  have k: "k = nat (st_i s - 1) * 256 + j" using at by (auto simp: crs_at_def j_def)
  then have kj: "k div 256 = nat (st_i s - 1)" "k mod 256 = j" using j(2) by simp_all
  moreover have "k mod 256 mod 8 = k mod 8" by (rule mod_mod_cancel) simp
  ultimately have kj: "k div 256 = nat (st_i s - 1)" "k mod 256 = j" "k mod 8 = j mod 8" by simp_all
  with kj at j H have "ith_bit (st_digest s) (st_j s) = Inr (crs_bit H k)"
    using ith_bit_eq [of "st_digest s" j]
    by (simp add: crs_bit_def crs_at_def digest_size_def ith_digest_def)
  with False at show ?thesis
    by (auto simp: next_bit_def digest_length_def crs_at_def Let_def)
qed

lemma bits_drawn:
  "digest_size H \<Longrightarrow> crs_at H k s \<Longrightarrow>
   \<exists>t. emapM (\<lambda>_. next_bit H) xs s = (Inr (map (crs_bit H) [k..<k + length xs]), t) \<and>
     crs_at H (k + length xs) t"
proof (induction xs arbitrary: k s)
  case (Cons x xs)
  from next_bit_step [OF Cons.prems] obtain t where
    t: "next_bit H s = (Inr (crs_bit H k), t)" "crs_at H (Suc k) t" by blast
  from Cons.IH [OF Cons.prems(1) t(2)] obtain u where
    u: "emapM (\<lambda>_. next_bit H) xs t = (Inr (map (crs_bit H) [Suc k..<Suc k + length xs]), u)"
    "crs_at H (Suc k + length xs) u" by blast
  have "[k..<k + length (x # xs)] = k # [Suc k..<Suc k + length xs]" by (simp add: upt_rec)
  with t(1) u show ?case by (simp add: ebind_def)
qed simp

lemma crs_at_init: "crs_at H 0 (crs_init H)"
  by (simp add: crs_at_def crs_init_def)

text \<open>
  C40. The bits next_bit returns, call after call from the state the module starts in, are the
  bits of the BLAKE2s digests of the seed with 0, 1, 2 and so on, each digest read whole, byte by
  byte and from the lowest bit up: no bit is lost or read twice where one digest ends and the
  next begins.
\<close>

theorem crs_stream:
  assumes "digest_size H"
  shows "fst (emapM (\<lambda>_. next_bit H) [0..<k] (crs_init H)) =
    Inr (map (\<lambda>i. bit (ith_digest H (int (i div 256)) ! (i mod 256 div 8)) (i mod 8)) [0..<k])"
  using bits_drawn [OF assms crs_at_init, of "[0..<k]"] by (auto simp: crs_bit_def [abs_def])

theorem crs_stream_witness:
  "fst (emapM (\<lambda>_. next_bit (\<lambda>x. replicate 32 (last x))) [0..<300] (crs_init (\<lambda>x. replicate 32 (last x)))) =
    Inr (map (\<lambda>i. bit (ith_digest (\<lambda>x. replicate 32 (last x)) (int (i div 256)) ! (i mod 256 div 8)) (i mod 8))
      [0..<300])"
  by (rule crs_stream) (simp add: digest_size_def)

end
