(* ===== verification/ModArith.thy ===== *)
theory ModArith
  imports Py_Strings
begin

text \<open>
  Arithmetic modulo a prime, as far as the reference implementation of signatures relies on it:
  the three-argument \<open>pow\<close>, Fermat's theorem, inverses, the bound on the number of roots of a
  polynomial, and from it that every odd prime has a quadratic non-residue. Primality is a
  decidable predicate on \<open>int\<close>, and congruences are divisibility of differences.
\<close>

definition is_prime :: "int \<Rightarrow> bool" where
  "is_prime p \<longleftrightarrow> 1 < p \<and> (\<forall>d\<in>{2..<p}. \<not> d dvd p)"

text \<open>\<open>pow(x, k, m)\<close> for an exponent that is not negative.\<close>

definition pow3 :: "int \<Rightarrow> int \<Rightarrow> int \<Rightarrow> int" where
  "pow3 x k m = x ^ nat k mod m"

section \<open>Primes\<close>

lemma is_prime_gt1: "is_prime p \<Longrightarrow> 1 < p"
  by (simp add: is_prime_def)

lemma prime_coprime:
  assumes "is_prime p" and "\<not> p dvd a"
  shows "coprime p (a::int)"
proof -
  let ?g = "gcd p a"
  have pos: "1 < p" and "?g dvd p" using assms(1) by (simp_all add: is_prime_def)
  moreover from pos have "?g \<le> p" using \<open>?g dvd p\<close> by (simp add: zdvd_imp_le)
  moreover from pos have "0 < ?g" by simp
  moreover have "?g \<noteq> p" using assms(2) by (metis gcd_dvd2)
  ultimately have "?g = 1"
    using assms(1) unfolding is_prime_def by (metis atLeastLessThan_iff int_one_le_iff_zero_less le_less one_add_one zless_imp_add1_zle)
  then show ?thesis by (simp add: coprime_iff_gcd_eq_1)
qed

lemma prime_dvd_mult:
  assumes "is_prime p"
  shows "p dvd a * b \<longleftrightarrow> p dvd a \<or> p dvd (b::int)"
proof (cases "p dvd a")
  case False
  with prime_coprime [OF assms] show ?thesis by (simp add: coprime_dvd_mult_right_iff)
qed simp

lemma prime_dvd_power: "is_prime p \<Longrightarrow> p dvd a ^ k \<Longrightarrow> p dvd (a::int)"
  using is_prime_gt1 [of p] by (induction k) (auto simp: prime_dvd_mult zdvd_not_zless)

lemma prime_dvd_prod:
  assumes "is_prime p" and "finite S"
  shows "p dvd \<Prod>S \<longleftrightarrow> (\<exists>k\<in>S. p dvd (k::int))"
  using assms(2) is_prime_gt1 [OF assms(1)]
  by induction (auto simp: prime_dvd_mult [OF assms(1)] zdvd_not_zless)

lemma small_dvd: "p dvd x \<Longrightarrow> \<bar>x\<bar> < p \<Longrightarrow> x = (0::int)"
  using dvd_imp_le_int [of x p] by (cases "x = 0") simp_all

lemma mod_eq_dvd: "x mod p = y mod p \<longleftrightarrow> p dvd x - (y::int)"
  by (rule mod_eq_dvd_iff)

lemma mod_dvd_diff: "p dvd x mod p - (x::int)"
  by (simp only: mod_eq_dvd [symmetric] mod_mod_trivial)

lemma dvd_mod_swap: "p dvd x mod p - y \<longleftrightarrow> p dvd x - (y::int)"
  by (simp only: mod_eq_dvd [symmetric] mod_mod_trivial)

lemma dvd_power_diff: "p dvd x - y \<Longrightarrow> p dvd x ^ k - (y::int) ^ k"
  by (metis mod_eq_dvd power_mod)

section \<open>Fermat's theorem\<close>

lemma mult_permutes:
  assumes p: "is_prime p" and x: "\<not> p dvd x"
  shows "(\<lambda>k. x * k mod p) ` {1..<p} = {1..<p::int}"
proof (rule card_subset_eq)
  have pos: "0 < p" using is_prime_gt1 [OF p] by simp
  show "(\<lambda>k. x * k mod p) ` {1..<p} \<subseteq> {1..<p}"
  proof (rule image_subsetI)
    fix k assume k: "k \<in> {1..<p}"
    then have "\<not> p dvd k" using zdvd_not_zless by auto
    then have "x * k mod p \<noteq> 0" using p x by (simp add: prime_dvd_mult dvd_eq_mod_eq_0 [symmetric])
    with pos_mod_sign [OF pos, of "x * k"] have "1 \<le> x * k mod p" by linarith
    with pos show "x * k mod p \<in> {1..<p}"
      using pos_mod_sign [of p "x * k"] pos_mod_bound [of p "x * k"] by (auto simp: order_less_le)
  qed
  have "inj_on (\<lambda>k. x * k mod p) {1..<p}"
  proof (rule inj_onI)
    fix k l assume kl: "k \<in> {1..<p}" "l \<in> {1..<p}" and "x * k mod p = x * l mod p"
    then have "p dvd x * (k - l)" by (simp add: mod_eq_dvd right_diff_distrib)
    with p x have "p dvd k - l" by (simp add: prime_dvd_mult)
    then have "k - l = 0" by (rule small_dvd) (use kl in auto)
    then show "k = l" by simp
  qed
  then show "card ((\<lambda>k. x * k mod p) ` {1..<p}) = card {1..<p}" by (rule card_image)
qed simp

lemma fermat:
  assumes p: "is_prime p" and x: "\<not> p dvd x"
  shows "p dvd x ^ nat (p - 1) - (1::int)"
proof -
  let ?S = "{1..<p}"
  have inj: "inj_on (\<lambda>k. x * k mod p) ?S"
    by (rule eq_card_imp_inj_on) (simp_all add: mult_permutes [OF p x])
  have "\<Prod>?S = (\<Prod>k\<in>?S. x * k mod p)"
    using prod.reindex [OF inj, of "\<lambda>k. k"] by (simp add: mult_permutes [OF p x])
  then have "\<Prod>?S mod p = (\<Prod>k\<in>?S. x * k) mod p" by (simp add: mod_prod_eq)
  also have "(\<Prod>k\<in>?S. x * k) = x ^ card ?S * \<Prod>?S" by (simp add: prod.distrib)
  finally have "p dvd (x ^ card ?S - 1) * \<Prod>?S"
    by (subst (asm) eq_commute) (simp add: mod_eq_dvd left_diff_distrib)
  moreover have "\<not> p dvd \<Prod>?S" by (auto simp: prime_dvd_prod [OF p] zdvd_not_zless)
  ultimately show ?thesis by (simp add: prime_dvd_mult [OF p])
qed

lemma inverse_pow:
  assumes p: "is_prime p" and x: "\<not> p dvd x"
  shows "p dvd x * pow3 x (p - 2) p - 1"
proof -
  have "nat (p - 1) = Suc (nat (p - 2))" using is_prime_gt1 [OF p] by simp
  with fermat [OF assms] have "p dvd x * x ^ nat (p - 2) - 1" by simp
  then show ?thesis unfolding pow3_def by (metis mod_eq_dvd mod_mult_right_eq)
qed

section \<open>Roots and non-residues\<close>

fun poly_at :: "int list \<Rightarrow> int \<Rightarrow> int" where
  "poly_at [] x = 0"
| "poly_at (c # cs) x = c + x * poly_at cs x"

text \<open>Division of a polynomial by the linear factor of \<open>r\<close>.\<close>

fun divide_root :: "int \<Rightarrow> int list \<Rightarrow> int list" where
  "divide_root r (c # d # ds) = poly_at (d # ds) r # divide_root r (d # ds)"
| "divide_root r cs = []"

lemma divide_root_eq:
  "poly_at cs x - poly_at cs r = (x - r) * poly_at (divide_root r cs) x"
proof (induction r cs rule: divide_root.induct)
  case (1 r c d ds)
  let ?D = "poly_at (d # ds)"
  have "poly_at (c # d # ds) x - poly_at (c # d # ds) r = x * (?D x - ?D r) + (x - r) * ?D r"
    by (simp only: poly_at.simps) (simp add: algebra_simps)
  also have "\<dots> = (x - r) * (?D r + x * poly_at (divide_root r (d # ds)) x)"
    by (simp only: 1) (simp add: algebra_simps)
  finally show ?case by simp
qed simp_all

lemma divide_root_shape:
  "length cs = Suc (Suc k) \<Longrightarrow> length (divide_root r cs) = Suc k \<and> last (divide_root r cs) = last cs"
proof (induction r cs arbitrary: k rule: divide_root.induct)
  case (1 r c d ds)
  then show ?case by (cases ds; cases k) auto
qed simp_all

lemma root_bound:
  assumes p: "is_prime p" and "finite R" and "R \<subseteq> {0..<p}" and "\<And>r. r \<in> R \<Longrightarrow> p dvd poly_at cs r"
    and "length cs = Suc k" and "k < card R"
  shows "p dvd last cs"
  using assms(2-)
proof (induction k arbitrary: cs R)
  case 0
  then obtain r c where "r \<in> R" "cs = [c]" by (cases cs) (auto simp: card_gt_0_iff)
  with "0.prems"(3) [of r] show ?case by simp
next
  case (Suc k)
  then obtain r where r: "r \<in> R" by (cases "R = {}") auto
  let ?q = "divide_root r cs"
  have "p dvd last ?q"
  proof (rule Suc.IH [of "R - {r}"])
    fix s assume s: "s \<in> R - {r}"
    then have "p dvd poly_at cs s - poly_at cs r" using Suc.prems(3) r by (simp add: dvd_diff)
    then have "p dvd (s - r) * poly_at ?q s" by (simp only: divide_root_eq)
    moreover have "\<not> p dvd s - r"
    proof
      assume "p dvd s - r"
      moreover have "s \<in> {0..<p}" "r \<in> {0..<p}" using s r Suc.prems(2) by auto
      then have "\<bar>s - r\<bar> < p" by auto
      ultimately have "s - r = 0" by (metis small_dvd)
      with s show False by simp
    qed
    ultimately show "p dvd poly_at ?q s" by (simp add: prime_dvd_mult [OF p])
  qed (use Suc.prems r divide_root_shape [OF Suc.prems(4)] in auto)
  with divide_root_shape [OF Suc.prems(4)] show ?case by simp
qed

lemma poly_at_monomial: "poly_at (replicate k 0 @ [1]) x = x ^ k"
  by (induction k) simp_all

lemma half_pow_cases:
  assumes p: "is_prime p" and odd: "odd p" and x: "\<not> p dvd x"
  shows "p dvd x ^ nat ((p - 1) div 2) - 1 \<or> p dvd x ^ nat ((p - 1) div 2) + 1"
proof -
  let ?h = "nat ((p - 1) div 2)"
  have "nat (p - 1) = ?h + ?h" using odd is_prime_gt1 [OF p] by (auto elim!: oddE)
  with fermat [OF p x] have "p dvd (x ^ ?h - 1) * (x ^ ?h + 1)"
    by (simp add: power_add algebra_simps)
  then show ?thesis by (simp add: prime_dvd_mult [OF p])
qed

lemma nonresidue_exists:
  assumes p: "is_prime p" and odd: "odd p"
  shows "\<exists>z\<in>{1..<p}. p dvd z ^ nat ((p - 1) div 2) + 1"
proof (rule ccontr)
  assume none: "\<not> (\<exists>z\<in>{1..<p}. p dvd z ^ nat ((p - 1) div 2) + 1)"
  define h where "h = nat ((p - 1) div 2)"
  have p3: "3 \<le> p" using is_prime_gt1 [OF p] odd by (cases "p = 2") auto
  then have h0: "0 < h" by (simp add: h_def)
  let ?cs = "(-1) # replicate (h - 1) 0 @ [1 :: int]"
  have "p dvd last ?cs"
  proof (rule root_bound [OF p, of "{1..<p}" _ h])
    fix z assume z: "z \<in> {1..<p}"
    then have "\<not> p dvd z" by (simp add: zdvd_not_zless)
    from half_pow_cases [OF p odd this] none z have "p dvd z ^ h - 1" by (auto simp: h_def)
    moreover have "poly_at ?cs z = z ^ h - 1"
      using h0 by (cases h) (simp_all add: poly_at_monomial)
    ultimately show "p dvd poly_at ?cs z" by simp
  qed (use p3 h0 in \<open>auto simp: h_def\<close>)
  then show False using p3 by (simp add: zdvd_not_zless)
qed

end
