(* ===== verification/SigField.thy ===== *)
theory SigField
  imports ModArith Py_Effects
begin

text \<open>
  The number-theoretic part of \<open>docs/specs/signatures/reference.py\<close>: the constants of the curve
  as a record, the Legendre symbol and the square roots modulo \<open>p\<close> by the algorithm of Tonelli and
  Shanks. A \<open>while\<close> loop whose end depends on the numbers is a partial function into
  \<open>option\<close>; the main lemma shows that for an odd prime the function returns, raises nothing and
  gives exactly the square roots.
\<close>

text \<open>
  A curve point in coordinates is a Python tuple or a list of two numbers (\<open>point_from_bytes\<close>
  returns a list); a tuple never equals a list. The point at infinity is \<open>None\<close>.
\<close>

datatype point = Tup (px: int) (py: int) | Lst (px: int) (py: int)

text \<open>The globals of the module: \<open>a\<close>, \<open>b\<close>, \<open>p\<close>, \<open>n\<close>, \<open>G\<close> and \<open>N\<close>.\<close>

record curve =
  a_coeff :: int
  b_coeff :: int
  field_p :: int
  order_n :: int
  base_G :: point
  bits_N :: nat

definition mina_curve :: curve where
  "mina_curve = \<lparr>
     a_coeff = 11,
     b_coeff = 0x7DA285E70863C79D56446237CE2E1468D14AE9BB64B2BB01B10E60A5D5DFE0A25714B7985993F62F03B22A9A3C737A1A1E0FCF2C43D7BF847957C34CCA1E3585F9A80A95F401867C4E80F4747FDE5ABA7505BA6FCF2485540B13DFC8468A,
     field_p = 0x1C4C62D92C41110229022EEE2CDADB7F997505B8FAFED5EB7E8F96C97D87307FDB925E8A0ED8D99D124D9A15AF79DB26C5C28C859A99B3EEBCA9429212636B9DFF97634993AA4D6C381BC3F0057974EA099170FA13A4FD90776E240000001,
     order_n = 0x1C4C62D92C41110229022EEE2CDADB7F997505B8FAFED5EB7E8F96C97D87307FDB925E8A0ED8D99D124D9A15AF79DB117E776F218059DB80F0DA5CB537E38685ACCE9767254A4638810719AC425F0E39D54522CDD119F5E9063DE245E8001,
     base_G = Tup
       0xB0D6E141836D261DBE17959758B33A19987126CB808DFA411854CF0A44C0F4962ECA2A213FFEAA770DAD44F59F260AC64C9FCB46DA65CBC9EEBE1CE9B83F91A64B685106D5F1E4A05DDFAE9B2E1A567E0E74C1B7FF94CC3F361FB1F064AA
       0x30BD0DCB53B85BD013043029438966FFEC9438150AD06F59B4CC8DDA8BFF0FE5D3F4F63E46AC91576D1B4A15076774FEB51BA730F83FC9EB56E9BCC9233E031577A744C336E1EDFF5513BF5C9A4D234BCC4AD6D9F1B3FDF00E16446A8268,
     bits_N = 753\<rparr>"

section \<open>Square roots\<close>

definition legendre_symbol :: "curve \<Rightarrow> int \<Rightarrow> int" where
  "legendre_symbol c a = (let ls = pow3 a ((field_p c - 1) div 2) (field_p c) in
     if ls = field_p c - 1 then -1 else ls)"

definition is_square :: "curve \<Rightarrow> int \<Rightarrow> bool" where
  "is_square c x \<longleftrightarrow> legendre_symbol c x = 1"

text \<open>\<open>while q % 2 == 0\<close>\<close>

partial_function (option) split_twos :: "int \<Rightarrow> int \<Rightarrow> (int \<times> int) option" where
  "split_twos q s = (if q mod 2 = 0 then split_twos (q div 2) (s + 1) else Some (q, s))"

text \<open>\<open>while legendre_symbol(z) != -1\<close>\<close>

partial_function (option) find_nonresidue :: "curve \<Rightarrow> int \<Rightarrow> int option" where
  "find_nonresidue c z = (if legendre_symbol c z \<noteq> -1 then find_nonresidue c (z + 1) else Some z)"

text \<open>\<open>for i in range(1, m)\<close> with its \<open>break\<close>; the first argument after \<open>e\<close> is the current \<open>i\<close>.\<close>

fun lowest_i :: "curve \<Rightarrow> int \<Rightarrow> int \<Rightarrow> int \<Rightarrow> int list \<Rightarrow> int" where
  "lowest_i c t e i [] = i"
| "lowest_i c t e i (k # ks) =
     (if pow3 t e (field_p c) = 1 then k else lowest_i c t (e * 2) k ks)"

text \<open>\<open>while t != 1\<close>; a negative exponent of 2 is a float, which \<open>pow\<close> refuses.\<close>

partial_function (option) sqrt_loop :: "curve \<Rightarrow> int \<Rightarrow> int \<Rightarrow> int \<Rightarrow> int \<Rightarrow> int result option" where
  "sqrt_loop c x cc t m =
     (if t = 1 then Some (Inr x)
      else let i = lowest_i c t 2 0 [1..m - 1] in
        if m - i - 1 < 0 then Some (Inl TypeError)
        else let b = pow3 cc (2 ^ nat (m - i - 1)) (field_p c) in
          sqrt_loop c (x * b mod field_p c) (b * b mod field_p c) (t * b * b mod field_p c) i)"

definition prime_mod_sqrt :: "curve \<Rightarrow> int \<Rightarrow> int list result option" where
  "prime_mod_sqrt c a0 = (let p = field_p c; a = a0 mod p in
     if a = 0 then Some (Inr [0])
     else if p = 2 then Some (Inr [a])
     else if legendre_symbol c a \<noteq> 1 then Some (Inr [])
     else if p mod 4 = 3 then (let x = pow3 a ((p + 1) div 4) p in Some (Inr [x, p - x]))
     else Option.bind (split_twos (p - 1) 0) (\<lambda>(q, s).
       Option.bind (find_nonresidue c 1) (\<lambda>z.
         Option.bind (sqrt_loop c (pow3 a ((q + 1) div 2) p) (pow3 z q p) (pow3 a q p) s)
           (\<lambda>r. Some (rbind r (\<lambda>x. Inr [x, p - x]))))))"

definition both_sqrt :: "curve \<Rightarrow> int \<Rightarrow> (int \<times> int) result option" where
  "both_sqrt c y2 = Option.bind (prime_mod_sqrt c y2) (\<lambda>r. Some (rbind r (\<lambda>ys. case ys of
     [y, negy] \<Rightarrow> Inr (if y < negy then (y, negy) else (negy, y))
   | _ \<Rightarrow> Inl ValueError)))"

section \<open>The loops\<close>

lemma split_twos_spec:
  "0 < q \<Longrightarrow> \<exists>q' k. split_twos q s = Some (q', s + int k) \<and> odd q' \<and> 0 < q' \<and> q = q' * 2 ^ k"
proof (induction "nat q" arbitrary: q s rule: less_induct)
  case less
  show ?case
  proof (cases "q mod 2 = 0")
    case True
    with less.prems have "nat (q div 2) < nat q" "0 < q div 2" by auto
    from less.hyps [OF this, of "s + 1"] obtain q' k where
      "split_twos (q div 2) (s + 1) = Some (q', s + 1 + int k)" "odd q'" "0 < q'" "q div 2 = q' * 2 ^ k"
      by blast
    with True show ?thesis
      by (intro exI [of _ q'] exI [of _ "Suc k"]) (auto simp: split_twos.simps [of q])
  next
    case False
    with less.prems show ?thesis
      by (intro exI [of _ q] exI [of _ 0]) (auto simp: split_twos.simps [of q] odd_iff_mod_2_eq_one)
  qed
qed

lemma find_nonresidue_spec:
  "legendre_symbol c z0 = -1 \<Longrightarrow> z \<le> z0 \<Longrightarrow>
   \<exists>z'. find_nonresidue c z = Some z' \<and> legendre_symbol c z' = -1"
proof (induction "nat (z0 - z)" arbitrary: z rule: less_induct)
  case less
  show ?case
  proof (cases "legendre_symbol c z = -1")
    case True
    then show ?thesis by (simp add: find_nonresidue.simps [of c z])
  next
    case False
    with less.prems have "z \<noteq> z0" by auto
    with less.prems have "nat (z0 - (z + 1)) < nat (z0 - z)" "z + 1 \<le> z0" by auto
    from less.hyps [OF this(1) less.prems(1) this(2)] False show ?thesis
      by (simp add: find_nonresidue.simps [of c z])
  qed
qed

lemma lowest_i_spec:
  fixes j m :: nat
  assumes "j < m" and "pow3 t (2 ^ (m - 1)) (field_p c) = 1"
  shows "\<exists>k. lowest_i c t (2 ^ j) i [int j..int m - 1] = int k \<and> j \<le> k \<and> k < m \<and>
    pow3 t (2 ^ k) (field_p c) = 1 \<and> (\<forall>l\<in>{j..<k}. pow3 t (2 ^ l) (field_p c) \<noteq> 1)"
  using assms(1)
proof (induction "m - j" arbitrary: j i rule: less_induct)
  case less
  have list: "[int j..int m - 1] = int j # [int (Suc j)..int m - 1]"
    using less.prems by (simp add: upto_rec1 add.commute)
  show ?case
  proof (cases "pow3 t (2 ^ j) (field_p c) = 1")
    case True
    with less.prems list show ?thesis by (intro exI [of _ j]) simp
  next
    case False
    with assms(2) less.prems have "j \<noteq> m - 1" by auto
    with less.prems have "m - Suc j < m - j" "Suc j < m" by auto
    from less.hyps [OF this, of "int j"] obtain k where k:
      "lowest_i c t (2 ^ Suc j) (int j) [int (Suc j)..int m - 1] = int k" "Suc j \<le> k" "k < m"
      "pow3 t (2 ^ k) (field_p c) = 1" "\<forall>l\<in>{Suc j..<k}. pow3 t (2 ^ l) (field_p c) \<noteq> 1" by blast
    moreover have "lowest_i c t (2 ^ j) i [int j..int m - 1] = int k"
      using False k(1) list by (simp add: mult.commute)
    moreover have "\<forall>l\<in>{j..<k}. pow3 t (2 ^ l) (field_p c) \<noteq> 1"
      using False k(5) by (metis atLeastLessThan_iff less_eq_Suc_le order_le_less)
    ultimately show ?thesis by (intro exI [of _ k]) auto
  qed
qed

section \<open>Euler's criterion\<close>

lemma odd_prime_gt2: "is_prime p \<Longrightarrow> odd p \<Longrightarrow> 2 < p"
  using is_prime_gt1 [of p] by (cases "p = 2") auto

lemma pow3_eq_1: "1 < p \<Longrightarrow> pow3 x k p = 1 \<longleftrightarrow> p dvd x ^ nat k - 1"
  unfolding pow3_def by (metis mod_eq_dvd mod_pos_pos_trivial zero_le_one)

lemma legendre_1: "2 < field_p c \<Longrightarrow> legendre_symbol c a = 1 \<longleftrightarrow>
    field_p c dvd a ^ nat ((field_p c - 1) div 2) - 1"
  using pow3_eq_1 [of "field_p c" a "(field_p c - 1) div 2"] by (auto simp: legendre_symbol_def Let_def)

lemma legendre_m1:
  assumes "2 < field_p c"
  shows "legendre_symbol c a = -1 \<longleftrightarrow> field_p c dvd a ^ nat ((field_p c - 1) div 2) + 1"
proof -
  let ?p = "field_p c" and ?y = "a ^ nat ((field_p c - 1) div 2)"
  have "?y mod ?p \<ge> 0" using assms by simp
  then have "legendre_symbol c a = -1 \<longleftrightarrow> ?y mod ?p = ?p - 1"
    by (simp add: legendre_symbol_def Let_def pow3_def)
  also have "\<dots> \<longleftrightarrow> ?y mod ?p = (-1) mod ?p" using assms by (simp add: zmod_minus1)
  finally show ?thesis by (simp add: mod_eq_dvd)
qed

lemma square_legendre:
  assumes p: "is_prime (field_p c)" "odd (field_p c)" and x: "\<not> field_p c dvd x"
    and sq: "field_p c dvd x * x - a"
  shows "legendre_symbol c a = 1"
proof -
  let ?p = "field_p c" and ?h = "nat ((field_p c - 1) div 2)"
  have "?p dvd (x * x) ^ ?h - a ^ ?h" using sq by (rule dvd_power_diff)
  moreover have "(x * x) ^ ?h = x ^ nat (?p - 1)"
  proof -
    have "nat (?p - 1) = ?h + ?h" using p(2) is_prime_gt1 [OF p(1)] by (auto elim!: oddE)
    then show ?thesis by (simp add: power_add power_mult_distrib)
  qed
  ultimately have "?p dvd (x ^ nat (?p - 1) - 1) - (x ^ nat (?p - 1) - a ^ ?h)"
    using fermat [OF p(1) x] by (simp only: dvd_diff)
  then show ?thesis using legendre_1 odd_prime_gt2 [OF p] by simp
qed

lemma roots_of_square:
  assumes p: "is_prime p" and x: "0 < x" "x < p" and sq: "p dvd x * x - (a::int)"
  shows "{y \<in> {0..<p}. p dvd y * y - a} = {x, p - x}"
proof (intro equalityI subsetI)
  fix y assume y: "y \<in> {y \<in> {0..<p}. p dvd y * y - a}"
  then have "p dvd (y * y - a) - (x * x - a)" using sq by (blast intro: dvd_diff)
  then have "p dvd (y - x) * (y + x)" by (simp add: algebra_simps)
  then consider "p dvd y - x" | "p dvd y + x - p" by (auto simp: prime_dvd_mult [OF p])
  then show "y \<in> {x, p - x}"
  proof cases
    case 1
    then have "y - x = 0" by (rule small_dvd) (use x y in auto)
    then show ?thesis by simp
  next
    case 2
    then have "y + x - p = 0" by (rule small_dvd) (use x y in auto)
    then show ?thesis by simp
  qed
next
  fix y assume "y \<in> {x, p - x}"
  moreover have "p dvd (p - x) * (p - x) - a"
  proof -
    have "p dvd p * (p - 2 * x) + (x * x - a)" by (rule dvd_add [OF dvd_triv_left sq])
    also have "p * (p - 2 * x) + (x * x - a) = (p - x) * (p - x) - a" by (simp add: algebra_simps)
    finally show ?thesis .
  qed
  ultimately show "y \<in> {y \<in> {0..<p}. p dvd y * y - a}" using x sq by auto
qed

section \<open>The loop of Tonelli and Shanks\<close>

lemma square_one_cases:
  assumes "is_prime p" and "p dvd u ^ (2 ^ Suc k) - (1::int)"
  shows "p dvd u ^ (2 ^ k) - 1 \<or> p dvd u ^ (2 ^ k) + 1"
proof -
  have "u ^ (2 ^ Suc k) - 1 = (u ^ (2 ^ k) - 1) * (u ^ (2 ^ k) + 1)"
    by (simp add: mult_2 power_add algebra_simps)
  with assms show ?thesis by (simp only: prime_dvd_mult)
qed

text \<open>
  The invariant: \<open>x\<close> is a root of \<open>a * t\<close>, the order of \<open>t\<close> divides \<open>2 ^ (m - 1)\<close> and
  \<open>c\<close> is a root of unity of order exactly \<open>2 ^ m\<close>.
\<close>

definition sqrt_inv :: "curve \<Rightarrow> int \<Rightarrow> int \<Rightarrow> int \<Rightarrow> int \<Rightarrow> nat \<Rightarrow> bool" where
  "sqrt_inv c a x cc t m \<longleftrightarrow> 0 < m \<and>
     field_p c dvd x * x - a * t \<and>
     field_p c dvd t ^ (2 ^ (m - 1)) - 1 \<and>
     field_p c dvd cc ^ (2 ^ (m - 1)) + 1 \<and>
     0 \<le> t \<and> t < field_p c \<and> 0 \<le> x \<and> x < field_p c"

lemma sqrt_inv_mod:
  assumes pos: "0 < field_p c" and m: "0 < m"
    and "field_p c dvd x * x - a * t" "field_p c dvd t ^ (2 ^ (m - 1)) - 1"
      "field_p c dvd cc ^ (2 ^ (m - 1)) + 1"
  shows "sqrt_inv c a (x mod field_p c) (cc mod field_p c) (t mod field_p c) m"
proof -
  let ?p = "field_p c"
  have "?p dvd (x mod ?p) * (x mod ?p) - a * (t mod ?p)"
    using assms(3) by (metis mod_eq_dvd mod_mult_eq mod_mult_right_eq)
  moreover have "?p dvd (t mod ?p) ^ (2 ^ (m - 1)) - 1"
    using assms(4) by (metis mod_eq_dvd power_mod)
  moreover have "?p dvd (cc mod ?p) ^ (2 ^ (m - 1)) - (- 1)"
    using assms(5) by (metis mod_eq_dvd power_mod diff_minus_eq_add)
  ultimately show ?thesis using pos m by (simp add: sqrt_inv_def)
qed

lemma sqrt_step:
  assumes p: "is_prime (field_p c)" and inv: "sqrt_inv c a x cc t m" and k: "0 < k" "k < m"
    and tk: "field_p c dvd t ^ (2 ^ k) - 1" and tk1: "\<not> field_p c dvd t ^ (2 ^ (k - 1)) - 1"
    and b: "b = pow3 cc (2 ^ (m - k - 1)) (field_p c)"
  shows "sqrt_inv c a (x * b mod field_p c) (b * b mod field_p c) (t * b * b mod field_p c) k"
proof (rule sqrt_inv_mod [OF _ k(1)])
  let ?p = "field_p c"
  show "0 < ?p" using is_prime_gt1 [OF p] by simp
  have "?p dvd (x * x - a * t) * (b * b)" using inv by (simp add: sqrt_inv_def)
  then show "?p dvd x * b * (x * b) - a * (t * b * b)" by (simp add: algebra_simps)
  obtain j where j: "k = Suc j" using k(1) by (cases k) auto
  have cc: "?p dvd b ^ (2 ^ k) + 1"
  proof -
    have "?p dvd b - cc ^ (2 ^ (m - k - 1))"
      unfolding b pow3_def by (simp add: dvd_mod_swap nat_power_eq)
    then have "?p dvd b ^ (2 ^ k) - (cc ^ (2 ^ (m - k - 1))) ^ (2 ^ k)" by (rule dvd_power_diff)
    also have "(cc ^ (2 ^ (m - k - 1))) ^ (2 ^ k) = cc ^ (2 ^ (m - 1))"
      using k by (simp add: power_mult [symmetric] power_add [symmetric])
    finally have "?p dvd (b ^ (2 ^ k) - cc ^ (2 ^ (m - 1))) + (cc ^ (2 ^ (m - 1)) + 1)"
      by (rule dvd_add) (use inv in \<open>simp add: sqrt_inv_def\<close>)
    then show ?thesis by simp
  qed
  have bb: "(b * b) ^ (2 ^ (k - 1)) = b ^ (2 ^ k)"
    by (simp add: j power_mult_distrib power_add [symmetric] mult_2)
  with cc show "?p dvd (b * b) ^ (2 ^ (k - 1)) + 1" by simp
  have t1: "?p dvd t ^ (2 ^ (k - 1)) + 1"
    using square_one_cases [OF p, of t j] tk tk1 j by simp
  have eq: "(t * b * b) ^ (2 ^ (k - 1)) = t ^ (2 ^ (k - 1)) * b ^ (2 ^ k)"
    using bb by (simp add: power_mult_distrib mult.assoc)
  have "?p dvd (t ^ (2 ^ (k - 1)) + 1) * b ^ (2 ^ k) - (b ^ (2 ^ k) + 1)"
    using t1 cc by (intro dvd_diff dvd_mult2)
  then show "?p dvd (t * b * b) ^ (2 ^ (k - 1)) - 1"
    unfolding eq by (simp add: algebra_simps)
qed

lemma sqrt_loop_spec:
  assumes p: "is_prime (field_p c)"
  shows "sqrt_inv c a x cc t m \<Longrightarrow> \<exists>r. sqrt_loop c x cc t (int m) = Some (Inr r) \<and>
    0 \<le> r \<and> r < field_p c \<and> field_p c dvd r * r - a"
proof (induction m arbitrary: x cc t rule: less_induct)
  case (less m)
  let ?p = "field_p c"
  have gt1: "1 < ?p" by (rule is_prime_gt1 [OF p])
  show ?case
  proof (cases "t = 1")
    case True
    then have "sqrt_loop c x cc t (int m) = Some (Inr x)" by (subst sqrt_loop.simps) simp
    then show ?thesis using less.prems True by (auto simp: sqrt_inv_def)
  next
    case False
    have t_pow: "pow3 t (2 ^ l) ?p = 1 \<longleftrightarrow> ?p dvd t ^ (2 ^ l) - 1" for l
      using gt1 by (simp add: pow3_eq_1 nat_power_eq)
    have not0: "\<not> ?p dvd t ^ (2 ^ 0) - 1"
    proof
      assume "?p dvd t ^ (2 ^ 0) - 1"
      then have "t - 1 = 0" by (intro small_dvd [of ?p]) (use less.prems gt1 in \<open>auto simp: sqrt_inv_def\<close>)
      with False show False by simp
    qed
    have m1: "1 < m" using less.prems not0 by (cases "m = 1") (auto simp: sqrt_inv_def)
    have "pow3 t (2 ^ (m - 1)) ?p = 1" using less.prems by (simp add: t_pow sqrt_inv_def)
    from lowest_i_spec [OF m1 this, of 0] obtain k where
      k: "lowest_i c t 2 0 [1..int m - 1] = int k" "1 \<le> k" "k < m"
      "?p dvd t ^ (2 ^ k) - 1" "\<forall>l\<in>{1..<k}. \<not> ?p dvd t ^ (2 ^ l) - 1"
      by (auto simp: t_pow)
    have "\<not> ?p dvd t ^ (2 ^ (k - 1)) - 1"
      using k(2,5) not0 by (cases "k = 1") auto
    then have "sqrt_inv c a (x * pow3 cc (2 ^ (m - k - 1)) ?p mod ?p)
        (pow3 cc (2 ^ (m - k - 1)) ?p * pow3 cc (2 ^ (m - k - 1)) ?p mod ?p)
        (t * pow3 cc (2 ^ (m - k - 1)) ?p * pow3 cc (2 ^ (m - k - 1)) ?p mod ?p) k"
      using k(2-4) by (intro sqrt_step [OF p less.prems]) auto
    note IH = less.IH [OF k(3) this]
    have "nat (int m - int k - 1) = m - k - 1" "\<not> int m - int k - 1 < 0" using k(3) by linarith+
    with IH k(1) False show ?thesis
      by (subst sqrt_loop.simps) (simp only: Let_def if_False)
  qed
qed

section \<open>The square roots\<close>

lemma pow3_square:
  "0 < p \<Longrightarrow> 0 \<le> k \<Longrightarrow> p dvd pow3 a k p * pow3 a k p - a ^ nat (2 * k)"
proof -
  assume "0 \<le> k"
  then have "nat (2 * k) = nat k + nat k" by linarith
  then have "a ^ nat (2 * k) = a ^ nat k * a ^ nat k" by (simp only: power_add)
  then show ?thesis unfolding pow3_def by (simp only: mod_eq_dvd [symmetric] mod_mult_eq)
qed

lemma sqrt_start:
  assumes p: "is_prime (field_p c)" "odd (field_p c)" and a: "legendre_symbol c a = 1"
    and q: "odd q" "0 < q" "field_p c - 1 = q * 2 ^ k" and z: "legendre_symbol c z = -1"
  shows "sqrt_inv c a (pow3 a ((q + 1) div 2) (field_p c)) (pow3 z q (field_p c)) (pow3 a q (field_p c)) k"
  unfolding pow3_def
proof (rule sqrt_inv_mod)
  let ?p = "field_p c" and ?h = "nat ((field_p c - 1) div 2)"
  have gt: "2 < ?p" by (rule odd_prime_gt2 [OF p])
  show k: "0 < k" using q(1,3) p(2) by (cases k) auto
  have h: "nat q * 2 ^ (k - 1) = ?h"
  proof -
    have "(?p - 1) div 2 = q * 2 ^ (k - 1)" using k by (cases k) (simp_all add: q(3))
    then show ?thesis using q(2) by (simp add: nat_mult_distrib nat_power_eq)
  qed
  have "2 * ((q + 1) div 2) = q + 1" using q(1) by presburger
  then have "nat ((q + 1) div 2) + nat ((q + 1) div 2) = nat q + 1" using q(2) by linarith
  then have "a ^ nat ((q + 1) div 2) * a ^ nat ((q + 1) div 2) = a * a ^ nat q"
    by (simp add: power_add [symmetric])
  then show "?p dvd a ^ nat ((q + 1) div 2) * a ^ nat ((q + 1) div 2) - a * a ^ nat q" by simp
  show "?p dvd (a ^ nat q) ^ (2 ^ (k - 1)) - 1"
    using a legendre_1 [OF gt, of a] h by (simp add: power_mult [symmetric])
  show "?p dvd (z ^ nat q) ^ (2 ^ (k - 1)) + 1"
    using z legendre_m1 [OF gt, of z] h by (simp add: power_mult [symmetric])
qed (use is_prime_gt1 [OF p(1)] in simp)

lemma simple_root:
  assumes p: "is_prime (field_p c)" "odd (field_p c)" and m: "field_p c mod 4 = 3"
    and a: "legendre_symbol c a = 1"
  shows "field_p c dvd pow3 a ((field_p c + 1) div 4) (field_p c) * pow3 a ((field_p c + 1) div 4) (field_p c) - a"
proof -
  let ?p = "field_p c" and ?h = "nat ((field_p c - 1) div 2)" and ?k = "(field_p c + 1) div 4"
  have gt: "2 < ?p" by (rule odd_prime_gt2 [OF p])
  have "2 * ?k = (?p - 1) div 2 + 1" using m by presburger
  moreover have "0 \<le> (?p - 1) div 2" using gt by simp
  ultimately have "nat (2 * ?k) = Suc ?h" by linarith
  then have "?p dvd pow3 a ?k ?p * pow3 a ?k ?p - a * a ^ ?h"
    using pow3_square [of ?p ?k a] gt by simp
  moreover have "?p dvd a * (a ^ ?h - 1)" using a legendre_1 [OF gt, of a] by simp
  ultimately have "?p dvd (pow3 a ?k ?p * pow3 a ?k ?p - a * a ^ ?h) + a * (a ^ ?h - 1)" by (rule dvd_add)
  then show ?thesis by (simp add: algebra_simps)
qed

definition square_roots :: "curve \<Rightarrow> int \<Rightarrow> int set" where
  "square_roots c a = {x \<in> {0..<field_p c}. field_p c dvd x * x - a}"

lemma roots_mod: "square_roots c (a mod field_p c) = square_roots c a"
proof -
  have "field_p c dvd x - a mod field_p c \<longleftrightarrow> field_p c dvd x - a" for x
    by (simp only: mod_eq_dvd [symmetric] mod_mod_trivial)
  then show ?thesis by (simp add: square_roots_def)
qed

lemma root_pair:
  assumes p: "is_prime (field_p c)" and a: "\<not> field_p c dvd a"
    and r: "0 \<le> r" "r < field_p c" "field_p c dvd r * r - a"
  shows "set [r, field_p c - r] = square_roots c a"
proof -
  have "r \<noteq> 0" using a r(3) by auto
  with roots_of_square [OF p _ r(2,3)] r(1) show ?thesis by (auto simp: square_roots_def)
qed

lemma prime_mod_sqrt_roots:
  assumes p: "is_prime (field_p c)" "odd (field_p c)"
  shows "\<exists>ys. prime_mod_sqrt c a = Some (Inr ys) \<and> set ys = square_roots c a"
proof -
  define p where "p = field_p c"
  define b where "b = a mod p"
  note p' = p [folded p_def]
  have gt: "2 < p" by (rule odd_prime_gt2 [OF p'])
  have "\<exists>ys. prime_mod_sqrt c a = Some (Inr ys) \<and> set ys = square_roots c b"
  proof (cases "b = 0")
    case True
    have "square_roots c 0 = {0}"
      using gt by (auto simp: square_roots_def p_def [symmetric] prime_dvd_mult [OF p'(1)] zdvd_not_zless order_le_less)
    with True show ?thesis by (simp add: prime_mod_sqrt_def p_def b_def Let_def)
  next
    case b0: False
    have nd: "\<not> p dvd b"
    proof
      assume "p dvd b"
      then have "b = 0" by (rule small_dvd) (use gt in \<open>simp add: b_def\<close>)
      with b0 show False by simp
    qed
    show ?thesis
    proof (cases "legendre_symbol c b = 1")
      case False
      have "\<not> p dvd x * x - b" for x
      proof
        assume sq: "p dvd x * x - b"
        then have "\<not> p dvd x" using nd by (metis dvd_diff_right_iff dvd_mult2)
        from square_legendre [OF p this [unfolded p_def] sq [unfolded p_def]] False show False by simp
      qed
      then have "square_roots c b = {}" by (auto simp: square_roots_def p_def [symmetric])
      with False b0 gt show ?thesis by (simp add: prime_mod_sqrt_def p_def b_def Let_def)
    next
      case leg: True
      show ?thesis
      proof (cases "p mod 4 = 3")
        case True
        have r: "p dvd pow3 b ((p + 1) div 4) p * pow3 b ((p + 1) div 4) p - b"
          using simple_root [OF p, of b] True leg by (simp add: p_def)
        have "set [pow3 b ((p + 1) div 4) p, p - pow3 b ((p + 1) div 4) p] = square_roots c b"
          using root_pair [OF p(1), of b "pow3 b ((p + 1) div 4) p"] nd r gt
          by (simp add: p_def pow3_def)
        with True leg b0 gt show ?thesis by (simp add: prime_mod_sqrt_def p_def b_def Let_def)
      next
        case False
        obtain q k where q: "split_twos (p - 1) 0 = Some (q, int k)" "odd q" "0 < q" "p - 1 = q * 2 ^ k"
          using split_twos_spec [of "p - 1" 0] gt by auto
        obtain z0 where z0: "z0 \<in> {1..<p}" "p dvd z0 ^ nat ((p - 1) div 2) + 1"
          using nonresidue_exists [OF p'] by blast
        then have "legendre_symbol c z0 = -1" using legendre_m1 [of c z0] gt by (simp add: p_def)
        from find_nonresidue_spec [OF this, of 1] z0 obtain z where
          z: "find_nonresidue c 1 = Some z" "legendre_symbol c z = -1" by auto
        from sqrt_loop_spec [OF p(1) sqrt_start [OF p leg q(2-4) [unfolded p_def] z(2)]] obtain r where
          r: "sqrt_loop c (pow3 b ((q + 1) div 2) p) (pow3 z q p) (pow3 b q p) (int k) = Some (Inr r)"
          "0 \<le> r" "r < p" "p dvd r * r - b" by (auto simp: p_def)
        have "set [r, p - r] = square_roots c b" using root_pair [OF p(1), of b r] r nd by (simp add: p_def)
        with False leg b0 gt q(1) z(1) r(1) show ?thesis by (simp add: prime_mod_sqrt_def p_def b_def Let_def)
      qed
    qed
  qed
  then show ?thesis by (simp add: b_def p_def roots_mod)
qed

text \<open>A root of a non-residue does not exist, and the two roots of a square are in order.\<close>

lemma is_square_root:
  assumes p: "is_prime (field_p c)" "odd (field_p c)" and "is_square c a"
  obtains x where "0 < x" "x < field_p c" "field_p c dvd x * x - a" "square_roots c a = {x, field_p c - x}"
    "prime_mod_sqrt c a = Some (Inr [x, field_p c - x])"
proof -
  let ?p = "field_p c" and ?b = "a mod field_p c"
  have gt: "2 < ?p" by (rule odd_prime_gt2 [OF p])
  have leg: "legendre_symbol c ?b = 1"
    using assms(3) by (simp add: is_square_def legendre_symbol_def pow3_def power_mod)
  have b0: "?b \<noteq> 0"
  proof
    assume "?b = 0"
    then have "?p dvd 0 ^ nat ((?p - 1) div 2) - 1" using leg legendre_1 [OF gt, of ?b] by simp
    then show False using gt by (simp add: power_0_left zdvd_not_zless split: if_splits)
  qed
  obtain ys where ys: "prime_mod_sqrt c a = Some (Inr ys)" "set ys = square_roots c a"
    using prime_mod_sqrt_roots [OF p] by blast
  from ys(1) leg b0 gt obtain x where x: "ys = [x, ?p - x]"
    by (auto simp: prime_mod_sqrt_def Let_def rbind_eq_Inr bind_eq_Some_conv split: if_splits prod.splits)
  with ys(2) have "x \<in> square_roots c a" by (metis list.set_intros(1))
  then have r: "0 \<le> x" "x < ?p" "?p dvd x * x - a" by (simp_all add: square_roots_def)
  moreover have "x \<noteq> 0"
  proof
    assume "x = 0"
    with r(3) have "?p dvd a" by simp
    with b0 show False by simp
  qed
  moreover have "square_roots c a = {x, ?p - x}" using ys(2) x by simp
  ultimately show ?thesis using that [of x] ys(1) x by simp
qed

lemma square_is_square:
  assumes p: "is_prime (field_p c)" "odd (field_p c)" and "0 < y" "y < field_p c"
    and "field_p c dvd y * y - a"
  shows "is_square c a"
  unfolding is_square_def
proof (rule square_legendre [OF p _ assms(5)])
  show "\<not> field_p c dvd y" using assms(3,4) by (rule zdvd_not_zless)
qed

lemma both_sqrt_square:
  assumes p: "is_prime (field_p c)" "odd (field_p c)" and "is_square c a"
  obtains y1 y2 where "both_sqrt c a = Some (Inr (y1, y2))" "0 < y1" "y1 < y2" "y2 < field_p c"
    "square_roots c a = {y1, y2}"
proof -
  from is_square_root [OF assms] obtain x where x: "0 < x" "x < field_p c"
    "square_roots c a = {x, field_p c - x}" "prime_mod_sqrt c a = Some (Inr [x, field_p c - x])" by metis
  moreover have "x \<noteq> field_p c - x" using p(2) by (metis dvd_triv_left even_add diff_add_cancel mult_2 odd_add)
  ultimately show ?thesis
    by (cases "x < field_p c - x") (auto intro!: that simp: both_sqrt_def)
qed

text \<open>
  C4. For an odd prime p, prime_mod_sqrt returns on every argument, raises nothing, and its
  list holds exactly the numbers below p whose square is the argument modulo p: none for a
  non-residue, otherwise all of them. Both inner loops of the algorithm end and the exponent
  of 2 never becomes negative.
\<close>

theorem prime_mod_sqrt_correct:
  assumes "is_prime (field_p c)" and "odd (field_p c)"
  shows "\<exists>ys. prime_mod_sqrt c a = Some (Inr ys) \<and>
    (\<forall>x. x \<in> set ys \<longleftrightarrow> 0 \<le> x \<and> x < field_p c \<and> x * x mod field_p c = a mod field_p c)"
proof -
  obtain ys where ys: "prime_mod_sqrt c a = Some (Inr ys)" "set ys = square_roots c a"
    using prime_mod_sqrt_roots [OF assms] by blast
  have "x \<in> square_roots c a \<longleftrightarrow> 0 \<le> x \<and> x < field_p c \<and> x * x mod field_p c = a mod field_p c" for x
    by (simp add: square_roots_def mod_eq_dvd)
  with ys show ?thesis by metis
qed

text \<open>A curve of 7 points over the field of 5 elements, and one over 17 elements, for the witnesses.\<close>

definition small_curve :: curve where
  "small_curve = \<lparr>a_coeff = 2, b_coeff = 1, field_p = 5, order_n = 7, base_G = Tup 0 1, bits_N = 4\<rparr>"

definition field17 :: curve where
  "field17 = small_curve\<lparr>field_p := 17\<rparr>"

lemma small_primes: "is_prime 5" "is_prime 7" "is_prime 17"
proof -
  have s: "{2..<k} = set [2..k - 1]" for k :: int by (subst set_upto) auto
  show "is_prime 5" "is_prime 7" "is_prime 17" unfolding is_prime_def s by (simp_all add: upto.simps)
qed

lemma small_curve_sel [simp]:
  "a_coeff small_curve = 2" "b_coeff small_curve = 1" "field_p small_curve = 5" "order_n small_curve = 7"
  "base_G small_curve = Tup 0 1" "bits_N small_curve = 4" "field_p field17 = 17"
  by (simp_all add: small_curve_def field17_def)

theorem prime_mod_sqrt_correct_witness:
  "\<exists>ys. prime_mod_sqrt field17 2 = Some (Inr ys) \<and> 6 \<in> set ys \<and> 11 \<in> set ys \<and> 7 \<notin> set ys"
  using prime_mod_sqrt_correct [of field17 2] small_primes(3) by auto

end
