(* ===== verification/SigCurve.thy ===== *)
theory SigCurve
  imports SigField Crs
begin

text \<open>
  The curve of \<open>docs/specs/signatures/reference.py\<close>: random field elements and points, the addition of
  points with the case distinctions of the code, double-and-add, and the parameters of the
  Pedersen hash. Sampling may repeat for ever, so it is a partial function into \<open>option\<close>.
\<close>

text \<open>A step that may not return, followed by the rest.\<close>

abbreviation pbind ::
  "('s \<Rightarrow> ('a result \<times> 's) option) \<Rightarrow> ('a \<Rightarrow> 's \<Rightarrow> ('b result \<times> 's) option) \<Rightarrow> 's \<Rightarrow> ('b result \<times> 's) option" where
  "pbind m f s \<equiv> Option.bind (m s) (\<lambda>(r, t). case r of Inl e \<Rightarrow> Some (Inl e, t) | Inr x \<Rightarrow> f x t)"

section \<open>Random elements\<close>

text \<open>\<open>for i in range(N): res += crs.next_bit() * (2 ** i)\<close>\<close>

fun sum_bits :: "digest_fun \<Rightarrow> nat list \<Rightarrow> int \<Rightarrow> (crs_state, int) eff" where
  "sum_bits H [] res = eret res"
| "sum_bits H (i # ks) res = ebind (next_bit H) (\<lambda>b. sum_bits H ks (res + of_bool b * 2 ^ i))"

partial_function (option) random_field_elt ::
  "curve \<Rightarrow> digest_fun \<Rightarrow> crs_state \<Rightarrow> (int result \<times> crs_state) option" where
  "random_field_elt c H s =
     (case sum_bits H [0..<bits_N c] 0 s of
       (Inl e, t) \<Rightarrow> Some (Inl e, t)
     | (Inr res, t) \<Rightarrow> if res < field_p c then Some (Inr res, t) else random_field_elt c H t)"

definition curve_rhs :: "curve \<Rightarrow> int \<Rightarrow> int" where
  "curve_rhs c x = (x * x * x + a_coeff c * x + b_coeff c) mod field_p c"

partial_function (option) random_curve_point ::
  "curve \<Rightarrow> digest_fun \<Rightarrow> crs_state \<Rightarrow> (point result \<times> crs_state) option" where
  "random_curve_point c H s =
     pbind (random_field_elt c H) (\<lambda>x t.
       let y2 = curve_rhs c x in
         if \<not> is_square c y2 then random_curve_point c H t
         else pbind (\<lambda>u. Option.bind (both_sqrt c y2) (\<lambda>r. Some (r, u))) (\<lambda>(y1, y2) u.
           Some (ebind (next_bit H) (\<lambda>bit. eret (Tup x (if bit then y1 else y2))) u)) t) s"

section \<open>Points\<close>

definition point_add :: "curve \<Rightarrow> point option \<Rightarrow> point option \<Rightarrow> point option" where
  "point_add c P1 P2 =
     (case P1 of None \<Rightarrow> P2 | Some P \<Rightarrow>
      (case P2 of None \<Rightarrow> P1 | Some Q \<Rightarrow>
        if px P = px Q \<and> py P \<noteq> py Q then None
        else let
          p = field_p c;
          lam = (if P = Q then (3 * px P * px P + a_coeff c) * pow3 (2 * py P) (p - 2) p mod p
                 else (py Q - py P) * pow3 (px Q - px P) (p - 2) p mod p);
          x3 = (lam * lam - px P - px Q) mod p
        in Some (Tup x3 ((lam * (px P - x3) - py P) mod p))))"

definition point_sixteen_times :: "curve \<Rightarrow> point option \<Rightarrow> point option" where
  "point_sixteen_times c P = (let P2 = point_add c P P; P4 = point_add c P2 P2; P8 = point_add c P4 P4
     in point_add c P8 P8)"

definition point_neg :: "curve \<Rightarrow> point option \<Rightarrow> point result" where
  "point_neg c P = (case P of None \<Rightarrow> Inl TypeError | Some Q \<Rightarrow> Inr (Tup (px Q) (field_p c - py Q)))"

fun mul_loop :: "curve \<Rightarrow> int \<Rightarrow> nat list \<Rightarrow> point option \<Rightarrow> point option \<Rightarrow> point option" where
  "mul_loop c k [] R P = R"
| "mul_loop c k (i # ks) R P =
     (let R' = (if k div 2 ^ i mod 2 = 1 then point_add c R P else R)
      in mul_loop c k ks R' (point_add c P P))"

definition point_mul :: "curve \<Rightarrow> point option \<Rightarrow> int \<Rightarrow> point option" where
  "point_mul c P k = mul_loop c k [0..<bits_N c] None P"

section \<open>The parameters of the Pedersen hash\<close>

fun random_points ::
  "curve \<Rightarrow> digest_fun \<Rightarrow> nat \<Rightarrow> crs_state \<Rightarrow> (point list result \<times> crs_state) option" where
  "random_points c H 0 s = Some (Inr [], s)"
| "random_points c H (Suc k) s =
     pbind (random_curve_point c H) (\<lambda>P. pbind (random_points c H k) (\<lambda>Ps t. Some (Inr (P # Ps), t))) s"

text \<open>\<open>for _ in range(N // 4): params.append(Q); Q = point_sixteen_times(Q)\<close>\<close>

fun sixteen_multiples :: "curve \<Rightarrow> nat \<Rightarrow> point option \<Rightarrow> point option list" where
  "sixteen_multiples c 0 Q = []"
| "sixteen_multiples c (Suc k) Q = Q # sixteen_multiples c k (point_sixteen_times c Q)"

definition generate_pedersen_params ::
  "curve \<Rightarrow> digest_fun \<Rightarrow> crs_state \<Rightarrow> (point option list result \<times> crs_state) option" where
  "generate_pedersen_params c H s =
     pbind (random_points c H 10) (\<lambda>params0 t.
       Some (Inr (concat (map (\<lambda>P. sixteen_multiples c (bits_N c div 4) (Some P)) params0)), t)) s"

section \<open>Addition stays on the curve\<close>

definition on_curve :: "curve \<Rightarrow> point option \<Rightarrow> bool" where
  "on_curve c P = (case P of None \<Rightarrow> True | Some Q \<Rightarrow>
     0 \<le> px Q \<and> px Q < field_p c \<and> 0 \<le> py Q \<and> py Q < field_p c \<and>
     py Q * py Q mod field_p c = curve_rhs c (px Q))"

text \<open>
  Both points are \<open>None\<close>, or equal coordinates mean equal objects (both tuples or both lists).
\<close>

definition same_kind :: "point option \<Rightarrow> point option \<Rightarrow> bool" where
  "same_kind P Q = (case (P, Q) of (Some A, Some B) \<Rightarrow> px A = px B \<and> py A = py B \<longrightarrow> A = B | _ \<Rightarrow> True)"

text \<open>No point of order two: the right-hand side of the curve equation has no root.\<close>

definition no_order_two :: "curve \<Rightarrow> bool" where
  "no_order_two c \<longleftrightarrow> (\<forall>x\<in>{0..<field_p c}. curve_rhs c x \<noteq> 0)"

text \<open>The curve equation as a divisibility.\<close>

abbreviation eqn :: "curve \<Rightarrow> int \<Rightarrow> int \<Rightarrow> int" where
  "eqn c x y \<equiv> x * x * x + a_coeff c * x + b_coeff c - y * y"

lemma on_curve_Some:
  "on_curve c (Some Q) \<longleftrightarrow> 0 \<le> px Q \<and> px Q < field_p c \<and> 0 \<le> py Q \<and> py Q < field_p c \<and>
     field_p c dvd eqn c (px Q) (py Q)"
  by (auto simp: on_curve_def curve_rhs_def mod_eq_dvd [symmetric])

lemma eqn_cong:
  assumes "p dvd x - x'" and "p dvd y - (y'::int)"
  shows "p dvd eqn c x y \<longleftrightarrow> p dvd eqn c x' y'"
proof -
  have "eqn c x y - eqn c x' y' = (x - x') * (x * x + x * x' + x' * x' + a_coeff c) - (y - y') * (y + y')"
    by (simp add: algebra_simps)
  also have "p dvd \<dots>" by (rule dvd_diff [OF dvd_mult2 [OF assms(1)] dvd_mult2 [OF assms(2)]])
  finally show ?thesis by (metis diff_add_cancel dvd_add_right_iff add.commute)
qed

text \<open>The third point of a line through two points of the curve, and of a tangent.\<close>

lemma chord_eqn:
  assumes p: "is_prime p" and d: "\<not> p dvd x2 - x1"
    and lam: "p dvd lam * (x2 - x1) - (y2 - y1)"
    and e1: "p dvd eqn c x1 y1" and e2: "p dvd eqn c x2 y2"
    and X: "X = lam * lam - x1 - x2"
  shows "p dvd eqn c X (lam * (x1 - X) - y1)"
proof -
  let ?g = "\<lambda>T. T * T * T + a_coeff c * T + b_coeff c - (y1 + lam * (T - x1)) * (y1 + lam * (T - x1))"
  have "(x2 - x1) * ?g X = (X - x1) * ?g x2 - (X - x2) * ?g x1"
    by (simp add: X algebra_simps)
  moreover have "p dvd ?g x1" using e1 by simp
  moreover have "p dvd ?g x2"
    using e2 lam eqn_cong [of p x2 x2 "y1 + lam * (x2 - x1)" y2 c] by (simp add: algebra_simps)
  ultimately have "p dvd (x2 - x1) * ?g X" by (metis dvd_diff dvd_mult)
  with p d have "p dvd ?g X" by (simp add: prime_dvd_mult)
  moreover have "eqn c X (lam * (x1 - X) - y1) = ?g X" by (simp add: algebra_simps)
  ultimately show ?thesis by simp
qed

lemma tangent_eqn:
  assumes lam: "p dvd lam * (2 * y1) - (3 * x1 * x1 + a_coeff c)"
    and e1: "p dvd eqn c x1 y1" and X: "X = lam * lam - x1 - x1"
  shows "p dvd eqn c X (lam * (x1 - X) - y1)"
proof -
  have "eqn c X (lam * (x1 - X) - y1) =
      eqn c x1 y1 - (X - x1) * (lam * (2 * y1) - (3 * x1 * x1 + a_coeff c))"
    by (simp add: X algebra_simps)
  with lam e1 show ?thesis by (metis dvd_diff dvd_mult)
qed

lemma slope_dvd:
  assumes p: "is_prime p" and d: "\<not> p dvd d"
  shows "p dvd (u * pow3 d (p - 2) p mod p) * d - u"
proof -
  have "p dvd u * (d * pow3 d (p - 2) p - 1)" using inverse_pow [OF assms] by simp
  then have "u * (d * pow3 d (p - 2) p) mod p = u mod p" by (simp add: mod_eq_dvd algebra_simps)
  then have "(u * pow3 d (p - 2) p mod p) * d mod p = u mod p"
    by (subst mod_mult_left_eq) (simp add: ac_simps)
  then show ?thesis by (simp add: mod_eq_dvd)
qed

lemma third_point:
  assumes "0 < field_p c" and "field_p c dvd eqn c X (lam * (x1 - X) - y1)"
  shows "on_curve c (Some (Tup (X mod field_p c) ((lam * (x1 - X mod field_p c) - y1) mod field_p c)))"
proof -
  let ?p = "field_p c"
  have "?p dvd X mod ?p - X" by (rule mod_dvd_diff)
  moreover have "?p dvd (lam * (x1 - X mod ?p) - y1) mod ?p - (lam * (x1 - X) - y1)"
  proof -
    have "(lam * (x1 - X mod ?p) - y1) - (lam * (x1 - X) - y1) = - lam * (X mod ?p - X)"
      by (simp add: algebra_simps)
    also have "?p dvd \<dots>" by (rule dvd_mult [OF mod_dvd_diff])
    finally show ?thesis by (simp only: dvd_mod_swap)
  qed
  ultimately have "?p dvd eqn c (X mod ?p) ((lam * (x1 - X mod ?p) - y1) mod ?p)"
    using eqn_cong [of ?p "X mod ?p" X _ _ c] assms(2) by blast
  with assms(1) show ?thesis by (simp add: on_curve_Some)
qed

lemma on_curve_order_two:
  assumes p: "is_prime (field_p c)" and "on_curve c (Some P)" and "no_order_two c"
  shows "py P \<noteq> 0"
proof
  assume "py P = 0"
  with assms(2) have "curve_rhs c (px P) = 0" by (simp add: on_curve_def)
  with assms(2,3) show False by (auto simp: on_curve_def no_order_two_def)
qed

lemma point_add_closed:
  assumes p: "is_prime (field_p c)" "odd (field_p c)" and P: "on_curve c P" and Q: "on_curve c Q"
    and two: "no_order_two c" and kind: "same_kind P Q"
  shows "on_curve c (point_add c P Q)"
proof (cases "P = None \<or> Q = None")
  case True
  then show ?thesis using P Q by (auto simp: point_add_def split: option.splits)
next
  case False
  then obtain A B where AB: "P = Some A" "Q = Some B" by auto
  let ?p = "field_p c"
  have gt: "2 < ?p" by (rule odd_prime_gt2 [OF p])
  have eA: "?p dvd eqn c (px A) (py A)" and eB: "?p dvd eqn c (px B) (py B)"
    using P Q AB by (simp_all add: on_curve_Some)
  show ?thesis
  proof (cases "A = B")
    case True
    have "py A \<noteq> 0" using on_curve_order_two [OF p(1)] P two AB by blast
    then have "\<not> ?p dvd py A" using P AB by (intro zdvd_not_zless) (auto simp: on_curve_Some)
    then have "\<not> ?p dvd 2 * py A" using gt by (simp add: prime_dvd_mult [OF p(1)] zdvd_not_zless)
    from slope_dvd [OF p(1) this, of "3 * px A * px A + a_coeff c"]
    have "?p dvd (3 * px A * px A + a_coeff c) * pow3 (2 * py A) (?p - 2) ?p mod ?p * (2 * py A) -
      (3 * px A * px A + a_coeff c)" .
    from third_point [OF _ tangent_eqn [OF this eA refl]] True AB gt show ?thesis
      by (simp add: point_add_def Let_def)
  next
    case False
    show ?thesis
    proof (cases "px A = px B")
      case True
      then have "py A \<noteq> py B" using kind AB False by (auto simp: same_kind_def)
      with True AB show ?thesis by (simp add: point_add_def on_curve_def)
    next
      case x: False
      have "\<not> ?p dvd px B - px A"
      proof
        assume "?p dvd px B - px A"
        then have "px B - px A = 0" by (rule small_dvd) (use P Q AB in \<open>auto simp: on_curve_Some\<close>)
        with x show False by simp
      qed
      from third_point [OF _ chord_eqn [OF p(1) this slope_dvd [OF p(1) this] eA eB refl]] x False AB gt
      show ?thesis by (simp add: point_add_def Let_def)
    qed
  qed
qed

text \<open>
  The sum of tuples is a tuple; the point at infinity adds nothing; the order of the
  arguments does not matter.
\<close>

fun is_tup :: "point option \<Rightarrow> bool" where
  "is_tup (Some (Lst x y)) = False"
| "is_tup P = True"

lemma same_kind_refl: "same_kind P P"
  by (simp add: same_kind_def split: option.split)

lemma point_add_tup: "is_tup P \<Longrightarrow> is_tup Q \<Longrightarrow> is_tup (point_add c P Q)"
  by (auto simp: point_add_def Let_def split: option.splits)

lemma tup_same_kind: "is_tup P \<Longrightarrow> is_tup Q \<Longrightarrow> same_kind P Q"
  by (cases P rule: is_tup.cases; cases Q rule: is_tup.cases) (auto simp: same_kind_def)

lemma point_add_None [simp]: "point_add c None Q = Q" "point_add c P None = P"
  by (auto simp: point_add_def split: option.splits)

lemma neg_slope:
  assumes "odd p" and "2 < p"
  shows "(- u) * pow3 (- d) (p - 2) p mod p = u * pow3 d (p - 2) (p :: int) mod p"
proof -
  have "odd (nat (p - 2))" using assms by (simp add: even_nat_iff)
  then have "(- d) ^ nat (p - 2) = - (d ^ nat (p - 2))" by (rule power_minus_odd)
  then show ?thesis unfolding pow3_def by (simp only: mod_mult_right_eq minus_mult_minus)
qed

lemma point_add_commute:
  assumes p: "is_prime (field_p c)" "odd (field_p c)" and P: "on_curve c P" and Q: "on_curve c Q"
    and kind: "same_kind P Q"
  shows "point_add c P Q = point_add c Q P"
proof (cases "P = None \<or> Q = None \<or> P = Q")
  case False
  then obtain A B where AB: "P = Some A" "Q = Some B" "A \<noteq> B" by auto
  let ?p = "field_p c"
  have gt: "2 < ?p" by (rule odd_prime_gt2 [OF p])
  show ?thesis
  proof (cases "px A = px B")
    case True
    then have "py A \<noteq> py B" using kind AB by (auto simp: same_kind_def)
    with True AB show ?thesis by (auto simp: point_add_def)
  next
    case False
    define lam where "lam = (py B - py A) * pow3 (px B - px A) (?p - 2) ?p mod ?p"
    have lam': "(py A - py B) * pow3 (px A - px B) (?p - 2) ?p mod ?p = lam"
      using neg_slope [OF p(2) gt, of "py B - py A" "px B - px A"] by (simp add: lam_def)
    have "\<not> ?p dvd px B - px A"
    proof
      assume "?p dvd px B - px A"
      then have "px B - px A = 0" by (rule small_dvd) (use P Q AB in \<open>auto simp: on_curve_Some\<close>)
      with False show False by simp
    qed
    from slope_dvd [OF p(1) this, of "py B - py A"]
    have d: "?p dvd lam * (px B - px A) - (py B - py A)" by (simp add: lam_def)
    let ?x = "(lam * lam - px A - px B) mod ?p"
    have "(lam * (px B - ?x) - py B) - (lam * (px A - ?x) - py A) = lam * (px B - px A) - (py B - py A)"
      by (simp add: algebra_simps)
    with d have "(lam * (px A - ?x) - py A) mod ?p = (lam * (px B - ?x) - py B) mod ?p"
      by (metis mod_eq_dvd)
    with False AB lam' show ?thesis
      by (simp add: point_add_def Let_def lam_def [symmetric] diff_right_commute [of "lam * lam" "px B" "px A"])
  qed
qed auto

section \<open>Sampling\<close>

text \<open>The number in \<open>N\<close> bits of the stream from position \<open>k\<close> on, and the positions a point is found at.\<close>

definition crs_value :: "curve \<Rightarrow> digest_fun \<Rightarrow> nat \<Rightarrow> int" where
  "crs_value c H k = (\<Sum>i<bits_N c. of_bool (crs_bit H (k + i)) * 2 ^ i)"

definition point_at :: "curve \<Rightarrow> digest_fun \<Rightarrow> nat \<Rightarrow> bool" where
  "point_at c H k \<longleftrightarrow> crs_value c H k < field_p c \<and> is_square c (curve_rhs c (crs_value c H k))"

text \<open>
  From position \<open>k\<close> on, \<open>m\<close> points can be drawn: reading in steps of \<open>N\<close> bits there is a first position a
  point is found at, and after its \<open>N\<close> bits and the bit that chooses the root the others can be drawn.
\<close>

primrec has_points :: "curve \<Rightarrow> digest_fun \<Rightarrow> nat \<Rightarrow> nat \<Rightarrow> bool" where
  "has_points c H 0 k = True"
| "has_points c H (Suc m) k = (\<exists>d. point_at c H (k + bits_N c * d) \<and> (\<forall>e<d. \<not> point_at c H (k + bits_N c * e)) \<and>
     has_points c H m (k + bits_N c * d + bits_N c + 1))"

lemma sum_bits_run:
  assumes H: "digest_size H"
  shows "crs_at H (k + j) s \<Longrightarrow> j \<le> m \<Longrightarrow>
    \<exists>t. sum_bits H [j..<m] res s = (Inr (res + (\<Sum>i\<in>{j..<m}. of_bool (crs_bit H (k + i)) * 2 ^ i)), t) \<and>
      crs_at H (k + m) t"
proof (induction "m - j" arbitrary: j res s)
  case 0
  then show ?case by simp
next
  case (Suc l)
  from next_bit_step [OF H Suc.prems(1)] obtain u where
    u: "next_bit H s = (Inr (crs_bit H (k + j)), u)" "crs_at H (k + Suc j) u" by auto
  from Suc.hyps(1) [of "Suc j", OF _ u(2)] Suc.hyps(2)
  obtain t where t: "sum_bits H [Suc j..<m] (res + of_bool (crs_bit H (k + j)) * 2 ^ j) u =
      (Inr (res + of_bool (crs_bit H (k + j)) * 2 ^ j +
        (\<Sum>i\<in>{Suc j..<m}. of_bool (crs_bit H (k + i)) * 2 ^ i)), t)" "crs_at H (k + m) t"
    by fastforce
  have j: "j < m" using Suc.hyps(2) by simp
  show ?case
    unfolding upt_conv_Cons [OF j] sum_bits.simps ebind_run(1) [of "next_bit H" s, OF u(1)] sum.atLeast_Suc_lessThan [OF j]
    using t by (simp only: add.assoc) blast
qed

lemma field_bits_run:
  assumes "digest_size H" and "crs_at H k s"
  obtains t where "sum_bits H [0..<bits_N c] 0 s = (Inr (crs_value c H k), t)" "crs_at H (k + bits_N c) t"
  using sum_bits_run [OF assms(1), of k 0 s "bits_N c" 0] assms(2)
  by (auto simp: crs_value_def atLeast0LessThan)

lemma crs_value_nonneg: "0 \<le> crs_value c H k"
  by (simp add: crs_value_def sum_nonneg)

lemma random_field_elt_step:
  assumes "digest_size H" and "crs_at H k s"
  obtains t where "crs_at H (k + bits_N c) t"
    "random_field_elt c H s = (if crs_value c H k < field_p c then Some (Inr (crs_value c H k), t)
       else random_field_elt c H t)"
proof -
  obtain t where t: "sum_bits H [0..<bits_N c] 0 s = (Inr (crs_value c H k), t)" "crs_at H (k + bits_N c) t"
    using field_bits_run [OF assms] by blast
  then have "random_field_elt c H s = (if crs_value c H k < field_p c then Some (Inr (crs_value c H k), t)
       else random_field_elt c H t)"
    by (subst random_field_elt.simps) simp
  with t(2) show ?thesis by (rule that)
qed

lemma random_curve_point_step:
  assumes p: "is_prime (field_p c)" "odd (field_p c)" and H: "digest_size H" and s: "crs_at H k s"
  shows "if point_at c H k
    then \<exists>P t. random_curve_point c H s = Some (Inr P, t) \<and> on_curve c (Some P) \<and> is_tup (Some P) \<and>
      crs_at H (k + bits_N c + 1) t
    else \<exists>t. random_curve_point c H s = random_curve_point c H t \<and> crs_at H (k + bits_N c) t"
proof -
  let ?v = "crs_value c H k"
  obtain t where t: "crs_at H (k + bits_N c) t"
    "random_field_elt c H s = (if ?v < field_p c then Some (Inr ?v, t) else random_field_elt c H t)"
    using random_field_elt_step [OF H s] by blast
  show ?thesis
  proof (cases "point_at c H k")
    case True
    then have v: "?v < field_p c" "is_square c (curve_rhs c ?v)" by (simp_all add: point_at_def)
    obtain y1 y2 where y: "both_sqrt c (curve_rhs c ?v) = Some (Inr (y1, y2))"
      "square_roots c (curve_rhs c ?v) = {y1, y2}" using both_sqrt_square [OF p v(2)] by metis
    obtain u where u: "next_bit H t = (Inr (crs_bit H (k + bits_N c)), u)"
      "crs_at H (Suc (k + bits_N c)) u" using next_bit_step [OF H t(1)] by blast
    let ?y = "if crs_bit H (k + bits_N c) then y1 else y2"
    have "random_curve_point c H s = Some (Inr (Tup ?v ?y), u)"
      using t(2) v y(1) u(1) by (subst random_curve_point.simps) (simp add: Let_def ebind_run)
    moreover have "?y \<in> square_roots c (curve_rhs c ?v)" using y(2) by simp
    then have "on_curve c (Some (Tup ?v ?y))"
      using v(1) crs_value_nonneg
      by (auto simp: on_curve_def square_roots_def mod_eq_dvd [symmetric] curve_rhs_def)
    ultimately show ?thesis using True u(2) by (auto simp del: random_curve_point.simps)
  next
    case False
    have "random_curve_point c H s = random_curve_point c H t"
    proof (cases "?v < field_p c")
      case True
      with False t(2) show ?thesis
        by (subst random_curve_point.simps) (simp add: point_at_def Let_def)
    next
      case f: False
      then have "random_field_elt c H s = random_field_elt c H t" using t(2) by simp
      then show ?thesis by (simp add: random_curve_point.simps [of c H s] random_curve_point.simps [of c H t])
    qed
    with False t(1) show ?thesis by auto
  qed
qed

lemma random_curve_point_run:
  assumes p: "is_prime (field_p c)" "odd (field_p c)" and H: "digest_size H"
  shows "crs_at H k s \<Longrightarrow> point_at c H (k + bits_N c * d) \<Longrightarrow> \<forall>e<d. \<not> point_at c H (k + bits_N c * e) \<Longrightarrow>
    \<exists>P t. random_curve_point c H s = Some (Inr P, t) \<and> on_curve c (Some P) \<and> is_tup (Some P) \<and>
      crs_at H (k + bits_N c * d + bits_N c + 1) t"
proof (induction d arbitrary: k s)
  case 0
  with random_curve_point_step [OF p H 0(1)] show ?case by auto
next
  case (Suc d)
  have "\<not> point_at c H k" using Suc.prems(3) by auto
  with random_curve_point_step [OF p H Suc.prems(1)] obtain t where
    t: "random_curve_point c H s = random_curve_point c H t" "crs_at H (k + bits_N c) t" by auto
  have shift: "k + bits_N c + bits_N c * e = k + bits_N c * Suc e" for e by simp
  have "point_at c H (k + bits_N c + bits_N c * d)" using Suc.prems(2) by (simp only: shift)
  moreover have "\<forall>e<d. \<not> point_at c H (k + bits_N c + bits_N c * e)" using Suc.prems(3) by (simp only: shift) blast
  ultimately show ?case using Suc.IH [OF t(2)] t(1) by (simp only: shift)
qed

text \<open>The sampling returns only where the stream leads to an element and to a point.\<close>

lemma random_field_elt_only:
  "random_field_elt c H s = Some y \<Longrightarrow> digest_size H \<Longrightarrow> crs_at H k s \<Longrightarrow>
    \<exists>d t. y = (Inr (crs_value c H (k + bits_N c * d)), t) \<and> crs_value c H (k + bits_N c * d) < field_p c \<and>
      crs_at H (k + bits_N c * d + bits_N c) t"
proof (induction arbitrary: k rule: random_field_elt.raw_induct [rotated, consumes 1, case_names step])
  case (step f c H s y)
  obtain t where t: "sum_bits H [0..<bits_N c] 0 s = (Inr (crs_value c H k), t)" "crs_at H (k + bits_N c) t"
    using field_bits_run [OF step(3,4)] by blast
  show ?case
  proof (cases "crs_value c H k < field_p c")
    case True
    with step(2) t show ?thesis by (intro exI [of _ 0] exI [of _ t]) simp
  next
    case False
    with step(2) t(1) have "f c H t = Some y" by simp
    from step(1) [OF this step(3) t(2)] obtain e u where
      "y = (Inr (crs_value c H (k + bits_N c + bits_N c * e)), u)"
      "crs_value c H (k + bits_N c + bits_N c * e) < field_p c"
      "crs_at H (k + bits_N c + bits_N c * e + bits_N c) u" by blast
    then show ?thesis by (intro exI [of _ "Suc e"] exI [of _ u]) (simp add: add.assoc)
  qed
qed

lemma random_curve_point_only:
  "random_curve_point c H s = Some y \<Longrightarrow> digest_size H \<Longrightarrow> crs_at H k s \<Longrightarrow>
    \<exists>d. point_at c H (k + bits_N c * d)"
proof (induction arbitrary: k rule: random_curve_point.raw_induct [rotated, consumes 1, case_names step])
  case (step f c H s y)
  obtain r where "random_field_elt c H s = Some r" using step(2) by (cases "random_field_elt c H s") simp_all
  with random_field_elt_only [OF this step(3,4)] obtain d t where
    x: "random_field_elt c H s = Some (Inr (crs_value c H (k + bits_N c * d)), t)"
      "crs_value c H (k + bits_N c * d) < field_p c" "crs_at H (k + bits_N c * d + bits_N c) t" by auto
  show ?case
  proof (cases "is_square c (curve_rhs c (crs_value c H (k + bits_N c * d)))")
    case True
    with x(2) show ?thesis by (intro exI [of _ d]) (simp add: point_at_def)
  next
    case False
    with step(2) x(1) have "f c H t = Some y" by (simp add: Let_def)
    from step(1) [OF this step(3) x(3)] obtain e where "point_at c H (k + bits_N c * d + bits_N c + bits_N c * e)" ..
    then show ?thesis by (intro exI [of _ "d + 1 + e"]) (simp add: distrib_left ac_simps)
  qed
qed

lemma random_points_run:
  assumes p: "is_prime (field_p c)" "odd (field_p c)" and H: "digest_size H"
  shows "crs_at H k s \<Longrightarrow> if has_points c H m k
    then \<exists>Ps t. random_points c H m s = Some (Inr Ps, t) \<and> length Ps = m \<and>
      (\<forall>P\<in>set Ps. on_curve c (Some P) \<and> is_tup (Some P))
    else random_points c H m s = None"
proof (induction m arbitrary: k s)
  case (Suc m)
  show ?case
  proof (cases "\<exists>d. point_at c H (k + bits_N c * d)")
    case True
    define d where "d = (LEAST d. point_at c H (k + bits_N c * d))"
    have d: "point_at c H (k + bits_N c * d)" "\<forall>e<d. \<not> point_at c H (k + bits_N c * e)"
      using True unfolding d_def by (auto intro: LeastI_ex dest: not_less_Least)
    have "e = d" if "point_at c H (k + bits_N c * e)" "\<forall>i<e. \<not> point_at c H (k + bits_N c * i)" for e
      using d that by (metis linorder_neqE_nat)
    then have has: "has_points c H (Suc m) k = has_points c H m (k + bits_N c * d + bits_N c + 1)"
      unfolding has_points.simps using d by blast
    from random_curve_point_run [OF p H Suc.prems d] obtain P t where
      P: "random_curve_point c H s = Some (Inr P, t)" "on_curve c (Some P)" "is_tup (Some P)"
        "crs_at H (k + bits_N c * d + bits_N c + 1) t" by blast
    show ?thesis
    proof (cases "has_points c H m (k + bits_N c * d + bits_N c + 1)")
      case True
      with Suc.IH [OF P(4)] obtain Ps u where "random_points c H m t = Some (Inr Ps, u)" "length Ps = m"
        "\<forall>P\<in>set Ps. on_curve c (Some P) \<and> is_tup (Some P)" by auto
      with P True show ?thesis unfolding has by simp
    next
      case False
      with Suc.IH [OF P(4)] P(1) show ?thesis unfolding has by simp
    qed
  next
    case False
    then have "random_curve_point c H s = None"
      using random_curve_point_only [OF _ H Suc.prems] by (cases "random_curve_point c H s") auto
    with False show ?thesis by auto
  qed
qed simp

lemma sixteen_multiples_inv:
  assumes p: "is_prime (field_p c)" "odd (field_p c)" and two: "no_order_two c"
  shows "on_curve c Q \<Longrightarrow> is_tup Q \<Longrightarrow> length (sixteen_multiples c m Q) = m \<and>
    (\<forall>P\<in>set (sixteen_multiples c m Q). on_curve c P \<and> is_tup P)"
proof (induction m arbitrary: Q)
  case (Suc m)
  have double: "on_curve c (point_add c R R) \<and> is_tup (point_add c R R)"
    if "on_curve c R \<and> is_tup R" for R
    using that by (simp add: point_add_closed [OF p _ _ two] point_add_tup same_kind_refl)
  have "on_curve c (point_sixteen_times c Q) \<and> is_tup (point_sixteen_times c Q)"
    unfolding point_sixteen_times_def Let_def
    by (rule double, rule double, rule double, rule double) (simp add: Suc.prems)
  then have "length (sixteen_multiples c m (point_sixteen_times c Q)) = m \<and>
      (\<forall>P\<in>set (sixteen_multiples c m (point_sixteen_times c Q)). on_curve c P \<and> is_tup P)"
    using Suc.IH by blast
  then show ?case using Suc.prems by simp
qed simp

text \<open>
  C10. For digests of the size of BLAKE2s, generate_pedersen_params returns exactly when ten points can be
  drawn from the bits of the digests: a value of N bits below p whose right-hand side is a square is
  reached, reading N bits at a time, and again after each point and the bit that chooses its root. Then it
  returns ten times N // 4 parameters, every one of them on the curve (or infinity), none built
  from a list. Otherwise it reads on for ever. It never raises.
\<close>

theorem pedersen_params_on_curve:
  assumes "is_prime (field_p c)" and "odd (field_p c)" and "no_order_two c" and "digest_size H"
  shows "if has_points c H 10 0
    then \<exists>ps t. generate_pedersen_params c H (crs_init H) = Some (Inr ps, t) \<and>
      length ps = 10 * (bits_N c div 4) \<and> (\<forall>P\<in>set ps. on_curve c P \<and> is_tup P)
    else generate_pedersen_params c H (crs_init H) = None"
proof (cases "has_points c H 10 0")
  case True
  then obtain Ps t where Ps: "random_points c H 10 (crs_init H) = Some (Inr Ps, t)" "length Ps = 10"
    "\<forall>P\<in>set Ps. on_curve c (Some P) \<and> is_tup (Some P)"
    using random_points_run [OF assms(1,2,4) crs_at_init, of 10] by auto
  let ?f = "\<lambda>P. sixteen_multiples c (bits_N c div 4) (Some P)"
  have f: "length (?f P) = bits_N c div 4 \<and> (\<forall>Q\<in>set (?f P). on_curve c Q \<and> is_tup Q)" if "P \<in> set Ps" for P
    using sixteen_multiples_inv [OF assms(1-3)] Ps(3) that by blast
  then have "sum_list (map (length \<circ> ?f) Ps) = sum_list (map (\<lambda>_. bits_N c div 4) Ps)"
    by (intro arg_cong [of _ _ sum_list] map_cong) simp_all
  then have "length (concat (map ?f Ps)) = 10 * (bits_N c div 4)"
    using Ps(2) by (simp add: length_concat sum_list_triv)
  moreover have "\<forall>Q\<in>set (concat (map ?f Ps)). on_curve c Q \<and> is_tup Q" using f by fastforce
  ultimately show ?thesis using Ps(1) True by (simp add: generate_pedersen_params_def)
next
  case False
  then show ?thesis
    using random_points_run [OF assms(1,2,4) crs_at_init, of 10] by (simp add: generate_pedersen_params_def)
qed

lemma zero_digest_bits: "\<not> crs_bit (\<lambda>_. replicate 32 0) k"
proof -
  have "k mod 256 div 8 < 32" by (rule less_mult_imp_div_less) simp
  then show ?thesis by (simp add: crs_bit_def ith_digest_def)
qed

lemma small_no_order_two: "no_order_two small_curve"
proof -
  have s: "{0..<5} = set [0..4::int]" by (subst set_upto) auto
  show ?thesis unfolding no_order_two_def small_curve_sel s by (simp add: upto.simps curve_rhs_def)
qed

lemma zero_digest_points: "point_at small_curve (\<lambda>_. replicate 32 0) k"
  by (simp add: point_at_def crs_value_def zero_digest_bits curve_rhs_def is_square_def legendre_symbol_def pow3_def)

lemma zero_digest_has_points: "has_points small_curve (\<lambda>_. replicate 32 0) m k"
proof (induction m arbitrary: k)
  case (Suc m)
  show ?case unfolding has_points.simps
    by (intro exI [of _ 0] conjI zero_digest_points Suc.IH) simp
qed simp

theorem pedersen_params_on_curve_witness:
  "\<exists>ps t. generate_pedersen_params small_curve (\<lambda>_. replicate 32 0) (crs_init (\<lambda>_. replicate 32 0)) = Some (Inr ps, t) \<and>
    length ps = 10 \<and> (\<forall>P\<in>set ps. on_curve small_curve P \<and> is_tup P)"
  using pedersen_params_on_curve [of small_curve "\<lambda>_. replicate 32 0"] zero_digest_has_points [of 10 0]
  by (simp add: small_primes small_no_order_two digest_size_def del: has_points.simps)

text \<open>
  The sum of two points of the curve is a point of the curve and does not depend on the
  order of the summands, for an odd prime p and a curve without points of order two, as long as
  equal points are given as equal Python objects.
\<close>

theorem point_add_on_curve:
  assumes "is_prime (field_p c)" and "odd (field_p c)" and "no_order_two c"
    and "on_curve c P" and "on_curve c Q" and "same_kind P Q"
  shows "on_curve c (point_add c P Q) \<and> point_add c P Q = point_add c Q P"
  using point_add_closed [OF assms(1,2,4,5,3,6)] point_add_commute [OF assms(1,2,4,5,6)] by simp

theorem point_add_on_curve_witness:
  "point_add small_curve (Some (Tup 0 1)) (Some (Tup 1 2)) = Some (Tup 0 4) \<and>
   on_curve small_curve (Some (Tup 0 4)) \<and>
   point_add small_curve (Some (Tup 1 2)) (Some (Tup 0 1)) = Some (Tup 0 4)"
proof -
  have "point_add small_curve (Some (Tup 0 1)) (Some (Tup 1 2)) = Some (Tup 0 4)"
    by (simp add: point_add_def pow3_def)
  moreover have "on_curve small_curve (Some (Tup 0 1))" "on_curve small_curve (Some (Tup 1 2))"
    "same_kind (Some (Tup 0 1)) (Some (Tup 1 2))"
    by (simp_all add: on_curve_def curve_rhs_def same_kind_def)
  ultimately show ?thesis
    using point_add_on_curve [of small_curve "Some (Tup 0 1)" "Some (Tup 1 2)"]
      small_primes(1) small_no_order_two by (metis odd_numeral small_curve_sel(3))
qed

end
