(* ===== verification/Schnorr.thy ===== *)
theory Schnorr
  imports SigCurve
begin

text \<open>
  Encodings, hashes and the two algorithms of \<open>docs/specs/signatures/reference.py\<close>: signing and
  verification. Everything before \<open>schnorr_sign\<close> is a function of its own as in the source. The
  digest and the list \<open>params\<close>, computed when the module is loaded, are arguments.
\<close>

text \<open>A call that may not return, then one that may raise.\<close>

definition obind :: "'a result option \<Rightarrow> ('a \<Rightarrow> 'b result option) \<Rightarrow> 'b result option" where
  "obind m f = (case m of None \<Rightarrow> None | Some (Inl e) \<Rightarrow> Some (Inl e) | Some (Inr x) \<Rightarrow> f x)"

lemma obind_simps [simp]: "obind (Some (Inr x)) f = f x" "obind (Some (Inl e)) f = Some (Inl e)"
  by (simp_all add: obind_def)

section \<open>Numbers and points as bytes\<close>

fun le_bytes :: "nat \<Rightarrow> int \<Rightarrow> bytes" where
  "le_bytes 0 x = []"
| "le_bytes (Suc k) x = word_of_int (x mod 256) # le_bytes k (x div 256)"

fun int_from_bytes :: "bytes \<Rightarrow> int" where
  "int_from_bytes [] = 0"
| "int_from_bytes (b # bs) = uint b + 256 * int_from_bytes bs"

text \<open>\<open>x.to_bytes(95, byteorder="little")\<close>\<close>

definition bytes_from_int :: "int \<Rightarrow> bytes result" where
  "bytes_from_int x = (if 0 \<le> x \<and> x < 256 ^ 95 then Inr (le_bytes 95 x) else Inl (PyException ''OverflowError''))"

definition point_x :: "point option \<Rightarrow> int result" where
  "point_x P = (case P of None \<Rightarrow> Inl TypeError | Some Q \<Rightarrow> Inr (px Q))"

definition point_y :: "point option \<Rightarrow> int result" where
  "point_y P = (case P of None \<Rightarrow> Inl TypeError | Some Q \<Rightarrow> Inr (py Q))"

definition bytes_from_point :: "point option \<Rightarrow> bytes result" where
  "bytes_from_point P = rbind (point_y P) (\<lambda>y. rbind (point_x P) (\<lambda>x. rbind (bytes_from_int x) (\<lambda>bs.
     Inr ((if y mod 2 = 1 then 3 else 2) # bs))))"

definition point_from_bytes :: "curve \<Rightarrow> bytes \<Rightarrow> point option result option" where
  "point_from_bytes c b =
     (if py_slice b 0 1 \<notin> {[2], [3]} then Some (Inr None)
      else obind (Some (py_get b 0)) (\<lambda>b0. let
          odd_bit = uint b0 - 2;
          x = int_from_bytes (py_slice b 1 96);
          y_sq = (pow3 x 3 (field_p c) + a_coeff c * x + b_coeff c) mod field_p c
        in if \<not> is_square c y_sq then Some (Inr None)
          else obind (prime_mod_sqrt c y_sq) (\<lambda>ys. obind (Some (py_get ys 0)) (\<lambda>y0.
            let y = (if y0 mod 2 \<noteq> odd_bit then field_p c - y0 else y0) in Some (Inr (Some (Lst x y)))))))"

section \<open>Trytes\<close>

type_synonym tryte = "int \<times> int \<times> int"

definition tryte_pad :: "int list \<Rightarrow> tryte list result" where
  "tryte_pad bits0 = (let
       n = length bits0;
       bits = bits0 @ (if n mod 3 = 0 then [] else replicate (3 - n mod 3) 0)
     in if length bits \<noteq> 3 * ((n + 2) div 3) then Inl AssertionError
       else mapM (\<lambda>i. rbind (py_get bits (int i)) (\<lambda>b0. rbind (py_get bits (int (i + 1))) (\<lambda>b1.
         rbind (py_get bits (int (i + 2))) (\<lambda>b2. Inr (b0, b1, b2))))) [0..<(n + 2) div 3])"

definition bits_from_int :: "curve \<Rightarrow> int \<Rightarrow> int list" where
  "bits_from_int c x = map (\<lambda>i. x div 2 ^ i mod 2) [0..<bits_N c]"

definition trytes_from_int :: "curve \<Rightarrow> int \<Rightarrow> tryte list result" where
  "trytes_from_int c x = tryte_pad (bits_from_int c x)"

definition trytes_from_point :: "curve \<Rightarrow> point option \<Rightarrow> tryte list result" where
  "trytes_from_point c P = rbind (point_x P) (\<lambda>x. rbind (point_y P) (\<lambda>y.
     tryte_pad (bits_from_int c x @ [y mod 2])))"

definition bits_from_bytes :: "bytes \<Rightarrow> int list" where
  "bits_from_bytes bs = concat (map (\<lambda>b. map (\<lambda>i. uint b div 2 ^ i mod 2) [0..<8]) bs)"

definition trytes_from_bytes :: "bytes \<Rightarrow> tryte list result" where
  "trytes_from_bytes bs = tryte_pad (bits_from_bytes bs)"

text \<open>
  The second comprehension of the source subscripts \<open>b\<close>, which there is the curve coefficient, a
  number: every non-empty argument raises. Nothing calls this function.
\<close>

definition bytes_from_trytes :: "tryte list \<Rightarrow> bytes result" where
  "bytes_from_trytes ts = (if 3 * length ts = 0 then Inr [] else Inl TypeError)"

section \<open>The Pedersen hash\<close>

definition pedersen_term :: "curve \<Rightarrow> point option \<Rightarrow> tryte \<Rightarrow> point option" where
  "pedersen_term c Pi = (\<lambda>(b0, b1, b2). let n = 1 + b0 + 2 * b1 in
     if n = 1 then Pi
     else if n = 2 then point_add c Pi Pi
     else if n = 3 then point_add c Pi (point_add c Pi Pi)
     else let PP = point_add c Pi Pi in point_add c PP PP)"

fun pedersen_loop :: "curve \<Rightarrow> point option list \<Rightarrow> nat \<Rightarrow> tryte list \<Rightarrow> point option \<Rightarrow> point option result" where
  "pedersen_loop c params i [] res = Inr res"
| "pedersen_loop c params i (t # ts) res = rbind (py_get params (int i)) (\<lambda>Pi.
     pedersen_loop c params (i + 1) ts (point_add c res (pedersen_term c Pi t)))"

definition pedersen :: "curve \<Rightarrow> point option list \<Rightarrow> tryte list \<Rightarrow> int result" where
  "pedersen c params ts = rbind (pedersen_loop c params 0 ts None) point_x"

definition hash_blake2s_pedersen :: "curve \<Rightarrow> point option list \<Rightarrow> digest_fun \<Rightarrow> tryte list \<Rightarrow> bytes result" where
  "hash_blake2s_pedersen c params H ts = rbind (pedersen c params ts) (\<lambda>x.
     rbind (bytes_from_int x) (\<lambda>bs. Inr (H bs)))"

text \<open>\<open>int_from_bytes(hash_blake2s_pedersen(trytes_from_int(r) + trytes_from_point(P) + trytes_from_bytes(msg)))\<close>\<close>

definition challenge ::
  "curve \<Rightarrow> point option list \<Rightarrow> digest_fun \<Rightarrow> int \<Rightarrow> point option \<Rightarrow> bytes \<Rightarrow> int result" where
  "challenge c params H r P msg =
     rbind (trytes_from_int c r) (\<lambda>tr. rbind (trytes_from_point c P) (\<lambda>tp. rbind (trytes_from_bytes msg) (\<lambda>tm.
       rbind (hash_blake2s_pedersen c params H (tr @ tp @ tm)) (\<lambda>h. Inr (int_from_bytes h)))))"

section \<open>Signatures\<close>

definition schnorr_sign ::
  "curve \<Rightarrow> point option list \<Rightarrow> digest_fun \<Rightarrow> bytes \<Rightarrow> int \<Rightarrow> bytes result" where
  "schnorr_sign c params H msg seckey =
     (if \<not> (1 \<le> seckey \<and> seckey \<le> order_n c - 1) then Inl ValueError
      else rbind (bytes_from_int seckey) (\<lambda>kb. let k0 = int_from_bytes (H (kb @ msg)) in
        if k0 = 0 then Inl (PyException ''RuntimeError'')
        else let R = point_mul c (Some (base_G c)) k0 in
          rbind (point_y R) (\<lambda>y. let k = (if y mod 2 \<noteq> 0 then order_n c - k0 else k0) in
          rbind (point_x R) (\<lambda>r.
          rbind (challenge c params H r (point_mul c (Some (base_G c)) seckey) msg) (\<lambda>e.
          rbind (bytes_from_int r) (\<lambda>rb.
          rbind (bytes_from_int ((k + e * seckey) mod order_n c)) (\<lambda>sb. Inr (rb @ sb))))))))"

definition schnorr_verify ::
  "curve \<Rightarrow> point option list \<Rightarrow> digest_fun \<Rightarrow> bytes \<Rightarrow> bytes \<Rightarrow> bytes \<Rightarrow> bool result option" where
  "schnorr_verify c params H msg pubkey sig =
     (if length pubkey \<noteq> 96 then Some (Inl ValueError)
      else if length sig \<noteq> 190 then Some (Inl ValueError)
      else obind (point_from_bytes c pubkey) (\<lambda>P.
        if P = None then Some (Inr False)
        else let r = int_from_bytes (py_slice sig 0 95); s = int_from_bytes (py_slice sig 95 190) in
          if r \<ge> field_p c \<or> s \<ge> order_n c then Some (Inr False)
          else obind (Some (challenge c params H r P msg)) (\<lambda>e.
            let R = point_add c (point_mul c (Some (base_G c)) s) (point_mul c P (order_n c - e)) in
              case R of None \<Rightarrow> Some (Inr False)
              | Some Q \<Rightarrow> Some (Inr (\<not> (py Q mod 2 \<noteq> 0 \<or> px Q \<noteq> r))))))"

text \<open>The self-test at the end of the file; the value is its exit status.\<close>

definition self_test :: "curve \<Rightarrow> digest_fun \<Rightarrow> (int result \<times> crs_state) option" where
  "self_test c H = pbind (generate_pedersen_params c H) (\<lambda>params.
     pbind (random_field_elt c H) (\<lambda>KEY u. Option.bind
       (obind (Some (schnorr_sign c params H (ascii_bytes ''this is a test'') KEY)) (\<lambda>SIG.
         obind (Some (bytes_from_point (point_mul c (Some (base_G c)) KEY))) (\<lambda>pk.
           obind (schnorr_verify c params H (ascii_bytes ''this is a test'') pk SIG) (\<lambda>ok.
             Some (Inr (if ok then 0 else 1))))))
       (\<lambda>r. Some (r, u)))) (crs_init H)"

section \<open>Bytes\<close>

lemma length_le_bytes [simp]: "length (le_bytes k x) = k"
  by (induction k arbitrary: x) simp_all

lemma int_from_le_bytes: "int_from_bytes (le_bytes k x) = x mod 256 ^ k"
proof (induction k arbitrary: x)
  case (Suc k)
  have "x mod 256 ^ Suc k = x mod 256 + 256 * (x div 256 mod 256 ^ k)"
    by (simp add: zmod_zmult2_eq algebra_simps)
  with Suc show ?case by (simp add: uint_word_of_int)
qed simp

lemma int_from_bytes_nonneg: "0 \<le> int_from_bytes bs"
  by (induction bs) simp_all

lemma bytes_from_int_ok:
  "0 \<le> x \<Longrightarrow> x < 256 ^ 95 \<Longrightarrow> bytes_from_int x = Inr (le_bytes 95 x) \<and> int_from_bytes (le_bytes 95 x) = x"
  by (simp only: bytes_from_int_def int_from_le_bytes mod_pos_pos_trivial) simp

lemma py_slice_append:
  "length xs = a \<Longrightarrow> length ys = b \<Longrightarrow> py_slice (xs @ ys) 0 (int a) = xs \<and> py_slice (xs @ ys) (int a) (int (a + b)) = ys"
  by (simp add: py_slice_def clip_pos_def Let_def)

section \<open>Points as bytes\<close>

lemma odd_sub: "odd p \<Longrightarrow> (p - y) mod 2 \<noteq> y mod (2::int)"
  by presburger

lemma curve_rhs_pow3: "(pow3 x 3 (field_p c) + a_coeff c * x + b_coeff c) mod field_p c = curve_rhs c x"
proof -
  have "x ^ nat 3 = x * x * x" by (simp add: numeral_3_eq_3 mult.assoc)
  moreover have "(z mod q + u + v) mod q = (z + u + v) mod (q::int)" for z u v q
    by (metis mod_add_left_eq)
  ultimately show ?thesis unfolding pow3_def curve_rhs_def by simp
qed

lemma point_roundtrip:
  assumes p: "is_prime (field_p c)" "odd (field_p c)" and size: "field_p c \<le> 256 ^ 95"
    and P: "on_curve c (Some P)" "py P \<noteq> 0"
  obtains b where "bytes_from_point (Some P) = Inr b" "length b = 96"
    "point_from_bytes c b = Some (Inr (Some (Lst (px P) (py P))))"
proof -
  let ?p = "field_p c" and ?x = "px P" and ?y = "py P"
  define h where "h = (if ?y mod 2 = 1 then 3 else 2 :: 8 word)"
  let ?b = "h # le_bytes 95 ?x"
  have x: "bytes_from_int ?x = Inr (le_bytes 95 ?x)" "int_from_bytes (le_bytes 95 ?x) = ?x"
    using bytes_from_int_ok [of ?x] P(1) size by (simp_all add: on_curve_def)
  have h: "uint h - 2 = ?y mod 2" "h = 2 \<or> h = 3" by (auto simp: h_def)
  have "?p dvd ?y * ?y - curve_rhs c ?x" using P(1) by (simp add: on_curve_def mod_eq_dvd [symmetric] curve_rhs_def)
  then have y: "is_square c (curve_rhs c ?x)" "?y \<in> square_roots c (curve_rhs c ?x)"
    using square_is_square [OF p, of ?y] P by (simp_all add: on_curve_def square_roots_def)
  obtain y0 where y0: "square_roots c (curve_rhs c ?x) = {y0, ?p - y0}"
    "prime_mod_sqrt c (curve_rhs c ?x) = Some (Inr [y0, ?p - y0])"
    using is_square_root [OF p y(1)] by metis
  have "(if y0 mod 2 \<noteq> ?y mod 2 then ?p - y0 else y0) = ?y"
    using y(2) y0(1) odd_sub [OF p(2), of y0] by auto
  moreover have "py_slice ?b 0 1 = [h]" "py_slice ?b 1 96 = le_bytes 95 ?x"
    by (simp_all add: py_slice_def clip_pos_def Let_def)
  ultimately have "point_from_bytes c ?b = Some (Inr (Some (Lst ?x ?y)))"
    using h x(2) y0(2) y(1) by (simp add: point_from_bytes_def curve_rhs_pow3 py_get_def Let_def)
  moreover have "bytes_from_point (Some P) = Inr ?b"
    by (simp add: bytes_from_point_def point_x_def point_y_def x(1) h_def)
  ultimately show ?thesis using that [of ?b] by simp
qed

section \<open>Trytes\<close>

definition padded :: "int list \<Rightarrow> int list" where
  "padded bits = bits @ (if length bits mod 3 = 0 then [] else replicate (3 - length bits mod 3) 0)"

lemma length_padded: "length (padded bits) = 3 * ((length bits + 2) div 3)"
  by (simp add: padded_def) presburger

lemma tryte_pad_eq:
  "tryte_pad bits = Inr (map (\<lambda>i. (padded bits ! i, padded bits ! (i + 1), padded bits ! (i + 2)))
     [0..<(length bits + 2) div 3])"
proof -
  have "rbind (py_get (padded bits) (int i)) (\<lambda>b0. rbind (py_get (padded bits) (int (i + 1))) (\<lambda>b1.
         rbind (py_get (padded bits) (int (i + 2))) (\<lambda>b2. Inr (b0, b1, b2)))) =
      Inr (padded bits ! i, padded bits ! (i + 1), padded bits ! (i + 2))"
    if "i \<in> set [0..<(length bits + 2) div 3]" for i
  proof -
    have "i + 2 < length (padded bits)" using that by (simp add: length_padded)
    then show ?thesis by (simp add: py_get_ok del: of_nat_add of_nat_Suc)
  qed
  note pure = mapM_pure [of "[0..<(length bits + 2) div 3]", OF this]
  show ?thesis unfolding tryte_pad_def Let_def padded_def [symmetric] length_padded
    by (simp only: not_True_eq_False if_False pure refl)
qed

text \<open>Only the first third of the bits, and two more, ever reach a tryte.\<close>

lemma tryte_pad_prefix:
  assumes len: "length bits = length bits'" and "(length bits + 2) div 3 + 2 \<le> k"
    and same: "take k bits = take k bits'"
  shows "tryte_pad bits = tryte_pad bits'"
proof -
  have "padded bits ! i = padded bits' ! i" if "i < k" for i
  proof (cases "i < length bits")
    case True
    then have "bits ! i = bits' ! i" using nth_take [OF that, of bits] nth_take [OF that, of bits'] same by simp
    with True len show ?thesis by (simp add: padded_def nth_append)
  next
    case False
    with len show ?thesis by (simp add: padded_def nth_append)
  qed
  with assms(2) len show ?thesis unfolding tryte_pad_eq by auto
qed

lemma bits_from_bytes_prefix:
  assumes "take j msg = take j msg'" and "k \<le> 8 * j"
  shows "take k (bits_from_bytes msg) = take k (bits_from_bytes msg')"
proof -
  have "take (8 * j) (bits_from_bytes bs) = bits_from_bytes (take j bs)" for bs
  proof (induction bs arbitrary: j)
    case (Cons b bs)
    then show ?case by (cases j) (simp_all add: bits_from_bytes_def del: upt_Suc)
  qed (simp add: bits_from_bytes_def)
  with assms show ?thesis by (metis min.absorb1 take_take)
qed

lemma length_bits_from_bytes: "length (bits_from_bytes bs) = 8 * length bs"
  by (induction bs) (simp_all add: bits_from_bytes_def)

text \<open>
  C16. The challenge is made from a third of the message: tryte_pad makes overlapping groups of
  bits, so two messages of the same length that agree in the first bytes, those that
  hold the first third of the bits and two more, have the same challenge for every r and public
  key, and a signature verifies for one exactly if it does for the other. (The source does
  not intend this.)
\<close>

theorem signature_covers_a_third:
  assumes "length msg' = length msg" and "take j msg' = take j msg"
    and "(8 * length msg + 2) div 3 + 2 \<le> 8 * j"
  shows "(\<forall>r P. challenge c params H r P msg' = challenge c params H r P msg) \<and>
    schnorr_verify c params H msg' pubkey sig = schnorr_verify c params H msg pubkey sig"
proof -
  have "take (8 * j) (bits_from_bytes msg') = take (8 * j) (bits_from_bytes msg)"
    using assms(2) by (rule bits_from_bytes_prefix) simp
  then have "trytes_from_bytes msg' = trytes_from_bytes msg"
    unfolding trytes_from_bytes_def using assms(1,3)
    by (intro tryte_pad_prefix [of _ _ "8 * j"]) (simp_all add: length_bits_from_bytes)
  then have "\<forall>r P. challenge c params H r P msg' = challenge c params H r P msg"
    by (simp add: challenge_def)
  then show ?thesis by (simp only: schnorr_verify_def simp_thms)
qed

theorem signature_covers_a_third_witness:
  "\<forall>params H pubkey sig.
     (\<forall>r P. challenge mina_curve params H r P (ascii_bytes ''this was faked'') =
            challenge mina_curve params H r P (ascii_bytes ''this is a test'')) \<and>
     schnorr_verify mina_curve params H (ascii_bytes ''this was faked'') pubkey sig =
     schnorr_verify mina_curve params H (ascii_bytes ''this is a test'') pubkey sig"
  by (intro allI signature_covers_a_third [of _ _ 5]) (simp_all add: ascii_bytes_def)

end
