(* ===== verification/SigGroup.thy ===== *)
theory SigGroup
  imports SigCurve
begin

text \<open>
  The multiples of the base point \<open>G\<close> of \<open>docs/specs/signatures/reference.py\<close> and the proof
  that double-and-add computes them. That the curve is a group is a fact about its constants, not
  about the code: it is the hypothesis \<open>cyclic_group\<close>, decidable for a given curve, stated on
  the multiples of \<open>G\<close> only.
\<close>

fun repeated_add :: "curve \<Rightarrow> nat \<Rightarrow> point option" where
  "repeated_add c 0 = None"
| "repeated_add c (Suc k) = point_add c (repeated_add c k) (Some (base_G c))"

text \<open>The multiple \<open>k * G\<close>; \<open>G\<close> has order \<open>n\<close>.\<close>

definition G_times :: "curve \<Rightarrow> int \<Rightarrow> point option" where
  "G_times c k = repeated_add c (nat (k mod order_n c))"

definition cyclic_group :: "curve \<Rightarrow> bool" where
  "cyclic_group c \<longleftrightarrow>
     (\<forall>i\<in>{0..<order_n c}. \<forall>j\<in>{0..<order_n c}. point_add c (G_times c i) (G_times c j) = G_times c (i + j)) \<and>
     (\<forall>i\<in>{1..<order_n c}. G_times c i \<noteq> None)"

text \<open>What the constants of the module are meant to satisfy.\<close>

definition signature_curve :: "curve \<Rightarrow> bool" where
  "signature_curve c \<longleftrightarrow>
     is_prime (field_p c) \<and> odd (field_p c) \<and> is_prime (order_n c) \<and> odd (order_n c) \<and>
     field_p c \<le> 2 ^ bits_N c \<and> order_n c \<le> 2 ^ bits_N c \<and> bits_N c \<le> 760 \<and>
     on_curve c (Some (base_G c)) \<and> is_tup (Some (base_G c)) \<and> no_order_two c \<and> cyclic_group c"

section \<open>Laws of the multiples\<close>

lemma G_times_mod: "G_times c (k mod order_n c) = G_times c k"
  by (simp add: G_times_def)

lemma G_times_cong: "order_n c dvd i - j \<Longrightarrow> G_times c i = G_times c j"
  by (metis G_times_mod mod_eq_dvd)

lemma G_times_inv:
  assumes "signature_curve c"
  shows "on_curve c (G_times c k) \<and> is_tup (G_times c k)"
proof -
  have "on_curve c (repeated_add c m) \<and> is_tup (repeated_add c m)" for m
  proof (induction m)
    case 0
    then show ?case by (simp add: on_curve_def)
  next
    case (Suc m)
    with assms point_add_closed [of c "repeated_add c m" "Some (base_G c)"] show ?case
      by (simp add: signature_curve_def point_add_tup tup_same_kind)
  qed
  then show ?thesis by (simp add: G_times_def)
qed

lemma G_times_add:
  assumes "signature_curve c"
  shows "point_add c (G_times c i) (G_times c j) = G_times c (i + j)"
proof -
  let ?n = "order_n c"
  have "0 < ?n" using assms is_prime_gt1 [of ?n] by (simp add: signature_curve_def)
  then have "i mod ?n \<in> {0..<?n}" "j mod ?n \<in> {0..<?n}" by simp_all
  with assms have "point_add c (G_times c (i mod ?n)) (G_times c (j mod ?n)) = G_times c (i mod ?n + j mod ?n)"
    by (simp only: signature_curve_def cyclic_group_def)
  moreover have "G_times c (i mod ?n + j mod ?n) = G_times c (i + j)"
    by (metis G_times_mod mod_add_eq)
  ultimately show ?thesis by (simp only: G_times_mod)
qed

lemma G_times_None:
  assumes "signature_curve c"
  shows "G_times c k = None \<longleftrightarrow> order_n c dvd k"
proof -
  let ?n = "order_n c"
  have pos: "0 < ?n" using assms is_prime_gt1 [of ?n] by (simp add: signature_curve_def)
  show ?thesis
  proof (cases "?n dvd k")
    case True
    then show ?thesis by (simp add: G_times_def)
  next
    case False
    then have "k mod ?n \<noteq> 0" by (simp add: dvd_eq_mod_eq_0)
    with pos_mod_sign [OF pos, of k] have "1 \<le> k mod ?n" by linarith
    then have "k mod ?n \<in> {1..<?n}" using pos by simp
    then have "G_times c (k mod ?n) \<noteq> None" using assms unfolding signature_curve_def cyclic_group_def by blast
    with False show ?thesis by (simp only: G_times_mod)
  qed
qed

lemma G_times_inj:
  assumes "signature_curve c" and "G_times c i = G_times c j"
  shows "order_n c dvd i - j"
proof -
  have "G_times c (i - j) = point_add c (G_times c i) (G_times c (- j))"
    by (simp add: G_times_add [OF assms(1)])
  also have "\<dots> = G_times c (j - j)" by (simp add: assms(2) G_times_add [OF assms(1)])
  also have "\<dots> = None" by (simp add: G_times_None [OF assms(1)])
  finally show ?thesis by (simp add: G_times_None [OF assms(1)])
qed

lemma G_times_1:
  assumes "signature_curve c"
  shows "G_times c 1 = Some (base_G c)"
  using assms is_prime_gt1 [of "order_n c"] by (simp add: signature_curve_def G_times_def)

lemma G_times_point:
  assumes "signature_curve c" and "\<not> order_n c dvd k"
  obtains x y where "G_times c k = Some (Tup x y)" "0 \<le> x" "x < field_p c" "0 < y" "y < field_p c"
proof -
  from assms have "G_times c k \<noteq> None" by (simp add: G_times_None)
  then obtain P where P: "G_times c k = Some P" by blast
  with G_times_inv [OF assms(1), of k] have inv: "on_curve c (Some P)" "is_tup (Some P)" by simp_all
  have "py P \<noteq> 0" using on_curve_order_two [OF _ inv(1)] assms(1) by (simp add: signature_curve_def)
  with inv P that show ?thesis by (cases P) (auto simp: on_curve_def)
qed

text \<open>The opposite multiple has the same x coordinate and the other root as y coordinate.\<close>

lemma G_times_neg:
  assumes c: "signature_curve c" and k: "G_times c k = Some (Tup x y)"
  shows "G_times c (- k) = Some (Tup x (field_p c - y))"
proof -
  let ?p = "field_p c"
  have p: "is_prime ?p" using c by (simp add: signature_curve_def)
  have nk: "\<not> order_n c dvd k" using k G_times_None [OF c, of k] by simp
  then obtain x' y' where k': "G_times c (- k) = Some (Tup x' y')"
    using G_times_point [OF c, of "- k"] by (metis dvd_minus_iff)
  have "point_add c (G_times c k) (G_times c (- k)) = None"
    by (simp add: G_times_add [OF c] G_times_None [OF c])
  then have eq: "x' = x" "y' \<noteq> y" by (simp_all add: k k' point_add_def Let_def split: if_splits)
  have on: "on_curve c (Some (Tup x y))" "on_curve c (Some (Tup x y'))"
    using G_times_inv [OF c, of k] G_times_inv [OF c, of "- k"] k k' eq(1) by simp_all
  have "0 < y" using G_times_point [OF c nk] k by auto
  with on(1) have "{z \<in> {0..<?p}. ?p dvd z * z - curve_rhs c x} = {y, ?p - y}"
    by (intro roots_of_square [OF p]) (simp_all add: on_curve_def mod_eq_dvd [symmetric] curve_rhs_def)
  moreover have "y' \<in> {z \<in> {0..<?p}. ?p dvd z * z - curve_rhs c x}"
    using on(2) by (simp add: on_curve_def mod_eq_dvd [symmetric] curve_rhs_def)
  ultimately show ?thesis using k' eq by auto
qed

section \<open>Double-and-add\<close>

lemma bits_step:
  fixes k :: int
  assumes "i < m"
  shows "(k div 2 ^ i) mod 2 ^ (m - i) = k div 2 ^ i mod 2 + 2 * ((k div 2 ^ Suc i) mod 2 ^ (m - Suc i))"
proof -
  have "m - i = Suc (m - Suc i)" using assms by simp
  then show ?thesis by (simp add: zmod_zmult2_eq zdiv_zmult2_eq [symmetric] mult.commute)
qed

lemma mul_loop_G:
  assumes c: "signature_curve c"
  shows "i \<le> m \<Longrightarrow> mul_loop c k [i..<m] (G_times c r) (G_times c (2 ^ i * d)) =
    G_times c (r + 2 ^ i * d * (k div 2 ^ i mod 2 ^ (m - i)))"
proof (induction "m - i" arbitrary: i r)
  case 0
  then show ?case by simp
next
  case (Suc l)
  then have i: "i < m" "l = m - Suc i" by simp_all
  let ?b = "k div 2 ^ i mod 2"
  have b: "?b = 0 \<or> ?b = 1" by presburger
  have "mul_loop c k [i..<m] (G_times c r) (G_times c (2 ^ i * d)) =
      mul_loop c k [Suc i..<m] (G_times c (r + 2 ^ i * d * ?b)) (G_times c (2 ^ Suc i * d))"
    using b by (auto simp: upt_conv_Cons [OF i(1)] Let_def G_times_add [OF c] algebra_simps)
  also have "\<dots> = G_times c (r + 2 ^ i * d * ?b + 2 ^ Suc i * d * (k div 2 ^ Suc i mod 2 ^ (m - Suc i)))"
    using Suc.hyps(1) [OF i(2)] i by simp
  also have "r + 2 ^ i * d * ?b + 2 ^ Suc i * d * (k div 2 ^ Suc i mod 2 ^ (m - Suc i)) =
      r + 2 ^ i * d * (k div 2 ^ i mod 2 ^ (m - i))"
    unfolding bits_step [OF i(1)] by (simp add: algebra_simps)
  finally show ?case .
qed

lemma point_mul_G:
  assumes "signature_curve c" and "0 \<le> k" and "k < 2 ^ bits_N c"
  shows "point_mul c (G_times c d) k = G_times c (d * k)"
proof -
  have "point_mul c (G_times c d) k = mul_loop c k [0..<bits_N c] (G_times c 0) (G_times c (2 ^ 0 * d))"
    using G_times_None [OF assms(1), of 0] by (simp add: point_mul_def)
  also have "\<dots> = G_times c (0 + 2 ^ 0 * d * (k div 2 ^ 0 mod 2 ^ (bits_N c - 0)))"
    by (rule mul_loop_G [OF assms(1)]) simp
  finally show ?thesis using assms by simp
qed

text \<open>
  The same for a point given as a list, as \<open>schnorr_verify\<close> does: the sum \<open>R = point_add(R, P)\<close>
  may then meet a list, which is unequal to every tuple. The coordinates still differ at each such
  addition, so the result is right; only for the multiplier 1 it is the list itself.
\<close>

lemma point_add_Lst:
  "point_add c (Some (Lst x y)) (Some (Lst x y)) = point_add c (Some (Tup x y)) (Some (Tup x y))"
  "(x', y') \<noteq> (x, y) \<Longrightarrow>
   point_add c (Some (Lst x y)) (Some (Tup x' y')) = point_add c (Some (Tup x y)) (Some (Tup x' y'))"
  by (auto simp: point_add_def Let_def)

lemma power2_multiple_differs:
  assumes c: "signature_curve c" and d: "G_times c d = Some (Tup x y)"
    and i: "0 < i" "2 ^ i \<le> order_n c"
  obtains x' y' where "G_times c (2 ^ i * d) = Some (Tup x' y')" "(x', y') \<noteq> (x, y)"
proof -
  let ?n = "order_n c"
  have n: "is_prime ?n" "odd ?n" using c by (simp_all add: signature_curve_def)
  have nd: "\<not> ?n dvd d" using d G_times_None [OF c, of d] by simp
  have "\<not> ?n dvd 2 ^ i"
  proof
    assume "?n dvd 2 ^ i"
    then have "?n dvd 2" by (rule prime_dvd_power [OF n(1)])
    then show False using odd_prime_gt2 [OF n] by (simp add: zdvd_not_zless)
  qed
  then have "\<not> ?n dvd 2 ^ i * d" using nd by (simp add: prime_dvd_mult [OF n(1)])
  then obtain x' y' where P: "G_times c (2 ^ i * d) = Some (Tup x' y')"
    using G_times_point [OF c] by metis
  moreover have "(x', y') \<noteq> (x, y)"
  proof
    assume "(x', y') = (x, y)"
    with P d have "?n dvd 2 ^ i * d - d" by (intro G_times_inj [OF c]) simp
    then have "?n dvd (2 ^ i - 1) * d" by (simp add: left_diff_distrib)
    then have "?n dvd 2 ^ i - 1" using nd by (simp add: prime_dvd_mult [OF n(1)])
    moreover have "0 < (2::int) ^ i - 1" using i(1) by simp
    ultimately have "?n \<le> 2 ^ i - 1" by (rule zdvd_imp_le)
    with i(2) show False by simp
  qed
  ultimately show ?thesis by (rule that)
qed

lemma mul_loop_list:
  assumes c: "signature_curve c" and d: "G_times c d = Some (Tup x y)" and k: "0 \<le> k" "k \<le> order_n c"
  shows "0 < i \<Longrightarrow> i \<le> m \<Longrightarrow> k div 2 ^ i mod 2 ^ (m - i) \<noteq> 0 \<Longrightarrow>
    mul_loop c k [i..<m] (Some (Lst x y)) (G_times c (2 ^ i * d)) =
    G_times c (d + 2 ^ i * d * (k div 2 ^ i mod 2 ^ (m - i)))"
proof (induction "m - i" arbitrary: i)
  case 0
  then show ?case by simp
next
  case (Suc l)
  then have i: "i < m" "l = m - Suc i" by simp_all
  let ?P = "G_times c (2 ^ i * d)"
  have dbl: "point_add c ?P ?P = G_times c (2 ^ Suc i * d)"
    by (simp add: G_times_add [OF c] algebra_simps)
  show ?case
  proof (cases "k div 2 ^ i mod 2 = 1")
    case True
    then have "k div 2 ^ i \<noteq> 0" by auto
    then have "2 ^ i \<le> k" using div_pos_pos_trivial [OF k(1), of "2 ^ i"] by (cases "k < 2 ^ i") simp_all
    then have "2 ^ i \<le> order_n c" using k(2) by (rule order_trans)
    from power2_multiple_differs [OF c d Suc.prems(1) this]
    obtain x' y' where P: "?P = Some (Tup x' y')" "(x', y') \<noteq> (x, y)" .
    then have "point_add c (Some (Lst x y)) ?P = point_add c (G_times c d) ?P"
      unfolding d P(1) by (intro point_add_Lst(2))
    then have "mul_loop c k [i..<m] (Some (Lst x y)) ?P = mul_loop c k [i..<m] (G_times c d) ?P"
      unfolding upt_conv_Cons [OF i(1)] mul_loop.simps Let_def if_P [OF True] by (rule arg_cong)
    then show ?thesis using mul_loop_G [OF c Suc.prems(2), of k d d] by simp
  next
    case False
    then have b: "k div 2 ^ i mod 2 = 0" by presburger
    have "mul_loop c k [i..<m] (Some (Lst x y)) ?P =
        mul_loop c k [Suc i..<m] (Some (Lst x y)) (G_times c (2 ^ Suc i * d))"
      using b by (simp add: upt_conv_Cons [OF i(1)] dbl)
    also have "\<dots> = G_times c (d + 2 ^ Suc i * d * (k div 2 ^ Suc i mod 2 ^ (m - Suc i)))"
      using Suc.hyps(1) [OF i(2)] Suc.prems(3) i(1) b by (simp add: bits_step [OF i(1)] del: power_Suc)
    finally show ?thesis unfolding bits_step [OF i(1)] b by (simp add: algebra_simps)
  qed
qed

lemma point_mul_list:
  assumes c: "signature_curve c" and d: "G_times c d = Some (Tup x y)"
    and k: "0 \<le> k" "k \<noteq> 1" "k \<le> order_n c"
  shows "point_mul c (Some (Lst x y)) k = G_times c (d * k)"
proof -
  let ?m = "bits_N c"
  have kN: "k < 2 ^ ?m"
  proof -
    have "order_n c \<le> 2 ^ ?m" "odd (order_n c)" "1 < order_n c"
      using c is_prime_gt1 [of "order_n c"] by (simp_all add: signature_curve_def)
    then have "order_n c < 2 ^ ?m" by (cases "?m = 0") (auto simp: order_le_less)
    with k(3) show ?thesis by simp
  qed
  have m: "0 < ?m" using kN c k(3) is_prime_gt1 [of "order_n c"]
    by (cases "?m = 0") (auto simp: signature_curve_def)
  have dbl: "point_add c (Some (Lst x y)) (Some (Lst x y)) = G_times c (2 ^ 1 * d)"
    using G_times_add [OF c, of d d] by (simp add: point_add_Lst d)
  have rest: "k div 2 ^ 1 mod 2 ^ (?m - 1) = k div 2"
  proof -
    have "k div 2 < 2 ^ (?m - 1)" using kN m by (cases ?m) auto
    with k(1) show ?thesis by simp
  qed
  have list: "[0..<?m] = 0 # [1..<?m]" using m by (simp add: upt_conv_Cons)
  show ?thesis
  proof (cases "k mod 2 = 1")
    case True
    then have nz: "k div 2 ^ 1 mod 2 ^ (?m - 1) \<noteq> 0" unfolding rest using k by presburger
    have "point_mul c (Some (Lst x y)) k = mul_loop c k [1..<?m] (Some (Lst x y)) (G_times c (2 ^ 1 * d))"
      unfolding point_mul_def list using True dbl by simp
    also have "\<dots> = G_times c (d + 2 ^ 1 * d * (k div 2))"
      using mul_loop_list [OF c d k(1,3) _ _ nz] m unfolding rest by simp
    also have "d + 2 ^ 1 * d * (k div 2) = d * (k mod 2 + 2 * (k div 2))" by (simp add: True algebra_simps)
    finally show ?thesis by simp
  next
    case False
    then have b: "k mod 2 = 0" by presburger
    have "point_mul c (Some (Lst x y)) k = mul_loop c k [1..<?m] (G_times c 0) (G_times c (2 ^ 1 * d))"
      unfolding point_mul_def list using b dbl G_times_None [OF c, of 0] by simp
    also have "\<dots> = G_times c (0 + 2 ^ 1 * d * (k div 2))"
      using mul_loop_G [OF c, of 1 ?m k 0 d] m unfolding rest by simp
    also have "0 + 2 ^ 1 * d * (k div 2) = d * (k mod 2 + 2 * (k div 2))" by (simp add: b algebra_simps)
    finally show ?thesis by simp
  qed
qed

end
