(* ===== verification/SchnorrCorrect.thy ===== *)
theory SchnorrCorrect
  imports Schnorr SigGroup
begin

text \<open>
  Signing and verification of \<open>docs/specs/signatures/reference.py\<close> together: a signature that
  was made verifies, and messages that are too long for the parameters have none.
\<close>

text \<open>
  Every digest, read as a number, is below \<open>n - 1\<close>. On the curve of the file this is the
  documented digest size: 256 bits against the 753 of \<open>n\<close>.
\<close>

definition short_digests :: "curve \<Rightarrow> digest_fun \<Rightarrow> bool" where
  "short_digests c H \<longleftrightarrow> (\<forall>x. int_from_bytes (H x) < order_n c - 1)"

lemma int_from_bytes_bound: "int_from_bytes bs < 256 ^ length bs"
proof (induction bs)
  case (Cons b bs)
  have "uint b < 256" using uint_lt2p [of b] by simp
  with Cons show ?case by simp
qed simp

lemma mina_short_digests: "digest_size H \<Longrightarrow> short_digests mina_curve H"
  unfolding short_digests_def
proof
  fix x
  assume "digest_size H"
  with int_from_bytes_bound [of "H x"] have "int_from_bytes (H x) < 256 ^ 32" by (simp add: digest_size_def)
  also have "(256::int) ^ 32 \<le> order_n mina_curve - 1" by (simp add: mina_curve_def)
  finally show "int_from_bytes (H x) < order_n mina_curve - 1" .
qed

section \<open>What signing computes\<close>

text \<open>The nonce is negated so that its multiple has an even y coordinate.\<close>

lemma even_nonce:
  assumes c: "signature_curve c" and R: "G_times c k0 = Some (Tup x y)"
  shows "\<exists>y'. G_times c (if y mod 2 \<noteq> 0 then order_n c - k0 else k0) = Some (Tup x y') \<and> y' mod 2 = 0"
proof (cases "y mod 2 = 0")
  case False
  have "G_times c (order_n c - k0) = G_times c (- k0)" by (rule G_times_cong) simp
  also have "\<dots> = Some (Tup x (field_p c - y))" by (rule G_times_neg [OF c R])
  finally show ?thesis using False odd_sub [of "field_p c" y] c by (auto simp: signature_curve_def)
qed (simp add: R)

lemma signature_curve_sizes:
  assumes "signature_curve c"
  shows "field_p c \<le> 256 ^ 95" "order_n c \<le> 256 ^ 95" "0 < order_n c"
proof -
  have "(2::int) ^ bits_N c \<le> 2 ^ 760" using assms by (intro power_increasing) (simp_all add: signature_curve_def)
  also have "(2::int) ^ 760 = 256 ^ 95" by simp
  finally show "field_p c \<le> 256 ^ 95" "order_n c \<le> 256 ^ 95" "0 < order_n c"
    using assms is_prime_gt1 [of "order_n c"] by (auto simp: signature_curve_def)
qed

text \<open>The parts of a signature: \<open>r\<close> and \<open>s\<close> with their equation.\<close>

lemma schnorr_sign_parts:
  assumes c: "signature_curve c" and H: "short_digests c H"
    and sign: "schnorr_sign c params H msg sk = Inr sig"
  obtains r s e k y where "sig = le_bytes 95 r @ le_bytes 95 s" "0 \<le> r" "r < field_p c"
    "s = (k + e * sk) mod order_n c" "1 \<le> sk" "sk < order_n c"
    "challenge c params H r (point_mul c (Some (base_G c)) sk) msg = Inr e"
    "G_times c k = Some (Tup r y)" "y mod 2 = 0"
proof -
  from sign obtain kb where sk: "1 \<le> sk" "sk < order_n c" and kb: "bytes_from_int sk = Inr kb"
    by (auto simp: schnorr_sign_def rbind_eq_Inr split: if_splits)
  define k0 where "k0 = int_from_bytes (H (kb @ msg))"
  have "k0 < order_n c - 1" using H by (simp add: k0_def short_digests_def)
  then have k0: "0 \<le> k0" "k0 < order_n c" by (simp_all add: k0_def int_from_bytes_nonneg)
  have lt: "order_n c \<le> 2 ^ bits_N c" using c by (simp add: signature_curve_def)
  from sign kb sk have ne: "k0 \<noteq> 0" by (auto simp: schnorr_sign_def k0_def)
  then have "\<not> order_n c dvd k0" using k0 by (intro zdvd_not_zless) auto
  from G_times_point [OF c this] obtain r y where
    R: "G_times c k0 = Some (Tup r y)" and r: "0 \<le> r" "r < field_p c" by metis
  have mul: "point_mul c (Some (base_G c)) k0 = Some (Tup r y)"
    using point_mul_G [OF c k0(1), of 1] k0(2) lt R by (simp add: G_times_1 [OF c])
  define k where "k = (if y mod 2 \<noteq> 0 then order_n c - k0 else k0)"
  obtain y' where y': "G_times c k = Some (Tup r y')" "y' mod 2 = 0"
    using even_nonce [OF c R] by (auto simp: k_def)
  have "schnorr_sign c params H msg sk =
      rbind (challenge c params H r (point_mul c (Some (base_G c)) sk) msg) (\<lambda>e.
        rbind (bytes_from_int r) (\<lambda>rb. rbind (bytes_from_int ((k + e * sk) mod order_n c)) (\<lambda>sb. Inr (rb @ sb))))"
    using sk kb ne mul by (simp add: schnorr_sign_def Let_def k0_def [symmetric] point_x_def point_y_def k_def)
  with sign obtain e rb sb where e:
    "challenge c params H r (point_mul c (Some (base_G c)) sk) msg = Inr e"
    "bytes_from_int r = Inr rb" "bytes_from_int ((k + e * sk) mod order_n c) = Inr sb" "sig = rb @ sb"
    by (auto simp: rbind_eq_Inr)
  then have "sig = le_bytes 95 r @ le_bytes 95 ((k + e * sk) mod order_n c)"
    by (auto simp: bytes_from_int_def split: if_splits)
  then show ?thesis by (rule that [OF _ r refl sk e(1) y'])
qed

lemma challenge_range:
  assumes "short_digests c H" and "challenge c params H r P msg = Inr e"
  shows "0 \<le> e \<and> e < order_n c - 1"
  using assms
  by (auto simp: challenge_def hash_blake2s_pedersen_def rbind_eq_Inr int_from_bytes_nonneg short_digests_def)

lemma challenge_kind: "challenge c params H r (Some (Lst x y)) msg = challenge c params H r (Some (Tup x y)) msg"
  by (simp add: challenge_def trytes_from_point_def point_x_def point_y_def)

section \<open>Verification accepts\<close>

text \<open>
  C1. Every signature schnorr_sign returns is accepted by schnorr_verify for the same message and
  the bytes of the public key: the encoding of the point, the recovery of its y coordinate by a
  square root, double-and-add on tuples and lists, the reduction of s and the parity of R all
  fit together. Assumed are the group structure of the curve and that digests are shorter than n.
\<close>

theorem sign_then_verify:
  assumes "signature_curve c" and "short_digests c H"
    and "schnorr_sign c params H msg seckey = Inr sig"
    and "bytes_from_point (point_mul c (Some (base_G c)) seckey) = Inr pubkey"
  shows "schnorr_verify c params H msg pubkey sig = Some (Inr True)"
proof -
  note c = assms(1)
  let ?n = "order_n c" and ?p = "field_p c"
  obtain r s e k y where sig: "sig = le_bytes 95 r @ le_bytes 95 s" and r: "0 \<le> r" "r < ?p"
    and s: "s = (k + e * seckey) mod ?n" and sk: "1 \<le> seckey" "seckey < ?n"
    and e: "challenge c params H r (point_mul c (Some (base_G c)) seckey) msg = Inr e"
    and R: "G_times c k = Some (Tup r y)" "y mod 2 = 0"
    using schnorr_sign_parts [OF c assms(2,3)] by metis
  have c': "is_prime ?p" "odd ?p" "?n \<le> 2 ^ bits_N c" using c by (simp_all add: signature_curve_def)
  note sizes = signature_curve_sizes [OF c]
  have er: "0 \<le> e" "e < ?n - 1" using challenge_range [OF assms(2) e] by simp_all
  have sr: "0 \<le> s" "s < ?n" using sizes(3) by (simp_all add: s)
  have "\<not> ?n dvd seckey" using sk by (intro zdvd_not_zless) auto
  from G_times_point [OF c this] obtain px' py' where P: "G_times c seckey = Some (Tup px' py')" "0 < py'"
    by metis
  have pk: "point_mul c (Some (base_G c)) seckey = Some (Tup px' py')"
    using point_mul_G [OF c, of seckey 1] sk c'(3) P by (simp add: G_times_1 [OF c])
  have "on_curve c (Some (Tup px' py'))" using G_times_inv [OF c, of seckey] P by simp
  from point_roundtrip [OF c'(1,2) sizes(1) this] P(2) assms(4)
  have pub: "length pubkey = 96" "point_from_bytes c pubkey = Some (Inr (Some (Lst px' py')))"
    by (auto simp: pk)
  have parts: "int_from_bytes (py_slice sig 0 95) = r" "int_from_bytes (py_slice sig 95 190) = s" "length sig = 190"
    using py_slice_append [of "le_bytes 95 r" 95 "le_bytes 95 s" 95] bytes_from_int_ok [of r]
      bytes_from_int_ok [of s] r sr sizes by (simp_all add: sig)
  have "point_mul c (Some (base_G c)) s = G_times c s"
    using point_mul_G [OF c sr(1), of 1] sr(2) c'(3) by (simp add: G_times_1 [OF c])
  moreover have "point_mul c (Some (Lst px' py')) (?n - e) = G_times c (seckey * (?n - e))"
    using er by (intro point_mul_list [OF c P(1)]) simp_all
  moreover have "G_times c (s + seckey * (?n - e)) = G_times c k"
  proof (rule G_times_cong)
    have "s + seckey * (?n - e) - k = (s - (k + e * seckey)) + ?n * seckey" by (simp add: algebra_simps)
    also have "?n dvd \<dots>" using mod_dvd_diff [of ?n "k + e * seckey"] by (simp add: s)
    finally show "?n dvd s + seckey * (?n - e) - k" .
  qed
  ultimately have sum: "point_add c (point_mul c (Some (base_G c)) s) (point_mul c (Some (Lst px' py')) (?n - e)) =
      Some (Tup r y)"
    by (simp add: G_times_add [OF c] R(1))
  have "challenge c params H r (Some (Lst px' py')) msg = Inr e" using e pk by (simp add: challenge_kind)
  with pub parts r sr sum R(2) show ?thesis by (simp add: schnorr_verify_def Let_def)
qed

section \<open>An instance\<close>

definition multiples :: "point option list" where
  "multiples = [None, Some (Tup 0 1), Some (Tup 1 3), Some (Tup 3 3), Some (Tup 3 2), Some (Tup 1 2), Some (Tup 0 4)]"

lemma multiples_add:
  "list_all (\<lambda>i. list_all (\<lambda>j. point_add small_curve (multiples ! i) (multiples ! j) = multiples ! ((i + j) mod 7))
     [0..<7]) [0..<7]"
  by code_simp

lemma multiples_at:
  "i < 7 \<Longrightarrow> j < 7 \<Longrightarrow> point_add small_curve (multiples ! i) (multiples ! j) = multiples ! ((i + j) mod 7)"
  using multiples_add by (simp add: list_all_iff)

lemma small_multiples:
  assumes "0 \<le> i" and "i < 7"
  shows "G_times small_curve i = multiples ! nat i"
proof -
  have one: "multiples ! 1 = Some (Tup 0 1)" by (simp add: multiples_def)
  have add: "point_add small_curve (multiples ! k) (Some (Tup 0 1)) = multiples ! ((k + 1) mod 7)" if "k < 7" for k
    using multiples_at [OF that, of 1] one by simp
  have "k < 7 \<Longrightarrow> repeated_add small_curve k = multiples ! k" for k
  proof (induction k)
    case 0
    then show ?case by (simp add: multiples_def)
  next
    case (Suc k)
    then show ?case using add [of k] by simp
  qed
  from this [of "nat i"] assms show ?thesis by (simp add: G_times_def)
qed

lemma small_signature_curve: "signature_curve small_curve"
proof -
  have "point_add small_curve (G_times small_curve i) (G_times small_curve j) = G_times small_curve (i + j)"
    if "0 \<le> i" "i < 7" "0 \<le> j" "j < 7" for i j
  proof -
    have "nat i < 7" "nat j < 7" using that by simp_all
    then have "point_add small_curve (multiples ! nat i) (multiples ! nat j) = multiples ! ((nat i + nat j) mod 7)"
      by (rule multiples_at)
    moreover have "(nat i + nat j) mod 7 = nat ((i + j) mod 7)"
      using that by (simp add: nat_mod_distrib nat_add_distrib)
    moreover have "G_times small_curve (i + j) = multiples ! nat ((i + j) mod 7)"
      using small_multiples [of "(i + j) mod 7"] G_times_mod [of small_curve "i + j"] by simp
    ultimately show ?thesis using that by (simp add: small_multiples)
  qed
  moreover have "G_times small_curve i \<noteq> None" if "1 \<le> i" "i < 7" for i
  proof -
    have "i = 1 \<or> i = 2 \<or> i = 3 \<or> i = 4 \<or> i = 5 \<or> i = 6" using that by presburger
    then show ?thesis by (auto simp: small_multiples multiples_def)
  qed
  ultimately have "cyclic_group small_curve" by (simp add: cyclic_group_def)
  then show ?thesis
    by (simp add: signature_curve_def small_primes small_no_order_two on_curve_def curve_rhs_def)
qed

text \<open>The challenge of the witness: its four trytes add up to 9 * G.\<close>

lemma small_trytes:
  "tryte_pad [1, 0, 0, 0] = Inr [(1, 0, 0), (0, 0, 0)]"
  "tryte_pad [1, 1, 0, 0, 1] = Inr [(1, 1, 0), (1, 0, 0)]"
  "tryte_pad [] = Inr []"
  by code_simp+

lemma small_challenge:
  "challenge small_curve (replicate 4 (Some (Tup 0 1))) (\<lambda>_. [2]) 1 (Some (Tup 3 3)) [] = Inr 2"
proof -
  have bits: "bits_from_int small_curve 1 = [1, 0, 0, 0]" "bits_from_int small_curve 3 = [1, 1, 0, 0]"
    by code_simp+
  have "pedersen small_curve (replicate 4 (Some (Tup 0 1))) [(1, 0, 0), (0, 0, 0), (1, 1, 0), (1, 0, 0)] = Inr 1"
    by code_simp
  then show ?thesis
    by (simp add: challenge_def trytes_from_int_def trytes_from_point_def trytes_from_bytes_def bits
        bits_from_bytes_def point_x_def point_y_def small_trytes hash_blake2s_pedersen_def bytes_from_int_def)
qed

theorem sign_then_verify_witness:
  "\<exists>sig pubkey. schnorr_sign small_curve (replicate 4 (Some (Tup 0 1))) (\<lambda>_. [2]) [] 3 = Inr sig \<and>
     bytes_from_point (Some (Tup 3 3)) = Inr pubkey \<and>
     schnorr_verify small_curve (replicate 4 (Some (Tup 0 1))) (\<lambda>_. [2]) [] pubkey sig = Some (Inr True)"
proof -
  note c = small_signature_curve
  have mul: "point_mul small_curve (Some (Tup 0 1)) 2 = Some (Tup 1 3)"
    "point_mul small_curve (Some (Tup 0 1)) 3 = Some (Tup 3 3)"
    using point_mul_G [OF c, of 2 1] point_mul_G [OF c, of 3 1]
    by (simp_all add: small_multiples multiples_def)
  have H: "short_digests small_curve (\<lambda>_. [2])" by (simp add: short_digests_def)
  obtain sig where "schnorr_sign small_curve (replicate 4 (Some (Tup 0 1))) (\<lambda>_. [2]) [] 3 = Inr sig"
    by (simp add: schnorr_sign_def bytes_from_int_def mul point_x_def point_y_def small_challenge Let_def)
  moreover obtain pubkey where "bytes_from_point (Some (Tup 3 3)) = Inr pubkey"
    by (simp add: bytes_from_point_def bytes_from_int_def point_x_def point_y_def)
  ultimately show ?thesis
    using sign_then_verify [OF c H, of "replicate 4 (Some (Tup 0 1))" "[]" 3] mul by auto
qed

section \<open>Long messages\<close>

lemma pedersen_loop_long:
  "length params < i + length ts \<Longrightarrow> i \<le> length params \<Longrightarrow> pedersen_loop c params i ts res = Inl IndexError"
proof (induction ts arbitrary: i res)
  case (Cons t ts)
  then show ?case by (cases "i < length params") (simp_all add: py_get_ok py_get_beyond)
qed simp

text \<open>
  There are 1880 parameters, three bits go with each of them, and 503 are used for r and the
  public key: a message of more than 516 bytes has no signature, since signing raises, and
  verification of it never accepts. (Neither the code nor the specification says so.)
\<close>

theorem long_messages_unsigned:
  assumes "length params = 10 * (bits_N mina_curve div 4)" and "516 < length msg"
  shows "schnorr_sign mina_curve params H msg seckey \<noteq> Inr sig \<and>
    schnorr_verify mina_curve params H msg pubkey sig \<noteq> Some (Inr True)"
proof -
  have N: "bits_N mina_curve = 753" by (simp add: mina_curve_def)
  have "challenge mina_curve params H r P msg \<noteq> Inr e" for r P e
  proof
    assume "challenge mina_curve params H r P msg = Inr e"
    then obtain tr tp tm x where t: "trytes_from_int mina_curve r = Inr tr"
      "trytes_from_point mina_curve P = Inr tp" "trytes_from_bytes msg = Inr tm"
      "pedersen_loop mina_curve params 0 (tr @ tp @ tm) None = Inr x"
      by (auto simp: challenge_def hash_blake2s_pedersen_def pedersen_def rbind_eq_Inr)
    then have "length tr = 251" "length tp = 252" "length tm = (8 * length msg + 2) div 3"
      by (auto simp: trytes_from_int_def trytes_from_point_def trytes_from_bytes_def tryte_pad_eq
          bits_from_int_def rbind_eq_Inr length_bits_from_bytes N)
    then have "length params < 0 + length (tr @ tp @ tm)" using assms by (simp add: N)
    from pedersen_loop_long [OF this] t(4) show False by simp
  qed
  then show ?thesis
    by (auto simp: schnorr_sign_def schnorr_verify_def rbind_eq_Inr obind_def Let_def
        split: if_splits option.splits sum.splits)
qed

theorem long_messages_unsigned_witness:
  "schnorr_sign mina_curve (replicate 1880 None) H (replicate 517 0) seckey \<noteq> Inr sig \<and>
   schnorr_verify mina_curve (replicate 1880 None) H (replicate 517 0) pubkey sig \<noteq> Some (Inr True)"
  by (rule long_messages_unsigned) (simp_all add: mina_curve_def)

end
