(* ===== verification/Spec2Isabelle.thy ===== *)
theory Spec2Isabelle
  imports BestTipTrie GenesisLedger TestRunner WatchdogMetrics NetworkReport Puppeteer ScanStateSize VersionedItems
    NodeCrawl Sidecar PpxLint Faucet BuildkiteExporter Janitor UserAgent GossipGraph LogCheck BlockchainVis PodQuery
    RenderFork NotebookGraph ReportOutput TestnetHelpers BuildWarns SnarkJobs RepoTools Crs SchnorrCorrect
begin

text \<open>
  A verification of the Python programs of the Mina repository: the scripts and services by which
  the network is built, deployed, watched and tested, and the reference of its signatures. (The daemon itself is written in OCaml and
  Rust and is not a subject of this development.) File names below are relative to \<open>src/\<close>.

  \<^bold>\<open>The programs and how they interact.\<close>

  The scripts fall into five groups. (1) Building a network: \<open>scripts/generate-local-network-ledger.py\<close>
  writes the genesis ledger from directories of keys. (2) Running nodes:
  \<open>dockerfiles/puppeteer-context/mina_daemon_puppeteer.py\<close> starts and stops a daemon on signals,
  \<open>automation/services/mina-bp-stats/sidecar/sidecar.py\<close> reports the blocks of a producer,
  \<open>automation/services/faucet\<close> and \<open>automation/services/coda-user-agent\<close> send payments. (3) Watching a
  network: \<open>automation/services/watchdog\<close> asks the nodes through their pods for their status, sets
  gauges and writes a report; \<open>automation/scripts/testnet-validation\<close> compares the best tips and
  draws the chain and the gossip network, and starts a daemon or an archive node beside it;
  \<open>scripts/node-status-crawl.py\<close> asks for the status from a local daemon; \<open>automation/services/buildkite\<close> exports the state of the builds. (4) Checking a change:
  \<open>scripts/test.py\<close> runs the integration tests, \<open>scripts/compare_*.py\<close> and \<open>scripts/require-ppxs.py\<close>
  look at the sources, \<open>scripts/buildwarns.py\<close> at the log of a build. (5) Specifying:
  \<open>docs/specs/signatures\<close> computes Schnorr signatures over a curve. Within a group they share code (\<open>util.py\<close> is used by \<open>metrics.py\<close> and
  \<open>node_status_metrics.py\<close>, \<open>best_tip_trie.py\<close> by two drawing scripts, \<open>logs.py\<close> by both parts of
  \<open>rebroadcasted_blocks_vis.py\<close>); otherwise they meet only in the daemons they talk to.

  \<^bold>\<open>How Python is modelled.\<close>

  \<^item> \<open>Py_Prelude\<close>: exceptions as the left values of a sum (\<open>result\<close>, \<open>rbind\<close>, \<open>mapM\<close>), dictionaries as
    association lists in insertion order, and the contracts \<open>dict_store\<close>, \<open>tally_loop\<close> and
    \<open>guarded_machine\<close>, interpreted on dictionaries, on the counters of the scripts and on
    their step relations.
  \<^item> \<open>Py_Strings\<close>: strings, slices, numbers as text, paths. \<open>Py_Json\<close>: the values of
    \<open>json.loads\<close>, with the exception each operation raises on a value of the wrong type.
  \<^item> \<open>Py_Effects\<close>: statements that change a state and may raise; what was done before an exception stays
    done. The contract \<open>effect_frame\<close> carries a relation through all statements of a script, and
    \<open>follows_plan\<close> compares the events of a run with a plan.
  \<^item> \<open>Py_Regex\<close>: the patterns of \<open>re\<close> as far as they occur, by a matcher that tries what \<open>re\<close> tries,
    sound for the language of the pattern; \<open>str.split\<close>. \<open>ModArith\<close>: Fermat, roots of polynomials and
    non-residues modulo a prime, for the signatures.

  Unbounded integers are \<open>int\<close> (\<open>nat\<close> where the source cannot make them negative), fractions are exact
  rationals in place of floats. Everything outside the repository (shells, pods, daemons, Discord,
  network and log services, clocks, parsers of third-party packages) is an argument; where a theorem
  needs something of it, that is a named predicate, such as \<open>holds_file\<close>, \<open>sexp_laws\<close> or
  \<open>synced_after\<close>, and a witness has a concrete instance.

  \<^bold>\<open>The components.\<close>

  \<^item> \<open>BestTipTrie\<close> (\<open>best_tip_trie.py\<close>): blocks are cells of a heap, since the source shares and
    mutates them. \<open>insertLink\<close> refines an abstract set of links; loading links in any order is
    complete; \<open>prefix\<close>, \<open>items\<close> and \<open>forks\<close> end. The fuel of the traversals is the size of the heap.
    \<open>BlockchainVis\<close> (\<open>visualize_blockchain\<close>, \<open>compare_best_tip.py\<close>) fills it from logs and pods,
    \<open>PodQuery\<close> asks a pod over a forwarded port (how often at most, and that every forwarding is ended), and
    \<open>RenderFork\<close> draws it: the two functions \<open>render_fork\<close> as one recursion with two ways to draw a node
    (contract \<open>node_drawing\<close>), on a list of calls; the edges drawn are the links of the trie, and the nodes of the
    comparison are its blocks and their labels.
  \<^item> The signatures (\<open>docs/specs/signatures\<close>): \<open>Crs\<close> (the stream of bits), \<open>SigField\<close> (square roots),
    \<open>SigCurve\<close> (points, the Pedersen parameters), \<open>Schnorr\<close> (encodings, signing, verification),
    \<open>SigGroup\<close> and \<open>SchnorrCorrect\<close> (what is signed verifies). The loops of the source that may run for ever
    are partial functions: the square roots end, and the sampling of the parameters ends exactly when the bits of the
    digests lead to ten points. All definitions take the curve as a record, of which
    \<open>mina_curve\<close> has the constants of the source; that its field is prime and its group has the order given
    is a hypothesis (\<open>signature_curve\<close>), shown satisfiable on a small curve.
  \<^item> \<open>GenesisLedger\<close> (\<open>generate-local-network-ledger.py\<close>): which accounts the files have, their total,
    that every delegate is an account, when generation fails, and that amounts can be read back.
  \<^item> \<open>TestRunner\<close> (\<open>scripts/test.py\<close>): the runner over a file system and a shell: a run carries out its plan
    up to the first failure, a dry run changes no file, the filters select what they should.
  \<^item> \<open>PodExec\<close> (\<open>util.py\<close>): the commands by which an output is fetched in pieces, the join of the pieces, and when
    the length warning is printed.
    \<open>NodeStatus\<close> (\<open>node_status_metrics.py\<close>), \<open>WatchdogMetrics\<close> (\<open>metrics.py\<close>, \<open>watchdog.py\<close>),
    \<open>NetworkReport\<close> (\<open>make_report.py\<close>): the collected responses, gauges within bounds, error counts,
    the most common tip, the block tree with its summary (depth bound: number of blocks plus one),
    forks, participants and uptimes; \<open>ReportOutput\<close> its picture, JSON text and message.
  \<^item> \<open>Puppeteer\<close>: the two loops and the signal handlers as a step relation, with exceptions of a handler
    at any place; the process object, the marker file and the server agree in every reachable state, but for the
    places between the two steps of the start and of the stop; the wait for the children of the daemon, and when
    their list cannot be read.
  \<^item> \<open>Sidecar\<close>: every block requested had been reported before, twelve higher; with a node
    that gets synchronised the main loop goes on for ever (fuel: one more than the sleeps it takes).
  \<^item> \<open>Faucet\<close>: the coroutines interleave at each \<open>await\<close>; a payment is made once per question, after
    an approval or after an exception of the approval check, which can happen; the table of open requests is exact; the limit per block limits nothing.
  \<^item> \<open>UserAgent\<close>: the settings, and the two counters account for the transactions of a batch.
  \<^item> \<open>Janitor\<close> (\<open>network-utilities.py\<close>): the clean-up runs its plan of deletions and no other, with the clock
    read anew for each namespace.
  \<^item> \<open>NodeCrawl\<close>: the crawl ends after one query (one unit of fuel is enough).
    \<open>GossipGraph\<close> (\<open>rebroadcasted_blocks_vis.py\<close>, \<open>logs.py\<close>): which entries are used, edge weights;
    \<open>NotebookGraph\<close> the variant of the notebook \<open>Network-Visualization.ipynb\<close>.
    \<open>TestnetHelpers\<close> (\<open>local_daemon.py\<close>, \<open>helm_deploy.py\<close>): the exact outcome of the search for peers, and
    what a finished deployment has run and written.
    \<open>LogCheck\<close> (\<open>check_logs.py\<close>): counters and exit status.
    \<open>BuildkiteExporter\<close>: its settings and queries, the number of samples of each kind, and the bound on the times.
  \<^item> \<open>PpxLint\<close> (\<open>require-ppxs.py\<close>), \<open>VersionedItems\<close> (\<open>compare_*.py\<close>): the exit status tells exactly whether
    the sources meet the rule the code checks (for the linter a weaker one than its comment gives). \<open>ScanStateSize\<close> (\<open>rfcs/res/scan_state_memory_usage.py\<close>): the
    counting loops equal closed forms. \<open>BuildWarns\<close> (\<open>buildwarns.py\<close>): the counts, and when the report
    fails. \<open>SnarkJobs\<close> (\<open>get-snark-job-list.py\<close>): the levels of a tree as lines. \<open>RepoTools\<close>
    (\<open>introspection_query.py\<close>, \<open>update_branch_rule.py\<close>, \<open>generate-genesis-ledger.py\<close>,
    \<open>change_constraint.py\<close>): what is sent and written, and that string literals can be read back.

  Several theorems state behaviour that the source does not intend; each says so in its text.

  \<^bold>\<open>Not modelled.\<close> The layout of pictures (graphviz, networkx and matplotlib are lists of calls here), argument
  parsing by click and argparse beyond the defaults, log lines, HTTP servers (among them \<open>server.py\<close>, which
  only adds two headers), the throw-away simulation \<open>src/app/proposer_simulation/sim.py\<close> (random choices over
  floating-point numbers and an animation), the older copy of the notebook in \<open>.ipynb_checkpoints\<close> (its last
  cell is no Python), the recorded outputs of the notebooks, and all code in other languages. Growth of
  the Python stack, threads other than by their order of results, and floating-point rounding are not
  modelled.
\<close>

section \<open>Logs, pods and the trie together\<close>

text \<open>
  C5. Whatever the log service, the pods and their answers are, when the loading of
  visualize_blockchain or of the best-tip comparison returns, the trie it built is well-formed
  (one parent per block, children and index filed under their own hashes) and the
  traversals the scripts go on with return on it.
\<close>

theorem loaded_tries_are_well_formed:
  assumes "visualize_blockchain source max_entries count_best_tips query namespace rpc_port items = Inr t \<or>
    compare_trie query namespace rpc_port items = Inr t"
  shows "trie_wf t \<and> trie_prefix t \<noteq> None \<and> block_items t \<noteq> None \<and> block_forks t \<noteq> None"
proof -
  have "trie_wf t" using assms visualize_blockchain_wf compare_trie_wf by blast
  with wf_traversals show ?thesis by blast
qed

theorem loaded_tries_are_well_formed_witness:
  "\<exists>t. visualize_blockchain (Inl [link_entry ''a'' ''b'', link_entry ''b'' ''c'']) 10 False
         (\<lambda>pod port. Inl lost_connection) ''testnet'' 3085 [] = Inr t \<and>
       trie_wf t \<and> trie_prefix t \<noteq> None \<and> block_items t \<noteq> None \<and> block_forks t \<noteq> None"
proof -
  obtain t where t: "visualize_blockchain (Inl [link_entry ''a'' ''b'', link_entry ''b'' ''c'']) 10 False
         (\<lambda>pod port. Inl lost_connection) ''testnet'' 3085 [] = Inr t"
    using two_block_log by blast
  from loaded_tries_are_well_formed [OF disjI1, OF t] t show ?thesis by blast
qed

end
